(* ===== verification/Account_Prelude.thy ===== *)
theory Account_Prelude
  imports Main "HOL-Library.Word"
begin

text \<open>
  Shared vocabulary of the development: the machine integers of the crate at their width, the
  Rust standard-library operations on them that the sources use (\<open>checked_add\<close>,
  \<open>checked_sub\<close>, \<open>saturating_add\<close>, \<open>saturating_sub\<close>, \<open>try_fold\<close> over
  \<open>checked_add\<close>), \<open>Result\<close>, the outcome of a call that may panic, and the slice
  and vector operations (\<open>position\<close>, \<open>partition_point\<close>, \<open>insert\<close>,
  \<open>remove\<close>) with the lemmas the components share.
\<close>

named_theorems result_simps "equations that evaluate Result plumbing"
named_theorems entry_simps "field equations of the registry's entry updates"

section \<open>Machine integers\<close>

type_synonym u16 = "16 word"
type_synonym u32 = "32 word"
type_synonym u64 = "64 word"

text \<open>
  \<open>Bytes32\<close> and \<open>[u8; 32]\<close>: 32 bytes read as one big-endian number, so that equality
  and the derived lexicographic order are those of the word.
\<close>

type_synonym bytes32 = "256 word"

definition checked_add :: "'a::len word \<Rightarrow> 'a word \<Rightarrow> 'a word option" where
  "checked_add a b = (if unat a + unat b < 2 ^ LENGTH('a) then Some (a + b) else None)"

definition checked_sub :: "'a::len word \<Rightarrow> 'a word \<Rightarrow> 'a word option" where
  "checked_sub a b = (if b \<le> a then Some (a - b) else None)"

definition saturating_add :: "'a::len word \<Rightarrow> 'a word \<Rightarrow> 'a word" where
  "saturating_add a b = (if unat a + unat b < 2 ^ LENGTH('a) then a + b else - 1)"

definition saturating_sub :: "'a::len word \<Rightarrow> 'a word \<Rightarrow> 'a word" where
  "saturating_sub a b = (if b \<le> a then a - b else 0)"

lemma unat_less_pow: "unat (w::'a::len word) < 2 ^ LENGTH('a)"
  by (rule unsigned_less)

lemma checked_add_Some:
  "checked_add (a::'a::len word) b = Some c \<longleftrightarrow>
     unat a + unat b < 2 ^ LENGTH('a) \<and> c = a + b"
  by (auto simp: checked_add_def)

lemma checked_add_None:
  "checked_add (a::'a::len word) b = None \<longleftrightarrow> 2 ^ LENGTH('a) \<le> unat a + unat b"
  by (auto simp: checked_add_def)

lemma checked_add_unat:
  "checked_add (a::'a::len word) b = Some c \<Longrightarrow> unat c = unat a + unat b"
  by (auto simp: checked_add_def unat_word_ariths split: if_splits)

lemma checked_sub_unat:
  "checked_sub (a::'a::len word) b = Some c \<Longrightarrow> unat c + unat b = unat a"
  by (auto simp: checked_sub_def unat_sub word_le_nat_alt split: if_splits)

lemma unat_saturating_add:
  "unat (saturating_add (a::'a::len word) b) = min (unat a + unat b) (2 ^ LENGTH('a) - 1)"
proof (cases "unat a + unat b < 2 ^ LENGTH('a)")
  case True
  then show ?thesis by (simp add: saturating_add_def unat_word_ariths)
next
  case False
  then show ?thesis by (simp add: saturating_add_def unsigned_minus_1_eq_mask mask_eq_exp_minus_1)
qed

lemma unat_saturating_sub:
  "unat (saturating_sub (a::'a::len word) b) = unat a - unat b"
  by (auto simp: saturating_sub_def unat_sub word_le_nat_alt)

text \<open>\<open>iter().try_fold(acc, |sum, x| sum.checked_add(x))\<close>.\<close>

fun checked_sum :: "'a::len word \<Rightarrow> 'a word list \<Rightarrow> 'a word option" where
  "checked_sum acc [] = Some acc"
| "checked_sum acc (x # xs) =
     (case checked_add acc x of None \<Rightarrow> None | Some s \<Rightarrow> checked_sum s xs)"

lemma checked_sum_Some:
  "checked_sum acc xs = Some s \<Longrightarrow> unat s = unat acc + sum_list (map unat xs)"
  by (induction xs arbitrary: acc)
     (auto simp: checked_add_unat split: option.splits)

lemma checked_sum_None:
  "checked_sum (acc::'a::len word) xs = None \<Longrightarrow>
     2 ^ LENGTH('a) \<le> unat acc + sum_list (map unat xs)"
proof (induction xs arbitrary: acc)
  case Nil
  then show ?case by simp
next
  case (Cons x xs)
  show ?case
  proof (cases "checked_add acc x")
    case None
    then show ?thesis by (simp add: checked_add_None)
  next
    case (Some c)
    with Cons.prems have "2 ^ LENGTH('a) \<le> unat c + sum_list (map unat xs)"
      by (auto intro: Cons.IH)
    with Some show ?thesis by (simp add: checked_add_unat)
  qed
qed

lemma checked_sum_exact:
  "unat (acc::'a::len word) + sum_list (map unat xs) < 2 ^ LENGTH('a) \<Longrightarrow>
     \<exists>s. checked_sum acc xs = Some s"
  using checked_sum_None [of acc xs] by (cases "checked_sum acc xs") auto

section \<open>Result, panics\<close>

datatype ('a, 'e) result = Ok 'a | Err 'e

fun map_err :: "('e \<Rightarrow> 'f) \<Rightarrow> ('a, 'e) result \<Rightarrow> ('a, 'f) result" where
  "map_err f (Ok x) = Ok x"
| "map_err f (Err e) = Err (f e)"

fun and_then :: "('a, 'e) result \<Rightarrow> ('a \<Rightarrow> ('b, 'e) result) \<Rightarrow> ('b, 'e) result" where
  "and_then (Ok x) f = f x"
| "and_then (Err e) f = Err e"

fun is_ok :: "('a, 'e) result \<Rightarrow> bool" where
  "is_ok (Ok _) = True"
| "is_ok (Err _) = False"

definition ok_or :: "'e \<Rightarrow> 'a option \<Rightarrow> ('a, 'e) result" where
  "ok_or e x = (case x of Some v \<Rightarrow> Ok v | None \<Rightarrow> Err e)"

text \<open>\<open>collect::<Result<Vec<_>>>()\<close>: the first error, or every value in order.\<close>

fun collect_results :: "('a, 'e) result list \<Rightarrow> ('a list, 'e) result" where
  "collect_results [] = Ok []"
| "collect_results (x # xs) = and_then x (\<lambda>v. and_then (collect_results xs) (\<lambda>vs. Ok (v # vs)))"

lemma and_then_Ok [result_simps]:
  "and_then m f = Ok y \<longleftrightarrow> (\<exists>x. m = Ok x \<and> f x = Ok y)"
  by (cases m) auto

lemma and_then_Err [result_simps]:
  "and_then m f = Err e \<longleftrightarrow> m = Err e \<or> (\<exists>x. m = Ok x \<and> f x = Err e)"
  by (cases m) auto

lemma map_err_Ok [result_simps]: "map_err f m = Ok x \<longleftrightarrow> m = Ok x"
  by (cases m) auto

lemma ok_or_Ok [result_simps]: "ok_or e x = Ok v \<longleftrightarrow> x = Some v"
  by (auto simp: ok_or_def split: option.splits)

text \<open>
  A call on \<open>&mut self\<close> that may panic: it returns a value with the state it leaves, or it
  panics, in which case the state is what the call had written when it unwound.
\<close>

datatype ('a, 's) run = Returns 'a 's | Panics 's

fun run_state :: "('a, 's) run \<Rightarrow> 's" where
  "run_state (Returns _ s) = s"
| "run_state (Panics s) = s"

fun map_run :: "('a \<Rightarrow> 'b) \<Rightarrow> ('a, 's) run \<Rightarrow> ('b, 's) run" where
  "map_run f (Returns x s) = Returns (f x) s"
| "map_run f (Panics s) = Panics s"

lemma map_run_Panics [simp]: "map_run f m = Panics s \<longleftrightarrow> m = Panics s"
  by (cases m) auto

lemma map_run_Returns:
  "map_run f m = Returns y s \<longleftrightarrow> (\<exists>x. m = Returns x s \<and> y = f x)"
  by (cases m) auto

section \<open>Slices and vectors\<close>

text \<open>\<open>iter().position(p)\<close>.\<close>

fun position :: "('a \<Rightarrow> bool) \<Rightarrow> 'a list \<Rightarrow> nat option" where
  "position p [] = None"
| "position p (x # xs) = (if p x then Some 0 else map_option Suc (position p xs))"

lemma position_None: "position p xs = None \<longleftrightarrow> (\<forall>x\<in>set xs. \<not> p x)"
  by (induction xs) auto

lemma position_Some:
  "position p xs = Some i \<Longrightarrow> i < length xs \<and> p (xs ! i)"
  by (induction xs arbitrary: i) (auto split: if_splits)

text \<open>
  \<open>partition_point(p)\<close> on a slice whose elements satisfying \<open>p\<close> come first, which is
  how the sources use it (on a vector sorted by the compared key).
\<close>

definition partition_point :: "('a \<Rightarrow> bool) \<Rightarrow> 'a list \<Rightarrow> nat" where
  "partition_point p xs = length (takeWhile p xs)"

definition vec_insert :: "nat \<Rightarrow> 'a \<Rightarrow> 'a list \<Rightarrow> 'a list" where
  "vec_insert i x xs = take i xs @ x # drop i xs"

definition vec_remove :: "nat \<Rightarrow> 'a list \<Rightarrow> 'a list" where
  "vec_remove i xs = take i xs @ drop (Suc i) xs"

text \<open>\<open>iter_mut().find(p)\<close> followed by one write through the reference found.\<close>

fun update_first :: "('a \<Rightarrow> bool) \<Rightarrow> ('a \<Rightarrow> 'a) \<Rightarrow> 'a list \<Rightarrow> 'a list" where
  "update_first p f [] = []"
| "update_first p f (x # xs) = (if p x then f x # xs else x # update_first p f xs)"

text \<open>\<open>iter().max()\<close>: \<open>None\<close> on an empty iterator.\<close>

fun iter_max :: "'a::linorder list \<Rightarrow> 'a option" where
  "iter_max [] = None"
| "iter_max (x # xs) = (case iter_max xs of None \<Rightarrow> Some x | Some y \<Rightarrow> Some (max x y))"

lemma iter_max_None [simp]: "iter_max xs = None \<longleftrightarrow> xs = []"
  by (cases xs) (auto split: option.splits)

lemma iter_max_ge: "iter_max xs = Some m \<Longrightarrow> x \<in> set xs \<Longrightarrow> x \<le> m"
  by (induction xs arbitrary: m) (auto split: option.splits simp: le_max_iff_disj)

lemma iter_max_in: "iter_max xs = Some m \<Longrightarrow> m \<in> set xs"
  by (induction xs arbitrary: m) (auto split: option.splits simp: max_def if_splits)

lemma takeWhile_eq_take_length: "takeWhile p xs = take (length (takeWhile p xs)) xs"
  by (induction xs) auto

lemma dropWhile_eq_drop_length: "dropWhile p xs = drop (length (takeWhile p xs)) xs"
  by (induction xs) auto

text \<open>Inserting at the partition point of a sorted vector keeps it sorted by key.\<close>

lemma vec_insert_partition:
  "vec_insert (partition_point p xs) x xs = takeWhile p xs @ x # dropWhile p xs"
  unfolding vec_insert_def partition_point_def
  by (metis takeWhile_eq_take_length dropWhile_eq_drop_length)

lemma set_vec_insert_partition [simp]:
  "set (vec_insert (partition_point p xs) x xs) = insert x (set xs)"
proof -
  have "set (takeWhile p xs) \<union> set (dropWhile p xs) = set xs"
    by (metis set_append takeWhile_dropWhile_id)
  then show ?thesis by (auto simp: vec_insert_partition)
qed

lemma nth_vec_insert_partition [simp]:
  "vec_insert (partition_point p xs) x xs ! partition_point p xs = x"
  unfolding vec_insert_partition by (simp add: partition_point_def nth_append)

lemma sorted_insert_partition:
  fixes k :: "'a \<Rightarrow> 'k::linorder"
  assumes s: "sorted_wrt (<) (map k xs)" and new: "k x \<notin> k ` set xs"
  shows "sorted_wrt (<) (map k (vec_insert (partition_point (\<lambda>y. k y < k x) xs) x xs))"
  using s new
proof (induction xs)
  case Nil
  then show ?case by (simp add: vec_insert_def partition_point_def)
next
  case (Cons y ys)
  show ?case
  proof (cases "k y < k x")
    case True
    have IH: "sorted_wrt (<) (map k (takeWhile (\<lambda>y. k y < k x) ys @ x # dropWhile (\<lambda>y. k y < k x) ys))"
      using Cons by (simp add: vec_insert_partition)
    have sub: "set (takeWhile (\<lambda>y. k y < k x) ys @ x # dropWhile (\<lambda>y. k y < k x) ys)
                 = insert x (set ys)"
      by (metis set_vec_insert_partition vec_insert_partition)
    have "\<forall>z \<in> insert x (set ys). k y < k z"
      using Cons.prems(1) True by auto
    with IH True sub show ?thesis by (auto simp: vec_insert_partition)
  next
    case False
    then have "k x < k y" using Cons.prems(2) by auto
    with Cons.prems(1) False show ?thesis
      by (auto simp: vec_insert_partition)
  qed
qed

lemma set_vec_remove_subset: "set (vec_remove i xs) \<subseteq> set xs"
  using set_take_subset [of i xs] set_drop_subset [of "Suc i" xs]
  by (auto simp: vec_remove_def)

lemma sorted_vec_remove:
  "sorted_wrt (<) (map k xs) \<Longrightarrow> sorted_wrt (<) (map (k::'a \<Rightarrow> 'k::linorder) (vec_remove i xs))"
proof (induction xs arbitrary: i)
  case Nil
  then show ?case by (simp add: vec_remove_def)
next
  case (Cons x xs)
  show ?case
  proof (cases i)
    case 0
    with Cons show ?thesis by (simp add: vec_remove_def)
  next
    case (Suc j)
    have "set (vec_remove j xs) \<subseteq> set xs" by (rule set_vec_remove_subset)
    with Cons Suc show ?thesis by (auto simp: vec_remove_def)
  qed
qed

lemma map_update_first:
  "(\<And>x. p x \<Longrightarrow> g (f x) = g x) \<Longrightarrow> map g (update_first p f xs) = map g xs"
  by (induction xs) auto

lemma length_update_first [simp]: "length (update_first p f xs) = length xs"
  by (induction xs) auto

lemma find_update_first:
  assumes "\<And>x. key (f x) = key x"
  shows "find (\<lambda>x. key x = k) (update_first (\<lambda>x. key x = j) f xs) =
           (if k = j then map_option f (find (\<lambda>x. key x = k) xs)
            else find (\<lambda>x. key x = k) xs)"
  using assms by (induction xs) auto

lemma find_Some_iff_unique:
  assumes "distinct (map k xs)"
  shows "find (\<lambda>x. k x = v) xs = Some y \<longleftrightarrow> y \<in> set xs \<and> k y = v"
  using assms
proof (induction xs)
  case Nil
  then show ?case by simp
next
  case (Cons a xs)
  then show ?case by (auto simp: image_iff)
qed

lemma find_None_iff_key: "find (\<lambda>x. k x = v) xs = None \<longleftrightarrow> v \<notin> k ` set xs"
  by (auto simp: find_None_iff image_iff)

lemma set_update_first_unique:
  assumes "distinct (map k xs)" and "y \<in> set xs" and "k y = v"
  shows "set (update_first (\<lambda>x. k x = v) f xs) = insert (f y) (set xs - {y})"
  using assms
proof (induction xs)
  case Nil
  then show ?case by simp
next
  case (Cons a xs)
  show ?case
  proof (cases "k a = v")
    case True
    with Cons.prems have "a = y" by (auto simp: image_iff)
    moreover have "a \<notin> set xs" using Cons.prems(1) by (auto simp: image_iff)
    ultimately show ?thesis using True by auto
  next
    case False
    then have "a \<noteq> y" using Cons.prems(3) by auto
    then show ?thesis using False Cons by auto
  qed
qed

lemma update_first_eq_map:
  assumes "distinct (map k xs)"
  shows "update_first (\<lambda>x. k x = v) f xs = map (\<lambda>x. if k x = v then f x else x) xs"
  using assms
proof (induction xs)
  case Nil
  then show ?case by simp
next
  case (Cons a xs)
  show ?case
  proof (cases "k a = v")
    case True
    have "map (\<lambda>x. if k x = v then f x else x) xs = xs"
      using Cons.prems True by (intro map_idI) (auto simp: image_iff)
    with True show ?thesis by simp
  next
    case False
    with Cons show ?thesis by simp
  qed
qed

lemma sorted_lt_distinct: "sorted_wrt (<) (xs :: 'a::linorder list) \<Longrightarrow> distinct xs"
  by (simp add: strict_sorted_iff)

end
