(* ===== verification/Account_Types.thy ===== *)
theory Account_Types
  imports Account_Prelude
begin

text \<open>
  Identifiers and errors of the account model: \<open>ProfileIx\<close> and \<open>AccountId\<close> of
  \<open>src/id.rs\<close> and \<open>AccountError\<close> of \<open>src/error.rs\<close>. An error variant that
  carries a rendered message in the crate carries here the fact the message states, as a value of
  one of the reason types below, so that every refusal of the sources is a distinct value.
\<close>

section \<open>Identifiers\<close>

datatype profile_ix = ProfileIx (ix_val: u32)

definition root_ix :: profile_ix where
  "root_ix = ProfileIx 0"

text \<open>The derived \<open>PartialOrd\<close> and \<open>Ord\<close>: the order of the index itself.\<close>

instantiation profile_ix :: linorder
begin

definition less_eq_profile_ix :: "profile_ix \<Rightarrow> profile_ix \<Rightarrow> bool" where
  "less_eq_profile_ix a b \<longleftrightarrow> ix_val a \<le> ix_val b"

definition less_profile_ix :: "profile_ix \<Rightarrow> profile_ix \<Rightarrow> bool" where
  "less_profile_ix a b \<longleftrightarrow> ix_val a < ix_val b"

instance
  by standard
     (auto simp: less_eq_profile_ix_def less_profile_ix_def intro: profile_ix.expand)

end

lemma ProfileIx_le [simp]: "ProfileIx a \<le> ProfileIx b \<longleftrightarrow> a \<le> b"
  by (simp add: less_eq_profile_ix_def)

lemma ProfileIx_less [simp]: "ProfileIx a < ProfileIx b \<longleftrightarrow> a < b"
  by (simp add: less_profile_ix_def)

datatype account_id = AccountId (id_str: string)

section \<open>What a refusal says\<close>

text \<open>The facts \<open>ProfileRegistry::check\<close> reports, one per \<open>Err(format!(..))\<close>.\<close>

datatype violation =
    DuplicateIndex profile_ix
  | LiveButNoActive
  | ActiveButNoLive profile_ix
  | ActiveNotRegistered profile_ix
  | ActiveHasEnded profile_ix
  | ActiveIsHidden profile_ix
  | SharedIdentity profile_ix profile_ix string
  | DidNotOfLauncher profile_ix
  | DidHeightZero profile_ix
  | StoreHeightZero profile_ix
  | HalvesNotPaired profile_ix "bytes32 option" bytes32
  | EndHeightZero profile_ix
  | JournalFeeAboveCeiling profile_ix u64
  | JournalDidNotOfLauncher profile_ix
  | JournalDidHeightZero profile_ix

text \<open>The structural refusals of the custody layer (\<open>PolicyDenied\<close>).\<close>

datatype denial =
    VaultPaysStructure string
  | VaultPaysOther string
  | MoveOfNothing
  | MoveOntoItself
  | MoveWindowTooShort u64
  | ScopeOfOtherProfile profile_ix profile_ix
  | ScopeOfOtherWallet bytes32 bytes32

text \<open>The questions the policy could not answer (\<open>PolicyIndeterminate\<close>).\<close>

datatype indeterminate =
    BadHotWalletAddress string
  | UndecodableRecipient string
  | NonNativeAssets "string list"
  | ZeroPeriodForCap
  | ZeroPeriodForPrompts
  | ClockUnreadable string
  | LedgerPoisoned
  | ProjectionOverflows
  | LedgerFull
  | PromptsPoisoned
  | PromptCeilingReached nat u64
  | InputAmountsOverflow
  | RecipientAmountsOverflow
  | AmountsPlusFeeOverflow
  | ClawbackOverflows

datatype account_error =
    Locked
  | ProfileNotFound profile_ix
  | DefaultProfileInvariant string
  | ProfileAlreadyRegistered profile_ix
  | ProfileIdentityAlreadyRegistered profile_ix string
  | ActiveProfileCannotBeHidden profile_ix
  | ProfileEnded profile_ix
  | ProfileEndHeightZero
  | MintAlreadyInProgress profile_ix
  | MismatchedMintHalves bytes32 bytes32
  | MintFeeAboveCeiling u64 u64
  | RegistryInvariant violation
  | NoActiveProfile
  | Keystore string
  | Auth string
  | Spend string
  | UserDeclined "string option"
  | PolicyDenied denial
  | PolicyIndeterminate indeterminate

end
