(* ===== verification/Chain_Evidence.thy ===== *)
theory Chain_Evidence
  imports Account_Types
begin

text \<open>
  What the crate reads from a chain source and what it accepts as evidence.

  A coin's id is the SHA-256 of its contents, computed by \<open>chia-protocol\<close>: it is the
  parameter \<open>cid\<close> of the definitions that use it. The chain source is a trait of another
  crate whose answers may differ from one call to the next (an aggregating source is several
  nodes), so a source is a record of functions of the number of reads made so far: the model
  threads that count through every definition that reads, and nothing is assumed of the answers.

  Modelled: \<open>src/chain_confirm.rs\<close> (the by-name confirmation of selected inputs),
  \<open>src/mint/evidence.rs\<close> and \<open>src/mint/store_evidence.rs\<close> (the only
  constructors of mint evidence), with the rule the evidence types share stated once as the locale
  \<open>buried_evidence\<close>.
\<close>

section \<open>Coins, records and the chain source\<close>

record coin =
  parent_coin_info :: bytes32
  puzzle_hash :: bytes32
  amount :: u64

record coin_record =
  rec_coin :: coin
  confirmed_height :: "u32 option"
  spent_height :: "u32 option"

text \<open>\<open>CoinRecord::is_spent()\<close> is \<open>spent_height.is_some()\<close>, as the sources document.\<close>

definition is_spent :: "coin_record \<Rightarrow> bool" where
  "is_spent r \<longleftrightarrow> spent_height r \<noteq> None"

record chain_source =
  ask_coin_record :: "nat \<Rightarrow> bytes32 \<Rightarrow> (coin_record option, string) result"
  ask_peak :: "nat \<Rightarrow> (u32 option, string) result"
  ask_by_puzzle_hash :: "nat \<Rightarrow> bytes32 \<Rightarrow> bool \<Rightarrow> (coin_record list, string) result"

section \<open>Confirmation by name\<close>

datatype unconfirmed_input =
    Unreadable bytes32 string
  | Contradicted bytes32 "u32 option" "u32 option"
  | Vanished bytes32
  | Misrouted bytes32 bytes32

definition confirm_spendable_by_name ::
  "(coin \<Rightarrow> bytes32) \<Rightarrow> chain_source \<Rightarrow> nat \<Rightarrow> coin \<Rightarrow> (unit, unconfirmed_input) result \<times> nat"
where
  "confirm_spendable_by_name cid chain t c =
     (let coin_id = cid c in
      (case ask_coin_record chain t coin_id of
         Err e \<Rightarrow> Err (Unreadable coin_id e)
       | Ok None \<Rightarrow> Err (Vanished coin_id)
       | Ok (Some r) \<Rightarrow>
           if cid (rec_coin r) \<noteq> coin_id then Err (Misrouted coin_id (cid (rec_coin r)))
           else if confirmed_height r = None \<or> is_spent r
             then Err (Contradicted coin_id (confirmed_height r) (spent_height r))
           else Ok (),
       Suc t))"

fun confirm_all_spendable_by_name ::
  "(coin \<Rightarrow> bytes32) \<Rightarrow> chain_source \<Rightarrow> nat \<Rightarrow> coin list \<Rightarrow> (unit, unconfirmed_input) result \<times> nat"
where
  "confirm_all_spendable_by_name cid chain t [] = (Ok (), t)"
| "confirm_all_spendable_by_name cid chain t (c # cs) =
     (case confirm_spendable_by_name cid chain t c of
        (Err e, t') \<Rightarrow> (Err e, t')
      | (Ok _, t') \<Rightarrow> confirm_all_spendable_by_name cid chain t' cs)"

text \<open>What one successful by-name read established.\<close>

definition confirmed_spendable_at ::
  "(coin \<Rightarrow> bytes32) \<Rightarrow> chain_source \<Rightarrow> nat \<Rightarrow> bytes32 \<Rightarrow> bool" where
  "confirmed_spendable_at cid chain t i =
     (case ask_coin_record chain t i of
        Ok (Some r) \<Rightarrow> cid (rec_coin r) = i \<and> confirmed_height r \<noteq> None \<and> spent_height r = None
      | _ \<Rightarrow> False)"

lemma confirm_one_iff:
  "confirm_spendable_by_name cid chain t c = (Ok (), t') \<longleftrightarrow>
     t' = Suc t \<and> confirmed_spendable_at cid chain t (cid c)"
  by (auto simp: confirm_spendable_by_name_def confirmed_spendable_at_def Let_def is_spent_def
           split: result.splits option.splits)

lemma confirm_one_time: "snd (confirm_spendable_by_name cid chain t c) = Suc t"
  by (simp add: confirm_spendable_by_name_def Let_def)

lemma confirm_all_iff:
  "confirm_all_spendable_by_name cid chain t cs = (Ok (), t') \<longleftrightarrow>
     t' = t + length cs \<and>
     (\<forall>k < length cs. confirmed_spendable_at cid chain (t + k) (cid (cs ! k)))"
proof (induction cs arbitrary: t)
  case Nil
  then show ?case by auto
next
  case (Cons c cs)
  show ?case
  proof (cases "confirm_spendable_by_name cid chain t c")
    case (Pair r t1)
    have t1: "t1 = Suc t" using confirm_one_time [of cid chain t c] Pair by simp
    show ?thesis
    proof (cases r)
      case (Ok u)
      then have "confirmed_spendable_at cid chain t (cid c)"
        using Pair confirm_one_iff [of cid chain t c t1] by simp
      with Pair Ok t1 Cons [of "Suc t"] show ?thesis
        by (auto simp: less_Suc_eq_0_disj)
    next
      case (Err e)
      then have "\<not> confirmed_spendable_at cid chain t (cid c)"
        using Pair t1 confirm_one_iff [of cid chain t c t1] by simp
      then have "\<not> (\<forall>k < length (c # cs).
          confirmed_spendable_at cid chain (t + k) (cid ((c # cs) ! k)))"
        by (auto intro!: exI [of _ 0])
      with Pair Err show ?thesis by simp
    qed
  qed
qed

section \<open>Burial\<close>

definition MIN_CONFIRMATION_DEPTH :: u32 where
  "MIN_CONFIRMATION_DEPTH = 6"

text \<open>\<open>peak.saturating_sub(confirmed).saturating_add(1)\<close>: the confirming block is the first.\<close>

definition burial_depth :: "u32 \<Rightarrow> u32 \<Rightarrow> u32" where
  "burial_depth peak h = saturating_add (saturating_sub peak h) 1"

lemma buried_iff: "MIN_CONFIRMATION_DEPTH \<le> burial_depth peak h \<longleftrightarrow> unat h + 5 \<le> unat peak"
  by (auto simp: MIN_CONFIRMATION_DEPTH_def burial_depth_def word_le_nat_alt
                 unat_saturating_add unat_saturating_sub)

lemma not_buried_iff: "burial_depth peak h < MIN_CONFIRMATION_DEPTH \<longleftrightarrow> unat peak < unat h + 5"
  using buried_iff [of peak h] by (auto simp: not_le [symmetric])

text \<open>
  The contract every evidence constructor of the crate makes: a value is produced exactly from a
  record of the watched coin, confirmed at a non-genesis height that does not predate the floor and
  is buried. The client facts below hold of each of them.
\<close>

locale buried_evidence =
  fixes watched :: "'p \<Rightarrow> bytes32"
    and floor_height :: "'p \<Rightarrow> u32"
    and evidence :: "(coin \<Rightarrow> bytes32) \<Rightarrow> 'p \<Rightarrow> coin_record \<Rightarrow> u32 \<Rightarrow> 'e option"
    and evidence_height :: "'e \<Rightarrow> u32"
  assumes evidence_iff:
      "evidence cid p r peak \<noteq> None \<longleftrightarrow>
         cid (rec_coin r) = watched p \<and>
         (\<exists>h. confirmed_height r = Some h \<and> h \<noteq> 0 \<and> floor_height p \<le> h \<and>
              MIN_CONFIRMATION_DEPTH \<le> burial_depth peak h)"
    and evidence_height_of:
      "evidence cid p r peak = Some e \<Longrightarrow> confirmed_height r = Some (evidence_height e)"
    and evidence_peak_free:
      "evidence cid p r peak = Some e \<Longrightarrow> evidence cid p r peak' = Some e' \<Longrightarrow> e = e'"
begin

lemma evidence_sound:
  assumes "evidence cid p r peak = Some e"
  shows "cid (rec_coin r) = watched p"
    and "confirmed_height r = Some (evidence_height e)"
    and "0 < unat (evidence_height e)"
    and "unat (floor_height p) \<le> unat (evidence_height e)"
    and "unat (evidence_height e) + 5 \<le> unat peak"
proof -
  show h: "confirmed_height r = Some (evidence_height e)"
    by (rule evidence_height_of) (rule assms)
  have *: "cid (rec_coin r) = watched p \<and>
      (\<exists>h. confirmed_height r = Some h \<and> h \<noteq> 0 \<and> floor_height p \<le> h \<and>
           MIN_CONFIRMATION_DEPTH \<le> burial_depth peak h)"
    using evidence_iff [of cid p r peak] assms by auto
  then show "cid (rec_coin r) = watched p" by blast
  from * h show "0 < unat (evidence_height e)"
    by (auto simp: unat_gt_0)
  from * h show "unat (floor_height p) \<le> unat (evidence_height e)"
    by (auto simp: word_le_nat_alt)
  from * h show "unat (evidence_height e) + 5 \<le> unat peak"
    by (auto simp: buried_iff)
qed

lemma evidence_complete:
  assumes "cid (rec_coin r) = watched p" and "confirmed_height r = Some h"
    and "h \<noteq> 0" and "floor_height p \<le> h" and "unat h + 5 \<le> unat peak"
  shows "\<exists>e. evidence cid p r peak = Some e \<and> evidence_height e = h"
proof -
  have "evidence cid p r peak \<noteq> None"
    unfolding evidence_iff using assms by (simp add: buried_iff)
  then obtain e where e: "evidence cid p r peak = Some e" by blast
  with evidence_height_of [OF e] assms(2) show ?thesis by auto
qed

text \<open>Evidence, once obtained, is obtained again from the same record at every later peak.\<close>

lemma evidence_stable:
  assumes e: "evidence cid p r peak = Some e" and "peak \<le> peak'"
  shows "evidence cid p r peak' = Some e"
proof -
  have "unat peak \<le> unat peak'" using assms(2) by (simp add: word_le_nat_alt)
  then have "\<exists>e'. evidence cid p r peak' = Some e' \<and> evidence_height e' = evidence_height e"
    using evidence_sound [OF e]
    by (intro evidence_complete) (auto simp: word_le_nat_alt unat_gt_0)
  then obtain e' where e': "evidence cid p r peak' = Some e'" by blast
  with evidence_peak_free [OF e e'] show ?thesis by simp
qed

text \<open>A height beyond the source's own peak is never evidence.\<close>

lemma no_evidence_from_the_future:
  "confirmed_height r = Some h \<Longrightarrow> peak < h \<Longrightarrow> evidence cid p r peak = None"
proof (rule ccontr)
  assume h: "confirmed_height r = Some h" and lt: "peak < h" and "evidence cid p r peak \<noteq> None"
  then obtain e where e: "evidence cid p r peak = Some e" by blast
  with h have "evidence_height e = h" using evidence_sound(2) [OF e] by simp
  with evidence_sound(5) [OF e] lt show False by (simp add: word_less_nat_alt)
qed

end

section \<open>The DID half: a pending mint and its evidence\<close>

record pending_mint =
  pm_launcher_id :: bytes32
  pm_did_coin_id :: bytes32
  pm_source_coin_id :: bytes32
  pm_pushed_at_height :: u32

definition pending_mint_new :: "bytes32 \<Rightarrow> bytes32 \<Rightarrow> bytes32 \<Rightarrow> u32 \<Rightarrow> pending_mint" where
  "pending_mint_new launcher did_coin source_coin pushed =
     \<lparr>pm_launcher_id = launcher, pm_did_coin_id = did_coin, pm_source_coin_id = source_coin,
      pm_pushed_at_height = pushed\<rparr>"

record minted_did =
  md_did :: string
  md_launcher_id :: bytes32
  md_coin_id :: bytes32
  md_confirmed_height :: u32

text \<open>
  \<open>did_of\<close> stands for \<open>dig_did::did_string_from_launcher_id\<close>, the derivation of the
  \<open>did:chia:\<close> string, which lives in another crate.
\<close>

definition minted_did_from_confirmed ::
  "(bytes32 \<Rightarrow> string) \<Rightarrow> (coin \<Rightarrow> bytes32) \<Rightarrow> pending_mint \<Rightarrow> coin_record \<Rightarrow> u32 \<Rightarrow> minted_did option"
where
  "minted_did_from_confirmed did_of cid pending r peak =
     (if cid (rec_coin r) \<noteq> pm_did_coin_id pending then None
      else case confirmed_height r of
        None \<Rightarrow> None
      | Some h \<Rightarrow>
          if h = 0 \<or> h < pm_pushed_at_height pending then None
          else if burial_depth peak h < MIN_CONFIRMATION_DEPTH then None
          else Some \<lparr>md_did = did_of (pm_launcher_id pending),
                     md_launcher_id = pm_launcher_id pending,
                     md_coin_id = pm_did_coin_id pending,
                     md_confirmed_height = h\<rparr>)"

definition minted_did_reverified ::
  "(bytes32 \<Rightarrow> string) \<Rightarrow> (coin \<Rightarrow> bytes32) \<Rightarrow> bytes32 \<Rightarrow> bytes32 \<Rightarrow> u32 \<Rightarrow> coin_record \<Rightarrow> u32 \<Rightarrow>
     minted_did option"
where
  "minted_did_reverified did_of cid launcher coin_id journalled r peak =
     minted_did_from_confirmed did_of cid (pending_mint_new launcher coin_id coin_id journalled) r peak"

interpretation minted: buried_evidence pm_did_coin_id pm_pushed_at_height
    "minted_did_from_confirmed did_of" md_confirmed_height for did_of
  by unfold_locales
     (auto simp: minted_did_from_confirmed_def not_less split: if_splits option.splits)

text \<open>What a DID's evidence says of its own string: derived from the launcher id, never supplied.\<close>

definition did_honest :: "(bytes32 \<Rightarrow> string) \<Rightarrow> minted_did \<Rightarrow> bool" where
  "did_honest did_of d \<longleftrightarrow> md_did d = did_of (md_launcher_id d) \<and> md_confirmed_height d \<noteq> 0"

lemma minted_did_honest:
  "minted_did_from_confirmed did_of cid p r peak = Some d \<Longrightarrow> did_honest did_of d"
  by (auto simp: minted_did_from_confirmed_def did_honest_def split: if_splits option.splits)

section \<open>The store half\<close>

record pending_store_launch =
  ps_launcher_id :: bytes32
  ps_store_coin_id :: bytes32
  ps_did_coin_id :: bytes32
  ps_committed_root :: bytes32
  ps_pushed_at_height :: u32

definition pending_store_launch_new ::
  "bytes32 \<Rightarrow> bytes32 \<Rightarrow> bytes32 \<Rightarrow> bytes32 \<Rightarrow> u32 \<Rightarrow> pending_store_launch" where
  "pending_store_launch_new launcher store_coin did_coin root pushed =
     \<lparr>ps_launcher_id = launcher, ps_store_coin_id = store_coin, ps_did_coin_id = did_coin,
      ps_committed_root = root, ps_pushed_at_height = pushed\<rparr>"

record confirmed_store =
  cs_launcher_id :: bytes32
  cs_coin_id :: bytes32
  cs_confirmed_height :: u32
  cs_did_coin_id :: bytes32
  cs_committed_root :: bytes32

definition confirmed_store_from_confirmed ::
  "(coin \<Rightarrow> bytes32) \<Rightarrow> pending_store_launch \<Rightarrow> coin_record \<Rightarrow> u32 \<Rightarrow> confirmed_store option"
where
  "confirmed_store_from_confirmed cid pending r peak =
     (if cid (rec_coin r) \<noteq> ps_store_coin_id pending then None
      else case confirmed_height r of
        None \<Rightarrow> None
      | Some h \<Rightarrow>
          if h = 0 \<or> h < ps_pushed_at_height pending then None
          else if burial_depth peak h < MIN_CONFIRMATION_DEPTH then None
          else Some \<lparr>cs_launcher_id = ps_launcher_id pending,
                     cs_coin_id = ps_store_coin_id pending,
                     cs_confirmed_height = h,
                     cs_did_coin_id = ps_did_coin_id pending,
                     cs_committed_root = ps_committed_root pending\<rparr>)"

interpretation stored: buried_evidence ps_store_coin_id ps_pushed_at_height
    confirmed_store_from_confirmed cs_confirmed_height
  by unfold_locales
     (auto simp: confirmed_store_from_confirmed_def not_less split: if_splits option.splits)

lemma confirmed_store_height_nonzero:
  "confirmed_store_from_confirmed cid p r peak = Some s \<Longrightarrow> cs_confirmed_height s \<noteq> 0"
  by (auto simp: confirmed_store_from_confirmed_def split: if_splits option.splits)

end
