(* ===== verification/Profile_Registry.thy ===== *)
theory Profile_Registry
  imports Chain_Evidence
begin

text \<open>
  The profile registry (\<open>src/registry/\<close>): the mint journal (\<open>journal.rs\<close>), the
  anchor (\<open>anchor.rs\<close>), the entry (\<open>entry.rs\<close>, \<open>visibility.rs\<close>), the
  active slot (\<open>active.rs\<close>) and \<open>ProfileRegistry\<close> itself (\<open>registry.rs\<close>).

  A mutator of the crate takes \<open>&mut self\<close> and ends in \<open>expect_valid\<close>, which panics
  when an invariant is broken; here it is a function from the registry to a \<open>run\<close>, which
  returns the \<open>Result\<close> with the registry it leaves or panics with the registry as it was
  written when the panic unwound. The JSON text layer is \<open>serde\<close>; what is modelled is the
  raw shape it produces and the \<open>TryFrom\<close> that checks it.
\<close>

section \<open>The mint journal\<close>

record pending_mint_record =
  pmr_launcher_id :: bytes32
  pmr_did_coin_id :: bytes32
  pmr_source_coin_id :: bytes32
  pmr_pushed_at_height :: u32

definition pending_mint_record_from :: "pending_mint \<Rightarrow> pending_mint_record" where
  "pending_mint_record_from p =
     \<lparr>pmr_launcher_id = pm_launcher_id p, pmr_did_coin_id = pm_did_coin_id p,
      pmr_source_coin_id = pm_source_coin_id p, pmr_pushed_at_height = pm_pushed_at_height p\<rparr>"

record minted_did_record =
  mdr_did :: string
  mdr_launcher_id :: bytes32
  mdr_coin_id :: bytes32
  mdr_confirmed_height :: u32

definition minted_did_record_from :: "minted_did \<Rightarrow> minted_did_record" where
  "minted_did_record_from d =
     \<lparr>mdr_did = md_did d, mdr_launcher_id = md_launcher_id d, mdr_coin_id = md_coin_id d,
      mdr_confirmed_height = md_confirmed_height d\<rparr>"

record pending_store_launch_record =
  psr_launcher_id :: bytes32
  psr_store_coin_id :: bytes32
  psr_did_coin_id :: bytes32
  psr_committed_root :: bytes32
  psr_pushed_at_height :: u32

definition pending_store_launch_record_from :: "pending_store_launch \<Rightarrow> pending_store_launch_record"
where
  "pending_store_launch_record_from p =
     \<lparr>psr_launcher_id = ps_launcher_id p, psr_store_coin_id = ps_store_coin_id p,
      psr_did_coin_id = ps_did_coin_id p, psr_committed_root = ps_committed_root p,
      psr_pushed_at_height = ps_pushed_at_height p\<rparr>"

record confirmed_store_record =
  csr_launcher_id :: bytes32
  csr_coin_id :: bytes32
  csr_confirmed_height :: u32
  csr_did_coin_id :: bytes32
  csr_committed_root :: bytes32

definition confirmed_store_record_from :: "confirmed_store \<Rightarrow> confirmed_store_record" where
  "confirmed_store_record_from store =
     \<lparr>csr_launcher_id = cs_launcher_id store, csr_coin_id = cs_coin_id store,
      csr_confirmed_height = cs_confirmed_height store, csr_did_coin_id = cs_did_coin_id store,
      csr_committed_root = cs_committed_root store\<rparr>"

datatype mint_stage =
    DidPushed pending_mint_record
  | DidConfirmedStoreNotLaunched minted_did_record
  | StorePushed minted_did_record pending_store_launch_record

fun minted_dids :: "mint_stage \<Rightarrow> minted_did_record list" where
  "minted_dids (DidPushed _) = []"
| "minted_dids (DidConfirmedStoreNotLaunched d) = [d]"
| "minted_dids (StorePushed d _) = [d]"

text \<open>The dash of the second label is an em dash, three bytes in UTF-8.\<close>

fun stage_progress_label :: "mint_stage \<Rightarrow> string" where
  "stage_progress_label (DidPushed _) = ''creating your identity''"
| "stage_progress_label (DidConfirmedStoreNotLaunched _) =
     ''identity created '' @ [CHR 0xE2, CHR 0x80, CHR 0x94] @ '' finishing setup''"
| "stage_progress_label (StorePushed _ _) = ''finishing setup''"

record mint_in_progress =
  mp_ix :: profile_ix
  mp_stage :: mint_stage
  mp_seed_root :: "bytes32 option"
  mp_store_fee :: u64

definition mint_in_progress_new :: "profile_ix \<Rightarrow> mint_stage \<Rightarrow> u64 \<Rightarrow> mint_in_progress" where
  "mint_in_progress_new ix stage fee =
     \<lparr>mp_ix = ix, mp_stage = stage, mp_seed_root = None, mp_store_fee = fee\<rparr>"

definition mint_in_progress_with_seed_root ::
  "profile_ix \<Rightarrow> mint_stage \<Rightarrow> bytes32 \<Rightarrow> u64 \<Rightarrow> mint_in_progress" where
  "mint_in_progress_with_seed_root ix stage root fee =
     \<lparr>mp_ix = ix, mp_stage = stage, mp_seed_root = Some root, mp_store_fee = fee\<rparr>"

section \<open>Anchors\<close>

record profile_anchor =
  an_did :: string
  an_launcher_id :: bytes32
  an_did_coin_id :: bytes32
  an_did_confirmed_height :: u32
  an_store_launcher_id :: bytes32
  an_store_confirmed_height :: u32
  an_store_launched_from :: "bytes32 option"
  an_store_coin_id :: "bytes32 option"

definition anchor_from_confirmed ::
  "minted_did \<Rightarrow> confirmed_store \<Rightarrow> (profile_anchor, account_error) result" where
  "anchor_from_confirmed did store =
     (if cs_did_coin_id store \<noteq> md_coin_id did
      then Err (MismatchedMintHalves (md_coin_id did) (cs_did_coin_id store))
      else Ok \<lparr>an_did = md_did did, an_launcher_id = md_launcher_id did,
               an_did_coin_id = md_coin_id did,
               an_did_confirmed_height = md_confirmed_height did,
               an_store_launcher_id = cs_launcher_id store,
               an_store_confirmed_height = cs_confirmed_height store,
               an_store_launched_from = Some (cs_did_coin_id store),
               an_store_coin_id = Some (cs_coin_id store)\<rparr>)"

definition pairing_holds :: "profile_anchor \<Rightarrow> bool" where
  "pairing_holds a =
     (case an_store_launched_from a of None \<Rightarrow> True | Some c \<Rightarrow> c = an_did_coin_id a)"

section \<open>Entries\<close>

datatype profile_visibility = Shown | HiddenFromLists

record profile_end =
  end_at_height :: u32

definition profile_end_at :: "u32 \<Rightarrow> (profile_end, account_error) result" where
  "profile_end_at h = (if h = 0 then Err ProfileEndHeightZero else Ok \<lparr>end_at_height = h\<rparr>)"

record profile_entry =
  en_ix :: profile_ix
  en_anchor :: profile_anchor
  en_label :: "string option"
  en_visibility :: profile_visibility
  en_ended :: "profile_end option"

definition profile_entry_new :: "profile_ix \<Rightarrow> profile_anchor \<Rightarrow> string option \<Rightarrow> profile_entry" where
  "profile_entry_new ix anchor label =
     \<lparr>en_ix = ix, en_anchor = anchor, en_label = label, en_visibility = Shown, en_ended = None\<rparr>"

definition is_shown :: "profile_entry \<Rightarrow> bool" where
  "is_shown e \<longleftrightarrow> en_visibility e = Shown"

definition is_live :: "profile_entry \<Rightarrow> bool" where
  "is_live e \<longleftrightarrow> en_ended e = None"

definition entry_end :: "profile_end \<Rightarrow> profile_entry \<Rightarrow> profile_entry" where
  "entry_end h e = e\<lparr>en_ended := Some h\<rparr>"

definition entry_set_label :: "string option \<Rightarrow> profile_entry \<Rightarrow> profile_entry" where
  "entry_set_label l e = e\<lparr>en_label := l\<rparr>"

definition entry_set_visibility :: "profile_visibility \<Rightarrow> profile_entry \<Rightarrow> profile_entry" where
  "entry_set_visibility v e = e\<lparr>en_visibility := v\<rparr>"

section \<open>The registry\<close>

record profile_registry =
  entries :: "profile_entry list"
  active_ix :: "profile_ix option"
  in_progress :: "mint_in_progress list"

record active_switch =
  switch_from :: "profile_ix option"
  switch_to :: profile_ix

datatype profile_end_outcome =
    EndRecorded
  | ActiveMoved active_switch
  | NoLiveProfileRemains
  | AlreadyEnded

definition MAX_MINT_FEE_MOJOS :: u64 where
  "MAX_MINT_FEE_MOJOS = 10000000000"

definition registry_empty :: profile_registry where
  "registry_empty = \<lparr>entries = [], active_ix = None, in_progress = []\<rparr>"

definition registry_get :: "profile_registry \<Rightarrow> profile_ix \<Rightarrow> profile_entry option" where
  "registry_get r ix = find (\<lambda>e. en_ix e = ix) (entries r)"

definition registry_contains :: "profile_registry \<Rightarrow> profile_ix \<Rightarrow> bool" where
  "registry_contains r ix \<longleftrightarrow> registry_get r ix \<noteq> None"

definition registry_shown :: "profile_registry \<Rightarrow> profile_entry list" where
  "registry_shown r = filter (\<lambda>e. is_live e \<and> is_shown e) (entries r)"

definition registry_live :: "profile_registry \<Rightarrow> profile_entry list" where
  "registry_live r = filter is_live (entries r)"

text \<open>\<open>active()\<close>: the entry of the active slot, borrowed.\<close>

definition registry_active :: "profile_registry \<Rightarrow> profile_entry option" where
  "registry_active r = (case active_ix r of None \<Rightarrow> None | Some ix \<Rightarrow> registry_get r ix)"

definition known_ixs :: "profile_registry \<Rightarrow> profile_ix list" where
  "known_ixs r = map en_ix (entries r) @ map mp_ix (in_progress r)"

definition next_free_ix :: "profile_registry \<Rightarrow> profile_ix option" where
  "next_free_ix r =
     (case iter_max (known_ixs r) of
        Some ix \<Rightarrow> map_option ProfileIx (checked_add (ix_val ix) 1)
      | None \<Rightarrow> Some root_ix)"

definition holder_of :: "profile_registry \<Rightarrow> bytes32 \<Rightarrow> profile_ix option" where
  "holder_of r launcher =
     map_option en_ix (find (\<lambda>e. an_launcher_id (en_anchor e) = launcher) (entries r))"

definition mint_position :: "profile_registry \<Rightarrow> profile_ix \<Rightarrow> nat option" where
  "mint_position r ix = position (\<lambda>m. mp_ix m = ix) (in_progress r)"

subsection \<open>The invariants, as \<open>check\<close> evaluates them\<close>

text \<open>\<open>seen.insert(ix)\<close> over the chained indices; the first repetition is the error.\<close>

fun check_indices :: "profile_ix list \<Rightarrow> profile_ix list \<Rightarrow> (unit, violation) result" where
  "check_indices seen [] = Ok ()"
| "check_indices seen (ix # ixs) =
     (if ix \<in> set seen then Err (DuplicateIndex ix) else check_indices (ix # seen) ixs)"

definition check_active :: "profile_registry \<Rightarrow> (unit, violation) result" where
  "check_active r =
     (case active_ix r of
        None \<Rightarrow> (if registry_live r \<noteq> [] then Err LiveButNoActive else Ok ())
      | Some ix \<Rightarrow>
          if registry_live r = [] then Err (ActiveButNoLive ix)
          else case registry_get r ix of
            None \<Rightarrow> Err (ActiveNotRegistered ix)
          | Some e \<Rightarrow>
              if \<not> is_live e then Err (ActiveHasEnded ix)
              else if \<not> is_shown e then Err (ActiveIsHidden ix)
              else Ok ())"

text \<open>\<open>identities.insert(launcher, ix)\<close> returns the index that already claimed the identity.\<close>

fun check_identities ::
  "(bytes32 \<rightharpoonup> profile_ix) \<Rightarrow> profile_entry list \<Rightarrow> (unit, violation) result" where
  "check_identities ids [] = Ok ()"
| "check_identities ids (e # es) =
     (case ids (an_launcher_id (en_anchor e)) of
        Some first \<Rightarrow> Err (SharedIdentity first (en_ix e) (an_did (en_anchor e)))
      | None \<Rightarrow> check_identities (ids(an_launcher_id (en_anchor e) \<mapsto> en_ix e)) es)"

definition check_entry :: "(bytes32 \<Rightarrow> string) \<Rightarrow> profile_entry \<Rightarrow> (unit, violation) result" where
  "check_entry did_of e =
     (let a = en_anchor e; ix = en_ix e in
      if an_did a \<noteq> did_of (an_launcher_id a) then Err (DidNotOfLauncher ix)
      else if an_did_confirmed_height a = 0 then Err (DidHeightZero ix)
      else if an_store_confirmed_height a = 0 then Err (StoreHeightZero ix)
      else if \<not> pairing_holds a
        then Err (HalvesNotPaired ix (an_store_launched_from a) (an_did_coin_id a))
      else if (case en_ended e of None \<Rightarrow> False | Some h \<Rightarrow> end_at_height h = 0)
        then Err (EndHeightZero ix)
      else Ok ())"

fun check_entries :: "(bytes32 \<Rightarrow> string) \<Rightarrow> profile_entry list \<Rightarrow> (unit, violation) result" where
  "check_entries did_of [] = Ok ()"
| "check_entries did_of (e # es) = and_then (check_entry did_of e) (\<lambda>_. check_entries did_of es)"

fun check_dids :: "(bytes32 \<Rightarrow> string) \<Rightarrow> profile_ix \<Rightarrow> minted_did_record list \<Rightarrow> (unit, violation) result"
where
  "check_dids did_of ix [] = Ok ()"
| "check_dids did_of ix (d # ds) =
     (if mdr_did d \<noteq> did_of (mdr_launcher_id d) then Err (JournalDidNotOfLauncher ix)
      else if mdr_confirmed_height d = 0 then Err (JournalDidHeightZero ix)
      else check_dids did_of ix ds)"

fun check_mints :: "(bytes32 \<Rightarrow> string) \<Rightarrow> mint_in_progress list \<Rightarrow> (unit, violation) result" where
  "check_mints did_of [] = Ok ()"
| "check_mints did_of (m # ms) =
     (if MAX_MINT_FEE_MOJOS < mp_store_fee m
      then Err (JournalFeeAboveCeiling (mp_ix m) (mp_store_fee m))
      else and_then (check_dids did_of (mp_ix m) (minted_dids (mp_stage m)))
             (\<lambda>_. check_mints did_of ms))"

definition registry_check :: "(bytes32 \<Rightarrow> string) \<Rightarrow> profile_registry \<Rightarrow> (unit, violation) result"
where
  "registry_check did_of r =
     and_then (check_indices [] (known_ixs r)) (\<lambda>_.
     and_then (check_active r) (\<lambda>_.
     and_then (check_identities (\<lambda>_. None) (entries r)) (\<lambda>_.
     and_then (check_entries did_of (entries r)) (\<lambda>_.
     check_mints did_of (in_progress r)))))"

definition expect_valid ::
  "(bytes32 \<Rightarrow> string) \<Rightarrow> profile_registry \<Rightarrow> 'a \<Rightarrow> ('a, profile_registry) run" where
  "expect_valid did_of r x =
     (case registry_check did_of r of Ok _ \<Rightarrow> Returns x r | Err _ \<Rightarrow> Panics r)"

subsection \<open>The mutators\<close>

definition record_minted ::
  "(bytes32 \<Rightarrow> string) \<Rightarrow> profile_ix \<Rightarrow> minted_did \<Rightarrow> confirmed_store \<Rightarrow> string option \<Rightarrow>
     profile_registry \<Rightarrow> ((profile_entry, account_error) result, profile_registry) run"
where
  "record_minted did_of ix did store label r =
     (if registry_contains r ix then Returns (Err (ProfileAlreadyRegistered ix)) r
      else case holder_of r (md_launcher_id did) of
        Some existing \<Rightarrow> Returns (Err (ProfileIdentityAlreadyRegistered existing (md_did did))) r
      | None \<Rightarrow>
          (case anchor_from_confirmed did store of
             Err e \<Rightarrow> Returns (Err e) r
           | Ok anchor \<Rightarrow>
               (let r1 = r\<lparr>in_progress := filter (\<lambda>m. mp_ix m \<noteq> ix) (in_progress r)\<rparr>;
                    pos = partition_point (\<lambda>e. en_ix e < ix) (entries r1);
                    r2 = r1\<lparr>entries := vec_insert pos (profile_entry_new ix anchor label) (entries r1)\<rparr>;
                    r3 = (if active_ix r2 = None then r2\<lparr>active_ix := Some ix\<rparr> else r2)
                in expect_valid did_of r3 (Ok (entries r3 ! pos)))))"

definition set_active ::
  "(bytes32 \<Rightarrow> string) \<Rightarrow> profile_ix \<Rightarrow> profile_registry \<Rightarrow>
     ((active_switch, account_error) result, profile_registry) run"
where
  "set_active did_of ix r =
     (case registry_get r ix of
        None \<Rightarrow> Returns (Err (ProfileNotFound ix)) r
      | Some e \<Rightarrow>
          if \<not> is_live e then Returns (Err (ProfileEnded ix)) r
          else
            (let r1 = r\<lparr>entries := update_first (\<lambda>e. en_ix e = ix) (entry_set_visibility Shown) (entries r)\<rparr>;
                 switch = \<lparr>switch_from = active_ix r1, switch_to = ix\<rparr>;
                 r2 = r1\<lparr>active_ix := Some ix\<rparr>
             in expect_valid did_of r2 (Ok switch)))"

definition set_visibility ::
  "(bytes32 \<Rightarrow> string) \<Rightarrow> profile_ix \<Rightarrow> profile_visibility \<Rightarrow> profile_registry \<Rightarrow>
     ((unit, account_error) result, profile_registry) run"
where
  "set_visibility did_of ix v r =
     (if \<not> registry_contains r ix then Returns (Err (ProfileNotFound ix)) r
      else if v = HiddenFromLists \<and> active_ix r = Some ix
        then Returns (Err (ActiveProfileCannotBeHidden ix)) r
      else
        (let r1 = r\<lparr>entries := update_first (\<lambda>e. en_ix e = ix) (entry_set_visibility v) (entries r)\<rparr>
         in expect_valid did_of r1 (Ok ())))"

definition record_melted ::
  "(bytes32 \<Rightarrow> string) \<Rightarrow> profile_ix \<Rightarrow> u32 \<Rightarrow> profile_registry \<Rightarrow>
     ((profile_end_outcome, account_error) result, profile_registry) run"
where
  "record_melted did_of ix at_height r =
     (case profile_end_at at_height of
        Err e \<Rightarrow> Returns (Err e) r
      | Ok end_ \<Rightarrow>
          (case registry_get r ix of
             None \<Rightarrow> Returns (Err (ProfileNotFound ix)) r
           | Some e \<Rightarrow>
               if \<not> is_live e then Returns (Ok AlreadyEnded) r
               else
                 (let r1 = r\<lparr>entries := update_first (\<lambda>e. en_ix e = ix) (entry_end end_) (entries r)\<rparr>
                  in if active_ix r1 \<noteq> Some ix then expect_valid did_of r1 (Ok EndRecorded)
                     else
                       (let successor = (case registry_live r1 of [] \<Rightarrow> None | e # _ \<Rightarrow> Some (en_ix e));
                            r2 = r1\<lparr>active_ix := successor\<rparr>
                        in expect_valid did_of r2
                             (Ok (case successor of
                                    Some to \<Rightarrow> ActiveMoved \<lparr>switch_from = Some ix, switch_to = to\<rparr>
                                  | None \<Rightarrow> NoLiveProfileRemains))))))"

definition set_label ::
  "profile_ix \<Rightarrow> string option \<Rightarrow> profile_registry \<Rightarrow> ((unit, account_error) result, profile_registry) run"
where
  "set_label ix label r =
     (if \<not> registry_contains r ix then Returns (Err (ProfileNotFound ix)) r
      else Returns (Ok ())
             (r\<lparr>entries := update_first (\<lambda>e. en_ix e = ix) (entry_set_label label) (entries r)\<rparr>))"

definition reserve_mint ::
  "(bytes32 \<Rightarrow> string) \<Rightarrow> mint_in_progress \<Rightarrow> profile_registry \<Rightarrow>
     ((unit, account_error) result, profile_registry) run"
where
  "reserve_mint did_of mint r =
     (let ix = mp_ix mint in
      if registry_contains r ix then Returns (Err (ProfileAlreadyRegistered ix)) r
      else if mint_position r ix \<noteq> None then Returns (Err (MintAlreadyInProgress ix)) r
      else if MAX_MINT_FEE_MOJOS < mp_store_fee mint
        then Returns (Err (MintFeeAboveCeiling (mp_store_fee mint) MAX_MINT_FEE_MOJOS)) r
      else
        (let pos = partition_point (\<lambda>m. mp_ix m < ix) (in_progress r);
             r1 = r\<lparr>in_progress := vec_insert pos mint (in_progress r)\<rparr>
         in expect_valid did_of r1 (Ok ())))"

definition begin_mint ::
  "(bytes32 \<Rightarrow> string) \<Rightarrow> profile_ix \<Rightarrow> mint_stage \<Rightarrow> u64 \<Rightarrow> profile_registry \<Rightarrow>
     ((unit, account_error) result, profile_registry) run"
where
  "begin_mint did_of ix stage fee r = reserve_mint did_of (mint_in_progress_new ix stage fee) r"

definition begin_seeded_mint ::
  "(bytes32 \<Rightarrow> string) \<Rightarrow> profile_ix \<Rightarrow> mint_stage \<Rightarrow> bytes32 \<Rightarrow> u64 \<Rightarrow> profile_registry \<Rightarrow>
     ((unit, account_error) result, profile_registry) run"
where
  "begin_seeded_mint did_of ix stage root fee r =
     reserve_mint did_of (mint_in_progress_with_seed_root ix stage root fee) r"

definition advance_mint ::
  "profile_ix \<Rightarrow> mint_stage \<Rightarrow> profile_registry \<Rightarrow> ((unit, account_error) result, profile_registry) run"
where
  "advance_mint ix stage r =
     (case mint_position r ix of
        None \<Rightarrow> Returns (Err (ProfileNotFound ix)) r
      | Some pos \<Rightarrow>
          Returns (Ok ())
            (r\<lparr>in_progress := (in_progress r)[pos := (in_progress r ! pos)\<lparr>mp_stage := stage\<rparr>]\<rparr>))"

definition abandon_mint ::
  "(bytes32 \<Rightarrow> string) \<Rightarrow> profile_ix \<Rightarrow> profile_registry \<Rightarrow>
     ((unit, account_error) result, profile_registry) run"
where
  "abandon_mint did_of ix r =
     (case mint_position r ix of
        None \<Rightarrow> Returns (Err (ProfileNotFound ix)) r
      | Some pos \<Rightarrow>
          (let r1 = r\<lparr>in_progress := vec_remove pos (in_progress r)\<rparr>
           in expect_valid did_of r1 (Ok ())))"

subsection \<open>The on-disk shape\<close>

record raw_profile_registry =
  raw_entries :: "profile_entry list"
  raw_active :: "profile_ix option"
  raw_in_progress :: "mint_in_progress list"

definition raw_from_registry :: "profile_registry \<Rightarrow> raw_profile_registry" where
  "raw_from_registry r =
     \<lparr>raw_entries = entries r, raw_active = active_ix r, raw_in_progress = in_progress r\<rparr>"

definition registry_try_from ::
  "(bytes32 \<Rightarrow> string) \<Rightarrow> raw_profile_registry \<Rightarrow> (profile_registry, violation) result" where
  "registry_try_from did_of raw =
     (let r = \<lparr>entries = sort_key en_ix (raw_entries raw), active_ix = raw_active raw,
               in_progress = sort_key mp_ix (raw_in_progress raw)\<rparr>
      in map_err id (and_then (registry_check did_of r) (\<lambda>_. Ok r)))"

section \<open>Commands\<close>

text \<open>One public mutator call with its arguments, for statements about every call a host can make.\<close>

datatype registry_cmd =
    RecordMinted profile_ix minted_did confirmed_store "string option"
  | SetActive profile_ix
  | SetVisibility profile_ix profile_visibility
  | RecordMelted profile_ix u32
  | SetLabel profile_ix "string option"
  | BeginMint profile_ix mint_stage u64
  | BeginSeededMint profile_ix mint_stage bytes32 u64
  | AdvanceMint profile_ix mint_stage
  | AbandonMint profile_ix

text \<open>The call, its success value dropped.\<close>

abbreviation drop_value ::
  "(('a, account_error) result, profile_registry) run \<Rightarrow> ((unit, account_error) result, profile_registry) run"
where
  "drop_value \<equiv> map_run (\<lambda>res. and_then res (\<lambda>_. Ok ()))"

fun exec_cmd ::
  "(bytes32 \<Rightarrow> string) \<Rightarrow> registry_cmd \<Rightarrow> profile_registry \<Rightarrow>
     ((unit, account_error) result, profile_registry) run"
where
  "exec_cmd did_of (RecordMinted ix did store label) r =
     drop_value (record_minted did_of ix did store label r)"
| "exec_cmd did_of (SetActive ix) r = drop_value (set_active did_of ix r)"
| "exec_cmd did_of (SetVisibility ix v) r = set_visibility did_of ix v r"
| "exec_cmd did_of (RecordMelted ix h) r = drop_value (record_melted did_of ix h r)"
| "exec_cmd did_of (SetLabel ix label) r = set_label ix label r"
| "exec_cmd did_of (BeginMint ix stage fee) r = begin_mint did_of ix stage fee r"
| "exec_cmd did_of (BeginSeededMint ix stage root fee) r =
     begin_seeded_mint did_of ix stage root fee r"
| "exec_cmd did_of (AdvanceMint ix stage) r = advance_mint ix stage r"
| "exec_cmd did_of (AbandonMint ix) r = abandon_mint did_of ix r"

end
