(* ===== verification/Registry_Invariants.thy ===== *)
theory Registry_Invariants
  imports Profile_Registry
begin

text \<open>
  What makes \<open>ProfileRegistry\<close> correct. \<open>check\<close> is characterised declaratively
  (\<open>registry_ok\<close>), the invariant \<open>registry_wf\<close> adds the order the vectors keep, every
  mutator is shown to keep it, and the mutators are shown to implement an abstract registry (a
  finite map of profiles, a map of journalled mints, an active slot) whose steps are an inductive
  relation. The one call that can panic on a well-formed registry is characterised exactly.
\<close>

section \<open>The invariant, declaratively\<close>

definition anchor_ok :: "(bytes32 \<Rightarrow> string) \<Rightarrow> profile_anchor \<Rightarrow> bool" where
  "anchor_ok did_of a \<longleftrightarrow>
     an_did a = did_of (an_launcher_id a) \<and> an_did_confirmed_height a \<noteq> 0 \<and>
     an_store_confirmed_height a \<noteq> 0 \<and> pairing_holds a"

definition entry_ok :: "(bytes32 \<Rightarrow> string) \<Rightarrow> profile_entry \<Rightarrow> bool" where
  "entry_ok did_of e \<longleftrightarrow>
     anchor_ok did_of (en_anchor e) \<and>
     (case en_ended e of None \<Rightarrow> True | Some h \<Rightarrow> end_at_height h \<noteq> 0)"

definition journalled_did_ok :: "(bytes32 \<Rightarrow> string) \<Rightarrow> minted_did_record \<Rightarrow> bool" where
  "journalled_did_ok did_of d \<longleftrightarrow>
     mdr_did d = did_of (mdr_launcher_id d) \<and> mdr_confirmed_height d \<noteq> 0"

definition stage_ok :: "(bytes32 \<Rightarrow> string) \<Rightarrow> mint_stage \<Rightarrow> bool" where
  "stage_ok did_of s \<longleftrightarrow> list_all (journalled_did_ok did_of) (minted_dids s)"

definition mint_ok :: "(bytes32 \<Rightarrow> string) \<Rightarrow> mint_in_progress \<Rightarrow> bool" where
  "mint_ok did_of m \<longleftrightarrow> mp_store_fee m \<le> MAX_MINT_FEE_MOJOS \<and> stage_ok did_of (mp_stage m)"

definition active_ok :: "profile_registry \<Rightarrow> bool" where
  "active_ok r \<longleftrightarrow>
     (case active_ix r of
        None \<Rightarrow> registry_live r = []
      | Some ix \<Rightarrow> (case registry_get r ix of None \<Rightarrow> False | Some e \<Rightarrow> is_live e \<and> is_shown e))"

abbreviation entry_launcher :: "profile_entry \<Rightarrow> bytes32" where
  "entry_launcher e \<equiv> an_launcher_id (en_anchor e)"

definition static_ok :: "(bytes32 \<Rightarrow> string) \<Rightarrow> profile_registry \<Rightarrow> bool" where
  "static_ok did_of r \<longleftrightarrow>
     distinct (known_ixs r) \<and> distinct (map entry_launcher (entries r)) \<and>
     list_all (entry_ok did_of) (entries r) \<and> list_all (mint_ok did_of) (in_progress r)"

definition registry_ok :: "(bytes32 \<Rightarrow> string) \<Rightarrow> profile_registry \<Rightarrow> bool" where
  "registry_ok did_of r \<longleftrightarrow> static_ok did_of r \<and> active_ok r"

definition registry_sorted :: "profile_registry \<Rightarrow> bool" where
  "registry_sorted r \<longleftrightarrow>
     sorted_wrt (<) (map en_ix (entries r)) \<and> sorted_wrt (<) (map mp_ix (in_progress r))"

definition registry_wf :: "(bytes32 \<Rightarrow> string) \<Rightarrow> profile_registry \<Rightarrow> bool" where
  "registry_wf did_of r \<longleftrightarrow> registry_ok did_of r \<and> registry_sorted r"

subsection \<open>What the callers of the mutators can be assumed to pass\<close>

text \<open>
  \<open>record_minted\<close> takes the evidence types, which only their constructors make; a stage handed
  to \<open>begin_mint\<close> or \<open>advance_mint\<close> is plain data, so its honesty is the caller's.
\<close>

fun cmd_honest :: "(bytes32 \<Rightarrow> string) \<Rightarrow> registry_cmd \<Rightarrow> bool" where
  "cmd_honest did_of (RecordMinted ix did store label) \<longleftrightarrow>
     did_honest did_of did \<and> cs_confirmed_height store \<noteq> 0"
| "cmd_honest did_of (BeginMint ix stage fee) \<longleftrightarrow> stage_ok did_of stage"
| "cmd_honest did_of (BeginSeededMint ix stage root fee) \<longleftrightarrow> stage_ok did_of stage"
| "cmd_honest did_of (AdvanceMint ix stage) \<longleftrightarrow> stage_ok did_of stage"
| "cmd_honest did_of _ \<longleftrightarrow> True"

text \<open>The profile the active slot would move to if the profile at \<open>ix\<close> ended.\<close>

definition heir_of :: "profile_registry \<Rightarrow> profile_ix \<Rightarrow> profile_entry option" where
  "heir_of r ix = find (\<lambda>e. is_live e \<and> en_ix e \<noteq> ix) (entries r)"

text \<open>The state in which ending the active profile panics: its heir is hidden.\<close>

fun cmd_panics :: "profile_registry \<Rightarrow> registry_cmd \<Rightarrow> bool" where
  "cmd_panics r (RecordMelted ix h) \<longleftrightarrow>
     h \<noteq> 0 \<and> active_ix r = Some ix \<and>
     (case heir_of r ix of None \<Rightarrow> False | Some e \<Rightarrow> \<not> is_shown e)"
| "cmd_panics r _ \<longleftrightarrow> False"

text \<open>A session: the calls in order, up to the first panic.\<close>

fun exec_cmds ::
  "(bytes32 \<Rightarrow> string) \<Rightarrow> registry_cmd list \<Rightarrow> profile_registry \<Rightarrow> (unit, profile_registry) run" where
  "exec_cmds did_of [] r = Returns () r"
| "exec_cmds did_of (c # cs) r =
     (case exec_cmd did_of c r of
        Panics r' \<Rightarrow> Panics r'
      | Returns _ r' \<Rightarrow> exec_cmds did_of cs r')"

section \<open>The abstract registry\<close>

record registry_spec =
  sp_profiles :: "profile_ix \<rightharpoonup> profile_entry"
  sp_mints :: "profile_ix \<rightharpoonup> mint_in_progress"
  sp_active :: "profile_ix option"

definition abs_registry :: "profile_registry \<Rightarrow> registry_spec" where
  "abs_registry r =
     \<lparr>sp_profiles = registry_get r,
      sp_mints = (\<lambda>ix. find (\<lambda>m. mp_ix m = ix) (in_progress r)),
      sp_active = active_ix r\<rparr>"

definition live_in :: "registry_spec \<Rightarrow> profile_ix \<Rightarrow> bool" where
  "live_in s ix \<longleftrightarrow> (\<exists>e. sp_profiles s ix = Some e \<and> is_live e)"

text \<open>What an accepted call does to the abstract registry.\<close>

inductive registry_step :: "registry_spec \<Rightarrow> registry_cmd \<Rightarrow> registry_spec \<Rightarrow> bool" where
  Step_minted:
    "sp_profiles s ix = None \<Longrightarrow>
     \<forall>k e. sp_profiles s k = Some e \<longrightarrow> entry_launcher e \<noteq> md_launcher_id did \<Longrightarrow>
     anchor_from_confirmed did store = Ok anchor \<Longrightarrow>
     registry_step s (RecordMinted ix did store label)
       (s\<lparr>sp_profiles := (sp_profiles s)(ix \<mapsto> profile_entry_new ix anchor label),
          sp_mints := (sp_mints s)(ix := None),
          sp_active := (case sp_active s of None \<Rightarrow> Some ix | Some a \<Rightarrow> Some a)\<rparr>)"
| Step_active:
    "sp_profiles s ix = Some e \<Longrightarrow> is_live e \<Longrightarrow>
     registry_step s (SetActive ix)
       (s\<lparr>sp_profiles := (sp_profiles s)(ix \<mapsto> entry_set_visibility Shown e),
          sp_active := Some ix\<rparr>)"
| Step_visibility:
    "sp_profiles s ix = Some e \<Longrightarrow> v = Shown \<or> sp_active s \<noteq> Some ix \<Longrightarrow>
     registry_step s (SetVisibility ix v)
       (s\<lparr>sp_profiles := (sp_profiles s)(ix \<mapsto> entry_set_visibility v e)\<rparr>)"
| Step_already_ended:
    "h \<noteq> 0 \<Longrightarrow> sp_profiles s ix = Some e \<Longrightarrow> \<not> is_live e \<Longrightarrow>
     registry_step s (RecordMelted ix h) s"
| Step_ended_inactive:
    "h \<noteq> 0 \<Longrightarrow> sp_profiles s ix = Some e \<Longrightarrow> is_live e \<Longrightarrow> sp_active s \<noteq> Some ix \<Longrightarrow>
     registry_step s (RecordMelted ix h)
       (s\<lparr>sp_profiles := (sp_profiles s)(ix \<mapsto> entry_end \<lparr>end_at_height = h\<rparr> e)\<rparr>)"
| Step_ended_succeeded:
    "h \<noteq> 0 \<Longrightarrow> sp_profiles s ix = Some e \<Longrightarrow> is_live e \<Longrightarrow> sp_active s = Some ix \<Longrightarrow>
     live_in s to \<Longrightarrow> to \<noteq> ix \<Longrightarrow> \<forall>k. live_in s k \<and> k \<noteq> ix \<longrightarrow> to \<le> k \<Longrightarrow>
     registry_step s (RecordMelted ix h)
       (s\<lparr>sp_profiles := (sp_profiles s)(ix \<mapsto> entry_end \<lparr>end_at_height = h\<rparr> e),
          sp_active := Some to\<rparr>)"
| Step_ended_last:
    "h \<noteq> 0 \<Longrightarrow> sp_profiles s ix = Some e \<Longrightarrow> is_live e \<Longrightarrow> sp_active s = Some ix \<Longrightarrow>
     \<forall>k. k \<noteq> ix \<longrightarrow> \<not> live_in s k \<Longrightarrow>
     registry_step s (RecordMelted ix h)
       (s\<lparr>sp_profiles := (sp_profiles s)(ix \<mapsto> entry_end \<lparr>end_at_height = h\<rparr> e),
          sp_active := None\<rparr>)"
| Step_label:
    "sp_profiles s ix = Some e \<Longrightarrow>
     registry_step s (SetLabel ix l)
       (s\<lparr>sp_profiles := (sp_profiles s)(ix \<mapsto> entry_set_label l e)\<rparr>)"
| Step_begin:
    "sp_profiles s ix = None \<Longrightarrow> sp_mints s ix = None \<Longrightarrow> fee \<le> MAX_MINT_FEE_MOJOS \<Longrightarrow>
     registry_step s (BeginMint ix stage fee)
       (s\<lparr>sp_mints := (sp_mints s)(ix \<mapsto> mint_in_progress_new ix stage fee)\<rparr>)"
| Step_begin_seeded:
    "sp_profiles s ix = None \<Longrightarrow> sp_mints s ix = None \<Longrightarrow> fee \<le> MAX_MINT_FEE_MOJOS \<Longrightarrow>
     registry_step s (BeginSeededMint ix stage root fee)
       (s\<lparr>sp_mints := (sp_mints s)(ix \<mapsto> mint_in_progress_with_seed_root ix stage root fee)\<rparr>)"
| Step_advance:
    "sp_mints s ix = Some m \<Longrightarrow>
     registry_step s (AdvanceMint ix stage)
       (s\<lparr>sp_mints := (sp_mints s)(ix \<mapsto> m\<lparr>mp_stage := stage\<rparr>)\<rparr>)"
| Step_abandon:
    "sp_mints s ix = Some m \<Longrightarrow>
     registry_step s (AbandonMint ix) (s\<lparr>sp_mints := (sp_mints s)(ix := None)\<rparr>)"

inductive_cases step_mintedE: "registry_step s (RecordMinted ix did store label) s'"
inductive_cases step_meltedE: "registry_step s (RecordMelted ix h) s'"

section \<open>\<open>check\<close> evaluates the invariant\<close>

lemma check_indices_iff:
  "check_indices seen ixs = Ok () \<longleftrightarrow> distinct ixs \<and> set ixs \<inter> set seen = {}"
  by (induction ixs arbitrary: seen) auto

lemma check_identities_iff:
  "check_identities ids es = Ok () \<longleftrightarrow>
     distinct (map entry_launcher es) \<and> entry_launcher ` set es \<inter> dom ids = {}"
  by (induction es arbitrary: ids) (auto split: option.splits simp: dom_def image_iff disjoint_iff)

lemma check_entry_iff: "check_entry did_of e = Ok () \<longleftrightarrow> entry_ok did_of e"
  by (auto simp: check_entry_def entry_ok_def anchor_ok_def Let_def split: option.splits if_splits)

lemma check_entries_iff: "check_entries did_of es = Ok () \<longleftrightarrow> list_all (entry_ok did_of) es"
  by (induction es) (auto simp: and_then_Ok check_entry_iff)

lemma check_dids_iff: "check_dids did_of ix ds = Ok () \<longleftrightarrow> list_all (journalled_did_ok did_of) ds"
  by (induction ds) (auto simp: journalled_did_ok_def)

lemma check_mints_iff: "check_mints did_of ms = Ok () \<longleftrightarrow> list_all (mint_ok did_of) ms"
  by (induction ms) (auto simp: and_then_Ok check_dids_iff mint_ok_def stage_ok_def not_less)

lemma check_active_iff: "check_active r = Ok () \<longleftrightarrow> active_ok r"
proof -
  have "registry_live r \<noteq> []" if "registry_get r ix = Some e" "is_live e" for ix e
    using that by (auto simp: registry_get_def registry_live_def filter_empty_conv find_Some_iff)
  then show ?thesis
    by (auto simp: check_active_def active_ok_def split: option.splits)
qed

lemma registry_check_iff: "registry_check did_of r = Ok () \<longleftrightarrow> registry_ok did_of r"
  by (auto simp: registry_check_def and_then_Ok check_indices_iff check_active_iff
                 check_identities_iff check_entries_iff check_mints_iff registry_ok_def static_ok_def)

lemma expect_valid_eq:
  "expect_valid did_of r x = (if registry_ok did_of r then Returns x r else Panics r)"
  using registry_check_iff [of did_of r]
  by (cases "registry_check did_of r") (auto simp: expect_valid_def)

section \<open>Reading and writing entries\<close>

lemma known_ixs_distinct_parts:
  "distinct (known_ixs r) \<longleftrightarrow>
     distinct (map en_ix (entries r)) \<and> distinct (map mp_ix (in_progress r)) \<and>
     (\<forall>e\<in>set (entries r). \<forall>m\<in>set (in_progress r). en_ix e \<noteq> mp_ix m)"
  by (auto simp: known_ixs_def)

lemma static_entries_distinct: "static_ok did_of r \<Longrightarrow> distinct (map en_ix (entries r))"
  by (simp add: static_ok_def known_ixs_distinct_parts)

lemma get_SomeD: "registry_get r ix = Some e \<Longrightarrow> e \<in> set (entries r) \<and> en_ix e = ix"
  by (auto simp: registry_get_def find_Some_iff)

lemma get_iff:
  "distinct (map en_ix (entries r)) \<Longrightarrow>
     registry_get r ix = Some e \<longleftrightarrow> e \<in> set (entries r) \<and> en_ix e = ix"
  unfolding registry_get_def by (rule find_Some_iff_unique)

lemma get_None_iff: "registry_get r ix = None \<longleftrightarrow> ix \<notin> en_ix ` set (entries r)"
  unfolding registry_get_def by (rule find_None_iff_key)

lemma get_simps [simp]:
  "registry_get (r\<lparr>active_ix := a\<rparr>) = registry_get r"
  "registry_get (r\<lparr>in_progress := ms\<rparr>) = registry_get r"
  by (auto simp: registry_get_def)

lemma static_ok_active [simp]: "static_ok did_of (r\<lparr>active_ix := a\<rparr>) = static_ok did_of r"
  by (simp add: static_ok_def known_ixs_def)

lemma live_nonempty_iff:
  "distinct (map en_ix (entries r)) \<Longrightarrow>
     registry_live r \<noteq> [] \<longleftrightarrow> (\<exists>k e. registry_get r k = Some e \<and> is_live e)"
  by (auto simp: registry_live_def filter_empty_conv get_iff)

lemma entry_updates [entry_simps]:
  "en_ix (entry_set_visibility v e) = en_ix e" "en_anchor (entry_set_visibility v e) = en_anchor e"
  "en_ix (entry_set_label l e) = en_ix e" "en_anchor (entry_set_label l e) = en_anchor e"
  "en_ix (entry_end h e) = en_ix e" "en_anchor (entry_end h e) = en_anchor e"
  "is_live (entry_set_visibility v e) = is_live e" "is_live (entry_set_label l e) = is_live e"
  "\<not> is_live (entry_end h e)"
  "is_shown (entry_set_visibility v e) \<longleftrightarrow> v = Shown"
  "is_shown (entry_set_label l e) = is_shown e" "is_shown (entry_end h e) = is_shown e"
  "en_ended (entry_set_visibility v e) = en_ended e" "en_ended (entry_set_label l e) = en_ended e"
  "en_ended (entry_end h e) = Some h"
  by (simp_all add: entry_set_visibility_def entry_set_label_def entry_end_def is_live_def is_shown_def)

abbreviation write_entry ::
  "profile_ix \<Rightarrow> (profile_entry \<Rightarrow> profile_entry) \<Rightarrow> profile_registry \<Rightarrow> profile_registry" where
  "write_entry ix f r \<equiv> r\<lparr>entries := update_first (\<lambda>e. en_ix e = ix) f (entries r)\<rparr>"

text \<open>A write that keeps index and anchor, as every write of the source does.\<close>

definition keeps_identity :: "(profile_entry \<Rightarrow> profile_entry) \<Rightarrow> bool" where
  "keeps_identity f \<longleftrightarrow> (\<forall>e. en_ix (f e) = en_ix e \<and> en_anchor (f e) = en_anchor e)"

lemma keeps_identity_writes [simp, intro]:
  "keeps_identity (entry_set_visibility v)" "keeps_identity (entry_set_label l)"
  "keeps_identity (entry_end h)"
  by (simp_all add: keeps_identity_def entry_simps)

lemma get_write_entry:
  "keeps_identity f \<Longrightarrow>
     registry_get (write_entry ix f r) k =
       (if k = ix then map_option f (registry_get r ix) else registry_get r k)"
  by (simp add: registry_get_def find_update_first [of en_ix f] keeps_identity_def)

lemma write_entry_keys:
  assumes "keeps_identity f"
  shows "map en_ix (update_first (\<lambda>e. en_ix e = ix) f es) = map en_ix es"
    and "map entry_launcher (update_first (\<lambda>e. en_ix e = ix) f es) = map entry_launcher es"
  using assms by (auto intro!: map_update_first simp: keeps_identity_def)

lemma static_ok_write:
  assumes "static_ok did_of r" and k: "keeps_identity f"
    and ok: "\<And>e. entry_ok did_of e \<Longrightarrow> entry_ok did_of (f e)"
  shows "static_ok did_of (write_entry ix f r)"
proof -
  have "list_all (entry_ok did_of) (update_first (\<lambda>e. en_ix e = ix) f es)"
    if "list_all (entry_ok did_of) es" for es
    using that by (induction es) (auto simp: ok)
  with assms(1) show ?thesis
    by (simp add: static_ok_def known_ixs_def write_entry_keys [OF k])
qed

lemma sorted_write [simp]:
  "keeps_identity f \<Longrightarrow> registry_sorted (write_entry ix f r) = registry_sorted r"
  by (simp add: registry_sorted_def write_entry_keys)

lemma sorted_active [simp]: "registry_sorted (r\<lparr>active_ix := a\<rparr>) = registry_sorted r"
  by (simp add: registry_sorted_def)

lemma write_entry_active [simp]: "active_ix (write_entry ix f r) = active_ix r"
  by simp

lemma entry_ok_writes:
  "entry_ok did_of e \<Longrightarrow> entry_ok did_of (entry_set_visibility v e)"
  "entry_ok did_of e \<Longrightarrow> entry_ok did_of (entry_set_label l e)"
  "entry_ok did_of e \<Longrightarrow> end_at_height h \<noteq> 0 \<Longrightarrow> entry_ok did_of (entry_end h e)"
  by (auto simp: entry_ok_def entry_simps)

lemma static_ok_live_iff:
  "static_ok did_of r \<Longrightarrow> registry_live r = [] \<longleftrightarrow> (\<forall>k e. registry_get r k = Some e \<longrightarrow> \<not> is_live e)"
  using live_nonempty_iff [OF static_entries_distinct] by blast

section \<open>Every mutator meets its contract\<close>

text \<open>
  A call panics exactly in the state \<open>cmd_panics\<close> names; otherwise an error leaves the registry
  as it was, and a success keeps the invariant and takes the abstract step.
\<close>

definition cmd_meets :: "(bytes32 \<Rightarrow> string) \<Rightarrow> registry_cmd \<Rightarrow> profile_registry \<Rightarrow> bool" where
  "cmd_meets did_of c r \<longleftrightarrow>
     (case exec_cmd did_of c r of
        Panics _ \<Rightarrow> cmd_panics r c
      | Returns res r' \<Rightarrow> \<not> cmd_panics r c \<and>
          (case res of
             Err _ \<Rightarrow> r' = r
           | Ok _ \<Rightarrow> registry_wf did_of r' \<and> registry_step (abs_registry r) c (abs_registry r')))"

lemma abs_sels [simp]:
  "sp_profiles (abs_registry r) = registry_get r"
  "sp_active (abs_registry r) = active_ix r"
  "sp_mints (abs_registry r) ix = find (\<lambda>m. mp_ix m = ix) (in_progress r)"
  by (simp_all add: abs_registry_def)

lemma abs_write_entry:
  assumes "keeps_identity f" and "registry_get r ix = Some e"
  shows "abs_registry (write_entry ix f r) =
           (abs_registry r)\<lparr>sp_profiles := (registry_get r)(ix \<mapsto> f e)\<rparr>"
proof -
  have "registry_get (write_entry ix f r) = (registry_get r)(ix \<mapsto> f e)"
    by (rule ext) (simp add: get_write_entry [OF assms(1)] assms(2))
  then show ?thesis by (simp add: abs_registry_def)
qed

lemma abs_active: "abs_registry (r\<lparr>active_ix := a\<rparr>) = (abs_registry r)\<lparr>sp_active := a\<rparr>"
  by (simp add: abs_registry_def)

lemma wfD:
  assumes "registry_wf did_of r"
  shows "static_ok did_of r" "active_ok r" "registry_sorted r"
    "distinct (map en_ix (entries r))" "distinct (map mp_ix (in_progress r))"
  using assms by (auto simp: registry_wf_def registry_ok_def static_ok_def known_ixs_distinct_parts)

lemma activeD:
  assumes "active_ok r" and "active_ix r = Some a"
  obtains e where "registry_get r a = Some e" "is_live e" "is_shown e"
  using assms by (auto simp: active_ok_def split: option.splits)

text \<open>A write keeps the active slot valid when it keeps the active entry live and shown.\<close>

lemma active_ok_write:
  assumes st: "static_ok did_of r" and act: "active_ok r" and k: "keeps_identity f"
    and get: "registry_get r ix = Some e"
    and live: "is_live (f e) = is_live e"
    and shown: "active_ix r = Some ix \<Longrightarrow> is_shown (f e)"
  shows "active_ok (write_entry ix f r)"
proof (cases "active_ix r")
  case None
  have st': "distinct (map en_ix (entries (write_entry ix f r)))"
    using static_entries_distinct [OF st] by (simp add: write_entry_keys [OF k])
  have "\<forall>k e. registry_get r k = Some e \<longrightarrow> \<not> is_live e"
    using act None static_ok_live_iff [OF st] by (simp add: active_ok_def)
  then have "\<forall>k e. registry_get (write_entry ix f r) k = Some e \<longrightarrow> \<not> is_live e"
    using get live by (auto simp: get_write_entry [OF k])
  then have "registry_live (write_entry ix f r) = []"
    using live_nonempty_iff [OF st'] by blast
  then show ?thesis using None by (simp add: active_ok_def)
next
  case (Some a)
  obtain e' where "registry_get r a = Some e'" "is_live e'" "is_shown e'"
    using act Some by (rule activeD)
  then show ?thesis
    using Some get live shown by (auto simp: active_ok_def get_write_entry [OF k])
qed

lemma set_visibility_meets:
  assumes wf: "registry_wf did_of r"
  shows "cmd_meets did_of (SetVisibility ix v) r"
proof (cases "registry_get r ix")
  case None
  then show ?thesis
    by (simp add: cmd_meets_def set_visibility_def registry_contains_def)
next
  case (Some e)
  let ?r = "write_entry ix (entry_set_visibility v) r"
  show ?thesis
  proof (cases "v = HiddenFromLists \<and> active_ix r = Some ix")
    case True
    then show ?thesis using Some
      by (simp add: cmd_meets_def set_visibility_def registry_contains_def)
  next
    case False
    then have v: "v = Shown \<or> active_ix r \<noteq> Some ix" by (cases v) auto
    have "active_ok ?r"
      by (rule active_ok_write [OF wfD(1,2) [OF wf]]) (use Some v in \<open>auto simp: entry_simps\<close>)
    moreover have "static_ok did_of ?r"
      by (rule static_ok_write [OF wfD(1) [OF wf]]) (auto intro: entry_ok_writes)
    ultimately have wf': "registry_wf did_of ?r"
      using wfD(3) [OF wf] by (simp add: registry_wf_def registry_ok_def)
    have "registry_step (abs_registry r) (SetVisibility ix v) (abs_registry ?r)"
      unfolding abs_write_entry [OF keeps_identity_writes(1) Some]
      using Step_visibility [of "abs_registry r" ix e v] Some v by simp
    then show ?thesis using False Some wf'
      by (simp add: cmd_meets_def set_visibility_def registry_contains_def expect_valid_eq
            registry_wf_def)
  qed
qed

lemma set_label_meets:
  assumes wf: "registry_wf did_of r"
  shows "cmd_meets did_of (SetLabel ix l) r"
proof (cases "registry_get r ix")
  case None
  then show ?thesis by (simp add: cmd_meets_def set_label_def registry_contains_def)
next
  case (Some e)
  let ?r = "write_entry ix (entry_set_label l) r"
  have "active_ok ?r"
  proof (rule active_ok_write [OF wfD(1,2) [OF wf] _ Some])
    show "is_shown (entry_set_label l e)" if a: "active_ix r = Some ix"
      using activeD [OF wfD(2) [OF wf] a] Some by (auto simp: entry_simps)
  qed (auto simp: entry_simps)
  moreover have "static_ok did_of ?r"
    by (rule static_ok_write [OF wfD(1) [OF wf]]) (auto intro: entry_ok_writes)
  ultimately have "registry_wf did_of ?r"
    using wfD(3) [OF wf] by (simp add: registry_wf_def registry_ok_def)
  moreover have "registry_step (abs_registry r) (SetLabel ix l) (abs_registry ?r)"
    unfolding abs_write_entry [OF keeps_identity_writes(2) Some]
    using Step_label [of "abs_registry r" ix e l] Some by simp
  ultimately show ?thesis using Some
    by (simp add: cmd_meets_def set_label_def registry_contains_def)
qed

lemma set_active_meets:
  assumes wf: "registry_wf did_of r"
  shows "cmd_meets did_of (SetActive ix) r"
proof (cases "registry_get r ix")
  case None
  then show ?thesis by (simp add: cmd_meets_def set_active_def)
next
  case (Some e)
  let ?r = "(write_entry ix (entry_set_visibility Shown) r)\<lparr>active_ix := Some ix\<rparr>"
  show ?thesis
  proof (cases "is_live e")
    case False
    then show ?thesis using Some by (simp add: cmd_meets_def set_active_def)
  next
    case True
    have "active_ok ?r"
      using Some True
      by (simp add: active_ok_def get_write_entry [OF keeps_identity_writes(1)] entry_simps)
    moreover have "static_ok did_of ?r"
      unfolding static_ok_active
      by (rule static_ok_write [OF wfD(1) [OF wf]]) (auto intro: entry_ok_writes)
    ultimately have wf': "registry_wf did_of ?r"
      using wfD(3) [OF wf] by (simp add: registry_wf_def registry_ok_def)
    have "registry_step (abs_registry r) (SetActive ix) (abs_registry ?r)"
      unfolding abs_active abs_write_entry [OF keeps_identity_writes(1) Some]
      using Step_active [of "abs_registry r" ix e] Some True by simp
    then show ?thesis using Some True wf'
      by (simp add: cmd_meets_def set_active_def Let_def expect_valid_eq registry_wf_def)
  qed
qed

lemma find_as_filter: "find p xs = (case filter p xs of [] \<Rightarrow> None | x # _ \<Rightarrow> Some x)"
  by (induction xs) auto

lemma live_after_end:
  "registry_live (write_entry ix (entry_end h) r) =
     filter (\<lambda>e. is_live e \<and> en_ix e \<noteq> ix) (entries r)"
  if "distinct (map en_ix (entries r))"
proof -
  have "filter is_live (update_first (\<lambda>e. en_ix e = ix) (entry_end h) es) =
      filter (\<lambda>e. is_live e \<and> en_ix e \<noteq> ix) es" if "distinct (map en_ix es)" for es
  proof -
    have "filter is_live (map (\<lambda>e. if en_ix e = ix then entry_end h e else e) xs) =
        filter (\<lambda>e. is_live e \<and> en_ix e \<noteq> ix) xs" for xs
      by (induction xs) (auto simp: entry_simps)
    then show ?thesis by (simp add: update_first_eq_map [OF that])
  qed
  with that show ?thesis by (simp add: registry_live_def)
qed

lemma heir_SomeD:
  assumes "registry_sorted r" and "heir_of r ix = Some e"
  shows "e \<in> set (entries r)" "is_live e" "en_ix e \<noteq> ix"
    "\<And>d. d \<in> set (entries r) \<Longrightarrow> is_live d \<Longrightarrow> en_ix d \<noteq> ix \<Longrightarrow> en_ix e \<le> en_ix d"
proof -
  have *: "e \<in> set es \<and> is_live e \<and> en_ix e \<noteq> ix \<and>
      (\<forall>d\<in>set es. is_live d \<longrightarrow> en_ix d \<noteq> ix \<longrightarrow> en_ix e \<le> en_ix d)"
    if "sorted_wrt (<) (map en_ix es)" "find (\<lambda>e. is_live e \<and> en_ix e \<noteq> ix) es = Some e" for es
    using that by (induction es) (auto split: if_splits intro: less_imp_le)
  have **: "e \<in> set (entries r) \<and> is_live e \<and> en_ix e \<noteq> ix \<and>
      (\<forall>d\<in>set (entries r). is_live d \<longrightarrow> en_ix d \<noteq> ix \<longrightarrow> en_ix e \<le> en_ix d)"
    by (rule *) (use assms in \<open>auto simp: registry_sorted_def heir_of_def\<close>)
  show "e \<in> set (entries r)" "is_live e" "en_ix e \<noteq> ix" using ** by auto
  show "en_ix e \<le> en_ix d" if "d \<in> set (entries r)" "is_live d" "en_ix d \<noteq> ix" for d
    using ** that by auto
qed

lemma heir_None_iff:
  "heir_of r ix = None \<longleftrightarrow> (\<forall>e\<in>set (entries r). is_live e \<longrightarrow> en_ix e = ix)"
  by (auto simp: heir_of_def find_None_iff)

text \<open>The registry a fresh end leaves, active slot included, as \<open>record_melted\<close> computes it.\<close>

definition after_end :: "profile_ix \<Rightarrow> u32 \<Rightarrow> profile_registry \<Rightarrow> profile_registry" where
  "after_end ix h r =
     (let r1 = write_entry ix (entry_end \<lparr>end_at_height = h\<rparr>) r in
      if active_ix r = Some ix then r1\<lparr>active_ix := map_option en_ix (heir_of r ix)\<rparr> else r1)"

definition end_outcome :: "profile_ix \<Rightarrow> profile_registry \<Rightarrow> profile_end_outcome" where
  "end_outcome ix r =
     (if active_ix r \<noteq> Some ix then EndRecorded
      else case heir_of r ix of
        None \<Rightarrow> NoLiveProfileRemains
      | Some e \<Rightarrow> ActiveMoved \<lparr>switch_from = Some ix, switch_to = en_ix e\<rparr>)"

lemma record_melted_live:
  assumes wf: "registry_wf did_of r" and h: "h \<noteq> 0"
    and get: "registry_get r ix = Some e" and live: "is_live e"
  shows "record_melted did_of ix h r =
           expect_valid did_of (after_end ix h r) (Ok (end_outcome ix r))"
proof -
  have "filter (\<lambda>e. is_live e \<and> en_ix e \<noteq> ix) (entries r) =
      registry_live (write_entry ix (entry_end \<lparr>end_at_height = h\<rparr>) r)"
    by (rule live_after_end [symmetric]) (rule wfD(4) [OF wf])
  then have heir: "(case registry_live (write_entry ix (entry_end \<lparr>end_at_height = h\<rparr>) r) of
        [] \<Rightarrow> None | e # _ \<Rightarrow> Some (en_ix e)) = map_option en_ix (heir_of r ix)"
    by (auto simp: heir_of_def find_as_filter split: list.splits)
  show ?thesis
    using h get live
    by (auto simp: record_melted_def profile_end_at_def after_end_def end_outcome_def Let_def heir
          split: option.splits)
qed

lemma after_end_static:
  assumes wf: "registry_wf did_of r" and h: "h \<noteq> 0"
  shows "static_ok did_of (after_end ix h r)" and "registry_sorted (after_end ix h r)"
proof -
  have "static_ok did_of (write_entry ix (entry_end \<lparr>end_at_height = h\<rparr>) r)"
    by (rule static_ok_write [OF wfD(1) [OF wf]]) (use h in \<open>auto intro: entry_ok_writes\<close>)
  then show "static_ok did_of (after_end ix h r)" by (simp add: after_end_def Let_def)
  show "registry_sorted (after_end ix h r)"
    using wfD(3) [OF wf] by (simp add: after_end_def Let_def)
qed

lemma after_end_active:
  assumes wf: "registry_wf did_of r" and get: "registry_get r ix = Some e" and live: "is_live e"
    and h: "h \<noteq> 0"
  shows "active_ok (after_end ix h r) \<longleftrightarrow> \<not> cmd_panics r (RecordMelted ix h)"
proof (cases "active_ix r = Some ix")
  case False
  obtain a where a: "active_ix r = Some a"
    using static_ok_live_iff [OF wfD(1) [OF wf]] wfD(2) [OF wf] get live
    by (cases "active_ix r") (auto simp: active_ok_def)
  then obtain e' where "registry_get r a = Some e'" "is_live e'" "is_shown e'"
    using activeD [OF wfD(2) [OF wf]] by blast
  with a False show ?thesis
    by (auto simp: after_end_def Let_def active_ok_def get_write_entry [OF keeps_identity_writes(3)])
next
  case True
  show ?thesis
  proof (cases "heir_of r ix")
    case None
    then have "filter (\<lambda>e. is_live e \<and> en_ix e \<noteq> ix) (entries r) = []"
      by (auto simp: heir_None_iff filter_empty_conv)
    then have "registry_live (write_entry ix (entry_end \<lparr>end_at_height = h\<rparr>) r) = []"
      by (simp add: live_after_end [OF wfD(4) [OF wf]])
    with True None show ?thesis
      by (simp add: after_end_def Let_def active_ok_def registry_live_def)
  next
    case (Some d)
    note heir = heir_SomeD [OF wfD(3) [OF wf] Some]
    have "registry_get r (en_ix d) = Some d"
      using get_iff [OF wfD(4) [OF wf]] heir(1) by simp
    with True Some heir h show ?thesis
      by (simp add: after_end_def Let_def active_ok_def
            get_write_entry [OF keeps_identity_writes(3)])
  qed
qed

lemma live_in_abs:
  "distinct (map en_ix (entries r)) \<Longrightarrow>
     live_in (abs_registry r) k \<longleftrightarrow> (\<exists>e\<in>set (entries r). en_ix e = k \<and> is_live e)"
  by (auto simp: live_in_def get_iff)

lemma after_end_step:
  assumes wf: "registry_wf did_of r" and get: "registry_get r ix = Some e" and live: "is_live e"
    and h: "h \<noteq> 0"
  shows "registry_step (abs_registry r) (RecordMelted ix h) (abs_registry (after_end ix h r))"
proof (cases "active_ix r = Some ix")
  case False
  then show ?thesis
    using Step_ended_inactive [of h "abs_registry r" ix e] h get live
    by (simp add: after_end_def Let_def abs_write_entry [OF keeps_identity_writes(3) get])
next
  case True
  note dist = wfD(4) [OF wf]
  show ?thesis
  proof (cases "heir_of r ix")
    case None
    then have "\<forall>k. k \<noteq> ix \<longrightarrow> \<not> live_in (abs_registry r) k"
      by (auto simp: heir_None_iff live_in_abs [OF dist])
    then show ?thesis
      using Step_ended_last [of h "abs_registry r" ix e] h get live True None
      by (simp add: after_end_def Let_def abs_active abs_write_entry [OF keeps_identity_writes(3) get])
  next
    case (Some d)
    note heir = heir_SomeD [OF wfD(3) [OF wf] Some]
    have "live_in (abs_registry r) (en_ix d)"
      using heir(1,2) by (auto simp: live_in_abs [OF dist])
    moreover have "\<forall>k. live_in (abs_registry r) k \<and> k \<noteq> ix \<longrightarrow> en_ix d \<le> k"
      using heir(4) by (auto simp: live_in_abs [OF dist])
    ultimately show ?thesis
      using Step_ended_succeeded [of h "abs_registry r" ix e "en_ix d"] h get live True Some heir(3)
      by (simp add: after_end_def Let_def abs_active abs_write_entry [OF keeps_identity_writes(3) get])
  qed
qed

lemma active_entry_live:
  "registry_wf did_of r \<Longrightarrow> active_ix r = Some ix \<Longrightarrow> registry_get r ix = Some e \<Longrightarrow> is_live e"
  using activeD [OF wfD(2)] by fastforce

lemma active_known:
  "registry_wf did_of r \<Longrightarrow> active_ix r = Some ix \<Longrightarrow> registry_get r ix \<noteq> None"
  using activeD [OF wfD(2)] by fastforce

lemma record_melted_meets:
  assumes wf: "registry_wf did_of r"
  shows "cmd_meets did_of (RecordMelted ix h) r"
proof (cases "h = 0")
  case True
  then show ?thesis by (simp add: cmd_meets_def record_melted_def profile_end_at_def)
next
  case False
  show ?thesis
  proof (cases "registry_get r ix")
    case None
    with False active_known [OF wf] show ?thesis
      by (auto simp: cmd_meets_def record_melted_def profile_end_at_def)
  next
    case (Some e)
    show ?thesis
    proof (cases "is_live e")
      case True
      have "registry_ok did_of (after_end ix h r) \<longleftrightarrow> \<not> cmd_panics r (RecordMelted ix h)"
        using after_end_active [OF wf Some True False] after_end_static [OF wf False]
        by (simp add: registry_ok_def)
      then show ?thesis
        using after_end_static [OF wf False] after_end_step [OF wf Some True False]
        unfolding cmd_meets_def exec_cmd.simps record_melted_live [OF wf False Some True]
          expect_valid_eq
        by (simp del: cmd_panics.simps add: registry_wf_def)
    next
      case dead: False
      have "active_ix r \<noteq> Some ix" using active_entry_live [OF wf _ Some] dead by blast
      moreover have "registry_step (abs_registry r) (RecordMelted ix h) (abs_registry r)"
        using Step_already_ended [of h "abs_registry r" ix e] False Some dead by simp
      ultimately show ?thesis
        using False Some dead wf
        by (simp add: cmd_meets_def record_melted_def profile_end_at_def)
    qed
  qed
qed

lemma vec_remove_position:
  assumes "position p xs = Some i"
  shows "\<exists>x. p x \<and> x \<in> set xs \<and> vec_remove i xs = takeWhile (\<lambda>y. \<not> p y) xs @ drop (Suc i) xs \<and>
     xs = takeWhile (\<lambda>y. \<not> p y) xs @ x # drop (Suc i) xs"
  using assms
proof (induction xs arbitrary: i)
  case Nil
  then show ?case by simp
next
  case (Cons a xs)
  show ?case
  proof (cases "p a")
    case True
    with Cons.prems show ?thesis by (auto simp: vec_remove_def)
  next
    case False
    with Cons.prems obtain j where j: "position p xs = Some j" "i = Suc j" by auto
    from Cons.IH [OF j(1)] obtain x where
      "p x" "x \<in> set xs" "vec_remove j xs = takeWhile (\<lambda>y. \<not> p y) xs @ drop (Suc j) xs"
      "xs = takeWhile (\<lambda>y. \<not> p y) xs @ x # drop (Suc j) xs" by blast
    with False j(2) show ?thesis by (auto simp: vec_remove_def)
  qed
qed

lemma find_after_remove:
  assumes d: "distinct (map k xs)" and pos: "position (\<lambda>x. k x = v) xs = Some i"
  shows "find (\<lambda>x. k x = w) (vec_remove i xs) = (if w = v then None else find (\<lambda>x. k x = w) xs)"
    and "\<exists>x. find (\<lambda>x. k x = v) xs = Some x"
proof -
  obtain x where x: "k x = v" "vec_remove i xs = takeWhile (\<lambda>y. k y \<noteq> v) xs @ drop (Suc i) xs"
    "xs = takeWhile (\<lambda>y. k y \<noteq> v) xs @ x # drop (Suc i) xs" and mem: "x \<in> set xs"
    using vec_remove_position [OF pos] by blast
  let ?a = "takeWhile (\<lambda>y. k y \<noteq> v) xs" and ?b = "drop (Suc i) xs"
  have find_app: "find p (us @ vs) = (case find p us of None \<Rightarrow> find p vs | s \<Rightarrow> s)"
    for p us vs
    by (induction us) auto
  have dist: "distinct (map k (?a @ x # ?b))" using d x(3) by simp
  show "find (\<lambda>x. k x = w) (vec_remove i xs) = (if w = v then None else find (\<lambda>x. k x = w) xs)"
  proof (cases "w = v")
    case True
    have "v \<notin> k ` set (?a @ ?b)" using dist x(1) by auto
    then have "find (\<lambda>x. k x = v) (?a @ ?b) = None" by (simp add: find_None_iff_key)
    with True x(2) show ?thesis by simp
  next
    case False
    have "find (\<lambda>x. k x = w) (?a @ x # ?b) = find (\<lambda>x. k x = w) (?a @ ?b)"
      using False x(1) by (simp add: find_app split: option.splits)
    with False x(2,3) show ?thesis by simp
  qed
  show "\<exists>x. find (\<lambda>x. k x = v) xs = Some x"
    using mem x(1) find_Some_iff_unique [OF d] by blast
qed

lemma find_insert_partition:
  fixes k :: "'a \<Rightarrow> 'k::linorder"
  assumes "sorted_wrt (<) (map k xs)" and "k x \<notin> k ` set xs"
  shows "find (\<lambda>y. k y = w) (vec_insert (partition_point (\<lambda>y. k y < k x) xs) x xs) =
           (if w = k x then Some x else find (\<lambda>y. k y = w) xs)"
proof -
  let ?ys = "vec_insert (partition_point (\<lambda>y. k y < k x) xs) x xs"
  have d: "distinct (map k ?ys)"
    by (rule sorted_lt_distinct) (rule sorted_insert_partition [OF assms])
  have dx: "distinct (map k xs)" by (rule sorted_lt_distinct) (rule assms(1))
  show ?thesis
  proof (cases "w = k x")
    case True
    then show ?thesis using find_Some_iff_unique [OF d] by simp
  next
    case False
    show ?thesis
    proof (cases "find (\<lambda>y. k y = w) xs")
      case None
      then have "find (\<lambda>y. k y = w) ?ys = None" using False by (auto simp: find_None_iff_key)
      with None False show ?thesis by simp
    next
      case (Some y)
      then have "find (\<lambda>y. k y = w) ?ys = Some y"
        using find_Some_iff_unique [OF d] find_Some_iff_unique [OF dx] by simp
      with Some False show ?thesis by simp
    qed
  qed
qed

subsection \<open>The journal's mutators\<close>

lemma abs_mints:
  "(\<And>k. find (\<lambda>m. mp_ix m = k) ms = M k) \<Longrightarrow>
     abs_registry (r\<lparr>in_progress := ms\<rparr>) = (abs_registry r)\<lparr>sp_mints := M\<rparr>"
  by (simp add: abs_registry_def)

lemma active_ok_mints [simp]: "active_ok (r\<lparr>in_progress := ms\<rparr>) = active_ok r"
  by (simp add: active_ok_def registry_live_def split: option.split)

lemma mint_position_iff:
  "mint_position r ix = None \<longleftrightarrow> ix \<notin> mp_ix ` set (in_progress r)"
  by (auto simp: mint_position_def position_None)

lemma contains_iff: "registry_contains r ix \<longleftrightarrow> ix \<in> en_ix ` set (entries r)"
  by (auto simp: registry_contains_def get_None_iff)

lemma sorted_mints:
  "registry_sorted (r\<lparr>in_progress := ms\<rparr>) \<longleftrightarrow>
     sorted_wrt (<) (map en_ix (entries r)) \<and> sorted_wrt (<) (map mp_ix ms)"
  by (simp add: registry_sorted_def)

lemma static_ok_mints:
  assumes st: "static_ok did_of r" and d: "distinct (map mp_ix ms)"
    and fresh: "mp_ix ` set ms \<inter> en_ix ` set (entries r) = {}"
    and ok: "list_all (mint_ok did_of) ms"
  shows "static_ok did_of (r\<lparr>in_progress := ms\<rparr>)"
  using st d fresh ok by (auto simp: static_ok_def known_ixs_distinct_parts)

lemma mints_not_entries:
  "static_ok did_of r \<Longrightarrow> mp_ix ` set (in_progress r) \<inter> en_ix ` set (entries r) = {}"
  by (fastforce simp: static_ok_def known_ixs_distinct_parts)

lemma reserve_mint_cases:
  assumes wf: "registry_wf did_of r" and stage: "stage_ok did_of (mp_stage m)"
  shows
    "(\<exists>e. reserve_mint did_of m r = Returns (Err e) r) \<or>
     (\<exists>r'. reserve_mint did_of m r = Returns (Ok ()) r' \<and> registry_wf did_of r' \<and>
        registry_get r (mp_ix m) = None \<and>
        find (\<lambda>x. mp_ix x = mp_ix m) (in_progress r) = None \<and>
        mp_store_fee m \<le> MAX_MINT_FEE_MOJOS \<and>
        abs_registry r' =
          (abs_registry r)\<lparr>sp_mints := (sp_mints (abs_registry r))(mp_ix m \<mapsto> m)\<rparr>)"
proof (cases "registry_contains r (mp_ix m) \<or> mint_position r (mp_ix m) \<noteq> None \<or>
    MAX_MINT_FEE_MOJOS < mp_store_fee m")
  case True
  then show ?thesis by (auto simp: reserve_mint_def Let_def)
next
  case False
  let ?ms = "vec_insert (partition_point (\<lambda>x. mp_ix x < mp_ix m) (in_progress r)) m (in_progress r)"
  let ?r = "r\<lparr>in_progress := ?ms\<rparr>"
  have new: "mp_ix m \<notin> mp_ix ` set (in_progress r)" using False by (simp add: mint_position_iff)
  have srt: "sorted_wrt (<) (map mp_ix (in_progress r))"
    using wfD(3) [OF wf] by (simp add: registry_sorted_def)
  have srt': "sorted_wrt (<) (map mp_ix ?ms)" by (rule sorted_insert_partition [OF srt new])
  have "static_ok did_of ?r"
  proof (rule static_ok_mints [OF wfD(1) [OF wf] sorted_lt_distinct [OF srt']])
    show "mp_ix ` set ?ms \<inter> en_ix ` set (entries r) = {}"
      using mints_not_entries [OF wfD(1) [OF wf]] False by (auto simp: contains_iff)
    have "list_all (mint_ok did_of) (in_progress r)"
      using wfD(1) [OF wf] by (simp add: static_ok_def)
    then show "list_all (mint_ok did_of) ?ms"
      using False stage by (auto simp: list_all_iff mint_ok_def not_less)
  qed
  then have wf': "registry_wf did_of ?r"
    using wfD(2,3) [OF wf] srt'
    by (simp add: registry_wf_def registry_ok_def sorted_mints registry_sorted_def)
  have "abs_registry ?r = (abs_registry r)\<lparr>sp_mints := (sp_mints (abs_registry r))(mp_ix m \<mapsto> m)\<rparr>"
    by (rule abs_mints) (simp add: find_insert_partition [OF srt new])
  moreover have "reserve_mint did_of m r = Returns (Ok ()) ?r"
    using False wf' by (simp add: reserve_mint_def Let_def expect_valid_eq registry_wf_def)
  moreover have "registry_get r (mp_ix m) = None"
    using False by (simp add: registry_contains_def)
  moreover have "find (\<lambda>x. mp_ix x = mp_ix m) (in_progress r) = None"
    using new by (simp add: find_None_iff_key)
  ultimately show ?thesis using wf' False by (auto simp: not_less)
qed

lemma begin_mint_meets:
  assumes "registry_wf did_of r" and "stage_ok did_of stage"
  shows "cmd_meets did_of (BeginMint ix stage fee) r"
  using reserve_mint_cases [of did_of r "mint_in_progress_new ix stage fee"] assms
    Step_begin [of "abs_registry r" ix fee stage]
  by (auto simp: cmd_meets_def begin_mint_def mint_in_progress_new_def)

lemma begin_seeded_mint_meets:
  assumes "registry_wf did_of r" and "stage_ok did_of stage"
  shows "cmd_meets did_of (BeginSeededMint ix stage root fee) r"
  using reserve_mint_cases [of did_of r "mint_in_progress_with_seed_root ix stage root fee"] assms
    Step_begin_seeded [of "abs_registry r" ix fee stage root]
  by (auto simp: cmd_meets_def begin_seeded_mint_def mint_in_progress_with_seed_root_def)

lemma abandon_mint_meets:
  assumes wf: "registry_wf did_of r"
  shows "cmd_meets did_of (AbandonMint ix) r"
proof (cases "mint_position r ix")
  case None
  then show ?thesis by (simp add: cmd_meets_def abandon_mint_def)
next
  case (Some pos)
  let ?r = "r\<lparr>in_progress := vec_remove pos (in_progress r)\<rparr>"
  have pos: "position (\<lambda>m. mp_ix m = ix) (in_progress r) = Some pos"
    using Some by (simp add: mint_position_def)
  have srt: "sorted_wrt (<) (map mp_ix (vec_remove pos (in_progress r)))"
    using wfD(3) [OF wf] by (simp add: registry_sorted_def sorted_vec_remove)
  have sub: "set (vec_remove pos (in_progress r)) \<subseteq> set (in_progress r)"
    by (rule set_vec_remove_subset)
  have "static_ok did_of ?r"
  proof (rule static_ok_mints [OF wfD(1) [OF wf] sorted_lt_distinct [OF srt]])
    show "mp_ix ` set (vec_remove pos (in_progress r)) \<inter> en_ix ` set (entries r) = {}"
      using mints_not_entries [OF wfD(1) [OF wf]] sub by fast
    have "list_all (mint_ok did_of) (in_progress r)"
      using wfD(1) [OF wf] by (simp add: static_ok_def)
    with sub show "list_all (mint_ok did_of) (vec_remove pos (in_progress r))"
      by (auto simp: list_all_iff)
  qed
  then have wf': "registry_wf did_of ?r"
    using wfD(2,3) [OF wf] srt
    by (simp add: registry_wf_def registry_ok_def sorted_mints registry_sorted_def)
  note found = find_after_remove [OF wfD(5) [OF wf] pos]
  obtain m where "find (\<lambda>m. mp_ix m = ix) (in_progress r) = Some m" using found(2) by blast
  moreover have "abs_registry ?r = (abs_registry r)\<lparr>sp_mints := (sp_mints (abs_registry r))(ix := None)\<rparr>"
    by (rule abs_mints) (simp add: found(1))
  ultimately have "registry_step (abs_registry r) (AbandonMint ix) (abs_registry ?r)"
    using Step_abandon [of "abs_registry r" ix m] by simp
  with Some wf' show ?thesis
    by (simp add: cmd_meets_def abandon_mint_def expect_valid_eq registry_wf_def)
qed

lemma advance_mint_abs:
  assumes wf: "registry_wf did_of r" and some: "mint_position r ix = Some pos"
  shows "registry_step (abs_registry r) (AdvanceMint ix stage)
    (abs_registry (r\<lparr>in_progress := (in_progress r)[pos := (in_progress r ! pos)\<lparr>mp_stage := stage\<rparr>]\<rparr>))"
proof -
  let ?m = "in_progress r ! pos"
  let ?ms = "(in_progress r)[pos := ?m\<lparr>mp_stage := stage\<rparr>]"
  have pos: "pos < length (in_progress r)" "mp_ix ?m = ix"
    using some position_Some [of "\<lambda>m. mp_ix m = ix" "in_progress r" pos]
    by (auto simp: mint_position_def)
  have "map mp_ix ?ms = map mp_ix (in_progress r)"
    using pos(1) by (simp add: map_update list_update_same_conv)
  then have d': "distinct (map mp_ix ?ms)" using wfD(5) [OF wf] by simp
  have found: "find (\<lambda>m. mp_ix m = ix) (in_progress r) = Some ?m"
    using find_Some_iff_unique [OF wfD(5) [OF wf]] pos by simp
  have "find (\<lambda>m. mp_ix m = k) ?ms =
      ((sp_mints (abs_registry r))(ix \<mapsto> ?m\<lparr>mp_stage := stage\<rparr>)) k" for k
  proof (cases "k = ix")
    case True
    have "?m\<lparr>mp_stage := stage\<rparr> \<in> set ?ms" using pos(1) by (simp add: set_update_memI)
    then show ?thesis using True pos(2) find_Some_iff_unique [OF d'] by simp
  next
    case False
    have "find (\<lambda>m. mp_ix m = k) (xs[i := x]) = find (\<lambda>m. mp_ix m = k) xs"
      if "i < length xs" "mp_ix (xs ! i) \<noteq> k" "mp_ix x \<noteq> k" for xs i and x :: mint_in_progress
      using that by (induction xs arbitrary: i) (auto split: nat.splits)
    then show ?thesis using False pos by simp
  qed
  then have "abs_registry (r\<lparr>in_progress := ?ms\<rparr>) =
      (abs_registry r)\<lparr>sp_mints := (sp_mints (abs_registry r))(ix \<mapsto> ?m\<lparr>mp_stage := stage\<rparr>)\<rparr>"
    by (rule abs_mints)
  then show ?thesis using Step_advance [of "abs_registry r" ix ?m stage] found by simp
qed

lemma advance_mint_meets:
  assumes wf: "registry_wf did_of r" and stage: "stage_ok did_of stage"
  shows "cmd_meets did_of (AdvanceMint ix stage) r"
proof (cases "mint_position r ix")
  case None
  then show ?thesis by (simp add: cmd_meets_def advance_mint_def)
next
  case (Some pos)
  let ?m = "in_progress r ! pos"
  let ?ms = "(in_progress r)[pos := ?m\<lparr>mp_stage := stage\<rparr>]"
  let ?r = "r\<lparr>in_progress := ?ms\<rparr>"
  have pos: "pos < length (in_progress r)" "mp_ix ?m = ix"
    using Some position_Some [of "\<lambda>m. mp_ix m = ix" "in_progress r" pos]
    by (auto simp: mint_position_def)
  have ixs: "map mp_ix ?ms = map mp_ix (in_progress r)"
    using pos(1) by (simp add: map_update list_update_same_conv)
  have mem: "set ?ms \<subseteq> insert (?m\<lparr>mp_stage := stage\<rparr>) (set (in_progress r))"
    by (rule set_update_subset_insert)
  have m: "?m \<in> set (in_progress r)" using pos(1) by simp
  have mints: "list_all (mint_ok did_of) (in_progress r)"
    using wfD(1) [OF wf] by (simp add: static_ok_def)
  have "static_ok did_of ?r"
  proof (rule static_ok_mints [OF wfD(1) [OF wf]])
    show "distinct (map mp_ix ?ms)" using wfD(5) [OF wf] ixs by simp
    show "mp_ix ` set ?ms \<inter> en_ix ` set (entries r) = {}"
      using mints_not_entries [OF wfD(1) [OF wf]] arg_cong [OF ixs, of set] by simp
    have "mint_ok did_of (?m\<lparr>mp_stage := stage\<rparr>)"
      using mints m stage by (auto simp: list_all_iff mint_ok_def)
    with mem mints show "list_all (mint_ok did_of) ?ms" by (auto simp: list_all_iff)
  qed
  then have wf': "registry_wf did_of ?r"
    using wfD(2,3) [OF wf] ixs
    by (simp add: registry_wf_def registry_ok_def sorted_mints registry_sorted_def)
  have "registry_step (abs_registry r) (AdvanceMint ix stage) (abs_registry ?r)"
    by (rule advance_mint_abs [OF wf Some])
  with Some wf' show ?thesis by (simp add: cmd_meets_def advance_mint_def)
qed

subsection \<open>Recording a mint\<close>

lemma anchor_from_confirmed_ok:
  assumes "did_honest did_of did" and "cs_confirmed_height store \<noteq> 0"
    and "anchor_from_confirmed did store = Ok a"
  shows "anchor_ok did_of a" and "an_launcher_id a = md_launcher_id did"
  using assms
  by (auto simp: anchor_from_confirmed_def did_honest_def anchor_ok_def pairing_holds_def
           split: if_splits)

lemma holder_of_None:
  "holder_of r l = None \<longleftrightarrow> (\<forall>e\<in>set (entries r). entry_launcher e \<noteq> l)"
  by (auto simp: holder_of_def find_None_iff)

lemma find_filter_ne:
  "find (\<lambda>m. k m = w) (filter (\<lambda>m. k m \<noteq> v) xs) = (if w = v then None else find (\<lambda>m. k m = w) xs)"
  by (induction xs) auto

lemma distinct_map_vec_insert:
  assumes "distinct (map k xs)" and "k x \<notin> k ` set xs"
  shows "distinct (map k (vec_insert i x xs))"
proof -
  have *: "distinct (map k (us @ x # vs))"
    if "distinct (map k (us @ vs))" "k x \<notin> k ` set (us @ vs)" for us vs
    using that by auto
  show ?thesis unfolding vec_insert_def by (rule *) (use assms in simp_all)
qed

text \<open>The registry an accepted \<open>record_minted\<close> leaves.\<close>

definition after_minted ::
  "profile_ix \<Rightarrow> profile_anchor \<Rightarrow> string option \<Rightarrow> profile_registry \<Rightarrow> profile_registry" where
  "after_minted ix anchor label r =
     \<lparr>entries = vec_insert (partition_point (\<lambda>e. en_ix e < ix) (entries r))
                  (profile_entry_new ix anchor label) (entries r),
      active_ix = (case active_ix r of None \<Rightarrow> Some ix | Some a \<Rightarrow> Some a),
      in_progress = filter (\<lambda>m. mp_ix m \<noteq> ix) (in_progress r)\<rparr>"

lemma new_entry [simp]:
  "en_ix (profile_entry_new ix a l) = ix" "en_anchor (profile_entry_new ix a l) = a"
  "is_live (profile_entry_new ix a l)" "is_shown (profile_entry_new ix a l)"
  "en_ended (profile_entry_new ix a l) = None"
  by (simp_all add: profile_entry_new_def is_live_def is_shown_def)

lemma record_minted_accepts:
  assumes "registry_get r ix = None" and "holder_of r (md_launcher_id did) = None"
    and "anchor_from_confirmed did store = Ok a"
  shows "record_minted did_of ix did store label r =
           expect_valid did_of (after_minted ix a label r) (Ok (profile_entry_new ix a label))"
  using assms nth_vec_insert_partition [of "\<lambda>e. en_ix e < ix" "entries r" "profile_entry_new ix a label"]
  by (cases r) (auto simp: record_minted_def registry_contains_def Let_def after_minted_def
                     split: option.split)

lemma after_minted_get:
  assumes wf: "registry_wf did_of r" and new: "registry_get r ix = None"
  shows "registry_get (after_minted ix a label r) =
           (registry_get r)(ix \<mapsto> profile_entry_new ix a label)"
proof
  fix k
  have srt: "sorted_wrt (<) (map en_ix (entries r))"
    using wfD(3) [OF wf] by (simp add: registry_sorted_def)
  have fresh: "en_ix (profile_entry_new ix a label) \<notin> en_ix ` set (entries r)"
    using new by (simp add: get_None_iff)
  show "registry_get (after_minted ix a label r) k =
      ((registry_get r)(ix \<mapsto> profile_entry_new ix a label)) k"
    using find_insert_partition [OF srt fresh, of k]
    by (simp add: after_minted_def registry_get_def)
qed

lemma after_minted_wf:
  assumes wf: "registry_wf did_of r" and new: "registry_get r ix = None"
    and id: "\<forall>e\<in>set (entries r). entry_launcher e \<noteq> an_launcher_id a"
    and a: "anchor_ok did_of a"
  shows "registry_wf did_of (after_minted ix a label r)"
proof -
  let ?e = "profile_entry_new ix a label" and ?r = "after_minted ix a label r"
  let ?es = "vec_insert (partition_point (\<lambda>e. en_ix e < ix) (entries r)) ?e (entries r)"
  have es: "entries ?r = ?es" by (simp add: after_minted_def)
  have srt: "sorted_wrt (<) (map en_ix (entries r))"
    using wfD(3) [OF wf] by (simp add: registry_sorted_def)
  have fresh: "en_ix ?e \<notin> en_ix ` set (entries r)" using new by (simp add: get_None_iff)
  have srt': "sorted_wrt (<) (map en_ix ?es)"
    using sorted_insert_partition [OF srt fresh] by simp
  have ids: "distinct (map entry_launcher ?es)"
    using wfD(1) [OF wf] id by (intro distinct_map_vec_insert) (auto simp: static_ok_def)
  have ixs: "distinct (known_ixs ?r)"
    using wfD(5) [OF wf] sorted_lt_distinct [OF srt'] mints_not_entries [OF wfD(1) [OF wf]]
    by (auto simp: known_ixs_distinct_parts after_minted_def distinct_map_filter)
  have "list_all (entry_ok did_of) ?es"
    using wfD(1) [OF wf] a by (auto simp: list_all_iff static_ok_def entry_ok_def)
  moreover have "list_all (mint_ok did_of) (in_progress ?r)"
    using wfD(1) [OF wf] by (auto simp: list_all_iff static_ok_def after_minted_def)
  ultimately have st: "static_ok did_of ?r"
    using ids ixs by (simp add: static_ok_def es)
  have "active_ok ?r"
  proof (cases "active_ix r")
    case None
    then have "active_ix ?r = Some ix" by (simp add: after_minted_def)
    then show ?thesis by (simp add: active_ok_def after_minted_get [OF wf new])
  next
    case (Some k)
    then have act: "active_ix ?r = Some k" by (simp add: after_minted_def)
    obtain e where "registry_get r k = Some e" "is_live e" "is_shown e"
      using activeD [OF wfD(2) [OF wf] Some] by blast
    with new act show ?thesis by (auto simp: active_ok_def after_minted_get [OF wf new])
  qed
  moreover have "registry_sorted ?r"
    using srt' wfD(3) [OF wf]
    by (simp add: registry_sorted_def es after_minted_def sorted_wrt_map sorted_wrt_filter)
  ultimately show ?thesis using st by (simp add: registry_wf_def registry_ok_def)
qed

lemma after_minted_abs:
  assumes wf: "registry_wf did_of r" and new: "registry_get r ix = None"
  shows "abs_registry (after_minted ix a label r) =
           (abs_registry r)\<lparr>sp_profiles := (registry_get r)(ix \<mapsto> profile_entry_new ix a label),
              sp_mints := (sp_mints (abs_registry r))(ix := None),
              sp_active := (case active_ix r of None \<Rightarrow> Some ix | Some b \<Rightarrow> Some b)\<rparr>"
proof -
  have "(\<lambda>k. find (\<lambda>m. mp_ix m = k) (in_progress (after_minted ix a label r))) =
      (sp_mints (abs_registry r))(ix := None)"
    by (rule ext) (simp add: after_minted_def find_filter_ne)
  then show ?thesis
    by (simp add: abs_registry_def after_minted_get [OF wf new])
       (simp add: after_minted_def)
qed

lemma record_minted_meets:
  assumes wf: "registry_wf did_of r" and did: "did_honest did_of did"
    and store: "cs_confirmed_height store \<noteq> 0"
  shows "cmd_meets did_of (RecordMinted ix did store label) r"
proof (cases "registry_get r ix")
  case (Some e)
  then show ?thesis by (simp add: cmd_meets_def record_minted_def registry_contains_def)
next
  case None
  show ?thesis
  proof (cases "holder_of r (md_launcher_id did)")
    case (Some existing)
    with None show ?thesis by (simp add: cmd_meets_def record_minted_def registry_contains_def)
  next
    case free: None
    show ?thesis
    proof (cases "anchor_from_confirmed did store")
      case (Err e)
      with None free show ?thesis
        by (simp add: cmd_meets_def record_minted_def registry_contains_def)
    next
      case (Ok a)
      note a = anchor_from_confirmed_ok [OF did store Ok]
      have wf': "registry_wf did_of (after_minted ix a label r)"
        using free a by (intro after_minted_wf [OF wf None]) (simp_all add: holder_of_None)
      have "\<forall>k e. registry_get r k = Some e \<longrightarrow> entry_launcher e \<noteq> md_launcher_id did"
        using free get_SomeD by (fastforce simp: holder_of_None)
      then have "registry_step (abs_registry r) (RecordMinted ix did store label)
          (abs_registry (after_minted ix a label r))"
        unfolding after_minted_abs [OF wf None]
        using Step_minted [of "abs_registry r" ix did store a label] None Ok by simp
      with wf' show ?thesis
        by (simp add: cmd_meets_def record_minted_accepts [OF None free Ok] expect_valid_eq
              registry_wf_def)
    qed
  qed
qed

section \<open>All commands\<close>

lemma exec_cmd_meets:
  assumes "registry_wf did_of r" and "cmd_honest did_of c"
  shows "cmd_meets did_of c r"
  using assms
  by (cases c)
     (auto intro: record_minted_meets set_active_meets set_visibility_meets record_melted_meets
        set_label_meets begin_mint_meets begin_seeded_mint_meets advance_mint_meets
        abandon_mint_meets)

lemma exec_cmd_Ok:
  assumes "registry_wf did_of r" and "cmd_honest did_of c"
    and "exec_cmd did_of c r = Returns (Ok ()) r'"
  shows "registry_wf did_of r'" and "registry_step (abs_registry r) c (abs_registry r')"
  using exec_cmd_meets [OF assms(1,2)] assms(3) by (simp_all add: cmd_meets_def)

lemma exec_cmd_Err:
  assumes "registry_wf did_of r" and "cmd_honest did_of c"
    and "exec_cmd did_of c r = Returns (Err e) r'"
  shows "r' = r"
  using exec_cmd_meets [OF assms(1,2)] assms(3) by (simp add: cmd_meets_def)

lemma exec_cmd_wf:
  assumes "registry_wf did_of r" and "cmd_honest did_of c"
    and "exec_cmd did_of c r = Returns res r'"
  shows "registry_wf did_of r'"
  using exec_cmd_Ok(1) [OF assms(1,2)] exec_cmd_Err [OF assms(1,2)] assms(1,3)
  by (cases res) auto

lemma exec_cmd_panics_iff:
  assumes "registry_wf did_of r" and "cmd_honest did_of c"
  shows "(\<exists>r'. exec_cmd did_of c r = Panics r') \<longleftrightarrow> cmd_panics r c"
  using exec_cmd_meets [OF assms] by (auto simp: cmd_meets_def split: run.splits)

lemma registry_empty_wf: "registry_wf did_of registry_empty"
  by (simp add: registry_wf_def registry_ok_def registry_sorted_def static_ok_def known_ixs_def
        active_ok_def registry_live_def registry_empty_def)

lemma exec_cmds_wf:
  assumes "registry_wf did_of r" and "list_all (cmd_honest did_of) cs"
    and "exec_cmds did_of cs r = Returns () r'"
  shows "registry_wf did_of r'"
  using assms
proof (induction cs arbitrary: r)
  case Nil
  then show ?case by simp
next
  case (Cons c cs)
  then obtain res r1 where r1: "exec_cmd did_of c r = Returns res r1"
    and rest: "exec_cmds did_of cs r1 = Returns () r'"
    by (auto split: run.splits)
  have "registry_wf did_of r1" using exec_cmd_wf [OF _ _ r1] Cons.prems by simp
  with rest Cons show ?case by simp
qed

end
