(* ===== verification/Registry_Sessions.thy ===== *)
theory Registry_Sessions
  imports Registry_Invariants
begin

text \<open>
  The registry of \<open>src/registry/registry.rs\<close> under calls that carry anything at all. A journalled
  stage is plain data whoever calls can write, and nothing but a constructor's visibility vouches for
  the evidence of \<open>record_minted\<close>: here is what each call does with a record that is not what it
  claims (a refusal, a panic of the re-check, or, for \<open>advance_mint\<close> alone, acceptance), and what
  holds of the registry after any session that runs to its end.
\<close>

section \<open>Calls with evidence or stages no constructor made\<close>

text \<open>The calls that get past every refusal to the re-check, with a record of the caller's in hand.\<close>

fun cmd_reaches :: "profile_registry \<Rightarrow> registry_cmd \<Rightarrow> bool" where
  "cmd_reaches r (RecordMinted ix did store label) \<longleftrightarrow>
     registry_get r ix = None \<and> holder_of r (md_launcher_id did) = None \<and>
     (\<exists>a. anchor_from_confirmed did store = Ok a)"
| "cmd_reaches r (BeginMint ix stage fee) \<longleftrightarrow> ix \<notin> set (known_ixs r) \<and> fee \<le> MAX_MINT_FEE_MOJOS"
| "cmd_reaches r (BeginSeededMint ix stage root fee) \<longleftrightarrow>
     ix \<notin> set (known_ixs r) \<and> fee \<le> MAX_MINT_FEE_MOJOS"
| "cmd_reaches r _ \<longleftrightarrow> False"

lemma anchor_ok_iff_honest:
  "anchor_from_confirmed did store = Ok a \<Longrightarrow>
     anchor_ok did_of a \<longleftrightarrow> did_honest did_of did \<and> cs_confirmed_height store \<noteq> 0"
  by (auto simp: anchor_from_confirmed_def did_honest_def anchor_ok_def pairing_holds_def split: if_splits)

lemma after_minted_refused:
  "\<not> anchor_ok did_of a \<Longrightarrow> \<not> registry_ok did_of (after_minted ix a label r)"
  by (auto simp: registry_ok_def static_ok_def after_minted_def vec_insert_def entry_ok_def)

lemma record_minted_dishonest:
  assumes "\<not> (did_honest did_of did \<and> cs_confirmed_height store \<noteq> 0)"
  shows "if cmd_reaches r (RecordMinted ix did store label)
    then \<exists>r'. record_minted did_of ix did store label r = Panics r'
    else \<exists>e. record_minted did_of ix did store label r = Returns (Err e) r"
proof (cases "cmd_reaches r (RecordMinted ix did store label)")
  case True
  then obtain a where a: "registry_get r ix = None" "holder_of r (md_launcher_id did) = None"
    "anchor_from_confirmed did store = Ok a" by auto
  have "\<not> anchor_ok did_of a" using anchor_ok_iff_honest [OF a(3)] assms by blast
  from after_minted_refused [OF this] True show ?thesis
    by (simp add: record_minted_accepts [OF a] expect_valid_eq)
next
  case False
  then show ?thesis
    by (auto simp: record_minted_def registry_contains_def split: option.splits result.splits)
qed

lemma mints_refused:
  "m \<in> set ms \<Longrightarrow> \<not> stage_ok did_of (mp_stage m) \<Longrightarrow> \<not> registry_ok did_of (r\<lparr>in_progress := ms\<rparr>)"
  by (auto simp: registry_ok_def static_ok_def list_all_iff mint_ok_def)

lemma known_ixs_iff:
  "ix \<in> set (known_ixs r) \<longleftrightarrow> registry_contains r ix \<or> mint_position r ix \<noteq> None"
  by (auto simp: known_ixs_def contains_iff mint_position_iff)

lemma reserve_mint_dishonest:
  assumes "\<not> stage_ok did_of (mp_stage m)"
  shows "if mp_ix m \<notin> set (known_ixs r) \<and> mp_store_fee m \<le> MAX_MINT_FEE_MOJOS
    then \<exists>r'. reserve_mint did_of m r = Panics r'
    else \<exists>e. reserve_mint did_of m r = Returns (Err e) r"
proof -
  have "\<not> registry_ok did_of (r\<lparr>in_progress := vec_insert i m (in_progress r)\<rparr>)" for i
    by (rule mints_refused [OF _ assms]) (simp add: vec_insert_def)
  then show ?thesis
    by (auto simp: reserve_mint_def Let_def expect_valid_eq known_ixs_iff not_less)
qed

lemma dishonest_cmd:
  assumes "\<not> cmd_honest did_of c" and "\<And>ix stage. c \<noteq> AdvanceMint ix stage"
  shows "if cmd_reaches r c then \<exists>r'. exec_cmd did_of c r = Panics r'
    else \<exists>e. exec_cmd did_of c r = Returns (Err e) r"
proof (cases c)
  case (RecordMinted ix did store label)
  then show ?thesis
    using assms(1) record_minted_dishonest [of did_of did store r ix label] by (auto split: if_splits)
next
  case (BeginMint ix stage fee)
  then show ?thesis
    using assms(1) reserve_mint_dishonest [of did_of "mint_in_progress_new ix stage fee" r]
    by (auto simp: begin_mint_def mint_in_progress_new_def split: if_splits)
next
  case (BeginSeededMint ix stage root fee)
  then show ?thesis
    using assms(1) reserve_mint_dishonest [of did_of "mint_in_progress_with_seed_root ix stage root fee" r]
    by (auto simp: begin_seeded_mint_def mint_in_progress_with_seed_root_def split: if_splits)
qed (use assms in auto)

lemma advance_mint_returns: "\<exists>res r'. advance_mint ix stage r = Returns res r'"
  by (auto simp: advance_mint_def split: option.split)

lemma exec_cmd_panics_exactly:
  assumes "registry_wf did_of r"
  shows "(\<exists>r'. exec_cmd did_of c r = Panics r') \<longleftrightarrow>
    cmd_panics r c \<or> cmd_reaches r c \<and> \<not> cmd_honest did_of c"
proof (cases "cmd_honest did_of c")
  case True
  then show ?thesis using exec_cmd_panics_iff [OF assms] by blast
next
  case False
  then have other: "\<not> cmd_panics r c" by (cases c) auto
  show ?thesis
  proof (cases "\<exists>ix stage. c = AdvanceMint ix stage")
    case True
    then obtain ix stage where c: "c = AdvanceMint ix stage" by blast
    show ?thesis using advance_mint_returns [of ix stage r] by (auto simp: c)
  next
    case adv: False
    then show ?thesis using dishonest_cmd [OF False, of r] other False by (auto split: if_splits)
  qed
qed

section \<open>What a call that returns leaves\<close>

lemma advance_mint_step:
  assumes wf: "registry_wf did_of r" and "advance_mint ix stage r = Returns (Ok ()) r'"
  shows "registry_step (abs_registry r) (AdvanceMint ix stage) (abs_registry r')"
    and "registry_wf did_of r' \<longleftrightarrow> stage_ok did_of stage"
proof -
  obtain pos where pos: "mint_position r ix = Some pos"
    and r': "r' = r\<lparr>in_progress := (in_progress r)[pos := (in_progress r ! pos)\<lparr>mp_stage := stage\<rparr>]\<rparr>"
    using assms(2) by (auto simp: advance_mint_def split: option.splits)
  show "registry_step (abs_registry r) (AdvanceMint ix stage) (abs_registry r')"
    unfolding r' by (rule advance_mint_abs [OF wf pos])
  show "registry_wf did_of r' \<longleftrightarrow> stage_ok did_of stage"
  proof
    assume "registry_wf did_of r'"
    moreover have "pos < length (in_progress r)"
      using pos position_Some [of "\<lambda>m. mp_ix m = ix" "in_progress r" pos] by (simp add: mint_position_def)
    then have "(in_progress r ! pos)\<lparr>mp_stage := stage\<rparr> \<in> set (in_progress r')"
      by (simp add: r' set_update_memI)
    ultimately show "stage_ok did_of stage"
      by (fastforce simp: registry_wf_def registry_ok_def static_ok_def list_all_iff mint_ok_def)
  next
    assume "stage_ok did_of stage"
    then show "registry_wf did_of r'"
      using advance_mint_meets [OF wf, of stage ix] assms(2) by (simp add: cmd_meets_def)
  qed
qed

section \<open>Sessions of any calls\<close>

lemma exec_cmds_Cons:
  "exec_cmds did_of (c # cs) r = Returns () r' \<longleftrightarrow>
     (\<exists>res r1. exec_cmd did_of c r = Returns res r1 \<and> exec_cmds did_of cs r1 = Returns () r')"
  by (auto split: run.splits)

text \<open>Every invariant but those on the stages of the journal.\<close>

definition sound_but_stages :: "(bytes32 \<Rightarrow> string) \<Rightarrow> profile_registry \<Rightarrow> bool" where
  "sound_but_stages did_of r \<longleftrightarrow>
     registry_wf did_of (r\<lparr>in_progress := []\<rparr>) \<and> sorted_wrt (<) (map mp_ix (in_progress r)) \<and>
     (\<forall>m \<in> set (in_progress r).
        mp_ix m \<notin> en_ix ` set (entries r) \<and> mp_store_fee m \<le> MAX_MINT_FEE_MOJOS)"

lemma wf_iff_sound:
  "registry_wf did_of r \<longleftrightarrow>
     sound_but_stages did_of r \<and> (\<forall>m \<in> set (in_progress r). stage_ok did_of (mp_stage m))"
proof -
  have apart: "(\<forall>e \<in> set (entries r). \<forall>m \<in> set (in_progress r). en_ix e \<noteq> mp_ix m) \<longleftrightarrow>
      (\<forall>m \<in> set (in_progress r). mp_ix m \<notin> en_ix ` set (entries r))"
    by force
  show ?thesis
    unfolding sound_but_stages_def registry_wf_def registry_ok_def static_ok_def known_ixs_distinct_parts
      registry_sorted_def
    by (simp add: apart list_all_iff mint_ok_def ball_conj_distrib) (blast dest: sorted_lt_distinct)
qed

lemma sound_set_label:
  assumes sound: "sound_but_stages did_of r" and run: "set_label ix l r = Returns (Ok ()) r'"
  shows "sound_but_stages did_of r'" and "in_progress r' = in_progress r"
proof -
  have r': "r' = write_entry ix (entry_set_label l) r" and known: "registry_contains r ix"
    using run by (auto simp: set_label_def split: if_splits)
  have "set_label ix l (r\<lparr>in_progress := []\<rparr>) = Returns (Ok ()) (r'\<lparr>in_progress := []\<rparr>)"
    using known by (simp add: set_label_def r' registry_contains_def)
  then have "registry_wf did_of (r'\<lparr>in_progress := []\<rparr>)"
    using set_label_meets [of did_of "r\<lparr>in_progress := []\<rparr>" ix l] sound
    by (simp add: sound_but_stages_def cmd_meets_def)
  moreover have "en_ix ` set (entries r') = en_ix ` set (entries r)"
    using arg_cong [OF write_entry_keys(1) [OF keeps_identity_writes(2)], of set] by (simp add: r')
  ultimately show "sound_but_stages did_of r'"
    using sound by (simp add: sound_but_stages_def r')
  show "in_progress r' = in_progress r" by (simp add: r')
qed

lemma sound_advance_mint:
  assumes sound: "sound_but_stages did_of r" and run: "advance_mint ix stage r = Returns (Ok ()) r'"
  shows "sound_but_stages did_of r'"
    and "m \<in> set (in_progress r') \<Longrightarrow> m \<in> set (in_progress r) \<or> mp_ix m = ix \<and> mp_stage m = stage"
proof -
  obtain pos where pos: "mint_position r ix = Some pos"
    and r': "r' = r\<lparr>in_progress := (in_progress r)[pos := (in_progress r ! pos)\<lparr>mp_stage := stage\<rparr>]\<rparr>"
    using run by (auto simp: advance_mint_def split: option.splits)
  have at: "pos < length (in_progress r)" "mp_ix (in_progress r ! pos) = ix"
    using pos position_Some [of "\<lambda>m. mp_ix m = ix" "in_progress r" pos] by (auto simp: mint_position_def)
  have ixs: "map mp_ix (in_progress r') = map mp_ix (in_progress r)"
    using at(1) by (simp add: r' map_update list_update_same_conv)
  have mem: "set (in_progress r') \<subseteq>
      insert ((in_progress r ! pos)\<lparr>mp_stage := stage\<rparr>) (set (in_progress r))"
    unfolding r' by (simp add: set_update_subset_insert)
  show "m \<in> set (in_progress r) \<or> mp_ix m = ix \<and> mp_stage m = stage" if "m \<in> set (in_progress r')"
    using that mem at(2) by auto
  have "mp_ix m \<notin> en_ix ` set (entries r) \<and> mp_store_fee m \<le> MAX_MINT_FEE_MOJOS"
    if "m \<in> set (in_progress r')" for m
  proof -
    have "in_progress r ! pos \<in> set (in_progress r)" using at(1) by simp
    moreover have "m \<in> set (in_progress r) \<or> m = (in_progress r ! pos)\<lparr>mp_stage := stage\<rparr>"
      using that mem by blast
    ultimately show ?thesis using sound by (elim disjE) (simp_all add: sound_but_stages_def)
  qed
  moreover have "entries r' = entries r" "r'\<lparr>in_progress := []\<rparr> = r\<lparr>in_progress := []\<rparr>"
    by (simp_all add: r')
  ultimately show "sound_but_stages did_of r'"
    using sound unfolding sound_but_stages_def ixs by simp
qed

text \<open>What a returning call leaves: the registry as it was, one the re-check passed, or one of the two
  writes that are not re-checked.\<close>

lemma exec_cmd_returns:
  assumes "exec_cmd did_of c r = Returns res r'"
  obtains (same) "r' = r"
  | (checked) "registry_ok did_of r'"
  | (label) ix l where "c = SetLabel ix l" "set_label ix l r = Returns (Ok ()) r'"
  | (advanced) ix stage where "c = AdvanceMint ix stage" "advance_mint ix stage r = Returns (Ok ()) r'"
proof -
  show ?thesis
  proof (cases c)
    case (SetLabel ix l)
    then show ?thesis using assms same label by (auto simp: set_label_def split: if_splits)
  next
    case (AdvanceMint ix stage)
    then show ?thesis using assms same advanced by (auto simp: advance_mint_def split: option.splits)
  qed (use assms same checked in
      \<open>auto simp: record_minted_def set_active_def set_visibility_def record_melted_def begin_mint_def
         begin_seeded_mint_def reserve_mint_def abandon_mint_def Let_def expect_valid_eq
         split: option.splits result.splits if_splits\<close>)
qed


lemma after_minted_sorted:
  assumes "registry_sorted r" and "registry_get r ix = None"
  shows "registry_sorted (after_minted ix a label r)"
  using assms sorted_insert_partition [of en_ix "entries r" "profile_entry_new ix a label"]
  by (simp add: registry_sorted_def after_minted_def get_None_iff sorted_wrt_map sorted_wrt_filter)

lemma record_minted_returns:
  assumes "record_minted did_of ix did store label r = Returns res r'"
  obtains (refused) "r' = r" | (taken) a where "registry_get r ix = None" "r' = after_minted ix a label r"
proof (cases "cmd_reaches r (RecordMinted ix did store label)")
  case True
  then obtain a where a: "registry_get r ix = None" "holder_of r (md_launcher_id did) = None"
    "anchor_from_confirmed did store = Ok a" by auto
  then show ?thesis using assms taken by (auto simp: record_minted_accepts expect_valid_eq split: if_splits)
next
  case False
  then have "r' = r"
    using assms by (auto simp: record_minted_def registry_contains_def split: option.splits result.splits if_splits)
  then show ?thesis by (rule refused)
qed

lemma reserve_mint_sorted:
  assumes "registry_sorted r" and "reserve_mint did_of m r = Returns res r'"
  shows "registry_sorted r'"
  using assms sorted_insert_partition [of mp_ix "in_progress r" m]
  by (auto simp: reserve_mint_def Let_def expect_valid_eq mint_position_iff sorted_mints registry_sorted_def
      split: if_splits)

lemma exec_cmd_sorted:
  assumes srt: "registry_sorted r" and run: "exec_cmd did_of c r = Returns res r'"
  shows "registry_sorted r'"
proof (cases c)
  case (RecordMinted ix did store label)
  then obtain res' where "record_minted did_of ix did store label r = Returns res' r'"
    using run by (cases "record_minted did_of ix did store label r") auto
  then show ?thesis by (cases rule: record_minted_returns) (simp_all add: srt after_minted_sorted)
next
  case (BeginMint ix stage fee)
  then show ?thesis using run reserve_mint_sorted [OF srt] by (simp add: begin_mint_def)
next
  case (BeginSeededMint ix stage root fee)
  then show ?thesis using run reserve_mint_sorted [OF srt] by (simp add: begin_seeded_mint_def)
next
  case (AdvanceMint ix stage)
  have ixs: "map mp_ix (xs[i := (xs ! i)\<lparr>mp_stage := stage\<rparr>]) = map mp_ix xs" for xs i
    by (cases "i < length xs") (simp_all add: map_update list_update_same_conv list_update_beyond)
  have "registry_sorted (r\<lparr>in_progress := (in_progress r)[i := (in_progress r ! i)\<lparr>mp_stage := stage\<rparr>]\<rparr>)" for i
    using srt unfolding sorted_mints ixs by (simp add: registry_sorted_def)
  then show ?thesis using run srt by (auto simp: AdvanceMint advance_mint_def split: option.splits)
next
  case (AbandonMint ix)
  then show ?thesis using run srt
    by (auto simp: abandon_mint_def Let_def expect_valid_eq registry_sorted_def sorted_vec_remove
        split: option.splits if_splits)
qed (use run srt in
  \<open>auto simp: set_active_def set_visibility_def record_melted_def set_label_def Let_def expect_valid_eq
     split: option.splits result.splits if_splits\<close>)

lemma exec_cmd_sound:
  assumes sound: "sound_but_stages did_of r" and run: "exec_cmd did_of c r = Returns res r'"
  shows "sound_but_stages did_of r'"
    and "m \<in> set (in_progress r') \<Longrightarrow>
      m \<in> set (in_progress r) \<or> stage_ok did_of (mp_stage m) \<or> c = AdvanceMint (mp_ix m) (mp_stage m)"
proof -
  have srt: "registry_sorted r"
    using sound by (simp add: sound_but_stages_def registry_wf_def registry_sorted_def)
  have "sound_but_stages did_of r' \<and> (\<forall>m \<in> set (in_progress r').
      m \<in> set (in_progress r) \<or> stage_ok did_of (mp_stage m) \<or> c = AdvanceMint (mp_ix m) (mp_stage m))"
    using run
  proof (cases rule: exec_cmd_returns)
    case same
    then show ?thesis using sound by simp
  next
    case checked
    then have "registry_wf did_of r'" using exec_cmd_sorted [OF srt run] by (simp add: registry_wf_def)
    then show ?thesis by (simp add: wf_iff_sound)
  next
    case (label ix l)
    then show ?thesis using sound_set_label [OF sound label(2)] by simp
  next
    case (advanced ix stage)
    then show ?thesis using sound_advance_mint [OF sound advanced(2)] by auto
  qed
  then show "sound_but_stages did_of r'"
    and "m \<in> set (in_progress r') \<Longrightarrow>
      m \<in> set (in_progress r) \<or> stage_ok did_of (mp_stage m) \<or> c = AdvanceMint (mp_ix m) (mp_stage m)"
    by auto
qed

text \<open>A journalled stage that claims what it should not was written by one of these calls.\<close>

definition stages_from ::
  "(bytes32 \<Rightarrow> string) \<Rightarrow> registry_cmd list \<Rightarrow> profile_registry \<Rightarrow> bool" where
  "stages_from did_of cs r \<longleftrightarrow>
     (\<forall>m \<in> set (in_progress r).
        stage_ok did_of (mp_stage m) \<or> AdvanceMint (mp_ix m) (mp_stage m) \<in> set cs)"

lemma exec_cmds_sound:
  assumes "sound_but_stages did_of r" and "stages_from did_of past r"
    and "exec_cmds did_of cs r = Returns () r'"
  shows "sound_but_stages did_of r' \<and> stages_from did_of (past @ cs) r'"
  using assms
proof (induction cs arbitrary: r past)
  case Nil
  then show ?case by simp
next
  case (Cons c cs)
  then obtain res r1 where r1: "exec_cmd did_of c r = Returns res r1"
    and rest: "exec_cmds did_of cs r1 = Returns () r'"
    unfolding exec_cmds_Cons by blast
  note step = exec_cmd_sound [OF Cons.prems(1) r1]
  have "stages_from did_of (past @ [c]) r1"
    using Cons.prems(2) step(2) unfolding stages_from_def by fastforce
  from Cons.IH [OF step(1) this rest] show ?case by simp
qed

end
