(* ===== verification/Registry_Properties.thy ===== *)
theory Registry_Properties
  imports Registry_Sessions "HOL-Library.Multiset"
begin

text \<open>
  The properties of the profile registry: the invariant over every session, the refinement of the
  abstract registry, the exact panic condition, permanence of what the registry records, the next
  free index, and loading from a file.
\<close>

section \<open>Facts shared by the properties\<close>

text \<open>What no call may take back: the profile, its anchor, its end.\<close>

definition keeps_record :: "registry_spec \<Rightarrow> registry_spec \<Rightarrow> bool" where
  "keeps_record s s' \<longleftrightarrow>
     (\<forall>ix e. sp_profiles s ix = Some e \<longrightarrow>
        (\<exists>e'. sp_profiles s' ix = Some e' \<and> en_anchor e' = en_anchor e \<and>
              (\<forall>h. en_ended e = Some h \<longrightarrow> en_ended e' = Some h)))"

lemma keeps_record_refl: "keeps_record s s"
  by (simp add: keeps_record_def)

lemma keeps_record_trans: "keeps_record a b \<Longrightarrow> keeps_record b c \<Longrightarrow> keeps_record a c"
  unfolding keeps_record_def by fastforce

lemma keeps_record_same: "sp_profiles s' = sp_profiles s \<Longrightarrow> keeps_record s s'"
  by (simp add: keeps_record_def)

lemma keeps_record_new:
  "sp_profiles s ix = None \<Longrightarrow> sp_profiles s' = (sp_profiles s)(ix \<mapsto> e) \<Longrightarrow> keeps_record s s'"
  by (simp add: keeps_record_def)

lemma keeps_record_write:
  assumes "sp_profiles s ix = Some e" and "sp_profiles s' = (sp_profiles s)(ix \<mapsto> e')"
    and "en_anchor e' = en_anchor e" and "is_live e \<or> en_ended e' = en_ended e"
  shows "keeps_record s s'"
  using assms by (auto simp: keeps_record_def is_live_def)

lemma registry_step_keeps: "registry_step s c s' \<Longrightarrow> keeps_record s s'"
proof (induction rule: registry_step.induct)
  case (Step_minted s ix did store anchor label)
  then show ?case by (intro keeps_record_new [where s = s and ix = ix]) simp_all
next
  case (Step_active s ix e)
  then show ?case
    by (auto simp: keeps_record_def entry_simps is_live_def)
next
  case (Step_visibility s ix e v)
  then show ?case
    by (auto simp: keeps_record_def entry_simps is_live_def)
next
  case (Step_ended_inactive h s ix e)
  then show ?case
    by (auto simp: keeps_record_def entry_simps is_live_def)
next
  case (Step_ended_succeeded h s ix e to)
  then show ?case
    by (auto simp: keeps_record_def entry_simps is_live_def)
next
  case (Step_ended_last h s ix e)
  then show ?case
    by (auto simp: keeps_record_def entry_simps is_live_def)
next
  case (Step_label s ix e l)
  then show ?case
    by (auto simp: keeps_record_def entry_simps is_live_def)
qed (simp_all add: keeps_record_same keeps_record_refl)

lemma exec_cmd_keeps:
  assumes "registry_wf did_of r" and "cmd_honest did_of c"
    and "exec_cmd did_of c r = Returns res r'"
  shows "keeps_record (abs_registry r) (abs_registry r')"
  using exec_cmd_Ok(2) [OF assms(1,2)] exec_cmd_Err [OF assms(1,2)] assms(3)
  by (cases res) (auto intro: registry_step_keeps keeps_record_refl)

lemma exec_cmds_keeps:
  assumes "registry_wf did_of r" and "list_all (cmd_honest did_of) cs"
    and "exec_cmds did_of cs r = Returns () r'"
  shows "keeps_record (abs_registry r) (abs_registry r')"
  using assms
proof (induction cs arbitrary: r)
  case Nil
  then show ?case by (simp add: keeps_record_refl)
next
  case (Cons c cs)
  then obtain res r1 where r1: "exec_cmd did_of c r = Returns res r1"
    and rest: "exec_cmds did_of cs r1 = Returns () r'"
    unfolding exec_cmds_Cons by blast
  have "keeps_record (abs_registry r) (abs_registry r1)"
    using exec_cmd_keeps [OF _ _ r1] Cons.prems by simp
  moreover have "keeps_record (abs_registry r1) (abs_registry r')"
    using exec_cmd_wf [OF _ _ r1] Cons rest by simp
  ultimately show ?case by (rule keeps_record_trans)
qed

lemma sort_key_strict:
  assumes "sorted_wrt (<) (map k ys)" and "mset xs = mset ys"
  shows "sort_key (k :: 'a \<Rightarrow> 'k::linorder) xs = ys"
proof (rule sort_key_inj_key_eq [OF assms(2)])
  have "distinct (map k ys)" by (rule sorted_lt_distinct) (rule assms(1))
  then show "inj_on k (set xs)"
    using mset_eq_setD [OF assms(2)] by (simp add: distinct_map)
  show "sorted (map k ys)" using assms(1) by (simp add: strict_sorted_iff)
qed

lemma sorted_key_strict:
  "distinct (map k xs) \<Longrightarrow> sorted_wrt (<) (map (k :: 'a \<Rightarrow> 'k::linorder) (sort_key k xs))"
  by (simp add: strict_sorted_iff distinct_map)

lemma registry_try_from_iff:
  "registry_try_from did_of raw = Ok r \<longleftrightarrow>
     registry_wf did_of r \<and> mset (raw_entries raw) = mset (entries r) \<and>
     raw_active raw = active_ix r \<and> mset (raw_in_progress raw) = mset (in_progress r)"
proof -
  let ?r = "\<lparr>entries = sort_key en_ix (raw_entries raw), active_ix = raw_active raw,
             in_progress = sort_key mp_ix (raw_in_progress raw)\<rparr>"
  have load: "registry_try_from did_of raw = Ok r \<longleftrightarrow> registry_ok did_of ?r \<and> r = ?r"
    by (auto simp: registry_try_from_def Let_def map_err_Ok and_then_Ok registry_check_iff)
  show ?thesis
  proof
    assume "registry_try_from did_of raw = Ok r"
    then have r: "r = ?r" and ok: "registry_ok did_of ?r" using load by auto
    have "distinct (map en_ix (sort_key en_ix (raw_entries raw)))"
      "distinct (map mp_ix (sort_key mp_ix (raw_in_progress raw)))"
      using ok by (auto simp: registry_ok_def static_ok_def known_ixs_distinct_parts)
    then have "registry_sorted ?r"
      by (auto simp: registry_sorted_def strict_sorted_iff)
    with ok r show "registry_wf did_of r \<and> mset (raw_entries raw) = mset (entries r) \<and>
        raw_active raw = active_ix r \<and> mset (raw_in_progress raw) = mset (in_progress r)"
      by (simp add: registry_wf_def)
  next
    assume a: "registry_wf did_of r \<and> mset (raw_entries raw) = mset (entries r) \<and>
        raw_active raw = active_ix r \<and> mset (raw_in_progress raw) = mset (in_progress r)"
    then have "registry_sorted r" "registry_ok did_of r" by (auto simp: registry_wf_def)
    then have "?r = r"
      using a by (simp add: registry_sorted_def sort_key_strict)
    with \<open>registry_ok did_of r\<close> show "registry_try_from did_of raw = Ok r" unfolding load by simp
  qed
qed

lemma save_load: "registry_wf did_of r \<Longrightarrow> registry_try_from did_of (raw_from_registry r) = Ok r"
  by (simp add: registry_try_from_iff raw_from_registry_def)

lemma ix_top: "ix_val k \<le> ix_val i \<Longrightarrow> checked_add (ix_val i) 1 = Some n \<Longrightarrow> k < ProfileIx n"
  by (cases k) (auto dest!: checked_add_unat simp: word_le_nat_alt word_less_nat_alt)

section \<open>A concrete account\<close>

text \<open>Two mints of one account, as the evidence types would carry them.\<close>

definition sample_did_of :: "bytes32 \<Rightarrow> string" where
  "sample_did_of l = (if l = 1 then ''did:chia:one'' else ''did:chia:two'')"

definition sample_did :: "(bytes32 \<Rightarrow> string) \<Rightarrow> bytes32 \<Rightarrow> minted_did" where
  "sample_did did_of l =
     \<lparr>md_did = did_of l, md_launcher_id = l, md_coin_id = l + 100, md_confirmed_height = 40\<rparr>"

definition sample_store :: "bytes32 \<Rightarrow> confirmed_store" where
  "sample_store l =
     \<lparr>cs_launcher_id = l + 200, cs_coin_id = l + 300, cs_confirmed_height = 45,
      cs_did_coin_id = l + 100, cs_committed_root = 7\<rparr>"

abbreviation sample_record :: "(bytes32 \<Rightarrow> string) \<Rightarrow> u32 \<Rightarrow> registry_cmd" where
  "sample_record did_of i \<equiv>
     RecordMinted (ProfileIx i) (sample_did did_of (ucast i + 1)) (sample_store (ucast i + 1)) None"

lemma sample_evidence_honest [simp]:
  "did_honest did_of (sample_did did_of l)" "cs_confirmed_height (sample_store l) \<noteq> 0"
  by (simp_all add: did_honest_def sample_did_def sample_store_def)

definition sample_anchor :: "(bytes32 \<Rightarrow> string) \<Rightarrow> bytes32 \<Rightarrow> profile_anchor" where
  "sample_anchor did_of l =
     \<lparr>an_did = did_of l, an_launcher_id = l, an_did_coin_id = l + 100,
      an_did_confirmed_height = 40, an_store_launcher_id = l + 200,
      an_store_confirmed_height = 45, an_store_launched_from = Some (l + 100),
      an_store_coin_id = Some (l + 300)\<rparr>"

definition sample_registry :: "(bytes32 \<Rightarrow> string) \<Rightarrow> profile_registry" where
  "sample_registry did_of =
     \<lparr>entries = [profile_entry_new (ProfileIx 0) (sample_anchor did_of 1) None,
                 profile_entry_new (ProfileIx 1) (sample_anchor did_of 2) None],
      active_ix = Some (ProfileIx 0), in_progress = []\<rparr>"

lemmas eval_registry =
  registry_get_def registry_contains_def holder_of_def registry_live_def registry_empty_def
  vec_insert_def partition_point_def profile_end_at_def mint_position_def vec_remove_def
  heir_of_def

lemma sample_anchor_made:
  "anchor_from_confirmed (sample_did did_of l) (sample_store l) = Ok (sample_anchor did_of l)"
  by (simp add: anchor_from_confirmed_def sample_did_def sample_store_def sample_anchor_def)

lemma sample_session:
  "exec_cmds did_of [sample_record did_of 0, sample_record did_of 1] registry_empty =
     Returns () (sample_registry did_of)"
proof -
  have 1: "exec_cmd did_of (sample_record did_of 0) registry_empty =
      Returns (Ok ()) \<lparr>entries = [profile_entry_new (ProfileIx 0) (sample_anchor did_of 1) None],
        active_ix = Some (ProfileIx 0), in_progress = []\<rparr>"
    by (simp add: record_minted_def sample_anchor_made eval_registry expect_valid_eq registry_ok_def
          static_ok_def known_ixs_def active_ok_def)
       (simp add: entry_ok_def anchor_ok_def sample_anchor_def pairing_holds_def)
  have 2: "exec_cmd did_of (sample_record did_of 1)
        \<lparr>entries = [profile_entry_new (ProfileIx 0) (sample_anchor did_of 1) None],
         active_ix = Some (ProfileIx 0), in_progress = []\<rparr> =
      Returns (Ok ()) (sample_registry did_of)"
    by (simp add: record_minted_def sample_anchor_made eval_registry expect_valid_eq registry_ok_def
          static_ok_def known_ixs_def active_ok_def sample_registry_def)
       (simp add: entry_ok_def anchor_ok_def sample_anchor_def pairing_holds_def sample_did_def)
  show ?thesis using 1 2 by simp
qed

lemma sample_wf: "registry_wf did_of (sample_registry did_of)"
  by (rule exec_cmds_wf [OF registry_empty_wf _ sample_session]) simp

lemma sample_get:
  "registry_get (sample_registry did_of) (ProfileIx 0) =
     Some (profile_entry_new (ProfileIx 0) (sample_anchor did_of 1) None)"
  "registry_get (sample_registry did_of) (ProfileIx 1) =
     Some (profile_entry_new (ProfileIx 1) (sample_anchor did_of 2) None)"
  by (simp_all add: sample_registry_def registry_get_def)

lemma sample_active: "active_ix (sample_registry did_of) = Some (ProfileIx 0)"
  by (simp add: sample_registry_def)

text \<open>The same account with its second profile hidden.\<close>

definition sample_hidden :: "(bytes32 \<Rightarrow> string) \<Rightarrow> profile_registry" where
  "sample_hidden did_of =
     write_entry (ProfileIx 1) (entry_set_visibility HiddenFromLists) (sample_registry did_of)"

lemma sample_hidden_cmd:
  "exec_cmd did_of (SetVisibility (ProfileIx 1) HiddenFromLists) (sample_registry did_of) =
     Returns (Ok ()) (sample_hidden did_of)"
proof -
  have "cmd_meets did_of (SetVisibility (ProfileIx 1) HiddenFromLists) (sample_registry did_of)"
    by (rule set_visibility_meets) (rule sample_wf)
  then show ?thesis
    by (simp add: cmd_meets_def set_visibility_def registry_contains_def sample_get sample_active
          sample_hidden_def expect_valid_def Let_def split: result.splits)
qed

lemma sample_hidden_wf: "registry_wf did_of (sample_hidden did_of)"
  by (rule exec_cmd_wf [OF sample_wf _ sample_hidden_cmd]) simp

lemma sample_hidden_heir:
  "heir_of (sample_hidden did_of) (ProfileIx 0) =
     Some (entry_set_visibility HiddenFromLists
             (profile_entry_new (ProfileIx 1) (sample_anchor did_of 2) None))"
  by (simp add: sample_hidden_def heir_of_def sample_registry_def entry_simps)

lemma sample_hidden_active: "active_ix (sample_hidden did_of) = Some (ProfileIx 0)"
  by (simp add: sample_hidden_def sample_registry_def)

section \<open>Properties\<close>

text \<open>C27: Every invariant of a registry survives every session but the one a caller can break. Whatever
  calls are made on a new account, with whatever evidence and stages, in whatever order and whether they
  succeed or fail: as long as none panicked, the confirmed profiles and the active slot satisfy every
  invariant \<open>check\<close> states, the vectors are ordered by index, no index is both confirmed and being
  minted and every fee is below the ceiling; a journalled stage whose DID is not its launcher's, or claims
  height 0, is one that a call of \<open>advance_mint\<close> wrote at that very index; and the registry written
  out loads back as itself exactly when no such stage is in it.\<close>

theorem registry_sessions_valid:
  assumes "exec_cmds did_of cs registry_empty = Returns () r"
  shows "sound_but_stages did_of r \<and> stages_from did_of cs r \<and>
    (registry_try_from did_of (raw_from_registry r) = Ok r \<longleftrightarrow>
       (\<forall>m \<in> set (in_progress r). stage_ok did_of (mp_stage m)))"
proof -
  have "sound_but_stages did_of registry_empty" "stages_from did_of [] registry_empty"
    using registry_empty_wf [of did_of]
    by (simp_all add: wf_iff_sound stages_from_def registry_empty_def)
  from exec_cmds_sound [OF this assms] show ?thesis
    by (simp add: wf_iff_sound registry_try_from_iff raw_from_registry_def)
qed

theorem registry_sessions_valid_witness:
  "registry_try_from sample_did_of (raw_from_registry (sample_registry sample_did_of)) =
     Ok (sample_registry sample_did_of)"
  using registry_sessions_valid [OF sample_session] by (simp add: sample_registry_def)

text \<open>C26: Every mutator implements the abstract registry, whatever it is passed. On a registry that
  satisfies the invariants, a call that reports an error leaves it exactly as it was, and a call that
  succeeds is a step of the abstract registry, which fixes what each call does: what is inserted or
  rewritten at its own index, that a mint's journal entry goes when its profile is recorded, and that the
  end of the active profile moves the slot to the lowest live index or clears it. The invariants hold
  after it, except when it is \<open>advance_mint\<close> with a stage whose DID is not its launcher's or claims
  height 0, and then they do not.\<close>

theorem registry_refines_spec:
  assumes "registry_wf did_of r" and "exec_cmd did_of c r = Returns res r'"
  shows "case res of
      Err _ \<Rightarrow> r' = r
    | Ok _ \<Rightarrow> registry_step (abs_registry r) c (abs_registry r') \<and>
        (registry_wf did_of r' \<longleftrightarrow>
          (case c of AdvanceMint ix stage \<Rightarrow> stage_ok did_of stage | _ \<Rightarrow> True))"
proof (cases "\<exists>ix stage. c = AdvanceMint ix stage")
  case True
  then obtain ix stage where c: "c = AdvanceMint ix stage" by blast
  show ?thesis
  proof (cases res)
    case (Ok u)
    with assms(2) have "advance_mint ix stage r = Returns (Ok ()) r'" by (simp add: c)
    from advance_mint_step [OF assms(1) this] show ?thesis by (simp add: Ok c)
  next
    case (Err e)
    with assms(2) show ?thesis by (auto simp: c advance_mint_def split: option.splits)
  qed
next
  case False
  then have adv: "(case c of AdvanceMint ix stage \<Rightarrow> stage_ok did_of stage | _ \<Rightarrow> True)" by (cases c) auto
  show ?thesis
  proof (cases "cmd_honest did_of c")
    case True
    show ?thesis
      using exec_cmd_Ok [OF assms(1) True] exec_cmd_Err [OF assms(1) True] assms(2) by (cases res) (auto simp: adv)
  next
    case dishonest: False
    then show ?thesis
      using dishonest_cmd [OF dishonest, of r] False assms(2) by (cases res) (auto split: if_splits)
  qed
qed

theorem registry_refines_spec_witness:
  "registry_step (abs_registry (sample_registry sample_did_of))
     (SetVisibility (ProfileIx 1) HiddenFromLists) (abs_registry (sample_hidden sample_did_of)) \<and>
   registry_wf sample_did_of (sample_hidden sample_did_of)"
  using registry_refines_spec [OF sample_wf sample_hidden_cmd] by simp

text \<open>C28: The calls that panic on a registry that satisfies the invariants, all of them: an end of the
  active profile while the lowest-indexed other live profile is hidden, for the slot is moved there
  without un-hiding it as \<open>set_active\<close> would; a mint begun at a free index within the fee ceiling
  with a stage whose DID is not its launcher's or claims height 0, which nothing refuses before the
  re-check; and a profile recorded from evidence no constructor makes, which the privacy of the evidence
  types excludes. The first two need only public calls and public data.\<close>

theorem registry_panics_exactly:
  assumes "registry_wf did_of r"
  shows "(\<exists>r'. exec_cmd did_of c r = Panics r') \<longleftrightarrow>
    (\<exists>ix h e. c = RecordMelted ix h \<and> h \<noteq> 0 \<and> active_ix r = Some ix \<and>
       heir_of r ix = Some e \<and> en_visibility e = HiddenFromLists) \<or>
    (\<exists>ix stage fee root. (c = BeginMint ix stage fee \<or> c = BeginSeededMint ix stage root fee) \<and>
       ix \<notin> set (known_ixs r) \<and> fee \<le> MAX_MINT_FEE_MOJOS \<and> \<not> stage_ok did_of stage) \<or>
    (\<exists>ix did store label a. c = RecordMinted ix did store label \<and> registry_get r ix = None \<and>
       holder_of r (md_launcher_id did) = None \<and> anchor_from_confirmed did store = Ok a \<and>
       \<not> (did_honest did_of did \<and> cs_confirmed_height store \<noteq> 0))"
proof -
  have "en_visibility e \<noteq> Shown \<longleftrightarrow> en_visibility e = HiddenFromLists" for e
    by (cases "en_visibility e") auto
  then show ?thesis
    unfolding exec_cmd_panics_exactly [OF assms]
    by (cases c) (auto simp: is_shown_def split: option.splits)
qed

theorem registry_panics_exactly_witness:
  "(\<exists>r'. exec_cmd sample_did_of (RecordMelted (ProfileIx 0) 50) (sample_hidden sample_did_of) = Panics r') \<and>
   (\<exists>r'. exec_cmd sample_did_of (BeginMint (ProfileIx 0)
      (DidConfirmedStoreNotLaunched \<lparr>mdr_did = ''did:chia:other'', mdr_launcher_id = 1, mdr_coin_id = 2,
         mdr_confirmed_height = 40\<rparr>) 5) registry_empty = Panics r')"
proof
  show "\<exists>r'. exec_cmd sample_did_of (RecordMelted (ProfileIx 0) 50) (sample_hidden sample_did_of) = Panics r'"
    unfolding registry_panics_exactly [OF sample_hidden_wf]
    by (simp add: sample_hidden_active sample_hidden_heir entry_set_visibility_def)
  show "\<exists>r'. exec_cmd sample_did_of (BeginMint (ProfileIx 0)
      (DidConfirmedStoreNotLaunched \<lparr>mdr_did = ''did:chia:other'', mdr_launcher_id = 1, mdr_coin_id = 2,
         mdr_confirmed_height = 40\<rparr>) 5) registry_empty = Panics r'"
    unfolding registry_panics_exactly [OF registry_empty_wf]
    by (simp add: known_ixs_def registry_empty_def stage_ok_def journalled_did_ok_def sample_did_of_def
        MAX_MINT_FEE_MOJOS_def)
qed

text \<open>The registry is a permanent record. Over any session, from any valid registry, a profile
  once confirmed stays registered at its index with the anchor it was recorded with, and a profile
  once ended stays ended at the height first recorded.\<close>

theorem registry_records_are_permanent:
  assumes "registry_wf did_of r" and "list_all (cmd_honest did_of) cs"
    and "exec_cmds did_of cs r = Returns () r'" and "registry_get r ix = Some e"
  shows "\<exists>e'. registry_get r' ix = Some e' \<and> en_anchor e' = en_anchor e \<and>
    (\<forall>h. en_ended e = Some h \<longrightarrow> en_ended e' = Some h)"
  using exec_cmds_keeps [OF assms(1-3)] assms(4) by (simp add: keeps_record_def)

theorem registry_records_are_permanent_witness:
  "\<exists>e'. registry_get (sample_hidden sample_did_of) (ProfileIx 0) = Some e' \<and>
     en_anchor e' = sample_anchor sample_did_of 1"
  using registry_records_are_permanent [OF sample_wf _ _ sample_get(1),
      of "sample_did_of" "[SetVisibility (ProfileIx 1) HiddenFromLists]" "sample_hidden sample_did_of"]
    sample_hidden_cmd [of sample_did_of]
  by (simp del: exec_cmd.simps)

text \<open>The active slot is never a claim the lists contradict. In a valid registry the active
  profile is live and offered in the lists, and there is none exactly when no live profile
  remains.\<close>

theorem active_profile_is_listed:
  assumes "registry_wf did_of r"
  shows "(registry_active r = None \<longleftrightarrow> registry_live r = []) \<and>
    (\<forall>e. registry_active r = Some e \<longrightarrow> e \<in> set (registry_shown r))"
proof -
  have "registry_live r \<noteq> []" if "registry_get r ix = Some e" "is_live e" for ix e
    using live_nonempty_iff [OF wfD(4) [OF assms]] that by blast
  then show ?thesis
    using wfD(2) [OF assms]
    by (auto simp: registry_active_def active_ok_def registry_shown_def
             split: option.splits dest: get_SomeD)
qed

theorem active_profile_is_listed_witness:
  "profile_entry_new (ProfileIx 0) (sample_anchor sample_did_of 1) None
     \<in> set (registry_shown (sample_registry sample_did_of)) \<and>
   registry_live (sample_registry sample_did_of) \<noteq> []"
  using active_profile_is_listed [OF sample_wf, of sample_did_of]
  by (simp add: registry_active_def sample_active sample_get)

text \<open>The next index handed to a mint lies above every index the registry knows, confirmed or
  in progress, so reserving it is never refused as occupied; there is none exactly when the
  largest representable index is already known.\<close>

theorem next_free_ix_is_free:
  assumes "registry_wf did_of r" and "stage_ok did_of stage" and "fee \<le> MAX_MINT_FEE_MOJOS"
  shows "case next_free_ix r of
      None \<Rightarrow> ProfileIx (- 1) \<in> set (known_ixs r)
    | Some ix \<Rightarrow> (\<forall>k\<in>set (known_ixs r). k < ix) \<and>
        (\<exists>r'. begin_mint did_of ix stage fee r = Returns (Ok ()) r' \<and> registry_wf did_of r')"
proof -
  have fresh: "\<exists>r'. begin_mint did_of ix stage fee r = Returns (Ok ()) r' \<and> registry_wf did_of r'"
    if "\<forall>k\<in>set (known_ixs r). k < ix" for ix
  proof -
    have "ix \<notin> set (known_ixs r)" using that by auto
    then have "\<not> registry_contains r ix" "mint_position r ix = None"
      by (auto simp: known_ixs_def contains_iff mint_position_iff)
    with assms(3) have "\<not> (\<exists>e. begin_mint did_of ix stage fee r = Returns (Err e) r)"
      by (auto simp: begin_mint_def reserve_mint_def mint_in_progress_new_def Let_def not_less
                     expect_valid_def split: result.splits)
    then show ?thesis
      using reserve_mint_cases [OF assms(1), of "mint_in_progress_new ix stage fee"] assms(2)
      by (auto simp: begin_mint_def mint_in_progress_new_def)
  qed
  show ?thesis
  proof (cases "iter_max (known_ixs r)")
    case None
    then show ?thesis using fresh by (simp add: next_free_ix_def)
  next
    case (Some m)
    show ?thesis
    proof (cases "checked_add (ix_val m) 1")
      case None
      then have "ix_val m = - 1"
        using unat_less_pow [of "ix_val m"]
        by (intro word_unat_eq_iff [THEN iffD2])
           (simp add: checked_add_None unsigned_minus_1_eq_mask mask_eq_exp_minus_1)
      then have "m = ProfileIx (- 1)" by (cases m) simp
      with Some None iter_max_in [OF Some] show ?thesis by (simp add: next_free_ix_def)
    next
      case (Some n)
      have "\<forall>k\<in>set (known_ixs r). k < ProfileIx n"
        using iter_max_ge [OF \<open>iter_max (known_ixs r) = Some m\<close>] Some
        by (auto simp: less_eq_profile_ix_def intro: ix_top)
      with fresh Some \<open>iter_max (known_ixs r) = Some m\<close> show ?thesis
        by (simp add: next_free_ix_def)
    qed
  qed
qed

theorem next_free_ix_is_free_witness:
  "\<exists>r'. begin_mint sample_did_of (ProfileIx 2) (DidPushed \<lparr>pmr_launcher_id = 9, pmr_did_coin_id = 8,
          pmr_source_coin_id = 7, pmr_pushed_at_height = 60\<rparr>) 5 (sample_registry sample_did_of) =
        Returns (Ok ()) r' \<and> registry_wf sample_did_of r'"
  using next_free_ix_is_free [OF sample_wf, of sample_did_of "DidPushed \<lparr>pmr_launcher_id = 9,
      pmr_did_coin_id = 8, pmr_source_coin_id = 7, pmr_pushed_at_height = 60\<rparr>" 5]
  by (simp add: next_free_ix_def known_ixs_def sample_registry_def stage_ok_def
        MAX_MINT_FEE_MOJOS_def checked_add_def max_def)

text \<open>Loading is exact and fail-closed. A file yields a registry precisely when that registry
  satisfies every invariant and holds the file's entries, active slot and journal, in whatever
  order the file lists them; any other file yields none.\<close>

theorem registry_load_exact:
  "registry_try_from did_of raw = Ok r \<longleftrightarrow>
     registry_wf did_of r \<and> mset (raw_entries raw) = mset (entries r) \<and>
     raw_active raw = active_ix r \<and> mset (raw_in_progress raw) = mset (in_progress r)"
  by (rule registry_try_from_iff)

text \<open>A stage is plain data whose DID record anyone can write, and \<open>advance_mint\<close> does
  not check it: moving a journalled mint to a stage whose DID is not its launcher's, or claims
  height 0, is accepted, and the registry it leaves no longer loads back from its own file.\<close>

theorem advance_mint_accepts_a_stage_the_file_refuses:
  assumes "mint_position r ix = Some pos" and "\<not> stage_ok did_of stage"
  shows "\<exists>r' v. advance_mint ix stage r = Returns (Ok ()) r' \<and>
    registry_try_from did_of (raw_from_registry r') = Err v"
proof -
  let ?m = "(in_progress r ! pos)\<lparr>mp_stage := stage\<rparr>"
  let ?r = "r\<lparr>in_progress := (in_progress r)[pos := ?m]\<rparr>"
  have "pos < length (in_progress r)"
    using assms(1) position_Some [of "\<lambda>m. mp_ix m = ix" "in_progress r" pos]
    by (simp add: mint_position_def)
  then have "?m \<in> set (in_progress ?r)" by (simp add: set_update_memI)
  moreover have "\<not> mint_ok did_of ?m" using assms(2) by (simp add: mint_ok_def)
  ultimately have bad: "\<exists>m\<in>set (in_progress ?r). \<not> mint_ok did_of m" by blast
  have "registry_try_from did_of (raw_from_registry ?r) \<noteq> Ok r'" for r'
  proof
    assume "registry_try_from did_of (raw_from_registry ?r) = Ok r'"
    then have "registry_wf did_of r'" "mset (in_progress ?r) = mset (in_progress r')"
      by (auto simp: registry_try_from_iff raw_from_registry_def)
    then show False
      using bad mset_eq_setD [of "in_progress ?r" "in_progress r'"]
      by (auto simp: registry_wf_def registry_ok_def static_ok_def list_all_iff)
  qed
  then obtain v where "registry_try_from did_of (raw_from_registry ?r) = Err v"
    by (cases "registry_try_from did_of (raw_from_registry ?r)") auto
  with assms(1) show ?thesis by (simp add: advance_mint_def)
qed

theorem advance_mint_accepts_a_stage_the_file_refuses_witness:
  "\<exists>r' v. advance_mint (ProfileIx 0)
       (DidConfirmedStoreNotLaunched \<lparr>mdr_did = ''did:chia:other'', mdr_launcher_id = 1,
          mdr_coin_id = 2, mdr_confirmed_height = 0\<rparr>)
       \<lparr>entries = [], active_ix = None,
        in_progress = [mint_in_progress_new (ProfileIx 0) (DidPushed \<lparr>pmr_launcher_id = 1,
          pmr_did_coin_id = 2, pmr_source_coin_id = 3, pmr_pushed_at_height = 60\<rparr>) 5]\<rparr> =
       Returns (Ok ()) r' \<and>
     registry_try_from sample_did_of (raw_from_registry r') = Err v"
  by (rule advance_mint_accepts_a_stage_the_file_refuses [of _ _ 0])
     (simp_all add: mint_position_def mint_in_progress_new_def stage_ok_def journalled_did_ok_def)

end
