(* ===== verification/Account_Model.thy ===== *)
theory Account_Model
  imports Registry_Properties
begin

text \<open>
  \<open>src/model.rs\<close> and \<open>src/registry/verify.rs\<close>: the account (its offline registry and
  the profiles attached to it), and the pass that asks the chain whether a persisted anchor names
  coins that confirmed where it says. Host access through \<open>registry_mut\<close> is modelled as the
  registry's public calls.
\<close>

section \<open>Re-verifying an anchor\<close>

datatype anchor_doubt =
    CouldNotAsk string bytes32 string
  | BlockNotKnown string bytes32
  | NoSuchCoin string bytes32
  | ConfirmedElsewhere string bytes32 u32 u32
  | NoStoreCoinRecorded

datatype anchor_verdict =
    Verified
  | Disproved anchor_doubt
  | Unproven anchor_doubt

fun may_present :: "anchor_verdict \<Rightarrow> bool" where
  "may_present (Disproved _) = False"
| "may_present _ = True"

definition confirm_coin ::
  "chain_source \<Rightarrow> nat \<Rightarrow> bytes32 \<Rightarrow> u32 \<Rightarrow> string \<Rightarrow> anchor_verdict option \<times> nat" where
  "confirm_coin chain t coin_id claimed half =
     (case ask_coin_record chain t coin_id of
        Err e \<Rightarrow> Some (Unproven (CouldNotAsk half coin_id e))
      | Ok None \<Rightarrow> Some (Disproved (NoSuchCoin half coin_id))
      | Ok (Some r) \<Rightarrow>
          (case confirmed_height r of
             None \<Rightarrow> Some (Unproven (BlockNotKnown half coin_id))
           | Some h \<Rightarrow>
               if h \<noteq> claimed then Some (Disproved (ConfirmedElsewhere half coin_id h claimed))
               else None),
      Suc t)"

definition verify_anchor :: "profile_anchor \<Rightarrow> chain_source \<Rightarrow> nat \<Rightarrow> anchor_verdict \<times> nat" where
  "verify_anchor a chain t =
     (let (did, t1) = confirm_coin chain t (an_did_coin_id a) (an_did_confirmed_height a) ''DID'';
          (store, t2) =
            (case an_store_coin_id a of
               Some c \<Rightarrow> confirm_coin chain t1 c (an_store_confirmed_height a) ''store''
             | None \<Rightarrow> (Some (Unproven NoStoreCoinRecorded), t1))
      in (case (did, store) of
            (None, None) \<Rightarrow> Verified
          | (Some (Disproved d), _) \<Rightarrow> Disproved d
          | (_, Some (Disproved d)) \<Rightarrow> Disproved d
          | (Some other, _) \<Rightarrow> other
          | (_, Some other) \<Rightarrow> other,
          t2))"

text \<open>What one read of a coin says of a claimed height.\<close>

definition read_agrees :: "chain_source \<Rightarrow> nat \<Rightarrow> bytes32 \<Rightarrow> u32 \<Rightarrow> bool" where
  "read_agrees chain t c h =
     (case ask_coin_record chain t c of Ok (Some r) \<Rightarrow> confirmed_height r = Some h | _ \<Rightarrow> False)"

definition read_contradicts :: "chain_source \<Rightarrow> nat \<Rightarrow> bytes32 \<Rightarrow> u32 \<Rightarrow> bool" where
  "read_contradicts chain t c h =
     (case ask_coin_record chain t c of
        Ok None \<Rightarrow> True
      | Ok (Some r) \<Rightarrow> (case confirmed_height r of None \<Rightarrow> False | Some g \<Rightarrow> g \<noteq> h)
      | _ \<Rightarrow> False)"

section \<open>The account\<close>

record profile =
  prof_ix :: profile_ix
  prof_anchor :: profile_anchor

record account =
  ac_id :: account_id
  ac_registry :: profile_registry
  ac_resolved :: "profile_ix \<rightharpoonup> profile"

record saved_account =
  rec_id :: account_id
  rec_profiles :: profile_registry

definition account_new :: "account_id \<Rightarrow> profile_registry \<Rightarrow> account" where
  "account_new i r = \<lparr>ac_id = i, ac_registry = r, ac_resolved = Map.empty\<rparr>"

definition attach_resolved :: "profile \<Rightarrow> account \<Rightarrow> (unit, account_error) result \<times> account" where
  "attach_resolved p a =
     (let ix = prof_ix p in
      if \<not> registry_contains (ac_registry a) ix then (Err (ProfileNotFound ix), a)
      else (Ok (), a\<lparr>ac_resolved := (ac_resolved a)(ix \<mapsto> p)\<rparr>))"

definition account_record :: "account \<Rightarrow> saved_account" where
  "account_record a = \<lparr>rec_id = ac_id a, rec_profiles = ac_registry a\<rparr>"

definition default_profile :: "account \<Rightarrow> profile option" where
  "default_profile a =
     (case registry_active (ac_registry a) of
        None \<Rightarrow> None
      | Some e \<Rightarrow> ac_resolved a (en_ix e))"

definition set_default_profile ::
  "(bytes32 \<Rightarrow> string) \<Rightarrow> profile_ix \<Rightarrow> account \<Rightarrow> ((unit, account_error) result, account) run" where
  "set_default_profile did_of ix a =
     (case set_active did_of ix (ac_registry a) of
        Panics r \<Rightarrow> Panics (a\<lparr>ac_registry := r\<rparr>)
      | Returns res r \<Rightarrow> Returns (and_then res (\<lambda>_. Ok ())) (a\<lparr>ac_registry := r\<rparr>))"

datatype account_cmd =
    Attach profile
  | SetDefaultProfile profile_ix
  | OnRegistry registry_cmd

fun account_exec ::
  "(bytes32 \<Rightarrow> string) \<Rightarrow> account_cmd \<Rightarrow> account \<Rightarrow> ((unit, account_error) result, account) run" where
  "account_exec did_of (Attach p) a = (case attach_resolved p a of (res, a') \<Rightarrow> Returns res a')"
| "account_exec did_of (SetDefaultProfile ix) a = set_default_profile did_of ix a"
| "account_exec did_of (OnRegistry c) a =
     (case exec_cmd did_of c (ac_registry a) of
        Panics r \<Rightarrow> Panics (a\<lparr>ac_registry := r\<rparr>)
      | Returns res r \<Rightarrow> Returns res (a\<lparr>ac_registry := r\<rparr>))"

fun account_run :: "(bytes32 \<Rightarrow> string) \<Rightarrow> account_cmd list \<Rightarrow> account \<Rightarrow> (unit, account) run" where
  "account_run did_of [] a = Returns () a"
| "account_run did_of (c # cs) a =
     (case account_exec did_of c a of
        Panics a' \<Rightarrow> Panics a'
      | Returns _ a' \<Rightarrow> account_run did_of cs a')"

fun account_cmd_honest :: "(bytes32 \<Rightarrow> string) \<Rightarrow> account_cmd \<Rightarrow> bool" where
  "account_cmd_honest did_of (OnRegistry c) \<longleftrightarrow> cmd_honest did_of c"
| "account_cmd_honest did_of _ \<longleftrightarrow> True"

definition account_ok :: "(bytes32 \<Rightarrow> string) \<Rightarrow> account \<Rightarrow> bool" where
  "account_ok did_of a \<longleftrightarrow>
     registry_wf did_of (ac_registry a) \<and>
     (\<forall>ix p. ac_resolved a ix = Some p \<longrightarrow>
        prof_ix p = ix \<and> registry_get (ac_registry a) ix \<noteq> None)"

section \<open>Lemmas\<close>

lemma confirm_coin_time [simp]: "snd (confirm_coin chain t c h half) = Suc t"
  by (simp add: confirm_coin_def)

lemma confirm_coin_None: "fst (confirm_coin chain t c h half) = None \<longleftrightarrow> read_agrees chain t c h"
  by (auto simp: confirm_coin_def read_agrees_def split: result.splits option.splits)

lemma confirm_coin_disproved:
  "(\<exists>d. fst (confirm_coin chain t c h half) = Some (Disproved d)) \<longleftrightarrow> read_contradicts chain t c h"
  by (auto simp: confirm_coin_def read_contradicts_def split: result.splits option.splits)

lemma confirm_coin_not_verified: "fst (confirm_coin chain t c h half) \<noteq> Some Verified"
  by (auto simp: confirm_coin_def split: result.splits option.splits)

lemma confirm_coin_cases:
  assumes "confirm_coin chain t c h half = (v, t')"
  shows "v = None \<longleftrightarrow> read_agrees chain t c h"
    and "(\<exists>d. v = Some (Disproved d)) \<longleftrightarrow> read_contradicts chain t c h"
    and "v \<noteq> Some Verified"
  using confirm_coin_None [of chain t c h half] confirm_coin_disproved [of chain t c h half]
    confirm_coin_not_verified [of chain t c h half] assms
  by simp_all

text \<open>How \<open>verify_anchor\<close> combines the two halves.\<close>

definition verdict_of :: "anchor_verdict option \<Rightarrow> anchor_verdict option \<Rightarrow> anchor_verdict" where
  "verdict_of dv sv =
     (case (dv, sv) of
        (None, None) \<Rightarrow> Verified
      | (Some (Disproved d), _) \<Rightarrow> Disproved d
      | (_, Some (Disproved d)) \<Rightarrow> Disproved d
      | (Some other, _) \<Rightarrow> other
      | (_, Some other) \<Rightarrow> other)"

lemma verdict_of_verified:
  "dv \<noteq> Some Verified \<Longrightarrow> sv \<noteq> Some Verified \<Longrightarrow>
     verdict_of dv sv = Verified \<longleftrightarrow> dv = None \<and> sv = None"
  by (auto simp: verdict_of_def split: option.splits anchor_verdict.splits)

lemma verdict_of_may_present:
  "dv \<noteq> Some Verified \<Longrightarrow> sv \<noteq> Some Verified \<Longrightarrow>
     may_present (verdict_of dv sv) \<longleftrightarrow>
       \<not> ((\<exists>d. dv = Some (Disproved d)) \<or> (\<exists>d. sv = Some (Disproved d)))"
  by (auto simp: verdict_of_def split: option.splits anchor_verdict.splits)

lemma account_exec_registry_step:
  assumes "account_ok did_of a" and "cmd_honest did_of c"
    and "exec_cmd did_of c (ac_registry a) = Returns res r"
  shows "account_ok did_of (a\<lparr>ac_registry := r\<rparr>)"
proof -
  have wf: "registry_wf did_of (ac_registry a)" using assms(1) by (simp add: account_ok_def)
  have "registry_wf did_of r" by (rule exec_cmd_wf [OF wf assms(2,3)])
  moreover have "registry_get r ix \<noteq> None" if "registry_get (ac_registry a) ix \<noteq> None" for ix
    using exec_cmd_keeps [OF wf assms(2,3)] that by (fastforce simp: keeps_record_def)
  ultimately show ?thesis using assms(1) by (auto simp: account_ok_def)
qed

lemma account_exec_ok:
  assumes ok: "account_ok did_of a" and h: "account_cmd_honest did_of c"
    and exec: "account_exec did_of c a = Returns res a'"
  shows "account_ok did_of a'"
proof (cases c)
  case (Attach p)
  then show ?thesis using ok exec
    by (auto simp: attach_resolved_def Let_def registry_contains_def account_ok_def split: if_splits)
next
  case (SetDefaultProfile ix)
  then obtain res' r where "set_active did_of ix (ac_registry a) = Returns res' r"
    and a': "a' = a\<lparr>ac_registry := r\<rparr>"
    using exec by (auto simp: set_default_profile_def split: run.splits)
  then have "exec_cmd did_of (SetActive ix) (ac_registry a) =
      Returns (and_then res' (\<lambda>_. Ok ())) r" by simp
  then show ?thesis unfolding a'
    by (intro account_exec_registry_step [OF ok, where c = "SetActive ix"]) (simp_all del: exec_cmd.simps)
next
  case (OnRegistry rc)
  then obtain r where "exec_cmd did_of rc (ac_registry a) = Returns res r"
    and a': "a' = a\<lparr>ac_registry := r\<rparr>"
    using exec by (auto split: run.splits)
  then show ?thesis unfolding a' using h OnRegistry
    by (intro account_exec_registry_step [OF ok]) simp_all
qed

lemma account_run_ok:
  assumes "account_ok did_of a" and "list_all (account_cmd_honest did_of) cs"
    and "account_run did_of cs a = Returns () a'"
  shows "account_ok did_of a'"
  using assms
proof (induction cs arbitrary: a)
  case Nil
  then show ?case by simp
next
  case (Cons c cs)
  then obtain res a1 where "account_exec did_of c a = Returns res a1"
    and "account_run did_of cs a1 = Returns () a'"
    by (auto split: run.splits)
  with Cons account_exec_ok [of did_of a c res a1] show ?case by simp
qed

subsection \<open>A concrete session\<close>

definition sample_account :: account where
  "sample_account =
     \<lparr>ac_id = AccountId ''a'', ac_registry = sample_registry sample_did_of,
      ac_resolved = [ProfileIx 0 \<mapsto> \<lparr>prof_ix = ProfileIx 0,
        prof_anchor = sample_anchor sample_did_of 1\<rparr>]\<rparr>"

lemma account_run_registry:
  assumes "exec_cmds did_of cs r = Returns () r'"
  shows "account_run did_of (map OnRegistry cs @ ds) \<lparr>ac_id = i, ac_registry = r, ac_resolved = m\<rparr> =
           account_run did_of ds \<lparr>ac_id = i, ac_registry = r', ac_resolved = m\<rparr>"
  using assms by (induction cs arbitrary: r) (auto split: run.splits)

lemma sample_account_run:
  "account_run sample_did_of
     (map OnRegistry [sample_record sample_did_of 0, sample_record sample_did_of 1] @
      [Attach \<lparr>prof_ix = ProfileIx 0, prof_anchor = sample_anchor sample_did_of 1\<rparr>])
     (account_new (AccountId ''a'') registry_empty) = Returns () sample_account"
  unfolding account_new_def account_run_registry [OF sample_session]
  by (simp add: attach_resolved_def Let_def registry_contains_def sample_get sample_account_def)

section \<open>Properties\<close>

text \<open>The chain pass passes an anchor exactly when both coins it names were read back confirmed
  at the heights it claims, and it refuses to present one exactly when one of the two reads
  contradicts it, whatever the other read said: a source that could not answer about one half never
  masks a contradiction of the other.\<close>

theorem verify_anchor_exact:
  "(fst (verify_anchor a chain t) = Verified \<longleftrightarrow>
      read_agrees chain t (an_did_coin_id a) (an_did_confirmed_height a) \<and>
      (\<exists>c. an_store_coin_id a = Some c \<and>
           read_agrees chain (Suc t) c (an_store_confirmed_height a))) \<and>
   (may_present (fst (verify_anchor a chain t)) \<longleftrightarrow>
      \<not> (read_contradicts chain t (an_did_coin_id a) (an_did_confirmed_height a) \<or>
         (\<exists>c. an_store_coin_id a = Some c \<and>
              read_contradicts chain (Suc t) c (an_store_confirmed_height a))))"
proof -
  obtain dv where d: "confirm_coin chain t (an_did_coin_id a) (an_did_confirmed_height a) ''DID'' =
      (dv, Suc t)"
    by (metis confirm_coin_time prod.collapse)
  note dv = confirm_coin_cases [OF d]
  show ?thesis
  proof (cases "an_store_coin_id a")
    case None
    then have "verify_anchor a chain t =
        (verdict_of dv (Some (Unproven NoStoreCoinRecorded)), Suc t)"
      using d by (simp add: verify_anchor_def verdict_of_def)
    with None dv show ?thesis
      by (simp add: verdict_of_verified verdict_of_may_present)
  next
    case (Some c)
    obtain sv where s: "confirm_coin chain (Suc t) c (an_store_confirmed_height a) ''store'' =
        (sv, Suc (Suc t))"
      by (metis confirm_coin_time prod.collapse)
    note sv = confirm_coin_cases [OF s]
    have "verify_anchor a chain t = (verdict_of dv sv, Suc (Suc t))"
      using d s Some by (simp add: verify_anchor_def verdict_of_def)
    with Some dv sv show ?thesis
      by (simp add: verdict_of_verified verdict_of_may_present)
  qed
qed

text \<open>What \<open>Verified\<close> does not say, as its documentation admits: the verdict reads only
  the two coins' heights, so it is the same for every DID string and launcher id written beside
  them.\<close>

theorem verify_anchor_ignores_identity:
  "verify_anchor (a\<lparr>an_did := did, an_launcher_id := l\<rparr>) chain t = verify_anchor a chain t"
proof -
  let ?b = "a\<lparr>an_did := did, an_launcher_id := l\<rparr>"
  have "an_did_coin_id ?b = an_did_coin_id a"
    "an_did_confirmed_height ?b = an_did_confirmed_height a"
    "an_store_coin_id ?b = an_store_coin_id a"
    "an_store_confirmed_height ?b = an_store_confirmed_height a" by simp_all
  then show ?thesis unfolding verify_anchor_def by presburger
qed

text \<open>The account's two halves never disagree. Over any session from a new account, every
  resolved profile is attached at its own index and names a profile the registry confirms, also
  after profiles have ended or moved; and what is saved is the account's identifier with a registry
  that satisfies every invariant.\<close>

theorem resolved_profiles_are_confirmed:
  assumes "list_all (account_cmd_honest did_of) cs"
    and "account_run did_of cs (account_new i registry_empty) = Returns () a"
  shows "(\<forall>ix p. ac_resolved a ix = Some p \<longrightarrow>
      prof_ix p = ix \<and> registry_get (ac_registry a) ix \<noteq> None) \<and>
    registry_wf did_of (rec_profiles (account_record a))"
proof -
  have "account_ok did_of (account_new i registry_empty)"
    by (simp add: account_ok_def account_new_def registry_empty_wf)
  from account_run_ok [OF this assms] show ?thesis
    by (simp add: account_ok_def account_record_def)
qed


theorem resolved_profiles_are_confirmed_witness:
  "registry_get (sample_registry sample_did_of) (ProfileIx 0) \<noteq> None \<and>
   registry_wf sample_did_of (sample_registry sample_did_of)"
  using resolved_profiles_are_confirmed [OF _ sample_account_run]
  by (simp add: sample_account_def account_record_def)

end
