(* ===== verification/Custody_Policy.thy ===== *)
theory Custody_Policy
  imports Chain_Evidence
begin

text \<open>
  The custody configuration: the auto-send policy (\<open>src/wallet/autosend.rs\<close>) and the two-tier
  custody types with the scope a gate stamps on its permissions (\<open>src/wallet/policy.rs\<close>).
  They decide nothing; the gate of \<open>Custody_Gate\<close> enforces them.
\<close>

section \<open>Auto-send policy\<close>

definition DEFAULT_PERIOD_SECONDS :: u64 where
  "DEFAULT_PERIOD_SECONDS = 24 * 60 * 60"

definition DEFAULT_MAX_CONFIRMATIONS_PER_PERIOD :: u32 where
  "DEFAULT_MAX_CONFIRMATIONS_PER_PERIOD = 64"

definition MAX_LEDGER_ENTRIES :: nat where
  "MAX_LEDGER_ENTRIES = 4096"

datatype spend_op_class = Rebalance | Tip | SmallSend | Undeclared

record op_class_limits =
  lim_enabled :: bool
  per_tx_limit_mojos :: u64

definition op_class_limits_default :: op_class_limits where
  "op_class_limits_default = \<lparr>lim_enabled = False, per_tx_limit_mojos = 0\<rparr>"

definition enabled_up_to :: "u64 \<Rightarrow> op_class_limits" where
  "enabled_up_to n = \<lparr>lim_enabled = True, per_tx_limit_mojos = n\<rparr>"

record auto_send_policy =
  as_enabled :: bool
  as_rebalance :: op_class_limits
  as_tip :: op_class_limits
  as_small_send :: op_class_limits
  period_seconds :: u64
  period_cap_mojos :: u64
  max_confirmations_per_period :: u32

definition auto_send_policy_default :: auto_send_policy where
  "auto_send_policy_default =
     \<lparr>as_enabled = False, as_rebalance = op_class_limits_default,
      as_tip = op_class_limits_default, as_small_send = op_class_limits_default,
      period_seconds = DEFAULT_PERIOD_SECONDS, period_cap_mojos = 0,
      max_confirmations_per_period = DEFAULT_MAX_CONFIRMATIONS_PER_PERIOD\<rparr>"

fun configured_limits :: "auto_send_policy \<Rightarrow> spend_op_class \<Rightarrow> op_class_limits option" where
  "configured_limits p Rebalance = Some (as_rebalance p)"
| "configured_limits p Tip = Some (as_tip p)"
| "configured_limits p SmallSend = Some (as_small_send p)"
| "configured_limits p Undeclared = None"

section \<open>Custody tiers\<close>

record vault =
  clawback_seconds :: u64

record hot_wallet =
  auto_send_limit :: u64

definition vault_default :: vault where
  "vault_default = \<lparr>clawback_seconds = 24 * 60 * 60\<rparr>"

definition hot_wallet_default :: hot_wallet where
  "hot_wallet_default = \<lparr>auto_send_limit = 0\<rparr>"

datatype custody_policy = VaultCustody vault | HotCustody hot_wallet

section \<open>Whose money a gate rules over\<close>

record custody_scope =
  scope_profile :: profile_ix
  spending_wallet :: "bytes32 option"

definition custody_scope_new :: "profile_ix \<Rightarrow> custody_policy \<Rightarrow> bytes32 \<Rightarrow> custody_scope" where
  "custody_scope_new ix custody hot =
     \<lparr>scope_profile = ix,
      spending_wallet = (case custody of HotCustody _ \<Rightarrow> Some hot | VaultCustody _ \<Rightarrow> None)\<rparr>"

definition assert_signable_by ::
  "custody_scope \<Rightarrow> profile_ix \<Rightarrow> bytes32 \<Rightarrow> (unit, account_error) result" where
  "assert_signable_by s ix ph =
     (if scope_profile s \<noteq> ix then Err (PolicyDenied (ScopeOfOtherProfile (scope_profile s) ix))
      else case spending_wallet s of
        Some configured \<Rightarrow>
          if configured \<noteq> ph then Err (PolicyDenied (ScopeOfOtherWallet configured ph)) else Ok ()
      | None \<Rightarrow> Ok ())"

lemma assert_signable_by_Ok:
  "assert_signable_by s ix ph = Ok () \<longleftrightarrow>
     scope_profile s = ix \<and> (\<forall>w. spending_wallet s = Some w \<longrightarrow> w = ph)"
  by (auto simp: assert_signable_by_def split: option.splits)

end
