(* ===== verification/Spend_Summary.thy ===== *)
theory Spend_Summary
  imports Custody_Policy
begin

text \<open>
  The spend summary (\<open>src/wallet/summary.rs\<close>): what a spend does, re-derived from the coin
  spends alone, with the tier it must be handled at.

  What \<open>dig-wallet-backend\<close>, the chia driver and the address codec compute is the record
  \<open>spend_driver\<close>, an argument of every definition that uses it: the re-parse
  (\<open>analyze\<close>), the canonical sentence of an NFT act, the hash a bare standard puzzle's reveal
  curries to, bech32m encoding and decoding, lowercase hex, and the two structural puzzle hashes.
  Nothing is assumed of it. \<open>'n\<close> is the driver's type of NFT acts.
\<close>

section \<open>Coin spends and the driver\<close>

type_synonym byte = "8 word"

record coin_spend =
  spent_coin :: coin
  puzzle_reveal :: "byte list"
  solution :: "byte list"

record decoded_output =
  out_puzzle_hash :: bytes32
  out_amount :: u64
  out_asset :: "bytes32 option"

record 'n spend_effect =
  eff_outputs :: "decoded_output list"
  eff_protocol_sink :: "decoded_output list"
  eff_fee :: u64
  eff_melted :: "bytes32 list"
  eff_nft_operations :: "'n list"

record 'n spend_driver =
  analyze :: "coin_spend list \<Rightarrow> ('n spend_effect, string) result"
  describe :: "'n \<Rightarrow> (string, string) result"
  p2_curry :: "byte list \<Rightarrow> bytes32 option"
  encode_address :: "bytes32 \<Rightarrow> string \<Rightarrow> (string, string) result"
  decode_address :: "string \<Rightarrow> (bytes32 \<times> string, string) result"
  hex :: "bytes32 \<Rightarrow> string"
  settlement_hash :: bytes32
  launcher_hash :: bytes32

definition MAINNET_ADDRESS_PREFIX :: string where
  "MAINNET_ADDRESS_PREFIX = ''xch''"

section \<open>The summary\<close>

datatype spend_destination = AddressDest | ProtocolStructure

record spend_recipient =
  rcp_address :: string
  rcp_amount :: u64
  rcp_asset :: "string option"
  rcp_destination :: spend_destination

definition to_address :: "string \<Rightarrow> u64 \<Rightarrow> string option \<Rightarrow> spend_recipient" where
  "to_address a n asset =
     \<lparr>rcp_address = a, rcp_amount = n, rcp_asset = asset, rcp_destination = AddressDest\<rparr>"

definition to_protocol_structure :: "string \<Rightarrow> u64 \<Rightarrow> string option \<Rightarrow> spend_recipient" where
  "to_protocol_structure a n asset =
     \<lparr>rcp_address = a, rcp_amount = n, rcp_asset = asset, rcp_destination = ProtocolStructure\<rparr>"

datatype spend_tier = AutoSend | Confirm | VaultTier

fun classify :: "custody_policy \<Rightarrow> u64 \<Rightarrow> spend_tier" where
  "classify (VaultCustody _) _ = VaultTier"
| "classify (HotCustody hot) n = (if n \<le> auto_send_limit hot then AutoSend else Confirm)"

record spend_summary =
  sm_tier :: spend_tier
  sm_recipients :: "spend_recipient list"
  sm_fee :: u64
  sm_melted :: "string list"
  sm_nft_operations :: "string list"

definition spend_summary_new :: "spend_tier \<Rightarrow> spend_recipient list \<Rightarrow> u64 \<Rightarrow> spend_summary" where
  "spend_summary_new tier recipients fee =
     \<lparr>sm_tier = tier, sm_recipients = recipients, sm_fee = fee, sm_melted = [], sm_nft_operations = []\<rparr>"

definition spend_summary_melting ::
  "spend_tier \<Rightarrow> spend_recipient list \<Rightarrow> u64 \<Rightarrow> string list \<Rightarrow> spend_summary" where
  "spend_summary_melting tier recipients fee melted =
     \<lparr>sm_tier = tier, sm_recipients = recipients, sm_fee = fee, sm_melted = melted, sm_nft_operations = []\<rparr>"

definition with_nft_operations :: "string list \<Rightarrow> spend_summary \<Rightarrow> spend_summary" where
  "with_nft_operations operations s = s\<lparr>sm_nft_operations := operations\<rparr>"

definition destroys_singletons :: "spend_summary \<Rightarrow> bool" where
  "destroys_singletons s \<longleftrightarrow> sm_melted s \<noteq> []"

definition moves_nfts :: "spend_summary \<Rightarrow> bool" where
  "moves_nfts s \<longleftrightarrow> sm_nft_operations s \<noteq> []"

definition moves_non_native_assets :: "spend_summary \<Rightarrow> bool" where
  "moves_non_native_assets s \<longleftrightarrow> list_ex (\<lambda>r. rcp_asset r \<noteq> None) (sm_recipients s)"

definition checked_native_total_mojos :: "spend_summary \<Rightarrow> (u64, account_error) result" where
  "checked_native_total_mojos s =
     and_then
       (ok_or (PolicyIndeterminate RecipientAmountsOverflow)
          (checked_sum 0 (map rcp_amount (filter (\<lambda>r. rcp_asset r = None) (sm_recipients s)))))
       (\<lambda>native_out. ok_or (PolicyIndeterminate AmountsPlusFeeOverflow)
                        (checked_add native_out (sm_fee s)))"

definition native_total_mojos :: "spend_summary \<Rightarrow> u64" where
  "native_total_mojos s = (case checked_native_total_mojos s of Ok n \<Rightarrow> n | Err _ \<Rightarrow> - 1)"

subsection \<open>Deriving it from the bytes\<close>

fun p2_destinations :: "'n spend_driver \<Rightarrow> coin_spend list \<Rightarrow> bytes32 list" where
  "p2_destinations drv [] = []"
| "p2_destinations drv (s # ss) =
     (case p2_curry drv (puzzle_reveal s) of
        None \<Rightarrow> p2_destinations drv ss
      | Some curried \<Rightarrow>
          if curried = puzzle_hash (spent_coin s)
          then puzzle_hash (spent_coin s) # p2_destinations drv ss
          else p2_destinations drv ss)"

definition address_line :: "'n spend_driver \<Rightarrow> decoded_output \<Rightarrow> spend_recipient" where
  "address_line drv out =
     to_address
       (case encode_address drv (out_puzzle_hash out) MAINNET_ADDRESS_PREFIX of
          Ok a \<Rightarrow> a
        | Err _ \<Rightarrow> hex drv (out_puzzle_hash out))
       (out_amount out) (map_option (hex drv) (out_asset out))"

definition protocol_structure_line :: "'n spend_driver \<Rightarrow> decoded_output \<Rightarrow> spend_recipient" where
  "protocol_structure_line drv out =
     to_protocol_structure
       (if out_puzzle_hash out = settlement_hash drv then ''the offer settlement puzzle''
        else if out_puzzle_hash out = launcher_hash drv then ''the singleton launcher''
        else ''an unrecognized protocol structure ('' @ hex drv (out_puzzle_hash out) @ '')'')
       (out_amount out) (map_option (hex drv) (out_asset out))"

definition derive_effect ::
  "'n spend_driver \<Rightarrow> coin_spend list \<Rightarrow> ('n spend_effect, account_error) result" where
  "derive_effect drv spends =
     and_then
       (ok_or (PolicyIndeterminate InputAmountsOverflow)
          (checked_sum 0 (map (\<lambda>s. amount (spent_coin s)) spends)))
       (\<lambda>_. map_err (\<lambda>e. Spend (''cannot derive spend summary: '' @ e)) (analyze drv spends))"

definition summary_from_effect ::
  "'n spend_driver \<Rightarrow> 'n spend_effect \<Rightarrow> coin_spend list \<Rightarrow> spend_tier \<Rightarrow>
     (spend_summary, account_error) result"
where
  "summary_from_effect drv effect spends tier =
     (let returns_to_spender = p2_destinations drv spends;
          leaves = map (address_line drv)
                     (filter (\<lambda>out. out_puzzle_hash out \<notin> set returns_to_spender) (eff_outputs effect))
      in and_then
           (collect_results
              (map (\<lambda>op. map_err (\<lambda>e. Spend (''cannot name an NFT this spend acts on: '' @ e))
                             (describe drv op))
                   (eff_nft_operations effect)))
           (\<lambda>nfts. Ok \<lparr>sm_tier = tier,
              sm_recipients = leaves @ map (protocol_structure_line drv) (eff_protocol_sink effect),
              sm_fee = eff_fee effect,
              sm_melted = map (hex drv) (eff_melted effect),
              sm_nft_operations = nfts\<rparr>))"

definition summary_from_coin_spends ::
  "'n spend_driver \<Rightarrow> coin_spend list \<Rightarrow> spend_tier \<Rightarrow> (spend_summary, account_error) result" where
  "summary_from_coin_spends drv spends tier =
     and_then (derive_effect drv spends) (\<lambda>e. summary_from_effect drv e spends tier)"

record derived_spend =
  ds_summary :: spend_summary
  ds_native_total :: u64

definition derive_spend ::
  "'n spend_driver \<Rightarrow> coin_spend list \<Rightarrow> custody_policy \<Rightarrow> (derived_spend, account_error) result" where
  "derive_spend drv spends policy =
     and_then (derive_effect drv spends) (\<lambda>effect.
     and_then (summary_from_effect drv effect spends Confirm) (\<lambda>s0.
     and_then (checked_native_total_mojos s0) (\<lambda>total.
       (let s1 = s0\<lparr>sm_tier := classify policy total\<rparr>;
            s2 = (if sm_tier s1 = AutoSend \<and> moves_non_native_assets s1
                  then s1\<lparr>sm_tier := Confirm\<rparr> else s1);
            s3 = (if sm_tier s2 = AutoSend \<and> destroys_singletons s2
                  then s2\<lparr>sm_tier := Confirm\<rparr> else s2);
            s4 = (if sm_tier s3 = AutoSend \<and> moves_nfts s3
                  then s3\<lparr>sm_tier := Confirm\<rparr> else s3)
        in Ok \<lparr>ds_summary = s4, ds_native_total = total\<rparr>))))"

definition summary_classified ::
  "'n spend_driver \<Rightarrow> coin_spend list \<Rightarrow> custody_policy \<Rightarrow> (spend_summary, account_error) result" where
  "summary_classified drv spends policy =
     and_then (derive_spend drv spends policy) (\<lambda>d. Ok (ds_summary d))"

section \<open>What a person reads\<close>

definition MOJOS_PER_XCH :: u64 where
  "MOJOS_PER_XCH = 1000000000000"

definition digit :: "nat \<Rightarrow> char" where
  "digit d = char_of (48 + d mod 10)"

text \<open>\<open>to_string()\<close> of an unsigned integer: decimal, no leading zeros.\<close>

fun decimal :: "nat \<Rightarrow> string" where
  "decimal n = (if n < 10 then [digit n] else decimal (n div 10) @ [digit n])"

declare decimal.simps [simp del]

text \<open>\<open>format!("{n:012}")\<close>.\<close>

definition pad12 :: "nat \<Rightarrow> string" where
  "pad12 n = (let s = decimal n in replicate (12 - length s) (CHR ''0'') @ s)"

definition trim_end_zeros :: "string \<Rightarrow> string" where
  "trim_end_zeros s = rev (dropWhile (\<lambda>c. c = CHR ''0'') (rev s))"

definition format_xch :: "u64 \<Rightarrow> string" where
  "format_xch mojos =
     (let whole = mojos div MOJOS_PER_XCH; fraction = mojos mod MOJOS_PER_XCH in
      if fraction = 0 then decimal (unat whole)
      else decimal (unat whole) @ ''.'' @ trim_end_zeros (pad12 (unat fraction)))"

text \<open>The \<open>Display\<close> line. The dash before each act is an em dash in UTF-8.\<close>

definition em_dash :: string where
  "em_dash = [CHR 0xE2, CHR 0x80, CHR 0x94]"

fun tier_debug :: "spend_tier \<Rightarrow> string" where
  "tier_debug AutoSend = ''AutoSend''"
| "tier_debug Confirm = ''Confirm''"
| "tier_debug VaultTier = ''Vault''"

definition recipient_text :: "spend_recipient \<Rightarrow> string" where
  "recipient_text r =
     (case rcp_asset r of
        None \<Rightarrow> format_xch (rcp_amount r) @ '' XCH -> '' @ rcp_address r
      | Some asset \<Rightarrow> decimal (unat (rcp_amount r)) @ '' base units of CAT '' @ asset @ '' -> ''
                        @ rcp_address r)"

fun join_comma :: "string list \<Rightarrow> string" where
  "join_comma [] = []"
| "join_comma [x] = x"
| "join_comma (x # xs) = x @ '', '' @ join_comma xs"

definition display_summary :: "spend_summary \<Rightarrow> string" where
  "display_summary s =
     tier_debug (sm_tier s) @ '': '' @
     (if sm_recipients s = [] then ''no recipients''
      else join_comma (map recipient_text (sm_recipients s))) @
     '' (fee '' @ format_xch (sm_fee s) @ '' XCH)'' @
     concat (map (\<lambda>c. '' '' @ em_dash @ '' destroys singleton '' @ c @ '' permanently'') (sm_melted s)) @
     concat (map (\<lambda>op. '' '' @ em_dash @ '' '' @ op) (sm_nft_operations s))"

section \<open>Lemmas\<close>

lemma collect_results_Ok:
  "collect_results xs = Ok vs \<longleftrightarrow> map Ok vs = xs"
proof (induction xs arbitrary: vs)
  case Nil
  then show ?case by auto
next
  case (Cons x xs)
  then show ?case by (cases x) (auto simp: and_then_Ok)
qed

lemma p2_destinations_iff:
  "h \<in> set (p2_destinations drv spends) \<longleftrightarrow>
     (\<exists>s\<in>set spends. puzzle_hash (spent_coin s) = h \<and> p2_curry drv (puzzle_reveal s) = Some h)"
  by (induction spends) (auto split: option.splits)

lemma native_total_exact:
  "checked_native_total_mojos s = Ok n \<longleftrightarrow>
     unat n = sum_list (map (unat \<circ> rcp_amount) (filter (\<lambda>r. rcp_asset r = None) (sm_recipients s)))
              + unat (sm_fee s)"
proof -
  let ?xs = "map rcp_amount (filter (\<lambda>r. rcp_asset r = None) (sm_recipients s))"
  have sums: "map unat ?xs = map (unat \<circ> rcp_amount) (filter (\<lambda>r. rcp_asset r = None) (sm_recipients s))"
    by simp
  show ?thesis
  proof
    assume "checked_native_total_mojos s = Ok n"
    then obtain m where "checked_sum 0 ?xs = Some m" "checked_add m (sm_fee s) = Some n"
      by (auto simp: checked_native_total_mojos_def result_simps)
    then show "unat n = sum_list (map (unat \<circ> rcp_amount)
        (filter (\<lambda>r. rcp_asset r = None) (sm_recipients s))) + unat (sm_fee s)"
      using checked_sum_Some [of 0 ?xs m] checked_add_unat sums by force
  next
    assume n: "unat n = sum_list (map (unat \<circ> rcp_amount)
        (filter (\<lambda>r. rcp_asset r = None) (sm_recipients s))) + unat (sm_fee s)"
    then have "unat (0::u64) + sum_list (map unat ?xs) < 2 ^ LENGTH(64)"
      using unat_less_pow [of n] sums by simp
    then obtain m where m: "checked_sum 0 ?xs = Some m" using checked_sum_exact by blast
    then have "unat m + unat (sm_fee s) = unat n"
      using checked_sum_Some [of 0 ?xs m] n sums by simp
    then have "checked_add m (sm_fee s) = Some n"
      using unat_less_pow [of n]
      by (simp add: checked_add_def unat_word_ariths word_unat_eq_iff)
    with m show "checked_native_total_mojos s = Ok n"
      by (simp add: checked_native_total_mojos_def result_simps ok_or_def)
  qed
qed

lemma summary_from_effect_Ok:
  assumes "summary_from_effect drv e spends tier = Ok s"
  shows "sm_tier s = tier"
    "sm_recipients s =
       map (address_line drv)
         (filter (\<lambda>out. out_puzzle_hash out \<notin> set (p2_destinations drv spends)) (eff_outputs e)) @
       map (protocol_structure_line drv) (eff_protocol_sink e)"
    "sm_fee s = eff_fee e" "sm_melted s = map (hex drv) (eff_melted e)"
    "map Ok (sm_nft_operations s) = map (map_err (\<lambda>x. Spend (''cannot name an NFT this spend acts on: '' @ x)) \<circ> describe drv) (eff_nft_operations e)"
  using assms by (auto simp: summary_from_effect_def Let_def result_simps collect_results_Ok)

lemma lines_native [simp]:
  "rcp_amount (address_line drv x) = out_amount x"
  "rcp_asset (address_line drv x) = map_option (hex drv) (out_asset x)"
  "rcp_destination (address_line drv x) = AddressDest"
  "rcp_amount (protocol_structure_line drv x) = out_amount x"
  "rcp_asset (protocol_structure_line drv x) = map_option (hex drv) (out_asset x)"
  "rcp_destination (protocol_structure_line drv x) = ProtocolStructure"
  by (simp_all add: address_line_def protocol_structure_line_def to_address_def
        to_protocol_structure_def)

text \<open>What the tier is, in one expression.\<close>

definition tier_of :: "custody_policy \<Rightarrow> u64 \<Rightarrow> spend_summary \<Rightarrow> spend_tier" where
  "tier_of policy n s =
     (if classify policy n = AutoSend \<and>
         (moves_non_native_assets s \<or> destroys_singletons s \<or> moves_nfts s)
      then Confirm else classify policy n)"

lemma derive_spend_Ok:
  assumes "derive_spend drv spends policy = Ok d"
  obtains e s where "analyze drv spends = Ok e" "summary_from_effect drv e spends Confirm = Ok s"
    "checked_native_total_mojos s = Ok (ds_native_total d)"
    "ds_summary d = s\<lparr>sm_tier := tier_of policy (ds_native_total d) s\<rparr>"
proof -
  from assms obtain e s n where *: "derive_effect drv spends = Ok e"
    "summary_from_effect drv e spends Confirm = Ok s" "checked_native_total_mojos s = Ok n"
    and d: "ds_native_total d = n" "ds_summary d = s\<lparr>sm_tier := tier_of policy n s\<rparr>"
    by (auto simp: derive_spend_def result_simps Let_def tier_of_def moves_non_native_assets_def
          destroys_singletons_def moves_nfts_def split: if_splits)
  have "analyze drv spends = Ok e" using *(1) by (auto simp: derive_effect_def result_simps)
  with * d that show ?thesis by simp
qed

lemma tier_of_AutoSend:
  "tier_of policy n s = AutoSend \<longleftrightarrow>
     (\<exists>hot. policy = HotCustody hot \<and> n \<le> auto_send_limit hot) \<and>
     \<not> moves_non_native_assets s \<and> \<not> destroys_singletons s \<and> \<not> moves_nfts s"
  by (cases policy) (auto simp: tier_of_def)

lemma tier_of_Vault: "tier_of policy n s = VaultTier \<longleftrightarrow> (\<exists>v. policy = VaultCustody v)"
  by (cases policy) (auto simp: tier_of_def)

subsection \<open>Decimal numerals\<close>

definition digit_val :: "char \<Rightarrow> nat" where
  "digit_val c = of_char c - 48"

definition dec_value :: "string \<Rightarrow> nat" where
  "dec_value = foldl (\<lambda>a c. 10 * a + digit_val c) 0"

lemma digit_val_digit [simp]: "digit_val (digit d) = d mod 10"
proof -
  have "48 + d mod 10 < 256" by (simp add: order.strict_trans1 [of _ 57])
  then show ?thesis by (simp add: digit_val_def digit_def of_char_of)
qed

lemma dec_value_nil [simp]: "dec_value [] = 0"
  by (simp add: dec_value_def)

lemma dec_value_append: "dec_value (s @ [c]) = 10 * dec_value s + digit_val c"
  by (simp add: dec_value_def)

lemma dec_value_decimal [simp]: "dec_value (decimal n) = n"
proof (induction n rule: decimal.induct)
  case (1 n)
  show ?case
  proof (cases "n < 10")
    case True
    then show ?thesis by (simp add: decimal.simps [of n] dec_value_def)
  next
    case False
    then show ?thesis using 1 by (simp add: decimal.simps [of n] dec_value_append)
  qed
qed

lemma digit_not_point: "digit m \<noteq> CHR ''.''"
proof
  assume "digit m = CHR ''.''"
  then have "of_char (digit m) = (of_char (CHR ''.'') :: nat)" by simp
  moreover have "48 + m mod 10 < 256" by (simp add: order.strict_trans1 [of _ 57])
  ultimately show False by (simp add: digit_def of_char_of)
qed

lemma no_point_in_decimal: "CHR ''.'' \<notin> set (decimal n)"
proof (induction n rule: decimal.induct)
  case (1 n)
  then show ?case using digit_not_point [symmetric] by (simp add: decimal.simps [of n])
qed

lemma length_decimal: "0 < k \<Longrightarrow> n < 10 ^ k \<Longrightarrow> length (decimal n) \<le> k"
proof (induction n arbitrary: k rule: decimal.induct)
  case (1 n)
  show ?case
  proof (cases "n < 10")
    case True
    then show ?thesis using 1 by (simp add: decimal.simps [of n])
  next
    case False
    then have "k > 1" using 1(3) by (cases k; cases "k - 1") auto
    moreover have "n div 10 < 10 ^ (k - 1)"
      using 1(3) calculation by (cases k) (auto simp: less_mult_imp_div_less)
    ultimately show ?thesis using False 1(1) [of "k - 1"] by (simp add: decimal.simps [of n])
  qed
qed

lemma dec_value_zeros: "dec_value (replicate k (CHR ''0'') @ s) = dec_value s"
proof -
  have "foldl (\<lambda>a c. 10 * a + digit_val c) 0 (replicate k (CHR ''0'')) = 0"
    by (induction k) (simp_all add: digit_val_def)
  then show ?thesis by (simp add: dec_value_def)
qed

lemma pad12_value [simp]: "dec_value (pad12 n) = n"
  by (simp add: pad12_def Let_def dec_value_zeros)

lemma pad12_length: "n < 10 ^ 12 \<Longrightarrow> length (pad12 n) = 12"
  using length_decimal [of 12 n] by (simp add: pad12_def Let_def)

lemma trim_end_pad:
  "trim_end_zeros s @ replicate (length s - length (trim_end_zeros s)) (CHR ''0'') = s"
proof -
  let ?p = "\<lambda>c. c = CHR ''0''"
  have tw: "takeWhile ?p xs = replicate (length (takeWhile ?p xs)) (CHR ''0'')" for xs
    by (induction xs) auto
  have split: "rev s = takeWhile ?p (rev s) @ dropWhile ?p (rev s)" by simp
  have "s = rev (dropWhile ?p (rev s)) @ rev (takeWhile ?p (rev s))"
    by (metis rev_append rev_rev_ident split)
  moreover have "rev (takeWhile ?p (rev s)) = replicate (length (takeWhile ?p (rev s))) (CHR ''0'')"
    by (metis tw rev_replicate)
  moreover have "length (takeWhile ?p (rev s)) = length s - length (trim_end_zeros s)"
    using arg_cong [OF split, of length] unfolding trim_end_zeros_def
    by (simp only: length_append length_rev)
  ultimately show ?thesis by (simp add: trim_end_zeros_def)
qed

text \<open>Reading a rendered XCH amount: the digits before the point count whole XCH, those after it
  are the leading digits of the twelve decimals.\<close>

definition xch_value :: "string \<Rightarrow> nat" where
  "xch_value s =
     (let w = takeWhile (\<lambda>c. c \<noteq> CHR ''.'') s; f = tl (dropWhile (\<lambda>c. c \<noteq> CHR ''.'') s)
      in dec_value w * 10 ^ 12 + dec_value (f @ replicate (12 - length f) (CHR ''0'')))"

lemma xch_value_point:
  assumes "CHR ''.'' \<notin> set w"
  shows "xch_value (w @ ''.'' @ f) =
           dec_value w * 10 ^ 12 + dec_value (f @ replicate (12 - length f) (CHR ''0''))"
    and "xch_value w = dec_value w * 10 ^ 12"
proof -
  have tw: "takeWhile (\<lambda>c. c \<noteq> CHR ''.'') w = w" "dropWhile (\<lambda>c. c \<noteq> CHR ''.'') w = []"
    using assms by (auto simp: takeWhile_eq_all_conv dropWhile_eq_Nil_conv)
  have "takeWhile (\<lambda>c. c \<noteq> CHR ''.'') (w @ ''.'' @ f) = w"
    "dropWhile (\<lambda>c. c \<noteq> CHR ''.'') (w @ ''.'' @ f) = ''.'' @ f"
    using assms by (auto simp: takeWhile_append dropWhile_append)
  then show "xch_value (w @ ''.'' @ f) =
      dec_value w * 10 ^ 12 + dec_value (f @ replicate (12 - length f) (CHR ''0''))"
    by (simp add: xch_value_def Let_def)
  show "xch_value w = dec_value w * 10 ^ 12"
    unfolding xch_value_def Let_def tw using dec_value_zeros [of 12 "[]"] by simp
qed

lemma xch_value_format: "xch_value (format_xch m) = unat m"
proof -
  let ?w = "unat m div 10 ^ 12" and ?f = "unat m mod 10 ^ 12"
  have w: "unat (m div MOJOS_PER_XCH) = ?w" and f: "unat (m mod MOJOS_PER_XCH) = ?f"
    by (simp_all add: MOJOS_PER_XCH_def unat_div unat_mod)
  have z: "m mod MOJOS_PER_XCH = 0 \<longleftrightarrow> ?f = 0"
    using f by (metis unat_eq_zero)
  show ?thesis
  proof (cases "?f = 0")
    case True
    then have "xch_value (format_xch m) = ?w * 10 ^ 12"
      using z w by (simp add: format_xch_def Let_def xch_value_point(2) [OF no_point_in_decimal])
    then show ?thesis using True by (metis add_0_right div_mult_mod_eq)
  next
    case False
    have len: "length (pad12 ?f) = 12" by (rule pad12_length) simp
    have "format_xch m = decimal ?w @ ''.'' @ trim_end_zeros (pad12 ?f)"
      using False z w f by (simp add: format_xch_def Let_def)
    then have "xch_value (format_xch m) = ?w * 10 ^ 12 + dec_value (pad12 ?f)"
      using trim_end_pad [of "pad12 ?f"] len
      by (simp add: xch_value_point(1) [OF no_point_in_decimal] del: append.simps)
    then show ?thesis by (simp only: pad12_value div_mult_mod_eq)
  qed
qed


section \<open>Properties\<close>

text \<open>The native value of the decoded outputs a list holds.\<close>

definition native_value :: "decoded_output list \<Rightarrow> nat" where
  "native_value outs = sum_list (map (unat \<circ> out_amount) (filter (\<lambda>out. out_asset out = None) outs))"

text \<open>The one excuse: the output pays the puzzle hash of a coin being spent, whose own reveal is a
  bare standard puzzle currying to that very hash.\<close>

definition proven_return :: "'n spend_driver \<Rightarrow> coin_spend list \<Rightarrow> decoded_output \<Rightarrow> bool" where
  "proven_return drv spends out \<longleftrightarrow>
     list_ex (\<lambda>s. puzzle_hash (spent_coin s) = out_puzzle_hash out \<and>
                 p2_curry drv (puzzle_reveal s) = Some (out_puzzle_hash out)) spends"

lemma proven_return_iff:
  "out_puzzle_hash out \<in> set (p2_destinations drv spends) \<longleftrightarrow> proven_return drv spends out"
  by (auto simp: p2_destinations_iff proven_return_def list_ex_iff)

lemma native_value_lines:
  "sum_list (map (unat \<circ> rcp_amount) (filter (\<lambda>r. rcp_asset r = None) (map (address_line drv) outs)))
     = native_value outs"
  "sum_list (map (unat \<circ> rcp_amount)
       (filter (\<lambda>r. rcp_asset r = None) (map (protocol_structure_line drv) outs))) = native_value outs"
  by (induction outs) (simp_all add: native_value_def)

text \<open>No output can hide. Whenever a spend is derived at all, the total every limit weighs is
  exactly the native amount of the driver's outputs that are not proven to return to a coin being
  spent, plus everything committed to a protocol structure, plus the fee, computed without
  wrap-around; each counted output and each structure has its line, and each melted singleton its
  name.\<close>

theorem derived_spend_counts_everything:
  assumes "derive_spend drv spends policy = Ok d"
  shows "\<exists>e. analyze drv spends = Ok e \<and>
    unat (ds_native_total d) =
      native_value (filter (\<lambda>out. \<not> proven_return drv spends out) (eff_outputs e)) +
      native_value (eff_protocol_sink e) + unat (eff_fee e) \<and>
    sm_recipients (ds_summary d) =
      map (address_line drv) (filter (\<lambda>out. \<not> proven_return drv spends out) (eff_outputs e)) @
      map (protocol_structure_line drv) (eff_protocol_sink e) \<and>
    sm_fee (ds_summary d) = eff_fee e \<and>
    sm_melted (ds_summary d) = map (hex drv) (eff_melted e) \<and>
    length (sm_nft_operations (ds_summary d)) = length (eff_nft_operations e)"
proof -
  obtain e s where e: "analyze drv spends = Ok e"
    and s: "summary_from_effect drv e spends Confirm = Ok s"
    and n: "checked_native_total_mojos s = Ok (ds_native_total d)"
    and d: "ds_summary d = s\<lparr>sm_tier := tier_of policy (ds_native_total d) s\<rparr>"
    using derive_spend_Ok [OF assms] by blast
  note parts = summary_from_effect_Ok [OF s, unfolded proven_return_iff]
  have "length (sm_nft_operations s) = length (eff_nft_operations e)"
    using arg_cong [OF parts(5), of length] by simp
  moreover have "unat (ds_native_total d) =
      native_value (filter (\<lambda>out. \<not> proven_return drv spends out) (eff_outputs e)) +
      native_value (eff_protocol_sink e) + unat (eff_fee e)"
    using n unfolding native_total_exact parts(2,3) filter_append map_append sum_list_append
      native_value_lines by simp
  ultimately show ?thesis using e d parts by simp
qed

text \<open>The tier is decided by custody first and value second. A spend is in the auto-send class
  exactly when the profile is a hot wallet, the exact native total fits its allowance, every
  recipient is paid in XCH, nothing is melted and no NFT moves; it is in the vault class exactly
  when the profile is a vault.\<close>

theorem derived_tier_exact:
  assumes "derive_spend drv spends policy = Ok d"
  shows "(sm_tier (ds_summary d) = AutoSend \<longleftrightarrow>
      (\<exists>hot. policy = HotCustody hot \<and> ds_native_total d \<le> auto_send_limit hot) \<and>
      \<not> list_ex (\<lambda>r. rcp_asset r \<noteq> None) (sm_recipients (ds_summary d)) \<and>
      sm_melted (ds_summary d) = [] \<and> sm_nft_operations (ds_summary d) = []) \<and>
    (sm_tier (ds_summary d) = VaultTier \<longleftrightarrow> (\<exists>v. policy = VaultCustody v))"
proof -
  obtain s where d: "ds_summary d = s\<lparr>sm_tier := tier_of policy (ds_native_total d) s\<rparr>"
    using derive_spend_Ok [OF assms] by blast
  show ?thesis
    unfolding d
    by (simp add: tier_of_AutoSend tier_of_Vault moves_non_native_assets_def
          destroys_singletons_def moves_nfts_def)
qed

text \<open>A rendered XCH amount reads back to exactly the mojos it renders: nothing is rounded, no
  two amounts share a rendering, and no amount but zero renders as zero.\<close>

theorem format_xch_reads_back: "xch_value (format_xch mojos) = unat mojos"
  by (rule xch_value_format)

text \<open>The line a person confirms names every destruction and every NFT act: each melted
  singleton and each act's sentence stands in it, behind its dash.\<close>

theorem display_names_destruction:
  assumes "c \<in> set (sm_melted s)" and "act \<in> set (sm_nft_operations s)"
  shows "\<exists>u v w. display_summary s =
    u @ em_dash @ '' destroys singleton '' @ c @ '' permanently'' @ v @ em_dash @ '' '' @ act @ w"
proof -
  have inside: "\<exists>a b. concat (map f xs) = a @ f x @ b" if "x \<in> set xs" for f :: "string \<Rightarrow> string" and xs x
    using split_list [OF that] by (metis concat.simps(2) concat_append list.simps(9) map_append)
  obtain a b where 1: "concat (map (\<lambda>c. '' '' @ em_dash @ '' destroys singleton '' @ c @ '' permanently'') (sm_melted s))
      = a @ ('' '' @ em_dash @ '' destroys singleton '' @ c @ '' permanently'') @ b"
    using inside [OF assms(1)] by blast
  obtain p q where 2: "concat (map (\<lambda>op. '' '' @ em_dash @ '' '' @ op) (sm_nft_operations s))
      = p @ ('' '' @ em_dash @ '' '' @ act) @ q"
    using inside [OF assms(2)] by blast
  show ?thesis unfolding display_summary_def 1 2 by (metis append.assoc)
qed

section \<open>A concrete spend\<close>

text \<open>One coin of 1000 mojos under a bare standard puzzle, paying 700 elsewhere, 290 back and a fee
  of 10, as a driver would report it.\<close>

definition sample_effect :: "string spend_effect" where
  "sample_effect =
     \<lparr>eff_outputs = [\<lparr>out_puzzle_hash = 9, out_amount = 700, out_asset = None\<rparr>,
                      \<lparr>out_puzzle_hash = 5, out_amount = 290, out_asset = None\<rparr>],
      eff_protocol_sink = [], eff_fee = 10, eff_melted = [], eff_nft_operations = []\<rparr>"

definition sample_driver :: "string spend_driver" where
  "sample_driver =
     \<lparr>analyze = (\<lambda>spends. if spends = [] then Err ''no spends'' else Ok sample_effect),
      describe = Ok, p2_curry = (\<lambda>reveal. if reveal = [] then Some 5 else None),
      encode_address = (\<lambda>h _. if h = 9 then Ok ''xch1nine'' else Ok ''xch1other''),
      decode_address = (\<lambda>a. if a = ''xch1nine'' then Ok (9, ''xch'') else
                            if a = ''xch1five'' then Ok (5, ''xch'') else Err ''no address''),
      hex = (\<lambda>_. ''hex''), settlement_hash = 70, launcher_hash = 71\<rparr>"

definition sample_spend :: coin_spend where
  "sample_spend =
     \<lparr>spent_coin = \<lparr>parent_coin_info = 1, puzzle_hash = 5, amount = 1000\<rparr>,
      puzzle_reveal = [], solution = []\<rparr>"

definition sample_summary :: "spend_tier \<Rightarrow> spend_summary" where
  "sample_summary tier =
     \<lparr>sm_tier = tier, sm_recipients = [to_address ''xch1nine'' 700 None], sm_fee = 10,
      sm_melted = [], sm_nft_operations = []\<rparr>"

lemma sample_derived:
  "derive_spend sample_driver [sample_spend] policy =
     Ok \<lparr>ds_summary = sample_summary (classify policy 710), ds_native_total = 710\<rparr>"
proof -
  have eff: "derive_effect sample_driver [sample_spend] = Ok sample_effect"
    by (simp add: derive_effect_def sample_driver_def sample_spend_def ok_or_def checked_add_def)
  have total: "checked_native_total_mojos (sample_summary Confirm) = Ok 710"
    by (simp add: native_total_exact sample_summary_def to_address_def)
  have sm: "summary_from_effect sample_driver sample_effect [sample_spend] Confirm =
      Ok (sample_summary Confirm)"
    by (simp add: summary_from_effect_def sample_driver_def sample_spend_def sample_summary_def
          sample_effect_def address_line_def Let_def)
  show ?thesis
    unfolding derive_spend_def eff
    by (simp add: sm total)
       (simp add: Let_def sample_summary_def moves_non_native_assets_def destroys_singletons_def
          moves_nfts_def to_address_def)
qed

theorem derived_spend_counts_everything_witness:
  "\<exists>e. analyze sample_driver [sample_spend] = Ok e \<and>
     710 = native_value (filter (\<lambda>out. \<not> proven_return sample_driver [sample_spend] out) (eff_outputs e)) +
       native_value (eff_protocol_sink e) + unat (eff_fee e)"
  using derived_spend_counts_everything [OF sample_derived [of "HotCustody \<lparr>auto_send_limit = 0\<rparr>"]]
  by auto

theorem derived_tier_exact_witness:
  "sm_tier (sample_summary (classify (HotCustody \<lparr>auto_send_limit = 800\<rparr>) 710)) = AutoSend"
  using derived_tier_exact [OF sample_derived [of "HotCustody \<lparr>auto_send_limit = 800\<rparr>"]]
  by (simp add: sample_summary_def to_address_def)

theorem display_names_destruction_witness:
  "\<exists>u v w. display_summary \<lparr>sm_tier = Confirm, sm_recipients = [], sm_fee = 1,
       sm_melted = [''aa''], sm_nft_operations = [''transfer nft1x to xch1y'']\<rparr> =
     u @ em_dash @ '' destroys singleton '' @ ''aa'' @ '' permanently'' @ v @ em_dash @ '' '' @
     ''transfer nft1x to xch1y'' @ w"
  by (rule display_names_destruction) simp_all

end
