(* ===== verification/Rolling_Window.thy ===== *)
theory Rolling_Window
  imports Account_Prelude
begin

text \<open>
  The contract both in-memory ledgers of the custody gate make: entries are dropped once
  \<open>period\<close> seconds old, a charge is admitted only when the window it leaves stays within the
  cap, and what is admitted is remembered at the time it was admitted. From it follows, once for
  both, that no window of \<open>period\<close> seconds ever sees more than the cap admitted, whatever
  was charged, admitted or refused before, as long as the clock does not run backwards.
\<close>

text \<open>\<open>at.saturating_add(period) > now\<close>.\<close>

definition in_window :: "u64 \<Rightarrow> u64 \<Rightarrow> u64 \<Rightarrow> bool" where
  "in_window period now at \<longleftrightarrow> now < saturating_add at period"

lemma in_window_antimono: "in_window period t' s \<Longrightarrow> t \<le> t' \<Longrightarrow> in_window period t s"
  by (simp add: in_window_def)

lemma in_window_iff:
  assumes "unat now < 2 ^ 64 - 1"
  shows "in_window period now at \<longleftrightarrow> unat now < unat at + unat period"
  using assms by (auto simp: in_window_def word_less_nat_alt unat_saturating_add)

text \<open>A log of admissions: when, and how much.\<close>

type_synonym admissions = "(u64 \<times> nat) list"

definition sum_where :: "(u64 \<Rightarrow> bool) \<Rightarrow> admissions \<Rightarrow> nat" where
  "sum_where p log = sum_list (map snd (filter (p \<circ> fst) log))"

lemma sum_where_append [simp]: "sum_where p (a @ b) = sum_where p a + sum_where p b"
  by (simp add: sum_where_def)

lemma sum_where_Nil [simp]: "sum_where p [] = 0"
  by (simp add: sum_where_def)

lemma sum_where_single [simp]: "sum_where p [(t, n)] = (if p t then n else 0)"
  by (simp add: sum_where_def)

lemma sum_where_mono:
  assumes "\<And>t n. (t, n) \<in> set log \<Longrightarrow> p t \<Longrightarrow> q t"
  shows "sum_where p log \<le> sum_where q log"
proof -
  have "\<forall>x\<in>set log. p (fst x) \<longrightarrow> q (fst x)" using assms by auto
  then show ?thesis by (induction log) (auto simp: sum_where_def)
qed

text \<open>The window \<open>[a, a + period)\<close>.\<close>

definition within :: "u64 \<Rightarrow> u64 \<Rightarrow> u64 \<Rightarrow> bool" where
  "within period a t \<longleftrightarrow> unat a \<le> unat t \<and> unat t < unat a + unat period"

locale rolling_ledger =
  fixes stamp :: "'r \<Rightarrow> u64"
    and weight :: "'r \<Rightarrow> nat"
    and cost :: "'q \<Rightarrow> nat"
    and cap :: nat
    and period :: u64
    and charge :: "u64 \<Rightarrow> 'q \<Rightarrow> 'r list \<Rightarrow> bool \<times> 'r list"
  assumes charge_admits:
      "charge now q l = (True, l') \<Longrightarrow>
         (\<exists>new. l' = filter (\<lambda>r. in_window period now (stamp r)) l @ new \<and>
                (\<forall>r\<in>set new. stamp r = now) \<and> sum_list (map weight new) = cost q) \<and>
         sum_list (map weight l') \<le> cap"
    and charge_refuses:
      "charge now q l = (False, l') \<Longrightarrow> l' = filter (\<lambda>r. in_window period now (stamp r)) l"
begin

definition entries_of :: "'r list \<Rightarrow> admissions" where
  "entries_of l = map (\<lambda>r. (stamp r, weight r)) l"

lemma entries_of_append [simp]: "entries_of (a @ b) = entries_of a @ entries_of b"
  by (simp add: entries_of_def)

lemma sum_where_entries:
  "sum_where p (entries_of l) = sum_list (map weight (filter (p \<circ> stamp) l))"
  unfolding sum_where_def entries_of_def by (induction l) auto

text \<open>
  \<open>covers since l log\<close>: the ledger \<open>l\<close> remembers all of \<open>log\<close> that any
  window ending at \<open>since\<close> or later can see, and no window of \<open>log\<close> is over the cap.
\<close>

definition covers :: "u64 \<Rightarrow> 'r list \<Rightarrow> admissions \<Rightarrow> bool" where
  "covers since l log \<longleftrightarrow>
     (\<forall>t. since \<le> t \<longrightarrow>
        sum_where (in_window period t) log = sum_where (in_window period t) (entries_of l)) \<and>
     (\<forall>(t, n) \<in> set log. t \<le> since) \<and>
     (\<forall>a. sum_where (within period a) log \<le> cap)"

lemma covers_new [simp]: "covers since [] []"
  by (simp add: covers_def entries_of_def)

lemma covers_later: "covers since l log \<Longrightarrow> since \<le> now \<Longrightarrow> covers now l log"
  by (fastforce simp: covers_def)

lemma entries_of_prune:
  assumes "now \<le> t"
  shows "sum_where (in_window period t)
           (entries_of (filter (\<lambda>r. in_window period now (stamp r)) l)) =
         sum_where (in_window period t) (entries_of l)"
proof -
  have "filter (in_window period t \<circ> stamp) (filter (\<lambda>r. in_window period now (stamp r)) l) =
      filter (in_window period t \<circ> stamp) l"
    using in_window_antimono [OF _ assms] by (induction l) auto
  then show ?thesis by (simp only: sum_where_entries)
qed

lemma covers_prune:
  assumes "covers since l log" and "since \<le> now"
  shows "covers now (filter (\<lambda>r. in_window period now (stamp r)) l) log"
  using covers_later [OF assms] by (auto simp: covers_def entries_of_prune)

lemma covers_refused:
  "covers since l log \<Longrightarrow> since \<le> now \<Longrightarrow> charge now q l = (False, l') \<Longrightarrow> covers now l' log"
  using covers_prune charge_refuses by metis

lemma covers_admitted:
  assumes cov: "covers since l log" and le: "since \<le> now" and now: "unat now < 2 ^ 64 - 1"
    and adm: "charge now q l = (True, l')"
  shows "covers now l' (log @ [(now, cost q)])"
proof -
  let ?kept = "filter (\<lambda>r. in_window period now (stamp r)) l"
  obtain new where l': "l' = ?kept @ new" and stamps: "\<forall>r\<in>set new. stamp r = now"
    and new: "sum_list (map weight new) = cost q" and cap: "sum_list (map weight l') \<le> cap"
    using charge_admits [OF adm] by blast
  have pruned: "covers now ?kept log" by (rule covers_prune [OF cov le])
  have new_sum: "sum_where p (entries_of new) = (if p now then cost q else 0)" for p
  proof (cases "p now")
    case True
    then have "filter (p \<circ> stamp) new = new" using stamps by (simp add: filter_id_conv)
    then show ?thesis using True new by (simp add: sum_where_entries)
  next
    case False
    then have "filter (p \<circ> stamp) new = []" using stamps by (simp add: filter_empty_conv)
    then show ?thesis using False by (simp add: sum_where_entries)
  qed
  have "sum_where (in_window period now) (entries_of ?kept) = sum_list (map weight ?kept)"
    by (simp add: sum_where_entries o_def)
  then have seen: "sum_where (in_window period now) log + cost q \<le> cap"
    using pruned l' new cap by (simp add: covers_def)
  have "sum_where (within period a) (log @ [(now, cost q)]) \<le> cap" for a
  proof (cases "within period a now")
    case False
    then show ?thesis using pruned by (simp add: covers_def)
  next
    case True
    have "sum_where (within period a) log \<le> sum_where (in_window period now) log"
      using True pruned by (intro sum_where_mono) (auto simp: within_def in_window_iff [OF now])
    with seen True show ?thesis by simp
  qed
  then show ?thesis
    using pruned new_sum l' by (auto simp: covers_def)
qed

end

end
