(* ===== verification/Session_Residency.thy ===== *)
theory Session_Residency
  imports Account_Prelude
begin

text \<open>
  The liveness of one unlock (\<open>src/session_residency.rs\<close>), shared by every capability derived
  from it: live until revoked or until its idle deadline passes, with no way back from either. Clock
  instants and durations are natural numbers; a reading is an argument of the operation that makes
  it. The token is shared by reference, so it is state of its own, which the operations thread.
\<close>

record idle_window =
  idle_timeout :: nat
  idle_deadline :: nat

record residency =
  res_live :: bool
  res_idle :: "idle_window option"

definition residency_new :: residency where
  "residency_new = \<lparr>res_live = True, res_idle = None\<rparr>"

definition idle_bounded :: "nat \<Rightarrow> nat \<Rightarrow> residency" where
  "idle_bounded now timeout =
     \<lparr>res_live = True, res_idle = Some \<lparr>idle_timeout = timeout, idle_deadline = now + timeout\<rparr>\<rparr>"

definition has_lapsed :: "nat \<Rightarrow> idle_window \<Rightarrow> bool" where
  "has_lapsed now w \<longleftrightarrow> idle_deadline w \<le> now"

definition residency_is_live :: "nat \<Rightarrow> residency \<Rightarrow> bool" where
  "residency_is_live now r \<longleftrightarrow>
     res_live r \<and> \<not> (case res_idle r of None \<Rightarrow> False | Some w \<Rightarrow> has_lapsed now w)"

definition idle_refresh :: "nat \<Rightarrow> idle_window \<Rightarrow> idle_window" where
  "idle_refresh now w = w\<lparr>idle_deadline := now + idle_timeout w\<rparr>"

text \<open>\<open>touch\<close> reads the clock for its liveness test, and again to refresh.\<close>

definition residency_touch :: "nat \<Rightarrow> nat \<Rightarrow> residency \<Rightarrow> residency" where
  "residency_touch now now' r =
     (if \<not> residency_is_live now r then r
      else case res_idle r of
        None \<Rightarrow> r
      | Some w \<Rightarrow> r\<lparr>res_idle := Some (idle_refresh now' w)\<rparr>)"

definition residency_revoke :: "residency \<Rightarrow> residency" where
  "residency_revoke r = r\<lparr>res_live := False\<rparr>"

text \<open>What can happen to a token, and when: the steps the crate can take on it.\<close>

inductive residency_step :: "nat \<Rightarrow> residency \<Rightarrow> nat \<Rightarrow> residency \<Rightarrow> bool" where
  Touch: "t \<le> now \<Longrightarrow> now \<le> now' \<Longrightarrow> residency_step t r now' (residency_touch now now' r)"
| Revoke: "t \<le> now \<Longrightarrow> residency_step t r now (residency_revoke r)"

inductive residency_reach :: "nat \<Rightarrow> residency \<Rightarrow> nat \<Rightarrow> residency \<Rightarrow> bool" where
  Refl: "t \<le> now \<Longrightarrow> residency_reach t r now r"
| Step: "residency_reach t r t1 r1 \<Longrightarrow> residency_step t1 r1 t2 r2 \<Longrightarrow> residency_reach t r t2 r2"

lemma not_live_later: "\<not> residency_is_live t r \<Longrightarrow> t \<le> now \<Longrightarrow> \<not> residency_is_live now r"
  by (auto simp: residency_is_live_def has_lapsed_def split: option.splits)

lemma residency_step_dead:
  "residency_step t r now r' \<Longrightarrow> \<not> residency_is_live t r \<Longrightarrow> t \<le> now \<and> \<not> residency_is_live now r'"
proof (induction rule: residency_step.induct)
  case (Touch t now now' r)
  then show ?case using not_live_later [of t r now] not_live_later [of now r now']
    by (simp add: residency_touch_def)
next
  case (Revoke t now r)
  then show ?case by (simp add: residency_revoke_def residency_is_live_def)
qed

lemma residency_reach_dead:
  "residency_reach t r now r' \<Longrightarrow> \<not> residency_is_live t r \<Longrightarrow> \<not> residency_is_live now r'"
proof (induction rule: residency_reach.induct)
  case (Refl t now r)
  then show ?case by (simp add: not_live_later)
next
  case (Step t r t1 r1 t2 r2)
  then show ?case using residency_step_dead by blast
qed

section \<open>Properties\<close>

text \<open>A relock is final. Once an unlock's token is not live, by revocation or because its idle
  deadline was reached, no sequence of accesses and revocations on a clock that does not run
  backwards makes it live again.\<close>

theorem residency_never_revives:
  assumes "\<not> residency_is_live t r" and "residency_reach t r now r'"
  shows "\<not> residency_is_live now r'"
  using residency_reach_dead [OF assms(2,1)] .

theorem residency_never_revives_witness:
  "\<not> residency_is_live 200 (residency_touch 200 200 (idle_bounded 100 60))"
proof (rule residency_never_revives [of 160 "idle_bounded 100 60"])
  show "\<not> residency_is_live 160 (idle_bounded 100 60)"
    by (simp add: residency_is_live_def idle_bounded_def has_lapsed_def)
  show "residency_reach 160 (idle_bounded 100 60) 200 (residency_touch 200 200 (idle_bounded 100 60))"
    by (rule residency_reach.Step [where ?t1.0 = 160, OF residency_reach.Refl residency_step.Touch]) simp_all
qed

end
