(* ===== verification/Custody_Gate.thy ===== *)
theory Custody_Gate
  imports Spend_Summary Rolling_Window Session_Residency
begin

text \<open>
  The custody gate (\<open>src/wallet/enforcer.rs\<close>), the permissions it mints
  (\<open>src/wallet/approval.rs\<close>), and the signer's admission of them
  (\<open>src/wallet/money_signer.rs\<close>).

  A gate's two ledgers sit behind mutexes; each call of a gate method is one step here, the lock
  being held across the whole ledger update, and a poisoned mutex is a flag of the state. The clock
  is a trait whose readings may fail: \<open>clk k\<close> is the answer to the call's \<open>k\<close>-th read.
\<close>

section \<open>Permissions\<close>

record authorized_spend =
  az_coin_spends :: "coin_spend list"
  az_summary :: spend_summary
  az_scope :: custody_scope

datatype spend_approval = SpendApproval (approved: authorized_spend)
datatype pending_approval = PendingApproval (pending: authorized_spend)

datatype spend_ruling =
    Approved spend_approval
  | RequiresConfirmation pending_approval

datatype spend_decision = Approve | Decline "string option"

definition approval_new :: "coin_spend list \<Rightarrow> spend_summary \<Rightarrow> custody_scope \<Rightarrow> spend_approval" where
  "approval_new spends s scope =
     SpendApproval \<lparr>az_coin_spends = spends, az_summary = s, az_scope = scope\<rparr>"

definition pending_new :: "coin_spend list \<Rightarrow> spend_summary \<Rightarrow> custody_scope \<Rightarrow> pending_approval" where
  "pending_new spends s scope =
     PendingApproval \<lparr>az_coin_spends = spends, az_summary = s, az_scope = scope\<rparr>"

fun decided :: "pending_approval \<Rightarrow> spend_decision \<Rightarrow> (spend_approval, account_error) result" where
  "decided (PendingApproval inner) Approve = Ok (SpendApproval inner)"
| "decided (PendingApproval inner) (Decline reason) = Err (UserDeclined reason)"

record spend_confirm_request =
  rq_account :: account_id
  rq_profile :: profile_ix
  rq_summary :: spend_summary

text \<open>The provider is the host's: it shows the request and returns the decision, or fails.\<close>

definition confirm_with ::
  "(spend_confirm_request \<Rightarrow> (spend_decision, account_error) result) \<Rightarrow> account_id \<Rightarrow> profile_ix \<Rightarrow>
     pending_approval \<Rightarrow> (spend_approval, account_error) result"
where
  "confirm_with provider acc ix p =
     and_then
       (provider \<lparr>rq_account = acc, rq_profile = ix, rq_summary = az_summary (pending p)\<rparr>)
       (decided p)"

section \<open>The gate\<close>

record auto_send_record =
  at_unix :: u64
  rec_mojos :: u64

record policy_authorizer =
  pa_custody :: custody_policy
  pa_auto_send :: auto_send_policy
  pa_hot_wallet :: bytes32
  pa_scope :: custody_scope
  pa_recent :: "auto_send_record list"
  pa_recent_poisoned :: bool
  pa_prompts :: "u64 list"
  pa_prompts_poisoned :: bool

definition policy_authorizer_new ::
  "'n spend_driver \<Rightarrow> profile_ix \<Rightarrow> custody_policy \<Rightarrow> auto_send_policy \<Rightarrow> string \<Rightarrow>
     (policy_authorizer, account_error) result"
where
  "policy_authorizer_new drv ix custody auto_send address =
     (case decode_address drv address of
        Err e \<Rightarrow> Err (PolicyIndeterminate (BadHotWalletAddress address))
      | Ok (ph, _) \<Rightarrow>
          Ok \<lparr>pa_custody = custody, pa_auto_send = auto_send, pa_hot_wallet = ph,
              pa_scope = custody_scope_new ix custody ph, pa_recent = [], pa_recent_poisoned = False,
              pa_prompts = [], pa_prompts_poisoned = False\<rparr>)"

type_synonym gate_clock = "nat \<Rightarrow> (u64, account_error) result"

fun reject_vault_outflow ::
  "'n spend_driver \<Rightarrow> bytes32 \<Rightarrow> spend_recipient list \<Rightarrow> (unit, account_error) result" where
  "reject_vault_outflow drv hot [] = Ok ()"
| "reject_vault_outflow drv hot (r # rs) =
     (if rcp_destination r = ProtocolStructure
      then Err (PolicyDenied (VaultPaysStructure (rcp_address r)))
      else case decode_address drv (rcp_address r) of
        Err e \<Rightarrow> Err (PolicyIndeterminate (UndecodableRecipient (rcp_address r)))
      | Ok (ph, _) \<Rightarrow>
          if ph \<noteq> hot then Err (PolicyDenied (VaultPaysOther (rcp_address r)))
          else reject_vault_outflow drv hot rs)"

definition reject_amounts_no_mojo_limit_can_bound :: "spend_summary \<Rightarrow> (unit, account_error) result" where
  "reject_amounts_no_mojo_limit_can_bound s =
     (let unbounded = List.map_filter rcp_asset (sm_recipients s) in
      if unbounded = [] then Ok () else Err (PolicyIndeterminate (NonNativeAssets unbounded)))"

datatype cap_verdict = Charged | OverCap

text \<open>What happens under the ledger's lock, at the time read before taking it.\<close>

definition charge_ledger ::
  "auto_send_policy \<Rightarrow> u64 \<Rightarrow> u64 \<Rightarrow> auto_send_record list \<Rightarrow>
     (cap_verdict, account_error) result \<times> auto_send_record list"
where
  "charge_ledger policy now total_mojos recent =
     (let kept = filter (\<lambda>r. now < saturating_add (at_unix r) (period_seconds policy)) recent in
      case checked_sum total_mojos (map rec_mojos kept) of
        None \<Rightarrow> (Err (PolicyIndeterminate ProjectionOverflows), kept)
      | Some projected \<Rightarrow>
          if period_cap_mojos policy < projected then (Ok OverCap, kept)
          else if MAX_LEDGER_ENTRIES \<le> length kept then (Err (PolicyIndeterminate LedgerFull), kept)
          else (Ok Charged,
                if 0 < total_mojos then kept @ [\<lparr>at_unix = now, rec_mojos = total_mojos\<rparr>] else kept))"

definition charge_the_rolling_period_cap ::
  "gate_clock \<Rightarrow> nat \<Rightarrow> u64 \<Rightarrow> policy_authorizer \<Rightarrow>
     (cap_verdict, account_error) result \<times> policy_authorizer"
where
  "charge_the_rolling_period_cap clk k total_mojos g =
     (if period_seconds (pa_auto_send g) = 0 then (Err (PolicyIndeterminate ZeroPeriodForCap), g)
      else case clk k of
        Err e \<Rightarrow> (Err e, g)
      | Ok now \<Rightarrow>
          if pa_recent_poisoned g then (Err (PolicyIndeterminate LedgerPoisoned), g)
          else case charge_ledger (pa_auto_send g) now total_mojos (pa_recent g) of
            (res, recent) \<Rightarrow> (res, g\<lparr>pa_recent := recent\<rparr>))"

definition charge_prompts ::
  "auto_send_policy \<Rightarrow> u64 \<Rightarrow> u64 list \<Rightarrow> (unit, account_error) result \<times> u64 list" where
  "charge_prompts policy now prompts =
     (let kept = filter (\<lambda>at. now < saturating_add at (period_seconds policy)) prompts in
      if unat (max_confirmations_per_period policy) \<le> length kept
      then (Err (PolicyIndeterminate (PromptCeilingReached (length kept) (period_seconds policy))), kept)
      else (Ok (), kept @ [now]))"

definition charge_a_confirmation_prompt ::
  "gate_clock \<Rightarrow> nat \<Rightarrow> policy_authorizer \<Rightarrow> (unit, account_error) result \<times> policy_authorizer" where
  "charge_a_confirmation_prompt clk k g =
     (if period_seconds (pa_auto_send g) = 0 then (Err (PolicyIndeterminate ZeroPeriodForPrompts), g)
      else case clk k of
        Err e \<Rightarrow> (Err e, g)
      | Ok now \<Rightarrow>
          if pa_prompts_poisoned g then (Err (PolicyIndeterminate PromptsPoisoned), g)
          else case charge_prompts (pa_auto_send g) now (pa_prompts g) of
            (res, prompts) \<Rightarrow> (res, g\<lparr>pa_prompts := prompts\<rparr>))"

type_synonym gate_outcome = "(spend_ruling, account_error) result \<times> policy_authorizer"

definition escalate ::
  "gate_clock \<Rightarrow> nat \<Rightarrow> coin_spend list \<Rightarrow> derived_spend \<Rightarrow> policy_authorizer \<Rightarrow> gate_outcome" where
  "escalate clk k spends d g =
     (case charge_a_confirmation_prompt clk k g of
        (Err e, g') \<Rightarrow> (Err e, g')
      | (Ok _, g') \<Rightarrow>
          (Ok (RequiresConfirmation (pending_new spends (ds_summary d) (pa_scope g'))), g'))"

definition rule_on_auto_send ::
  "gate_clock \<Rightarrow> coin_spend list \<Rightarrow> derived_spend \<Rightarrow> spend_op_class \<Rightarrow> policy_authorizer \<Rightarrow> gate_outcome"
where
  "rule_on_auto_send clk spends d op_class g =
     (if \<not> as_enabled (pa_auto_send g) then escalate clk 0 spends d g
      else case configured_limits (pa_auto_send g) op_class of
        None \<Rightarrow> escalate clk 0 spends d g
      | Some limits \<Rightarrow>
          if \<not> lim_enabled limits then escalate clk 0 spends d g
          else case reject_amounts_no_mojo_limit_can_bound (ds_summary d) of
            Err e \<Rightarrow> (Err e, g)
          | Ok _ \<Rightarrow>
              if per_tx_limit_mojos limits < ds_native_total d then escalate clk 0 spends d g
              else case charge_the_rolling_period_cap clk 0 (ds_native_total d) g of
                (Err e, g') \<Rightarrow> (Err e, g')
              | (Ok Charged, g') \<Rightarrow>
                  (Ok (Approved (approval_new spends (ds_summary d) (pa_scope g'))), g')
              | (Ok OverCap, g') \<Rightarrow> escalate clk 1 spends d g')"

definition authorize_op ::
  "'n spend_driver \<Rightarrow> gate_clock \<Rightarrow> coin_spend list \<Rightarrow> spend_op_class \<Rightarrow> policy_authorizer \<Rightarrow> gate_outcome"
where
  "authorize_op drv clk spends op_class g =
     (case derive_spend drv spends (pa_custody g) of
        Err e \<Rightarrow> (Err e, g)
      | Ok d \<Rightarrow>
          (case sm_tier (ds_summary d) of
             VaultTier \<Rightarrow>
               (case reject_vault_outflow drv (pa_hot_wallet g) (sm_recipients (ds_summary d)) of
                  Err e \<Rightarrow> (Err e, g)
                | Ok _ \<Rightarrow> escalate clk 0 spends d g)
           | Confirm \<Rightarrow> escalate clk 0 spends d g
           | AutoSend \<Rightarrow> rule_on_auto_send clk spends d op_class g))"

section \<open>The signer's admission\<close>

text \<open>
  What the vetted signing core and the wallet key derivation compute: \<open>sg_puzzle_hash ix\<close> is
  the wallet puzzle hash derived from the live seed, \<open>sg_build\<close> builds the canonical signer,
  \<open>sg_required\<close> extracts the required signatures, \<open>sg_reviewable\<close> renders the
  key-aware summary and \<open>sg_sign\<close> verifies and signs. A bundle is coin spends with a signature.
\<close>

record ('k, 'q, 'u, 's) signing_core =
  sg_puzzle_hash :: "profile_ix \<Rightarrow> bytes32"
  sg_build :: "profile_ix \<Rightarrow> ('k, account_error) result"
  sg_required :: "'k \<Rightarrow> coin_spend list \<Rightarrow> ('q, account_error) result"
  sg_reviewable :: "'k \<Rightarrow> coin_spend list \<Rightarrow> ('u, account_error) result"
  sg_sign :: "'k \<Rightarrow> coin_spend list \<Rightarrow> 'q \<Rightarrow> 'u \<Rightarrow> (coin_spend list \<times> 's, account_error) result"

record money_signer =
  ms_profile :: profile_ix

text \<open>\<open>res\<close> is the shared token as it stands at the moment of the call, \<open>now\<close> the
  clock's reading.\<close>

definition live_signer ::
  "('k, 'q, 'u, 's) signing_core \<Rightarrow> nat \<Rightarrow> residency \<Rightarrow> money_signer \<Rightarrow> ('k, account_error) result" where
  "live_signer core now res m =
     (if \<not> residency_is_live now res then Err Locked else sg_build core (ms_profile m))"

definition sign_approved ::
  "('k, 'q, 'u, 's) signing_core \<Rightarrow> nat \<Rightarrow> residency \<Rightarrow> money_signer \<Rightarrow> spend_approval \<Rightarrow>
     (coin_spend list \<times> 's, account_error) result"
where
  "sign_approved core now res m a =
     and_then (live_signer core now res m) (\<lambda>signer.
     and_then (assert_signable_by (az_scope (approved a)) (ms_profile m)
                 (sg_puzzle_hash core (ms_profile m))) (\<lambda>_.
     and_then (sg_required core signer (az_coin_spends (approved a))) (\<lambda>required.
     and_then (sg_reviewable core signer (az_coin_spends (approved a))) (\<lambda>reviewed.
     sg_sign core signer (az_coin_spends (approved a)) required reviewed))))"

section \<open>A gate's lifetime\<close>

record gate_request =
  gr_clock :: gate_clock
  gr_spends :: "coin_spend list"
  gr_op :: spend_op_class

fun gate_run ::
  "'n spend_driver \<Rightarrow> gate_request list \<Rightarrow> policy_authorizer \<Rightarrow>
     (spend_ruling, account_error) result list \<times> policy_authorizer"
where
  "gate_run drv [] g = ([], g)"
| "gate_run drv (q # qs) g =
     (case authorize_op drv (gr_clock q) (gr_spends q) (gr_op q) g of
        (res, g') \<Rightarrow> (case gate_run drv qs g' of (rs, g'') \<Rightarrow> (res # rs, g'')))"

text \<open>What was auto-approved over a run: when, and the exact native total moved.\<close>

fun auto_sent :: "'n spend_driver \<Rightarrow> gate_request list \<Rightarrow> policy_authorizer \<Rightarrow> admissions" where
  "auto_sent drv [] g = []"
| "auto_sent drv (q # qs) g =
     (case authorize_op drv (gr_clock q) (gr_spends q) (gr_op q) g of
        (res, g') \<Rightarrow>
          (case (res, gr_clock q 0, derive_spend drv (gr_spends q) (pa_custody g)) of
             (Ok (Approved _), Ok now, Ok d) \<Rightarrow> [(now, unat (ds_native_total d))]
           | _ \<Rightarrow> []) @ auto_sent drv qs g')"

text \<open>When each ceremony was raised over a run: the time its ledger remembers for it.\<close>

fun prompted :: "'n spend_driver \<Rightarrow> gate_request list \<Rightarrow> policy_authorizer \<Rightarrow> admissions" where
  "prompted drv [] g = []"
| "prompted drv (q # qs) g =
     (case authorize_op drv (gr_clock q) (gr_spends q) (gr_op q) g of
        (res, g') \<Rightarrow>
          (case res of
             Ok (RequiresConfirmation _) \<Rightarrow> [(last (pa_prompts g'), 1)]
           | _ \<Rightarrow> []) @ prompted drv qs g')"

text \<open>A clock that does not run backwards over the run, and has not reached its last value.\<close>

definition readings_forward :: "u64 \<Rightarrow> gate_clock \<Rightarrow> bool" where
  "readings_forward since clk \<longleftrightarrow>
     (case clk 0 of Ok t0 \<Rightarrow> since \<le> t0 \<and> unat t0 < 2 ^ 64 - 1 | Err _ \<Rightarrow> True) \<and>
     (case clk 1 of
        Ok t1 \<Rightarrow> since \<le> t1 \<and> unat t1 < 2 ^ 64 - 1 \<and> (case clk 0 of Ok t0 \<Rightarrow> t0 \<le> t1 | Err _ \<Rightarrow> True)
      | Err _ \<Rightarrow> True)"

definition next_since :: "u64 \<Rightarrow> gate_clock \<Rightarrow> u64" where
  "next_since since clk =
     (case clk 1 of Ok t1 \<Rightarrow> t1 | Err _ \<Rightarrow> (case clk 0 of Ok t0 \<Rightarrow> t0 | Err _ \<Rightarrow> since))"

fun clock_forward :: "u64 \<Rightarrow> gate_request list \<Rightarrow> bool" where
  "clock_forward since [] \<longleftrightarrow> True"
| "clock_forward since (q # qs) \<longleftrightarrow>
     readings_forward since (gr_clock q) \<and> clock_forward (next_since since (gr_clock q)) qs"

section \<open>The two ledgers meet the rolling contract\<close>

definition spend_charge :: "auto_send_policy \<Rightarrow> u64 \<Rightarrow> u64 \<Rightarrow> auto_send_record list \<Rightarrow> bool \<times> auto_send_record list"
where
  "spend_charge policy now n recent =
     (case charge_ledger policy now n recent of (res, l) \<Rightarrow> (res = Ok Charged, l))"

definition prompt_charge :: "auto_send_policy \<Rightarrow> u64 \<Rightarrow> unit \<Rightarrow> u64 list \<Rightarrow> bool \<times> u64 list" where
  "prompt_charge policy now _ prompts =
     (case charge_prompts policy now prompts of (res, l) \<Rightarrow> (res = Ok (), l))"

lemma charge_ledger_kept:
  "snd (charge_ledger policy now n l) =
     (let kept = filter (\<lambda>r. in_window (period_seconds policy) now (at_unix r)) l in
      if fst (charge_ledger policy now n l) = Ok Charged \<and> 0 < n
      then kept @ [\<lparr>at_unix = now, rec_mojos = n\<rparr>] else kept)"
  by (auto simp: charge_ledger_def Let_def in_window_def split: option.splits)

lemma charge_ledger_cap:
  assumes "charge_ledger policy now n l = (Ok Charged, l')"
  shows "sum_list (map (unat \<circ> rec_mojos) l') \<le> unat (period_cap_mojos policy)"
    and "length l' \<le> MAX_LEDGER_ENTRIES"
proof -
  let ?kept = "filter (\<lambda>r. now < saturating_add (at_unix r) (period_seconds policy)) l"
  obtain s where s: "checked_sum n (map rec_mojos ?kept) = Some s"
    and cap: "s \<le> period_cap_mojos policy" and len: "length ?kept < MAX_LEDGER_ENTRIES"
    and l': "l' = (if 0 < n then ?kept @ [\<lparr>at_unix = now, rec_mojos = n\<rparr>] else ?kept)"
    using assms by (auto simp: charge_ledger_def Let_def not_less not_le split: option.splits if_splits)
  have "unat s = unat n + sum_list (map (unat \<circ> rec_mojos) ?kept)"
    using checked_sum_Some [OF s] by simp
  moreover have "unat s \<le> unat (period_cap_mojos policy)" using cap by (simp add: word_le_nat_alt)
  ultimately show "sum_list (map (unat \<circ> rec_mojos) l') \<le> unat (period_cap_mojos policy)"
    by (simp add: l')
  show "length l' \<le> MAX_LEDGER_ENTRIES" using len by (simp add: l')
qed

interpretation spend_ledger: rolling_ledger at_unix "unat \<circ> rec_mojos" unat
    "unat (period_cap_mojos policy)" "period_seconds policy" "spend_charge policy" for policy
proof
  fix now q :: u64 and l l' :: "auto_send_record list"
  let ?kept = "filter (\<lambda>r. in_window (period_seconds policy) now (at_unix r)) l"
  show "(\<exists>new. l' = ?kept @ new \<and> (\<forall>r\<in>set new. at_unix r = now) \<and>
           sum_list (map (unat \<circ> rec_mojos) new) = unat q) \<and>
        sum_list (map (unat \<circ> rec_mojos) l') \<le> unat (period_cap_mojos policy)"
    if "spend_charge policy now q l = (True, l')"
  proof
    have c: "charge_ledger policy now q l = (Ok Charged, l')"
      using that by (simp add: spend_charge_def split: prod.splits)
    show "sum_list (map (unat \<circ> rec_mojos) l') \<le> unat (period_cap_mojos policy)"
      by (rule charge_ledger_cap [OF c])
    have l': "l' = (if 0 < q then ?kept @ [\<lparr>at_unix = now, rec_mojos = q\<rparr>] else ?kept)"
      using charge_ledger_kept [of policy now q l] c by (simp add: Let_def)
    show "\<exists>new. l' = ?kept @ new \<and> (\<forall>r\<in>set new. at_unix r = now) \<and>
        sum_list (map (unat \<circ> rec_mojos) new) = unat q"
    proof (cases "0 < q")
      case True
      then show ?thesis using l' by (intro exI [of _ "[\<lparr>at_unix = now, rec_mojos = q\<rparr>]"]) simp
    next
      case False
      then show ?thesis using l' by (intro exI [of _ "[]"]) (simp add: word_gt_0)
    qed
  qed
  show "l' = ?kept" if "spend_charge policy now q l = (False, l')"
    using charge_ledger_kept [of policy now q l] that
    by (auto simp: spend_charge_def Let_def split: prod.splits)
qed

interpretation prompt_ledger: rolling_ledger id "\<lambda>_. 1" "\<lambda>_. 1"
    "unat (max_confirmations_per_period policy)" "period_seconds policy" "prompt_charge policy"
    for policy
proof
  fix now :: u64 and q :: unit and l l' :: "u64 list"
  let ?kept = "filter (\<lambda>r. in_window (period_seconds policy) now (id r)) l"
  show "(\<exists>new. l' = ?kept @ new \<and> (\<forall>r\<in>set new. id r = now) \<and>
           sum_list (map (\<lambda>_. 1 :: nat) new) = 1) \<and>
        sum_list (map (\<lambda>_. 1 :: nat) l') \<le> unat (max_confirmations_per_period policy)"
    if "prompt_charge policy now q l = (True, l')"
    using that
    by (auto simp: prompt_charge_def charge_prompts_def Let_def in_window_def not_le sum_list_triv
             split: if_splits intro!: exI [of _ "[now]"])
  show "l' = ?kept" if "prompt_charge policy now q l = (False, l')"
    using that by (auto simp: prompt_charge_def charge_prompts_def Let_def in_window_def
                        split: if_splits)
qed

section \<open>What one call does\<close>

text \<open>The parts of a gate no call changes.\<close>

definition same_gate :: "policy_authorizer \<Rightarrow> policy_authorizer \<Rightarrow> bool" where
  "same_gate g g' \<longleftrightarrow>
     pa_custody g' = pa_custody g \<and> pa_auto_send g' = pa_auto_send g \<and>
     pa_hot_wallet g' = pa_hot_wallet g \<and> pa_scope g' = pa_scope g"

lemma same_gate_refl [simp]: "same_gate g g"
  by (simp add: same_gate_def)

lemma same_gate_trans: "same_gate a b \<Longrightarrow> same_gate b c \<Longrightarrow> same_gate a c"
  by (simp add: same_gate_def)

lemma prompt_frame:
  assumes "charge_a_confirmation_prompt clk k g = (res, g')"
  shows "same_gate g g'" and "pa_recent g' = pa_recent g"
    and "pa_recent_poisoned g' = pa_recent_poisoned g" and "pa_prompts_poisoned g' = pa_prompts_poisoned g"
  using assms
  by (auto simp: charge_a_confirmation_prompt_def same_gate_def split: if_splits result.splits prod.splits)

lemma charge_frame:
  assumes "charge_the_rolling_period_cap clk k n g = (res, g')"
  shows "same_gate g g'" and "pa_prompts g' = pa_prompts g"
    and "pa_recent_poisoned g' = pa_recent_poisoned g" and "pa_prompts_poisoned g' = pa_prompts_poisoned g"
  using assms
  by (auto simp: charge_the_rolling_period_cap_def same_gate_def split: if_splits result.splits prod.splits)

text \<open>The prompt step, seen from its ledger: refused before the ledger, refused by it, or raised.\<close>

lemma prompt_cases:
  assumes "charge_a_confirmation_prompt clk k g = (res, g')"
  obtains (early) e where "res = Err e" "g' = g"
  | (full) now e where "clk k = Ok now" "res = Err e"
      "prompt_charge (pa_auto_send g) now () (pa_prompts g) = (False, pa_prompts g')"
  | (raised) now where "clk k = Ok now" "res = Ok ()"
      "prompt_charge (pa_auto_send g) now () (pa_prompts g) = (True, pa_prompts g')"
      "last (pa_prompts g') = now" "pa_prompts g' \<noteq> []"
proof (cases "period_seconds (pa_auto_send g) = 0 \<or> pa_prompts_poisoned g \<or> (\<exists>e. clk k = Err e)")
  case True
  then show ?thesis using assms early
    by (auto simp: charge_a_confirmation_prompt_def split: if_splits result.splits)
next
  case False
  then obtain now where now: "clk k = Ok now" by (cases "clk k") auto
  obtain r l where c: "charge_prompts (pa_auto_send g) now (pa_prompts g) = (r, l)" by fastforce
  have res: "res = r" and g': "g' = g\<lparr>pa_prompts := l\<rparr>"
    using assms False now c by (auto simp: charge_a_confirmation_prompt_def)
  show ?thesis
  proof (cases r)
    case (Err e)
    then show ?thesis using full [of now e] now res g' c by (simp add: prompt_charge_def)
  next
    case (Ok u)
    then have "last l = now" "l \<noteq> []"
      using c by (auto simp: charge_prompts_def Let_def split: if_splits)
    then show ?thesis using raised [of now] Ok now res g' c by (simp add: prompt_charge_def)
  qed
qed

lemma charge_cases:
  assumes "charge_the_rolling_period_cap clk k n g = (res, g')"
  obtains (early) e where "res = Err e" "g' = g"
  | (refused) now where "clk k = Ok now" "res \<noteq> Ok Charged"
      "spend_charge (pa_auto_send g) now n (pa_recent g) = (False, pa_recent g')"
  | (charged) now where "clk k = Ok now" "res = Ok Charged"
      "spend_charge (pa_auto_send g) now n (pa_recent g) = (True, pa_recent g')"
proof (cases "period_seconds (pa_auto_send g) = 0 \<or> pa_recent_poisoned g \<or> (\<exists>e. clk k = Err e)")
  case True
  then show ?thesis using assms early
    by (auto simp: charge_the_rolling_period_cap_def split: if_splits result.splits)
next
  case False
  then obtain now where now: "clk k = Ok now" by (cases "clk k") auto
  obtain r l where c: "charge_ledger (pa_auto_send g) now n (pa_recent g) = (r, l)" by fastforce
  have res: "res = r" and g': "g' = g\<lparr>pa_recent := l\<rparr>"
    using assms False now c by (auto simp: charge_the_rolling_period_cap_def)
  show ?thesis
    using refused [of now] charged [of now] now res g' c
    by (cases "r = Ok Charged") (auto simp: spend_charge_def)
qed

lemma escalate_eq:
  "escalate clk k spends d g = (res, g') \<longleftrightarrow>
     (\<exists>r. charge_a_confirmation_prompt clk k g = (r, g') \<and>
        res = (case r of Err e \<Rightarrow> Err e
               | Ok _ \<Rightarrow> Ok (RequiresConfirmation (pending_new spends (ds_summary d) (pa_scope g')))))"
  by (auto simp: escalate_def split: prod.splits result.splits)

lemma native_reject_Ok:
  "\<not> moves_non_native_assets s \<Longrightarrow> reject_amounts_no_mojo_limit_can_bound s = Ok ()"
  by (auto simp: reject_amounts_no_mojo_limit_can_bound_def moves_non_native_assets_def Let_def
           List.map_filter_def list_ex_iff filter_empty_conv)

lemma derived_spend_native:
  assumes "derive_spend drv spends policy = Ok d" and "sm_tier (ds_summary d) = AutoSend"
  shows "\<not> moves_non_native_assets (ds_summary d)"
proof -
  obtain s where d: "ds_summary d = s\<lparr>sm_tier := tier_of policy (ds_native_total d) s\<rparr>"
    using derive_spend_Ok [OF assms(1)] by blast
  then show ?thesis using assms(2) by (simp add: tier_of_AutoSend moves_non_native_assets_def)
qed

text \<open>Within every bound: what an automatic approval requires.\<close>

definition auto_sendable :: "policy_authorizer \<Rightarrow> spend_op_class \<Rightarrow> derived_spend \<Rightarrow> bool" where
  "auto_sendable g op d \<longleftrightarrow>
     as_enabled (pa_auto_send g) \<and>
     (case configured_limits (pa_auto_send g) op of
        None \<Rightarrow> False
      | Some l \<Rightarrow> lim_enabled l \<and> ds_native_total d \<le> per_tx_limit_mojos l) \<and>
     sm_tier (ds_summary d) = AutoSend"

lemma authorize_cases:
  assumes "authorize_op drv clk spends op g = (res, g')"
  obtains (early) e where "res = Err e" "g' = g"
  | (asked) d k g1 where "derive_spend drv spends (pa_custody g) = Ok d"
      "escalate clk k spends d g1 = (res, g')"
      "k = 0 \<and> g1 = g \<or>
       k = 1 \<and> charge_the_rolling_period_cap clk 0 (ds_native_total d) g = (Ok OverCap, g1)"
      "sm_tier (ds_summary d) = VaultTier \<Longrightarrow>
         reject_vault_outflow drv (pa_hot_wallet g) (sm_recipients (ds_summary d)) = Ok () \<and> k = 0"
  | (unjudged) d e where "res = Err e" "derive_spend drv spends (pa_custody g) = Ok d"
      "charge_the_rolling_period_cap clk 0 (ds_native_total d) g = (Err e, g')"
      "sm_tier (ds_summary d) = AutoSend"
  | (approves) d where "derive_spend drv spends (pa_custody g) = Ok d" "auto_sendable g op d"
      "charge_the_rolling_period_cap clk 0 (ds_native_total d) g = (Ok Charged, g')"
      "res = Ok (Approved (approval_new spends (ds_summary d) (pa_scope g')))"
proof (cases "derive_spend drv spends (pa_custody g)")
  case (Err e)
  then show ?thesis using assms by (intro early [of e]) (auto simp: authorize_op_def)
next
  case (Ok d)
  show ?thesis
  proof (cases "sm_tier (ds_summary d)")
    case VaultTier
    show ?thesis
    proof (cases "reject_vault_outflow drv (pa_hot_wallet g) (sm_recipients (ds_summary d))")
      case (Err e)
      then show ?thesis using assms Ok VaultTier
        by (intro early [of e]) (auto simp: authorize_op_def)
    next
      case v: (Ok u)
      then show ?thesis using assms asked [of d 0 g] Ok VaultTier by (simp add: authorize_op_def)
    qed
  next
    case Confirm
    then show ?thesis using assms asked [of d 0 g] Ok by (simp add: authorize_op_def)
  next
    case AutoSend
    then have r: "rule_on_auto_send clk spends d op g = (res, g')"
      using assms Ok by (simp add: authorize_op_def)
    show ?thesis
    proof (cases "auto_sendable g op d")
      case False
      then have "escalate clk 0 spends d g = (res, g') \<or>
          (\<exists>e. reject_amounts_no_mojo_limit_can_bound (ds_summary d) = Err e \<and> res = Err e \<and> g' = g)"
        using r AutoSend
        by (auto simp: rule_on_auto_send_def auto_sendable_def not_le
              split: option.splits if_splits result.splits)
      then show ?thesis using early asked [of d 0 g] Ok AutoSend by auto
    next
      case True
      have rej: "reject_amounts_no_mojo_limit_can_bound (ds_summary d) = Ok ()"
        using derived_spend_native [OF Ok AutoSend] by (rule native_reject_Ok)
      obtain cr gc where c: "charge_the_rolling_period_cap clk 0 (ds_native_total d) g = (cr, gc)"
        by fastforce
      have "rule_on_auto_send clk spends d op g =
          (case (cr, gc) of
             (Err e, g') \<Rightarrow> (Err e, g')
           | (Ok Charged, g') \<Rightarrow> (Ok (Approved (approval_new spends (ds_summary d) (pa_scope g'))), g')
           | (Ok OverCap, g') \<Rightarrow> escalate clk 1 spends d g')"
        using True rej c
        by (auto simp: rule_on_auto_send_def auto_sendable_def not_less split: option.splits)
      then show ?thesis
        using r c Ok AutoSend True unjudged [of _ d] approves [of d] asked [of d 1 gc]
        by (cases cr) (auto split: cap_verdict.splits)
    qed
  qed
qed

section \<open>Runs\<close>

lemma next_since_ge:
  assumes "readings_forward since clk"
  shows "since \<le> next_since since clk"
    and "clk 0 = Ok t \<or> clk 1 = Ok t \<Longrightarrow> since \<le> t \<and> t \<le> next_since since clk \<and> unat t < 2 ^ 64 - 1"
    and "k = 0 \<or> k = 1 \<Longrightarrow> clk k = Ok t \<Longrightarrow>
           since \<le> t \<and> t \<le> next_since since clk \<and> unat t < 2 ^ 64 - 1"
  using assms by (auto simp: readings_forward_def next_since_def split: result.splits)

text \<open>The gate's two ledgers cover the two logs.\<close>

definition gate_covers :: "u64 \<Rightarrow> policy_authorizer \<Rightarrow> admissions \<Rightarrow> admissions \<Rightarrow> bool" where
  "gate_covers since g sent asked \<longleftrightarrow>
     spend_ledger.covers (pa_auto_send g) since (pa_recent g) sent \<and>
     prompt_ledger.covers (pa_auto_send g) since (pa_prompts g) asked"

definition step_sent :: "'n spend_driver \<Rightarrow> gate_request \<Rightarrow> policy_authorizer \<Rightarrow> admissions" where
  "step_sent drv q g =
     (case (fst (authorize_op drv (gr_clock q) (gr_spends q) (gr_op q) g), gr_clock q 0,
            derive_spend drv (gr_spends q) (pa_custody g)) of
        (Ok (Approved _), Ok now, Ok d) \<Rightarrow> [(now, unat (ds_native_total d))]
      | _ \<Rightarrow> [])"

definition step_prompted :: "'n spend_driver \<Rightarrow> gate_request \<Rightarrow> policy_authorizer \<Rightarrow> admissions" where
  "step_prompted drv q g =
     (case authorize_op drv (gr_clock q) (gr_spends q) (gr_op q) g of
        (Ok (RequiresConfirmation _), g') \<Rightarrow> [(last (pa_prompts g'), 1)]
      | _ \<Rightarrow> [])"

lemma auto_sent_Cons:
  "auto_sent drv (q # qs) g =
     step_sent drv q g @
     auto_sent drv qs (snd (authorize_op drv (gr_clock q) (gr_spends q) (gr_op q) g))"
  by (simp add: step_sent_def split: prod.split)

lemma prompted_Cons:
  "prompted drv (q # qs) g =
     step_prompted drv q g @
     prompted drv qs (snd (authorize_op drv (gr_clock q) (gr_spends q) (gr_op q) g))"
  by (simp add: step_prompted_def split: prod.split result.split spend_ruling.split)

declare auto_sent.simps(2) [simp del] prompted.simps(2) [simp del]

lemma prompt_step:
  assumes esc: "escalate clk k spends d g = (res, g')"
    and fwd: "readings_forward since clk" and k: "k = 0 \<or> k = 1"
    and cov: "gate_covers since g sent asked"
  shows "gate_covers (next_since since clk) g' sent
           (asked @ (case res of Ok _ \<Rightarrow> [(last (pa_prompts g'), 1)] | Err _ \<Rightarrow> []))"
    and "\<forall>a. res \<noteq> Ok (Approved a)" and "same_gate g g'"
    and "pa_recent g' = pa_recent g"
proof -
  let ?n = "next_since since clk" and ?p = "pa_auto_send g"
  obtain r where r: "charge_a_confirmation_prompt clk k g = (r, g')"
    and res: "res = (case r of Err e \<Rightarrow> Err e
      | Ok _ \<Rightarrow> Ok (RequiresConfirmation (pending_new spends (ds_summary d) (pa_scope g'))))"
    using esc by (auto simp: escalate_eq)
  show "\<forall>a. res \<noteq> Ok (Approved a)" by (simp add: res split: result.splits)
  note le = next_since_ge [OF fwd]
  have sent: "spend_ledger.covers ?p since (pa_recent g) sent"
    and asked: "prompt_ledger.covers ?p since (pa_prompts g) asked"
    using cov by (auto simp: gate_covers_def)
  have sent': "spend_ledger.covers ?p ?n (pa_recent g) sent"
    by (rule spend_ledger.covers_later [OF sent le(1)])
  note frame = prompt_frame [OF r]
  show "same_gate g g'" "pa_recent g' = pa_recent g" by (rule frame)+
  have pol: "pa_auto_send g' = ?p" using frame(1) by (simp add: same_gate_def)
  have "prompt_ledger.covers ?p ?n (pa_prompts g')
      (asked @ (case res of Ok _ \<Rightarrow> [(last (pa_prompts g'), 1)] | Err _ \<Rightarrow> []))"
    using r
  proof (cases rule: prompt_cases)
    case (early e)
    then show ?thesis using prompt_ledger.covers_later [OF asked le(1)] res by simp
  next
    case (full now e)
    note t = le(3) [OF k full(1)]
    have "prompt_ledger.covers ?p now (pa_prompts g') asked"
      using prompt_ledger.covers_refused [OF asked _ full(3)] t by simp
    then show ?thesis using prompt_ledger.covers_later t full(2) res by simp
  next
    case (raised now)
    note t = le(3) [OF k raised(1)]
    have "prompt_ledger.covers ?p now (pa_prompts g') (asked @ [(now, 1)])"
      using prompt_ledger.covers_admitted [OF asked _ _ raised(3)] t by simp
    then show ?thesis using prompt_ledger.covers_later t raised(2,4) res by simp
  qed
  with sent' frame(2) pol show "gate_covers ?n g' sent
      (asked @ (case res of Ok _ \<Rightarrow> [(last (pa_prompts g'), 1)] | Err _ \<Rightarrow> []))"
    by (simp add: gate_covers_def)
qed

lemma charge_step:
  assumes c: "charge_the_rolling_period_cap clk 0 n g = (res, g')"
    and fwd: "readings_forward since clk" and cov: "gate_covers since g sent asked"
  shows "\<exists>now. (res = Ok Charged \<longrightarrow> clk 0 = Ok now) \<and> now \<le> next_since since clk \<and>
    (clk 0 = Ok now \<or> now = since) \<and>
    gate_covers now g' (sent @ (if res = Ok Charged then [(now, unat n)] else [])) asked"
proof -
  let ?p = "pa_auto_send g"
  note le = next_since_ge [OF fwd] and frame = charge_frame [OF c]
  have sent: "spend_ledger.covers ?p since (pa_recent g) sent"
    and asked: "prompt_ledger.covers ?p since (pa_prompts g) asked"
    using cov by (auto simp: gate_covers_def)
  have pol: "pa_auto_send g' = ?p" using frame(1) by (simp add: same_gate_def)
  from c show ?thesis
  proof (cases rule: charge_cases)
    case (early e)
    then show ?thesis using cov le(1) by (intro exI [of _ since]) simp
  next
    case (refused now)
    note t = le(2) [of now]
    have "spend_ledger.covers ?p now (pa_recent g') sent"
      using spend_ledger.covers_refused [OF sent _ refused(3)] t refused(1) by simp
    then show ?thesis
      using prompt_ledger.covers_later [OF asked] t refused pol frame(2)
      by (intro exI [of _ now]) (simp add: gate_covers_def)
  next
    case (charged now)
    note t = le(2) [of now]
    have "spend_ledger.covers ?p now (pa_recent g') (sent @ [(now, unat n)])"
      using spend_ledger.covers_admitted [OF sent _ _ charged(3)] t charged(1) by simp
    then show ?thesis
      using prompt_ledger.covers_later [OF asked] t charged pol frame(2)
      by (intro exI [of _ now]) (simp add: gate_covers_def)
  qed
qed

lemma gate_covers_later: "gate_covers since g s a \<Longrightarrow> since \<le> t \<Longrightarrow> gate_covers t g s a"
  using spend_ledger.covers_later prompt_ledger.covers_later by (auto simp: gate_covers_def)

lemma authorize_step:
  assumes auth: "authorize_op drv (gr_clock q) (gr_spends q) (gr_op q) g = (res, g')"
    and fwd: "readings_forward since (gr_clock q)" and cov: "gate_covers since g sent asked"
  shows "gate_covers (next_since since (gr_clock q)) g'
           (sent @ step_sent drv q g) (asked @ step_prompted drv q g)"
    and "same_gate g g'"
proof -
  let ?clk = "gr_clock q" and ?n = "next_since since (gr_clock q)"
  note le = next_since_ge(1) [OF fwd]
  have "gate_covers ?n g' (sent @ step_sent drv q g) (asked @ step_prompted drv q g) \<and> same_gate g g'"
    using auth
  proof (cases rule: authorize_cases)
    case (early e)
    then show ?thesis using gate_covers_later [OF cov le] auth
      by (simp add: step_sent_def step_prompted_def)
  next
    case (asked d k g1)
    obtain now where now: "gate_covers now g1 sent asked" "readings_forward now ?clk"
      "next_since now ?clk = ?n" "same_gate g g1"
      using asked(3)
    proof
      assume "k = 0 \<and> g1 = g"
      then show ?thesis using that [of since] cov fwd by simp
    next
      assume a: "k = 1 \<and> charge_the_rolling_period_cap ?clk 0 (ds_native_total d) g = (Ok OverCap, g1)"
      then obtain now where n: "now \<le> ?n" "?clk 0 = Ok now \<or> now = since"
        "gate_covers now g1 sent asked"
        using charge_step [OF _ fwd cov, of "ds_native_total d" "Ok OverCap" g1] by auto
      moreover have "readings_forward now ?clk" "next_since now ?clk = ?n"
        using n(2) fwd by (auto simp: readings_forward_def next_since_def split: result.splits)
      ultimately show ?thesis using that charge_frame(1) a by blast
    qed
    have k: "k = 0 \<or> k = 1" using asked(3) by auto
    note s = prompt_step [OF asked(2) now(2) k now(1)]
    have "step_sent drv q g = []"
      using s(2) auth by (auto simp: step_sent_def split: result.splits spend_ruling.splits)
    moreover have "step_prompted drv q g =
        (case res of Ok _ \<Rightarrow> [(last (pa_prompts g'), 1)] | Err _ \<Rightarrow> [])"
      using s(2) auth by (auto simp: step_prompted_def split: result.splits spend_ruling.splits)
    ultimately show ?thesis using s(1,3) now(3,4) same_gate_trans by auto
  next
    case (unjudged d e)
    then obtain now where "now \<le> ?n" "gate_covers now g' sent asked"
      using charge_step [OF _ fwd cov, of "ds_native_total d" "Err e" g'] by auto
    then have "gate_covers ?n g' sent asked" using gate_covers_later by blast
    then show ?thesis using unjudged charge_frame(1) auth
      by (auto simp: step_sent_def step_prompted_def)
  next
    case (approves d)
    then obtain now where n: "?clk 0 = Ok now" "now \<le> ?n"
      "gate_covers now g' (sent @ [(now, unat (ds_native_total d))]) asked"
      using charge_step [OF _ fwd cov, of "ds_native_total d" "Ok Charged" g'] by auto
    then have "gate_covers ?n g' (sent @ [(now, unat (ds_native_total d))]) asked"
      using gate_covers_later by blast
    then show ?thesis using approves charge_frame(1) auth n(1)
      by (auto simp: step_sent_def step_prompted_def)
  qed
  then show "gate_covers ?n g' (sent @ step_sent drv q g) (asked @ step_prompted drv q g)"
    and "same_gate g g'" by auto
qed

lemma gate_run_covers:
  assumes "clock_forward since qs" and "gate_covers since g sent asked"
  shows "\<exists>t. gate_covers t (snd (gate_run drv qs g)) (sent @ auto_sent drv qs g)
               (asked @ prompted drv qs g) \<and> same_gate g (snd (gate_run drv qs g))"
  using assms
proof (induction qs arbitrary: since g sent asked)
  case Nil
  then show ?case by (auto intro: exI [of _ since])
next
  case (Cons q qs)
  obtain res g' where auth: "authorize_op drv (gr_clock q) (gr_spends q) (gr_op q) g = (res, g')"
    by fastforce
  have fwd: "readings_forward since (gr_clock q)"
    "clock_forward (next_since since (gr_clock q)) qs"
    using Cons.prems(1) by auto
  note step = authorize_step [OF auth fwd(1) Cons.prems(2)]
  obtain t where "gate_covers t (snd (gate_run drv qs g'))
      ((sent @ step_sent drv q g) @ auto_sent drv qs g')
      ((asked @ step_prompted drv q g) @ prompted drv qs g')"
    "same_gate g' (snd (gate_run drv qs g'))"
    using Cons.IH [OF fwd(2) step(1)] by blast
  moreover have "snd (gate_run drv (q # qs) g) = snd (gate_run drv qs g')"
    using auth by (simp split: prod.split)
  ultimately show ?case
    using auth same_gate_trans [OF step(2)]
    by (intro exI [of _ t]) (simp add: auto_sent_Cons prompted_Cons)
qed

lemma gate_new_covers:
  assumes "policy_authorizer_new drv ix custody policy addr = Ok g"
  shows "gate_covers 0 g [] []" and "pa_auto_send g = policy" and "pa_custody g = custody"
    and "pa_scope g = custody_scope_new ix custody (pa_hot_wallet g)"
  using assms
  by (auto simp: policy_authorizer_new_def gate_covers_def simp del: One_nat_def
           split: result.splits prod.splits)

lemma reject_vault_outflow_Ok:
  "reject_vault_outflow drv hot rs = Ok () \<longleftrightarrow>
     (\<forall>r\<in>set rs. rcp_destination r = AddressDest \<and>
        (\<exists>prefix. decode_address drv (rcp_address r) = Ok (hot, prefix)))"
proof (induction rs)
  case Nil
  then show ?case by simp
next
  case (Cons r rs)
  then show ?case
    by (cases "rcp_destination r") (auto split: result.splits prod.splits if_splits)
qed

lemma signed_spends:
  assumes "sign_approved core now res m a = Ok bundle"
  shows "residency_is_live now res" and "scope_profile (az_scope (approved a)) = ms_profile m"
    and "spending_wallet (az_scope (approved a)) = Some w \<Longrightarrow> w = sg_puzzle_hash core (ms_profile m)"
    and "\<exists>k rq rv. sg_sign core k (az_coin_spends (approved a)) rq rv = Ok bundle"
  using assms
  by (auto simp: sign_approved_def live_signer_def and_then_Ok assert_signable_by_Ok split: if_splits)


section \<open>A concrete gate\<close>

definition sample_policy :: auto_send_policy where
  "sample_policy =
     \<lparr>as_enabled = True, as_rebalance = op_class_limits_default, as_tip = enabled_up_to 1000,
      as_small_send = op_class_limits_default, period_seconds = 3600, period_cap_mojos = 1000,
      max_confirmations_per_period = 1\<rparr>"

definition sample_gate :: "custody_policy \<Rightarrow> policy_authorizer" where
  "sample_gate custody =
     \<lparr>pa_custody = custody, pa_auto_send = sample_policy, pa_hot_wallet = 9,
      pa_scope = custody_scope_new (ProfileIx 0) custody 9, pa_recent = [],
      pa_recent_poisoned = False, pa_prompts = [], pa_prompts_poisoned = False\<rparr>"

abbreviation hot800 :: custody_policy where
  "hot800 \<equiv> HotCustody \<lparr>auto_send_limit = 800\<rparr>"

lemma sample_gate_new:
  "policy_authorizer_new sample_driver (ProfileIx 0) custody sample_policy ''xch1nine'' =
     Ok (sample_gate custody)"
  by (simp add: policy_authorizer_new_def sample_driver_def sample_gate_def)

lemma sample_derived_hot:
  "derive_spend sample_driver [sample_spend] hot800 =
     Ok \<lparr>ds_summary = sample_summary AutoSend, ds_native_total = 710\<rparr>"
  by (simp add: sample_derived)

definition sample_request :: "u64 \<Rightarrow> gate_request" where
  "sample_request t = \<lparr>gr_clock = (\<lambda>_. Ok t), gr_spends = [sample_spend], gr_op = Tip\<rparr>"

lemma sample_summary_native: "reject_amounts_no_mojo_limit_can_bound (sample_summary t) = Ok ()"
  by (rule native_reject_Ok) (simp add: sample_summary_def moves_non_native_assets_def to_address_def)

lemma sample_approved:
  "authorize_op sample_driver (\<lambda>_. Ok 100) [sample_spend] Tip (sample_gate hot800) =
     (Ok (Approved (approval_new [sample_spend] (sample_summary AutoSend)
            (custody_scope_new (ProfileIx 0) hot800 9))),
      (sample_gate hot800)\<lparr>pa_recent := [\<lparr>at_unix = 100, rec_mojos = 710\<rparr>]\<rparr>)"
proof -
  have c: "charge_the_rolling_period_cap (\<lambda>_. Ok 100) 0 710 (sample_gate hot800) =
      (Ok Charged, (sample_gate hot800)\<lparr>pa_recent := [\<lparr>at_unix = 100, rec_mojos = 710\<rparr>]\<rparr>)"
    by (simp add: charge_the_rolling_period_cap_def sample_gate_def sample_policy_def
          charge_ledger_def Let_def MAX_LEDGER_ENTRIES_def)
  have g: "pa_custody (sample_gate hot800) = hot800" "pa_auto_send (sample_gate hot800) = sample_policy"
    "pa_scope (sample_gate hot800) = custody_scope_new (ProfileIx 0) hot800 9"
    by (simp_all add: sample_gate_def)
  have t: "sm_tier (sample_summary AutoSend) = AutoSend" by (simp add: sample_summary_def)
  show ?thesis
    unfolding authorize_op_def g(1) sample_derived_hot
    by (simp add: t rule_on_auto_send_def g(2) sample_summary_native c)
       (simp add: g sample_policy_def enabled_up_to_def)
qed

lemma sample_over_cap:
  "authorize_op sample_driver (\<lambda>_. Ok 200) [sample_spend] Tip
     ((sample_gate hot800)\<lparr>pa_recent := [\<lparr>at_unix = 100, rec_mojos = 710\<rparr>]\<rparr>) =
     (Ok (RequiresConfirmation (pending_new [sample_spend] (sample_summary AutoSend)
            (custody_scope_new (ProfileIx 0) hot800 9))),
      (sample_gate hot800)\<lparr>pa_recent := [\<lparr>at_unix = 100, rec_mojos = 710\<rparr>], pa_prompts := [200]\<rparr>)"
proof -
  let ?g = "(sample_gate hot800)\<lparr>pa_recent := [\<lparr>at_unix = 100, rec_mojos = 710\<rparr>]\<rparr>"
  have c: "charge_the_rolling_period_cap (\<lambda>_. Ok 200) 0 710 ?g = (Ok OverCap, ?g)"
    by (simp add: charge_the_rolling_period_cap_def sample_gate_def sample_policy_def
          charge_ledger_def Let_def saturating_add_def checked_add_def)
  have e: "escalate (\<lambda>_. Ok 200) 1 [sample_spend] \<lparr>ds_summary = sample_summary AutoSend, ds_native_total = 710\<rparr> ?g =
      (Ok (RequiresConfirmation (pending_new [sample_spend] (sample_summary AutoSend)
            (custody_scope_new (ProfileIx 0) hot800 9))), ?g\<lparr>pa_prompts := [200]\<rparr>)"
    by (simp add: escalate_def charge_a_confirmation_prompt_def charge_prompts_def sample_gate_def
          sample_policy_def Let_def)
  have g: "pa_custody ?g = hot800" "pa_auto_send ?g = sample_policy" by (simp_all add: sample_gate_def)
  have t: "sm_tier (sample_summary AutoSend) = AutoSend" by (simp add: sample_summary_def)
  show ?thesis
    unfolding authorize_op_def g(1) sample_derived_hot
    using c e by (simp add: t rule_on_auto_send_def g(2) sample_summary_native)
       (simp add: g sample_policy_def enabled_up_to_def)
qed

lemma derived_vault:
  assumes "derive_spend drv spends policy = Ok d"
  shows "sm_tier (ds_summary d) = VaultTier \<longleftrightarrow> (\<exists>v. policy = VaultCustody v)"
proof -
  obtain s where d: "ds_summary d = s\<lparr>sm_tier := tier_of policy (ds_native_total d) s\<rparr>"
    using derive_spend_Ok [OF assms(1)] by blast
  then show ?thesis by (simp add: tier_of_Vault)
qed

lemma escalate_never_approves: "escalate clk k spends d g \<noteq> (Ok (Approved a), g')"
  by (auto simp: escalate_def split: prod.splits result.splits)

section \<open>Properties\<close>

text \<open>C4: The gate approves nothing it should not. A spend is signed unattended only when the
  profile is a hot wallet, auto-send is on, its class is declared and enabled, its exact native
  total (value leaving plus fee) fits both the per-transaction limit and the wallet's allowance, it
  pays only XCH, melts nothing and moves no NFT; the approval owns the very spends judged, with the
  gate's scope, and no prompt is charged for it.\<close>

theorem approval_is_within_every_bound:
  assumes "authorize_op drv clk spends op g = (Ok (Approved a), g')"
  shows "\<exists>d hot l. derive_spend drv spends (pa_custody g) = Ok d \<and> pa_custody g = HotCustody hot \<and>
    as_enabled (pa_auto_send g) \<and> op \<noteq> Undeclared \<and>
    configured_limits (pa_auto_send g) op = Some l \<and> lim_enabled l \<and>
    ds_native_total d \<le> per_tx_limit_mojos l \<and> ds_native_total d \<le> auto_send_limit hot \<and>
    ds_native_total d \<le> period_cap_mojos (pa_auto_send g) \<and>
    list_all (\<lambda>r. rcp_asset r = None) (sm_recipients (ds_summary d)) \<and>
    sm_melted (ds_summary d) = [] \<and> sm_nft_operations (ds_summary d) = [] \<and>
    approved a = \<lparr>az_coin_spends = spends, az_summary = ds_summary d, az_scope = pa_scope g\<rparr> \<and>
    pa_prompts g' = pa_prompts g"
  using assms
proof (cases rule: authorize_cases)
  case (approves d)
  obtain s where d: "ds_summary d = s\<lparr>sm_tier := tier_of (pa_custody g) (ds_native_total d) s\<rparr>"
    using derive_spend_Ok [OF approves(1)] by blast
  have t: "tier_of (pa_custody g) (ds_native_total d) s = AutoSend"
    using approves(2) d by (simp add: auto_sendable_def)
  obtain l where l: "configured_limits (pa_auto_send g) op = Some l" "lim_enabled l"
    "ds_native_total d \<le> per_tx_limit_mojos l" and on: "as_enabled (pa_auto_send g)"
    using approves(2) by (auto simp: auto_sendable_def split: option.splits)
  have "op \<noteq> Undeclared" using l(1) by (cases op) auto
  moreover have "ds_native_total d \<le> period_cap_mojos (pa_auto_send g)"
    using approves(3)
  proof (cases rule: charge_cases)
    case (charged now)
    then have c: "charge_ledger (pa_auto_send g) now (ds_native_total d) (pa_recent g) =
        (Ok Charged, pa_recent g')"
      by (simp add: spend_charge_def split: prod.splits)
    have "unat (ds_native_total d) \<le> sum_list (map (unat \<circ> rec_mojos) (pa_recent g'))"
      using charge_ledger_kept [of "pa_auto_send g" now "ds_native_total d" "pa_recent g"] c
      by (auto simp: Let_def word_gt_0)
    then show ?thesis using charge_ledger_cap(1) [OF c] by (simp add: word_le_nat_alt)
  qed auto
  moreover have "pa_scope g' = pa_scope g" "pa_prompts g' = pa_prompts g"
    using charge_frame [OF approves(3)] by (simp_all add: same_gate_def)
  moreover have "ds_summary d = s\<lparr>sm_tier := AutoSend\<rparr>" using d t by simp
  moreover obtain hot where "pa_custody g = HotCustody hot" "ds_native_total d \<le> auto_send_limit hot"
    "\<not> moves_non_native_assets s" "\<not> destroys_singletons s" "\<not> moves_nfts s"
    using t by (auto simp: tier_of_AutoSend)
  ultimately show ?thesis
    using approves(1,4) l on
    by (auto simp: approval_new_def moves_non_native_assets_def
          destroys_singletons_def moves_nfts_def list_ex_iff list_all_iff)
next
  case (asked d k g1)
  then show ?thesis using escalate_never_approves by blast
qed auto

theorem approval_is_within_every_bound_witness:
  "\<exists>hot. pa_custody (sample_gate hot800) = HotCustody hot \<and> (710::u64) \<le> auto_send_limit hot"
  using approval_is_within_every_bound [OF sample_approved]
  by (auto simp: sample_gate_def sample_derived)

text \<open>C7: A vault never auto-sends and never pays anyone but its own hot wallet. Whatever class is
  declared and whatever the amount, a spend under vault custody is refused or put to the human, it
  is put to the human only when every recipient decodes to the hot wallet's puzzle hash and nothing
  is committed to a protocol structure, and the auto-send ledger is untouched.\<close>

theorem vault_pays_only_the_hot_wallet:
  assumes "pa_custody g = VaultCustody v" and "authorize_op drv clk spends op g = (res, g')"
  shows "pa_recent g' = pa_recent g \<and> (\<forall>a. res \<noteq> Ok (Approved a)) \<and>
    (\<forall>p. res = Ok (RequiresConfirmation p) \<longrightarrow>
       az_coin_spends (pending p) = spends \<and>
       list_all (\<lambda>r. rcp_destination r = AddressDest \<and>
           (\<exists>prefix. decode_address drv (rcp_address r) = Ok (pa_hot_wallet g, prefix)))
         (sm_recipients (az_summary (pending p))))"
  using assms(2)
proof (cases rule: authorize_cases)
  case (early e)
  then show ?thesis by simp
next
  case (asked d k g1)
  have "sm_tier (ds_summary d) = VaultTier"
    using derived_vault [OF asked(1)] assms(1) by blast
  then have ok: "reject_vault_outflow drv (pa_hot_wallet g) (sm_recipients (ds_summary d)) = Ok ()"
    and g1: "g1 = g" using asked(3,4) by auto
  obtain r where r: "charge_a_confirmation_prompt clk k g = (r, g')"
    and res: "res = (case r of Err e \<Rightarrow> Err e
      | Ok _ \<Rightarrow> Ok (RequiresConfirmation (pending_new spends (ds_summary d) (pa_scope g'))))"
    using asked(2) g1 by (auto simp: escalate_eq)
  show ?thesis
    using res ok prompt_frame(2) [OF r]
    by (auto simp: reject_vault_outflow_Ok list_all_iff pending_new_def split: result.splits)
next
  case (unjudged d e)
  then show ?thesis using derived_vault [OF unjudged(2)] assms(1) by auto
next
  case (approves d)
  then show ?thesis using derived_vault [OF approves(1)] assms(1) by (auto simp: auto_sendable_def)
qed

theorem vault_pays_only_the_hot_wallet_witness:
  "\<forall>a. fst (authorize_op sample_driver (\<lambda>_. Ok 100) [sample_spend] Tip
          (sample_gate (VaultCustody vault_default))) \<noteq> Ok (Approved a)"
proof -
  have "pa_custody (sample_gate (VaultCustody vault_default)) = VaultCustody vault_default"
    by (simp add: sample_gate_def)
  from vault_pays_only_the_hot_wallet [OF this prod.collapse [symmetric]] show ?thesis by blast
qed

text \<open>C5: The rolling cap holds in every window of a gate whose calls do not overlap. For any sequence of
  requests to one gate, from its construction, each answered before the next begins and on a clock that
  does not run backwards from one reading to the next: the exact native totals auto-approved within any
  \<open>period_seconds\<close>-long window never sum to more than \<open>period_cap_mojos\<close>, whatever was refused
  or escalated in between. (Overlapping calls, and what they cost, are those of \<open>Gate_Interleaving\<close>.)\<close>

theorem rolling_cap_bounds_every_window:
  assumes "policy_authorizer_new drv ix custody policy addr = Ok g" and "clock_forward 0 qs"
  shows "sum_where (within (period_seconds policy) a) (auto_sent drv qs g)
           \<le> unat (period_cap_mojos policy)"
proof -
  obtain t where "gate_covers t (snd (gate_run drv qs g)) (auto_sent drv qs g) (prompted drv qs g)"
    and same: "same_gate g (snd (gate_run drv qs g))"
    using gate_run_covers [OF assms(2) gate_new_covers(1) [OF assms(1)]] by auto
  moreover have "pa_auto_send (snd (gate_run drv qs g)) = policy"
    using same gate_new_covers(2) [OF assms(1)] by (simp add: same_gate_def)
  ultimately show ?thesis by (simp add: gate_covers_def spend_ledger.covers_def)
qed

theorem rolling_cap_bounds_every_window_witness:
  "sum_where (within 3600 0) [(100, 710)] \<le> 1000"
  using rolling_cap_bounds_every_window [OF sample_gate_new, of
      "[sample_request 100, sample_request 200]" 0 hot800]
    sample_approved sample_over_cap
  by (simp add: readings_forward_def next_since_def sample_request_def auto_sent_Cons step_sent_def
        sample_derived_hot sample_policy_def)

text \<open>Consent cannot be demanded without limit. Over the same runs, the ceremonies raised within
  any \<open>period_seconds\<close>-long window number at most \<open>max_confirmations_per_period\<close>.\<close>

theorem prompts_bounded_in_every_window:
  assumes "policy_authorizer_new drv ix custody policy addr = Ok g" and "clock_forward 0 qs"
  shows "sum_where (within (period_seconds policy) a) (prompted drv qs g)
           \<le> unat (max_confirmations_per_period policy)"
proof -
  obtain t where "gate_covers t (snd (gate_run drv qs g)) (auto_sent drv qs g) (prompted drv qs g)"
    and same: "same_gate g (snd (gate_run drv qs g))"
    using gate_run_covers [OF assms(2) gate_new_covers(1) [OF assms(1)]] by auto
  moreover have "pa_auto_send (snd (gate_run drv qs g)) = policy"
    using same gate_new_covers(2) [OF assms(1)] by (simp add: same_gate_def)
  ultimately show ?thesis
    by (simp add: gate_covers_def prompt_ledger.covers_def del: One_nat_def)
qed

theorem prompts_bounded_in_every_window_witness:
  "sum_where (within 3600 0) [(200, 1)] \<le> 1"
  using prompts_bounded_in_every_window [OF sample_gate_new, of
      "[sample_request 100, sample_request 200]" 0 hot800]
    sample_approved sample_over_cap
  by (simp add: readings_forward_def next_since_def sample_request_def prompted_Cons
        step_prompted_def sample_policy_def)

text \<open>What is not auto-approved costs no allowance. A call that is refused or escalated adds
  nothing to the auto-send ledger, so no sequence of declined or confirmed ceremonies can drain the
  unattended allowance; a call never changes the gate's policy, custody or scope; and the ledger
  never outgrows its ceiling.\<close>

theorem only_approvals_are_charged:
  assumes "authorize_op drv clk spends op g = (res, g')"
    and "length (pa_recent g) \<le> MAX_LEDGER_ENTRIES"
  shows "((\<forall>a. res \<noteq> Ok (Approved a)) \<longrightarrow> set (pa_recent g') \<subseteq> set (pa_recent g)) \<and>
    same_gate g g' \<and> length (pa_recent g') \<le> MAX_LEDGER_ENTRIES"
proof -
  have kept: "set (pa_recent h) \<subseteq> set (pa_recent g)"
    "length (pa_recent h) \<le> MAX_LEDGER_ENTRIES"
    if c: "charge_the_rolling_period_cap clk 0 n g = (r, h)" and r: "r \<noteq> Ok Charged" for n r h
  proof -
    have "pa_recent h = pa_recent g \<or>
        (\<exists>now. pa_recent h = filter (\<lambda>x. in_window (period_seconds (pa_auto_send g)) now (at_unix x)) (pa_recent g))"
      using c
    proof (cases rule: charge_cases)
      case (refused now)
      then show ?thesis using spend_ledger.charge_refuses by blast
    qed (use r in auto)
    then show "set (pa_recent h) \<subseteq> set (pa_recent g)"
      and "length (pa_recent h) \<le> MAX_LEDGER_ENTRIES"
      using assms(2) by (auto intro: le_trans [OF length_filter_le])
  qed
  show ?thesis
    using assms(1)
  proof (cases rule: authorize_cases)
    case (early e)
    then show ?thesis using assms(2) by simp
  next
    case (asked d k g1)
    obtain r where r: "charge_a_confirmation_prompt clk k g1 = (r, g')"
      using asked(2) by (auto simp: escalate_eq)
    have g1: "set (pa_recent g1) \<subseteq> set (pa_recent g)" "length (pa_recent g1) \<le> MAX_LEDGER_ENTRIES"
      "same_gate g g1"
      using asked(3) kept assms(2) charge_frame(1) by auto
    then show ?thesis using prompt_frame(1,2) [OF r] same_gate_trans by auto
  next
    case (unjudged d e)
    then show ?thesis using kept [OF unjudged(3)] charge_frame(1) [OF unjudged(3)] by simp
  next
    case (approves d)
    have "length (pa_recent g') \<le> MAX_LEDGER_ENTRIES"
      using approves(3)
    proof (cases rule: charge_cases)
      case (charged now)
      then show ?thesis
        using charge_ledger_cap(2) by (fastforce simp: spend_charge_def split: prod.splits)
    qed auto
    then show ?thesis using approves(4) charge_frame(1) [OF approves(3)] by simp
  qed
qed

theorem only_approvals_are_charged_witness:
  "set (pa_recent ((sample_gate hot800)\<lparr>pa_recent := [\<lparr>at_unix = 100, rec_mojos = 710\<rparr>],
       pa_prompts := [200]\<rparr>)) \<subseteq> {\<lparr>at_unix = 100, rec_mojos = 710\<rparr>}"
  using only_approvals_are_charged [OF sample_over_cap] by (simp add: MAX_LEDGER_ENTRIES_def)

text \<open>An undeclared request is confirmable, never lost and never signed unattended. For a hot
  wallet, whenever the spend can be derived, the clock reads, the period is not zero and the
  window's prompts are below the ceiling, the ruling on a spend no class was declared for is the
  human's confirmation of exactly that spend and its summary.\<close>

theorem undeclared_spend_reaches_the_human:
  assumes "pa_custody g = HotCustody hot" and "derive_spend drv spends (pa_custody g) = Ok d"
    and "clk 0 = Ok now" and "period_seconds (pa_auto_send g) \<noteq> 0" and "\<not> pa_prompts_poisoned g"
    and "length (filter (in_window (period_seconds (pa_auto_send g)) now) (pa_prompts g))
           < unat (max_confirmations_per_period (pa_auto_send g))"
  shows "\<exists>g'. authorize_op drv clk spends Undeclared g =
    (Ok (RequiresConfirmation (pending_new spends (ds_summary d) (pa_scope g))), g')"
proof -
  have "sm_tier (ds_summary d) \<noteq> VaultTier" using derived_vault [OF assms(2)] assms(1) by simp
  then have "authorize_op drv clk spends Undeclared g = escalate clk 0 spends d g"
    using assms(2)
    by (cases "sm_tier (ds_summary d)") (simp_all add: authorize_op_def rule_on_auto_send_def)
  moreover have "length (filter (\<lambda>at. now < saturating_add at (period_seconds (pa_auto_send g)))
      (pa_prompts g)) < unat (max_confirmations_per_period (pa_auto_send g))"
    using assms(6) unfolding in_window_def [abs_def] .
  ultimately show ?thesis
    using assms(3-5)
    by (simp add: escalate_def charge_a_confirmation_prompt_def charge_prompts_def Let_def)
qed

theorem undeclared_spend_reaches_the_human_witness:
  "\<exists>g'. authorize_op sample_driver (\<lambda>_. Ok 100) [sample_spend] Undeclared (sample_gate hot800) =
     (Ok (RequiresConfirmation (pending_new [sample_spend] (sample_summary AutoSend)
        (custody_scope_new (ProfileIx 0) hot800 9))), g')"
proof -
  have "\<exists>g'. authorize_op sample_driver (\<lambda>_. Ok 100) [sample_spend] Undeclared (sample_gate hot800) =
     (Ok (RequiresConfirmation (pending_new [sample_spend]
        (ds_summary \<lparr>ds_summary = sample_summary AutoSend, ds_native_total = 710\<rparr>)
        (pa_scope (sample_gate hot800)))), g')"
    by (rule undeclared_spend_reaches_the_human)
       (simp_all add: sample_gate_def sample_policy_def sample_derived)
  then show ?thesis by (simp add: sample_gate_def)
qed

text \<open>What the holder of a gate for a profile can turn into an approval: an automatic one, or the
  human's answer to the pending one.\<close>

definition obtained ::
  "'n spend_driver \<Rightarrow> gate_clock \<Rightarrow> coin_spend list \<Rightarrow> spend_op_class \<Rightarrow> policy_authorizer \<Rightarrow>
     (spend_confirm_request \<Rightarrow> (spend_decision, account_error) result) \<Rightarrow> account_id \<Rightarrow> profile_ix \<Rightarrow>
     spend_approval \<Rightarrow> bool"
where
  "obtained drv clk spends op g provider acc ix a \<longleftrightarrow>
     (case fst (authorize_op drv clk spends op g) of
        Ok (Approved b) \<Rightarrow> a = b
      | Ok (RequiresConfirmation p) \<Rightarrow> confirm_with provider acc ix p = Ok a
      | Err _ \<Rightarrow> False)"

lemma confirm_with_Ok:
  "confirm_with provider acc ix p = Ok a \<longleftrightarrow>
     provider \<lparr>rq_account = acc, rq_profile = ix, rq_summary = az_summary (pending p)\<rparr> = Ok Approve \<and>
     a = SpendApproval (pending p)"
proof -
  have "decided p d = Ok a \<longleftrightarrow> d = Approve \<and> a = SpendApproval (pending p)" for d
    by (cases p; cases d) auto
  then show ?thesis by (auto simp: confirm_with_def and_then_Ok)
qed

lemma asked_pending:
  assumes "escalate clk k spends d g = (Ok (RequiresConfirmation p), g')"
  shows "pending p = \<lparr>az_coin_spends = spends, az_summary = ds_summary d, az_scope = pa_scope g\<rparr>"
proof -
  obtain r where r: "charge_a_confirmation_prompt clk k g = (r, g')"
    and res: "Ok (RequiresConfirmation p) = (case r of Err e \<Rightarrow> Err e
      | Ok _ \<Rightarrow> Ok (RequiresConfirmation (pending_new spends (ds_summary d) (pa_scope g'))))"
    using assms by (auto simp: escalate_eq)
  then have p: "p = pending_new spends (ds_summary d) (pa_scope g')" by (cases r) auto
  with r show ?thesis using prompt_frame(1) by (auto simp: pending_new_def same_gate_def)
qed

lemma obtained_spends:
  assumes "obtained drv clk spends op g provider acc ix a"
  shows "\<exists>d. derive_spend drv spends (pa_custody g) = Ok d \<and>
    approved a = \<lparr>az_coin_spends = spends, az_summary = ds_summary d, az_scope = pa_scope g\<rparr> \<and>
    (fst (authorize_op drv clk spends op g) = Ok (Approved a) \<or>
     provider \<lparr>rq_account = acc, rq_profile = ix, rq_summary = ds_summary d\<rparr> = Ok Approve)"
proof -
  obtain res g' where auth: "authorize_op drv clk spends op g = (res, g')" by fastforce
  from auth show ?thesis
  proof (cases rule: authorize_cases)
    case (early e)
    then show ?thesis using assms auth by (simp add: obtained_def)
  next
    case (asked d k g1)
    obtain p where p: "res = Ok (RequiresConfirmation p)" "confirm_with provider acc ix p = Ok a"
      using assms auth asked(2) escalate_never_approves
      by (auto simp: obtained_def split: result.splits spend_ruling.splits)
    have "pa_scope g1 = pa_scope g"
      using asked(3) charge_frame(1) by (auto simp: same_gate_def)
    moreover have "pending p =
        \<lparr>az_coin_spends = spends, az_summary = ds_summary d, az_scope = pa_scope g1\<rparr>"
      using asked(2) unfolding p(1) by (rule asked_pending)
    ultimately show ?thesis using p(2) asked(1) by (auto simp: confirm_with_Ok)
  next
    case (unjudged d e)
    then show ?thesis using assms auth by (simp add: obtained_def)
  next
    case (approves d)
    have "pa_scope g' = pa_scope g" using charge_frame(1) [OF approves(3)] by (simp add: same_gate_def)
    then show ?thesis using approves assms auth by (auto simp: obtained_def approval_new_def)
  qed
qed

text \<open>C1: No signature without authority. A signature obtained through a gate is over exactly the
  spends the gate judged; the session was live when it was made; the signer is for the profile the
  gate was built for and, for a hot wallet, holds the very wallet the gate was configured with; and
  either the gate approved the spend unattended or the human answered yes to a request showing the
  summary derived from those same spends.\<close>

theorem signature_has_authority:
  assumes "policy_authorizer_new drv ix custody policy addr = Ok g0" and "same_gate g0 g"
    and "obtained drv clk spends op g provider acc shown_ix a"
    and "sign_approved core now res m a = Ok bundle"
  shows "residency_is_live now res \<and> ms_profile m = ix \<and>
    (\<forall>hot. custody = HotCustody hot \<longrightarrow>
       (\<exists>prefix. decode_address drv addr = Ok (sg_puzzle_hash core ix, prefix))) \<and>
    (\<exists>k rq rv. sg_sign core k spends rq rv = Ok bundle) \<and>
    (\<exists>d. derive_spend drv spends custody = Ok d \<and>
       (fst (authorize_op drv clk spends op g) = Ok (Approved a) \<or>
        provider \<lparr>rq_account = acc, rq_profile = shown_ix, rq_summary = ds_summary d\<rparr> = Ok Approve))"
proof -
  have g: "pa_custody g = custody" "pa_scope g = custody_scope_new ix custody (pa_hot_wallet g0)"
    and hot: "\<exists>prefix. decode_address drv addr = Ok (pa_hot_wallet g0, prefix)"
    using assms(1,2)
    by (auto simp: policy_authorizer_new_def same_gate_def split: result.splits prod.splits)
  obtain d where d: "derive_spend drv spends custody = Ok d"
    "approved a = \<lparr>az_coin_spends = spends, az_summary = ds_summary d, az_scope = pa_scope g\<rparr>"
    "fst (authorize_op drv clk spends op g) = Ok (Approved a) \<or>
     provider \<lparr>rq_account = acc, rq_profile = shown_ix, rq_summary = ds_summary d\<rparr> = Ok Approve"
    using obtained_spends [OF assms(3)] g(1) by auto
  note s = signed_spends [OF assms(4), unfolded d(2), simplified]
  have "ms_profile m = ix" using s(2) g(2) by (simp add: custody_scope_new_def)
  moreover have "pa_hot_wallet g0 = sg_puzzle_hash core (ms_profile m)" if "custody = HotCustody hot" for hot
    using s(3) g(2) that by (simp add: custody_scope_new_def)
  ultimately show ?thesis using s(1,4) d(1,3) hot by auto
qed

definition sample_core :: "(unit, unit, unit, string) signing_core" where
  "sample_core =
     \<lparr>sg_puzzle_hash = (\<lambda>_. 9), sg_build = (\<lambda>_. Ok ()), sg_required = (\<lambda>_ _. Ok ()),
      sg_reviewable = (\<lambda>_ _. Ok ()), sg_sign = (\<lambda>_ spends _ _. Ok (spends, ''sig''))\<rparr>"

theorem signature_has_authority_witness:
  "\<exists>k rq rv. sg_sign sample_core k [sample_spend] rq rv = Ok ([sample_spend], ''sig'')"
proof -
  let ?a = "approval_new [sample_spend] (sample_summary AutoSend)
      (custody_scope_new (ProfileIx 0) hot800 9)"
  have o: "obtained sample_driver (\<lambda>_. Ok 100) [sample_spend] Tip (sample_gate hot800)
      (\<lambda>_. Err Locked) (AccountId ''a'') (ProfileIx 0) ?a"
    by (simp add: obtained_def sample_approved)
  have s: "sign_approved sample_core 5 residency_new \<lparr>ms_profile = ProfileIx 0\<rparr> ?a =
      Ok ([sample_spend], ''sig'')"
    by (simp add: sign_approved_def live_signer_def residency_is_live_def residency_new_def
          sample_core_def assert_signable_by_def custody_scope_new_def approval_new_def)
  show ?thesis using signature_has_authority [OF sample_gate_new same_gate_refl o s] by blast
qed

end
