(* ===== verification/Coin_Reservation.thy ===== *)
theory Coin_Reservation
  imports Custody_Policy
begin

text \<open>
  In-flight coin reservation (\<open>src/wallet/reservation.rs\<close>): the store seam, the in-process
  store, and the acquisition loop that selects and reserves as one step.

  A store is a record of operations on a state \<open>'s\<close>, since the crate takes it as a trait.
  \<open>LocalReservations\<close> is the crate's own instance: its table sits behind a mutex held across
  each operation, so an operation is one step here, and a poisoned mutex is a flag. Other callers
  may use the store between two operations of one acquisition: \<open>env k\<close> is what they do to it
  before its \<open>k\<close>-th call. The clock is read at each call, so its answers are indexed too.
\<close>

section \<open>The seam\<close>

definition DEFAULT_RESERVATION_TTL_SECS :: u64 where
  "DEFAULT_RESERVATION_TTL_SECS = 300"

datatype reservation_id = ReservationId (reservation_u64: u64)

datatype reservation_error = Conflict bytes32 | Unavailable string

record 's reservation_store =
  st_held :: "u64 \<Rightarrow> 's \<Rightarrow> (bytes32 list, reservation_error) result \<times> 's"
  st_reserve_all ::
    "bytes32 list \<Rightarrow> u64 \<Rightarrow> u64 \<Rightarrow> 's \<Rightarrow> (reservation_id, reservation_error) result \<times> 's"
  st_release :: "reservation_id \<Rightarrow> 's \<Rightarrow> (unit, reservation_error) result \<times> 's"

section \<open>The in-process store\<close>

record entry =
  e_coins :: "bytes32 list"
  e_expires_at :: u64

text \<open>The hash map: at most one entry per key, in no particular order.\<close>

record local_reservations =
  lr_entries :: "(u64 \<times> entry) list"
  lr_next_id :: u64
  lr_poisoned :: bool

definition local_new :: local_reservations where
  "local_new = \<lparr>lr_entries = [], lr_next_id = 0, lr_poisoned = False\<rparr>"

definition expire :: "u64 \<Rightarrow> (u64 \<times> entry) list \<Rightarrow> (u64 \<times> entry) list" where
  "expire now es = filter (\<lambda>(_, e). now \<le> e_expires_at e) es"

definition held_coins :: "(u64 \<times> entry) list \<Rightarrow> bytes32 list" where
  "held_coins es = concat (map (e_coins \<circ> snd) es)"

definition map_insert :: "u64 \<Rightarrow> entry \<Rightarrow> (u64 \<times> entry) list \<Rightarrow> (u64 \<times> entry) list" where
  "map_insert k e es = (k, e) # filter (\<lambda>(k', _). k' \<noteq> k) es"

abbreviation table_poisoned :: reservation_error where
  "table_poisoned \<equiv>
     Unavailable ''the in-process reservation table was left in an unknown state by a panic''"

definition local_held ::
  "u64 \<Rightarrow> local_reservations \<Rightarrow> (bytes32 list, reservation_error) result \<times> local_reservations" where
  "local_held now s =
     (if lr_poisoned s then (Err table_poisoned, s)
      else let es = expire now (lr_entries s) in (Ok (held_coins es), s\<lparr>lr_entries := es\<rparr>))"

definition local_reserve_all ::
  "bytes32 list \<Rightarrow> u64 \<Rightarrow> u64 \<Rightarrow> local_reservations \<Rightarrow>
     (reservation_id, reservation_error) result \<times> local_reservations"
where
  "local_reserve_all coins now expires s =
     (if lr_poisoned s then (Err table_poisoned, s)
      else
        let es = expire now (lr_entries s); s1 = s\<lparr>lr_entries := es\<rparr> in
        if coins = []
        then (Ok (ReservationId (lr_next_id s1)), s1\<lparr>lr_next_id := lr_next_id s1 + 1\<rparr>)
        else case find (\<lambda>c. c \<in> set (held_coins es)) coins of
          Some clash \<Rightarrow> (Err (Conflict clash), s1)
        | None \<Rightarrow>
            (let i = lr_next_id s1
             in (Ok (ReservationId i),
                 s1\<lparr>lr_next_id := i + 1,
                    lr_entries := map_insert i \<lparr>e_coins = coins, e_expires_at = expires\<rparr> es\<rparr>)))"

definition local_release ::
  "reservation_id \<Rightarrow> local_reservations \<Rightarrow> (unit, reservation_error) result \<times> local_reservations" where
  "local_release i s =
     (if lr_poisoned s then (Err table_poisoned, s)
      else (Ok (), s\<lparr>lr_entries := filter (\<lambda>(k, _). k \<noteq> reservation_u64 i) (lr_entries s)\<rparr>))"

definition local_store :: "local_reservations reservation_store" where
  "local_store =
     \<lparr>st_held = local_held, st_reserve_all = local_reserve_all, st_release = local_release\<rparr>"

section \<open>A store bound to a clock and a lifetime\<close>

record 's coin_reservations =
  rv_store :: "'s reservation_store"
  rv_clock :: "nat \<Rightarrow> (u64, string) result"
  rv_ttl :: u64

definition reservations_new ::
  "'s reservation_store \<Rightarrow> (nat \<Rightarrow> (u64, string) result) \<Rightarrow> 's coin_reservations" where
  "reservations_new store clk =
     \<lparr>rv_store = store, rv_clock = clk, rv_ttl = DEFAULT_RESERVATION_TTL_SECS\<rparr>"

definition reservations_with_ttl ::
  "'s reservation_store \<Rightarrow> (nat \<Rightarrow> (u64, string) result) \<Rightarrow> u64 \<Rightarrow>
     ('s coin_reservations, reservation_error) result"
where
  "reservations_with_ttl store clk ttl =
     (if ttl = 0
      then Err (Unavailable ''a reservation TTL of zero would lapse before the spend it guards'')
      else Ok \<lparr>rv_store = store, rv_clock = clk, rv_ttl = ttl\<rparr>)"

definition reservations_now :: "'s coin_reservations \<Rightarrow> nat \<Rightarrow> (u64, reservation_error) result" where
  "reservations_now rv k =
     map_err (\<lambda>e. Unavailable (''the clock could not be read: '' @ e)) (rv_clock rv k)"

definition reservations_held ::
  "'s coin_reservations \<Rightarrow> nat \<Rightarrow> 's \<Rightarrow> (bytes32 list, reservation_error) result \<times> 's" where
  "reservations_held rv k s =
     (case reservations_now rv k of
        Err e \<Rightarrow> (Err e, s)
      | Ok now \<Rightarrow> st_held (rv_store rv) now s)"

definition reservations_reserve ::
  "'s coin_reservations \<Rightarrow> nat \<Rightarrow> bytes32 list \<Rightarrow> 's \<Rightarrow>
     (reservation_id, reservation_error) result \<times> 's"
where
  "reservations_reserve rv k coins s =
     (case reservations_now rv k of
        Err e \<Rightarrow> (Err e, s)
      | Ok now \<Rightarrow> st_reserve_all (rv_store rv) coins now (saturating_add now (rv_ttl rv)) s)"

definition reservations_release ::
  "'s coin_reservations \<Rightarrow> reservation_id \<Rightarrow> 's \<Rightarrow> (unit, reservation_error) result \<times> 's" where
  "reservations_release rv i s = st_release (rv_store rv) i s"

section \<open>The guard\<close>

text \<open>
  \<open>HeldCoins\<close> releases on drop unless committed: the value is the id, and what becomes of it is
  which of these two the operation that took it ends with.
\<close>

definition held_commit :: "reservation_id \<Rightarrow> 's \<Rightarrow> reservation_id \<times> 's" where
  "held_commit i s = (i, s)"

definition held_drop :: "'s coin_reservations \<Rightarrow> reservation_id \<Rightarrow> 's \<Rightarrow> 's" where
  "held_drop rv i s = snd (reservations_release rv i s)"

section \<open>Select and reserve\<close>

text \<open>
  \<open>sel t excluded\<close> runs the selection rule with \<open>t\<close> chain reads made so far, and returns
  the choice with the ids to reserve and the reads made after. The loop's bound is its fuel:
  \<open>attempts.max(1)\<close> iterations.
\<close>

fun acquire ::
  "'s coin_reservations \<Rightarrow> (nat \<Rightarrow> 's \<Rightarrow> 's) \<Rightarrow>
     (nat \<Rightarrow> bytes32 list \<Rightarrow> ('a \<times> bytes32 list, 'e) result \<times> nat) \<Rightarrow> (reservation_error \<Rightarrow> 'e) \<Rightarrow>
     nat \<Rightarrow> nat \<Rightarrow> bytes32 list \<Rightarrow> nat \<Rightarrow> 's \<Rightarrow> ('a \<times> reservation_id, 'e) result \<times> nat \<times> 's"
where
  "acquire rv env sel unusable 0 k excluded t s =
     (Err (unusable (Unavailable
        ''coin selection kept losing its reservation to another in-flight spend'')), t, s)"
| "acquire rv env sel unusable (Suc n) k excluded t s =
     (case sel t excluded of
        (Err e, t') \<Rightarrow> (Err e, t', s)
      | (Ok (chosen, ids), t') \<Rightarrow>
          (case reservations_reserve rv k ids (env k s) of
             (Ok i, s') \<Rightarrow> (Ok (chosen, i), t', s')
           | (Err (Conflict c), s') \<Rightarrow> acquire rv env sel unusable n (Suc k) (c # excluded) t' s'
           | (Err (Unavailable m), s') \<Rightarrow> (Err (unusable (Unavailable m)), t', s')))"

definition select_and_reserve ::
  "'s coin_reservations \<Rightarrow> (nat \<Rightarrow> 's \<Rightarrow> 's) \<Rightarrow> nat \<Rightarrow>
     (nat \<Rightarrow> bytes32 list \<Rightarrow> ('a \<times> bytes32 list, 'e) result \<times> nat) \<Rightarrow> (reservation_error \<Rightarrow> 'e) \<Rightarrow>
     nat \<Rightarrow> 's \<Rightarrow> ('a \<times> reservation_id, 'e) result \<times> nat \<times> 's"
where
  "select_and_reserve rv env attempts sel unusable t s =
     (case reservations_held rv 0 (env 0 s) of
        (Err e, s') \<Rightarrow> (Err (unusable e), t, s')
      | (Ok excluded, s') \<Rightarrow> acquire rv env sel unusable (max 1 attempts) 1 excluded t s')"

section \<open>What a store promises\<close>

text \<open>
  The contract of \<open>CoinReservationStore\<close>, over the reservations a state holds: handle, coins,
  expiry. Expiry is inclusive.
\<close>

type_synonym reservation = "u64 \<times> bytes32 list \<times> u64"

definition live_at :: "u64 \<Rightarrow> reservation set \<Rightarrow> reservation set" where
  "live_at now R = {r \<in> R. now \<le> snd (snd r)}"

definition coins_in :: "reservation set \<Rightarrow> bytes32 set" where
  "coins_in R = (\<Union>r\<in>R. set (fst (snd r)))"

text \<open>No coin is in two reservations.\<close>

definition exclusive :: "reservation set \<Rightarrow> bool" where
  "exclusive R \<longleftrightarrow>
     (\<forall>r\<in>R. \<forall>r'\<in>R. r \<noteq> r' \<longrightarrow> set (fst (snd r)) \<inter> set (fst (snd r')) = {})"

lemma exclusive_subset: "exclusive R \<Longrightarrow> S \<subseteq> R \<Longrightarrow> exclusive S"
  unfolding exclusive_def by blast

lemma exclusive_insert:
  "exclusive R \<Longrightarrow> set cs \<inter> coins_in R = {} \<Longrightarrow> exclusive (insert (i, cs, e) R)"
  by (fastforce simp: exclusive_def coins_in_def)

lemma live_at_subset: "live_at now R \<subseteq> R"
  by (auto simp: live_at_def)

text \<open>
  What a successful acquisition leaves: the choice came from a run of the rule told to avoid at
  least \<open>excluded\<close>, and the one reservation added is its own, over exactly the ids it chose.
\<close>

definition acquired ::
  "('s \<Rightarrow> reservation set) \<Rightarrow> u64 \<Rightarrow> (nat \<Rightarrow> bytes32 list \<Rightarrow> ('a \<times> bytes32 list, 'e) result \<times> nat) \<Rightarrow>
     bytes32 list \<Rightarrow> 's \<Rightarrow> 's \<Rightarrow> 'a \<Rightarrow> reservation_id \<Rightarrow> bool"
where
  "acquired reserved ttl sel excluded s s' chosen j \<longleftrightarrow>
     (\<exists>ids t0 ex now. fst (sel t0 ex) = Ok (chosen, ids) \<and> set excluded \<subseteq> set ex \<and>
        reserved s' \<subseteq> insert (reservation_u64 j, ids, saturating_add now ttl) (reserved s) \<and>
        (ids \<noteq> [] \<longrightarrow> (reservation_u64 j, ids, saturating_add now ttl) \<in> reserved s'))"

locale coin_reservation_store =
  fixes store :: "'s reservation_store"
    and reserved :: "'s \<Rightarrow> reservation set"
  assumes held_ok:
      "st_held store now s = (Ok cs, s') \<Longrightarrow>
         set cs = coins_in (live_at now (reserved s)) \<and> reserved s' = live_at now (reserved s)"
    and held_err: "st_held store now s = (Err e, s') \<Longrightarrow> reserved s' = reserved s"
    and reserve_ok:
      "st_reserve_all store coins now expires s = (Ok (ReservationId i), s') \<Longrightarrow>
         set coins \<inter> coins_in (live_at now (reserved s)) = {} \<and>
         reserved s' \<subseteq> insert (i, coins, expires) (live_at now (reserved s)) \<and>
         (coins \<noteq> [] \<longrightarrow> (i, coins, expires) \<in> reserved s')"
    and reserve_conflict:
      "st_reserve_all store coins now expires s = (Err (Conflict c), s') \<Longrightarrow>
         c \<in> set coins \<and> c \<in> coins_in (live_at now (reserved s)) \<and>
         reserved s' = live_at now (reserved s)"
    and reserve_unavailable:
      "st_reserve_all store coins now expires s = (Err (Unavailable m), s') \<Longrightarrow>
         reserved s' = reserved s"
    and release_ok:
      "st_release store (ReservationId i) s = (Ok u, s') \<Longrightarrow>
         reserved s' = {r \<in> reserved s. fst r \<noteq> i}"
    and release_err: "st_release store j s = (Err e, s') \<Longrightarrow> reserved s' = reserved s"
begin

lemma reserve_keeps_exclusive:
  assumes "exclusive (reserved s)" and "st_reserve_all store coins now expires s = (res, s')"
  shows "exclusive (reserved s')"
proof (cases res)
  case (Ok j)
  obtain i where j: "j = ReservationId i" by (cases j)
  have "set coins \<inter> coins_in (live_at now (reserved s)) = {}"
    "reserved s' \<subseteq> insert (i, coins, expires) (live_at now (reserved s))"
    using reserve_ok assms(2) Ok j by auto
  then show ?thesis
    using exclusive_insert [OF exclusive_subset [OF assms(1) live_at_subset]] exclusive_subset
    by blast
next
  case (Err e)
  then show ?thesis
    using assms reserve_conflict reserve_unavailable exclusive_subset [OF assms(1) live_at_subset]
    by (cases e) auto
qed

lemma held_keeps_exclusive:
  "exclusive (reserved s) \<Longrightarrow> st_held store now s = (res, s') \<Longrightarrow> exclusive (reserved s')"
  using held_ok held_err exclusive_subset [OF _ live_at_subset] by (cases res) fastforce+

lemma release_keeps_exclusive:
  "exclusive (reserved s) \<Longrightarrow> st_release store j s = (res, s') \<Longrightarrow> exclusive (reserved s')"
  using release_ok release_err by (cases res; cases j) (auto elim!: exclusive_subset)

text \<open>A failed acquisition adds no reservation; a successful one adds exactly its own.\<close>

lemma reserve_frame:
  assumes rv: "rv_store rv = store"
    and "reservations_reserve rv k coins s = (res, s')"
  shows "case res of
      Err e \<Rightarrow> reserved s' \<subseteq> reserved s
    | Ok j \<Rightarrow> \<exists>now. rv_clock rv k = Ok now \<and>
        reserved s' \<subseteq> insert (reservation_u64 j, coins, saturating_add now (rv_ttl rv)) (reserved s) \<and>
        set coins \<inter> coins_in (live_at now (reserved s)) = {} \<and>
        (coins \<noteq> [] \<longrightarrow>
           (reservation_u64 j, coins, saturating_add now (rv_ttl rv)) \<in> reserved s')"
proof (cases "rv_clock rv k")
  case (Err e)
  then show ?thesis using assms by (auto simp: reservations_reserve_def reservations_now_def)
next
  case (Ok now)
  then have r: "st_reserve_all store coins now (saturating_add now (rv_ttl rv)) s = (res, s')"
    using assms by (simp add: reservations_reserve_def reservations_now_def)
  show ?thesis
  proof (cases res)
    case res: (Ok j)
    obtain i where j: "j = ReservationId i" by (cases j)
    show ?thesis
      using reserve_ok [OF r [unfolded res j]] Ok res j live_at_subset [of now "reserved s"] by auto
  next
    case (Err e)
    then show ?thesis
      using r reserve_conflict reserve_unavailable live_at_subset [of now "reserved s"]
      by (cases e) auto
  qed
qed

lemma acquired_weaken:
  assumes "acquired reserved (rv_ttl rv) sel ex1 s1 s' chosen j" and "set ex0 \<subseteq> set ex1" and "reserved s1 \<subseteq> reserved s0"
  shows "acquired reserved (rv_ttl rv) sel ex0 s0 s' chosen j"
  using assms unfolding acquired_def by blast

lemma acquire_frame:
  assumes rv: "rv_store rv = store" and quiet: "\<And>k s. reserved (env k s) \<subseteq> reserved s"
    and "acquire rv env sel unusable n k excluded t s = (res, t', s')"
  shows "(\<forall>e. res = Err e \<longrightarrow> reserved s' \<subseteq> reserved s) \<and>
    (\<forall>chosen j. res = Ok (chosen, j) \<longrightarrow> acquired reserved (rv_ttl rv) sel excluded s s' chosen j)"
  using assms(3)
proof (induction n arbitrary: k excluded t s)
  case 0
  then show ?case by auto
next
  case (Suc n)
  obtain sr t1 where sel: "sel t excluded = (sr, t1)" by fastforce
  show ?case
  proof (cases sr)
    case (Err e)
    then show ?thesis using Suc.prems sel by auto
  next
    case (Ok ci)
    obtain chosen ids where ci: "ci = (chosen, ids)" by fastforce
    obtain rr s1 where r: "reservations_reserve rv k ids (env k s) = (rr, s1)" by fastforce
    note frame = reserve_frame [OF rv r]
    show ?thesis
    proof (cases rr)
      case rr: (Ok j)
      then have res: "res = Ok (chosen, j)" "s' = s1" using Suc.prems sel Ok ci r by auto
      have "fst (sel t excluded) = Ok (chosen, ids)" using sel Ok ci by simp
      then have "acquired reserved (rv_ttl rv) sel excluded (env k s) s' chosen j"
        using frame unfolding acquired_def rr res(2)
        by (intro exI [of _ ids] exI [of _ t] exI [of _ excluded]) auto
      then have "acquired reserved (rv_ttl rv) sel excluded s s' chosen j"
        by (rule acquired_weaken [OF _ subset_refl quiet])
      then show ?thesis using res by simp
    next
      case rr: (Err e)
      then have s1: "reserved s1 \<subseteq> reserved s" using frame quiet [of k s] by auto
      show ?thesis
      proof (cases e)
        case (Unavailable m)
        then have "res = Err (unusable (Unavailable m))" "s' = s1"
          using Suc.prems sel Ok ci r rr by auto
        then show ?thesis using s1 by simp
      next
        case (Conflict c)
        then have rest: "acquire rv env sel unusable n (Suc k) (c # excluded) t1 s1 = (res, t', s')"
          using Suc.prems sel Ok ci r rr by auto
        have sub: "set excluded \<subseteq> set (c # excluded)" by auto
        note IH = Suc.IH [OF rest]
        show ?thesis
        proof (intro conjI allI impI)
          fix e
          assume "res = Err e"
          then show "reserved s' \<subseteq> reserved s" using IH s1 by auto
        next
          fix chosen j
          assume "res = Ok (chosen, j)"
          then have "acquired reserved (rv_ttl rv) sel (c # excluded) s1 s' chosen j" using IH by auto
          then show "acquired reserved (rv_ttl rv) sel excluded s s' chosen j"
            by (rule acquired_weaken [OF _ sub s1])
        qed
      qed
    qed
  qed
qed

text \<open>Whatever others do to the store between the calls, as long as they use its operations.\<close>

lemma acquire_exclusive:
  assumes rv: "rv_store rv = store"
    and others: "\<And>k s. exclusive (reserved s) \<Longrightarrow> exclusive (reserved (env k s))"
    and "exclusive (reserved s)"
    and "acquire rv env sel unusable n k excluded t s = (res, t', s')"
  shows "exclusive (reserved s')"
  using assms(3,4)
proof (induction n arbitrary: k excluded t s)
  case 0
  then show ?case by simp
next
  case (Suc n)
  obtain sr t1 where sel: "sel t excluded = (sr, t1)" by fastforce
  show ?case
  proof (cases sr)
    case (Err e)
    then show ?thesis using Suc.prems sel by auto
  next
    case (Ok ci)
    obtain chosen ids where ci: "ci = (chosen, ids)" by fastforce
    obtain rr s1 where r: "reservations_reserve rv k ids (env k s) = (rr, s1)" by fastforce
    have ex: "exclusive (reserved s1)"
    proof (cases "reservations_now rv k")
      case (Err e)
      then show ?thesis
        using r others [OF Suc.prems(1), of k] by (auto simp: reservations_reserve_def)
    next
      case (Ok now)
      then have "st_reserve_all store ids now (saturating_add now (rv_ttl rv)) (env k s) = (rr, s1)"
        using r rv by (simp add: reservations_reserve_def)
      then show ?thesis by (rule reserve_keeps_exclusive [OF others [OF Suc.prems(1)]])
    qed
    show ?thesis
    proof (cases "\<exists>c. rr = Err (Conflict c)")
      case True
      then obtain c where "acquire rv env sel unusable n (Suc k) (c # excluded) t1 s1 = (res, t', s')"
        using Suc.prems(2) sel Ok ci r by auto
      then show ?thesis using Suc.IH ex by blast
    next
      case False
      then have "s' = s1"
        using Suc.prems(2) sel Ok ci r by (auto split: result.splits reservation_error.splits)
      then show ?thesis using ex by simp
    qed
  qed
qed

lemma acquire_grants:
  assumes rv: "rv_store rv = store"
    and "acquire rv env sel unusable n k excluded t s = (Ok (chosen, j), t', s')"
  shows "\<exists>ids t0 ex now. fst (sel t0 ex) = Ok (chosen, ids) \<and> set excluded \<subseteq> set ex \<and>
    (ids \<noteq> [] \<longrightarrow> (reservation_u64 j, ids, saturating_add now (rv_ttl rv)) \<in> reserved s')"
  using assms(2)
proof (induction n arbitrary: k excluded t s)
  case 0
  then show ?case by simp
next
  case (Suc n)
  obtain ch ids t1 where sel: "sel t excluded = (Ok (ch, ids), t1)"
    using Suc.prems by (cases "sel t excluded") (auto split: result.splits)
  obtain rr s1 where r: "reservations_reserve rv k ids (env k s) = (rr, s1)" by fastforce
  show ?case
  proof (cases "\<exists>c. rr = Err (Conflict c)")
    case True
    then obtain c where
      "acquire rv env sel unusable n (Suc k) (c # excluded) t1 s1 = (Ok (chosen, j), t', s')"
      using Suc.prems sel r by auto
    from Suc.IH [OF this] show ?thesis by auto
  next
    case False
    then have "rr = Ok j" "ch = chosen" "s1 = s'"
      using Suc.prems sel r by (auto split: result.splits reservation_error.splits)
    then show ?thesis
      using reserve_frame [OF rv r] sel by (intro exI [of _ ids] exI [of _ t] exI [of _ excluded]) auto
  qed
qed

lemma held_read:
  assumes "rv_store rv = store" and "reservations_held rv k s = (res, s')"
  shows "reserved s' \<subseteq> reserved s \<and> (exclusive (reserved s) \<longrightarrow> exclusive (reserved s')) \<and>
    (\<forall>cs. res = Ok cs \<longrightarrow>
       (\<exists>now. rv_clock rv k = Ok now \<and> set cs = coins_in (live_at now (reserved s))))"
proof (cases "rv_clock rv k")
  case (Err e)
  then show ?thesis using assms by (auto simp: reservations_held_def reservations_now_def)
next
  case (Ok now)
  then have h: "st_held store now s = (res, s')"
    using assms by (simp add: reservations_held_def reservations_now_def)
  show ?thesis
    using held_ok [of now s] held_err [of now s] h Ok live_at_subset [of now "reserved s"]
      held_keeps_exclusive [OF _ h]
    by (cases res) auto
qed

lemma select_exclusive:
  assumes rv: "rv_store rv = store"
    and others: "\<And>k s. exclusive (reserved s) \<Longrightarrow> exclusive (reserved (env k s))"
    and "exclusive (reserved s)"
    and "select_and_reserve rv env attempts sel unusable t s = (res, t', s')"
  shows "exclusive (reserved s')"
proof -
  obtain hr s1 where h: "reservations_held rv 0 (env 0 s) = (hr, s1)" by fastforce
  have "exclusive (reserved s1)" using held_read [OF rv h] others assms(3) by blast
  then show ?thesis
    using assms(4) h acquire_exclusive [OF rv, of env] others
    by (cases hr) (auto simp: select_and_reserve_def)
qed

lemma select_frame:
  assumes rv: "rv_store rv = store" and quiet: "\<And>k s. reserved (env k s) \<subseteq> reserved s"
    and "select_and_reserve rv env attempts sel unusable t s = (res, t', s')"
  shows "(\<forall>e. res = Err e \<longrightarrow> reserved s' \<subseteq> reserved s) \<and>
    (\<forall>chosen j. res = Ok (chosen, j) \<longrightarrow>
       (\<exists>now excluded. rv_clock rv 0 = Ok now \<and>
          set excluded = coins_in (live_at now (reserved (env 0 s))) \<and>
          acquired reserved (rv_ttl rv) sel excluded s s' chosen j))"
proof -
  obtain hr s1 where h: "reservations_held rv 0 (env 0 s) = (hr, s1)" by fastforce
  have sub: "reserved s1 \<subseteq> reserved s" using held_read [OF rv h] quiet by blast
  show ?thesis
  proof (cases hr)
    case (Err e)
    then show ?thesis using sub h assms(3) by (auto simp: select_and_reserve_def)
  next
    case (Ok ex)
    then have a: "acquire rv env sel unusable (max 1 attempts) 1 ex t s1 = (res, t', s')"
      using h assms(3) by (simp add: select_and_reserve_def)
    note frame = acquire_frame [OF rv quiet a]
    obtain now where "rv_clock rv 0 = Ok now" "set ex = coins_in (live_at now (reserved (env 0 s)))"
      using held_read [OF rv h] Ok by blast
    note held = this
    have own: "acquired reserved (rv_ttl rv) sel ex s s' chosen j" if "res = Ok (chosen, j)"
      for chosen j
    proof -
      have "acquired reserved (rv_ttl rv) sel ex s1 s' chosen j" using frame that by simp
      then show ?thesis by (rule acquired_weaken [OF _ subset_refl sub])
    qed
    show ?thesis
    proof (intro conjI allI impI)
      fix e
      assume "res = Err e"
      then show "reserved s' \<subseteq> reserved s" using frame sub by auto
    next
      fix chosen j
      assume "res = Ok (chosen, j)"
      from own [OF this] held
      show "\<exists>now excluded. rv_clock rv 0 = Ok now \<and>
          set excluded = coins_in (live_at now (reserved (env 0 s))) \<and>
          acquired reserved (rv_ttl rv) sel excluded s s' chosen j"
        by (intro exI conjI)
    qed
  qed
qed

lemma select_grants:
  assumes rv: "rv_store rv = store"
    and "select_and_reserve rv env attempts sel unusable t s = (Ok (chosen, j), t', s')"
  shows "\<exists>ids t0 ex now0 now. fst (sel t0 ex) = Ok (chosen, ids) \<and> rv_clock rv 0 = Ok now0 \<and>
    coins_in (live_at now0 (reserved (env 0 s))) \<subseteq> set ex \<and>
    (ids \<noteq> [] \<longrightarrow> (reservation_u64 j, ids, saturating_add now (rv_ttl rv)) \<in> reserved s')"
proof -
  obtain hr s1 where h: "reservations_held rv 0 (env 0 s) = (hr, s1)" by fastforce
  obtain ex where hr: "hr = Ok ex" using assms(2) h by (cases hr) (auto simp: select_and_reserve_def)
  then have a: "acquire rv env sel unusable (max 1 attempts) 1 ex t s1 = (Ok (chosen, j), t', s')"
    using h assms(2) by (simp add: select_and_reserve_def)
  obtain now0 where now0: "rv_clock rv 0 = Ok now0"
    "set ex = coins_in (live_at now0 (reserved (env 0 s)))"
    using held_read [OF rv h] hr by blast
  obtain ids t0 ex' now where "fst (sel t0 ex') = Ok (chosen, ids)" "set ex \<subseteq> set ex'"
    "ids \<noteq> [] \<longrightarrow> (reservation_u64 j, ids, saturating_add now (rv_ttl rv)) \<in> reserved s'"
    using acquire_grants [OF rv a] by auto
  then show ?thesis using now0 by metis
qed

text \<open>Undisturbed, and on a clock that does not run backwards, a rule that keeps to what it was told
  to avoid wins its first attempt.\<close>

lemma acquire_first_attempt:
  assumes rv: "rv_store rv = store" and n: "0 < n"
    and sel: "sel t excluded = (Ok (chosen, ids), t1)"
    and avoids: "set ids \<inter> set excluded = {}"
    and held: "coins_in (reserved s) \<subseteq> set excluded"
    and clk: "rv_clock rv k = Ok now"
    and up: "\<And>m. fst (st_reserve_all store ids now (saturating_add now (rv_ttl rv)) s) \<noteq> Err (Unavailable m)"
  shows "\<exists>j s'. acquire rv (\<lambda>_ s. s) sel unusable n k excluded t s = (Ok (chosen, j), t1, s')"
proof -
  obtain rr s' where r: "st_reserve_all store ids now (saturating_add now (rv_ttl rv)) s = (rr, s')"
    by fastforce
  have "rr \<noteq> Err (Conflict c)" for c
  proof
    assume "rr = Err (Conflict c)"
    then have "c \<in> set ids" "c \<in> coins_in (live_at now (reserved s))"
      using reserve_conflict r by auto
    then have "c \<in> coins_in (reserved s)"
      using live_at_subset [of now "reserved s"] unfolding coins_in_def by blast
    then show False using \<open>c \<in> set ids\<close> avoids held by blast
  qed
  moreover have "rr \<noteq> Err (Unavailable m)" for m using up r by simp
  ultimately obtain j where "rr = Ok j" by (cases rr) (metis reservation_error.exhaust)+
  moreover obtain m where "n = Suc m" using n by (cases n) auto
  ultimately show ?thesis
    using sel r rv clk by (simp add: reservations_reserve_def reservations_now_def)
qed

end

abbreviation local_reserved :: "local_reservations \<Rightarrow> reservation set" where
  "local_reserved s \<equiv> (\<lambda>(k, e). (k, e_coins e, e_expires_at e)) ` set (lr_entries s)"

lemma local_live:
  "(\<lambda>(k, e). (k, e_coins e, e_expires_at e)) ` set (expire now es) =
     live_at now ((\<lambda>(k, e). (k, e_coins e, e_expires_at e)) ` set es)"
  by (auto simp: live_at_def expire_def image_iff split: prod.splits)

lemma held_coins_in:
  "set (held_coins es) = coins_in ((\<lambda>(k, e). (k, e_coins e, e_expires_at e)) ` set es)"
  by (auto simp: held_coins_def coins_in_def)

interpretation local_table: coin_reservation_store local_store local_reserved
proof
  fix now s cs s'
  assume "st_held local_store now s = (Ok cs, s')"
  then show "set cs = coins_in (live_at now (local_reserved s)) \<and>
      local_reserved s' = live_at now (local_reserved s)"
    unfolding local_live [symmetric] held_coins_in [symmetric]
    by (auto simp: local_store_def local_held_def Let_def split: if_splits)
next
  fix now s e s'
  assume "st_held local_store now s = (Err e, s')"
  then show "local_reserved s' = local_reserved s"
    by (auto simp: local_store_def local_held_def Let_def split: if_splits)
next
  fix coins now expires s i s'
  assume "st_reserve_all local_store coins now expires s = (Ok (ReservationId i), s')"
  then show "set coins \<inter> coins_in (live_at now (local_reserved s)) = {} \<and>
      local_reserved s' \<subseteq> insert (i, coins, expires) (live_at now (local_reserved s)) \<and>
      (coins \<noteq> [] \<longrightarrow> (i, coins, expires) \<in> local_reserved s')"
    unfolding local_live [symmetric] held_coins_in [symmetric]
    by (auto simp: local_store_def local_reserve_all_def Let_def map_insert_def find_None_iff
        split: if_splits option.splits)
next
  fix coins now expires s c s'
  assume "st_reserve_all local_store coins now expires s = (Err (Conflict c), s')"
  then show "c \<in> set coins \<and> c \<in> coins_in (live_at now (local_reserved s)) \<and>
      local_reserved s' = live_at now (local_reserved s)"
    unfolding local_live [symmetric] held_coins_in [symmetric]
    by (auto simp: local_store_def local_reserve_all_def Let_def find_Some_iff
        split: if_splits option.splits)
next
  fix coins now expires s m s'
  assume "st_reserve_all local_store coins now expires s = (Err (Unavailable m), s')"
  then show "local_reserved s' = local_reserved s"
    by (auto simp: local_store_def local_reserve_all_def Let_def split: if_splits option.splits)
next
  fix i s u s'
  assume "st_release local_store (ReservationId i) s = (Ok u, s')"
  then show "local_reserved s' = {r \<in> local_reserved s. fst r \<noteq> i}"
    by (force simp: local_store_def local_release_def split: if_splits)
next
  fix j s e s'
  assume "st_release local_store j s = (Err e, s')"
  then show "local_reserved s' = local_reserved s"
    by (auto simp: local_store_def local_release_def split: if_splits)
qed

section \<open>Sequences of calls\<close>

datatype store_call = CallHeld u64 | CallReserve "bytes32 list" u64 u64 | CallRelease reservation_id

fun local_call :: "store_call \<Rightarrow> local_reservations \<Rightarrow> local_reservations" where
  "local_call (CallHeld now) s = snd (local_held now s)"
| "local_call (CallReserve coins now expires) s = snd (local_reserve_all coins now expires s)"
| "local_call (CallRelease i) s = snd (local_release i s)"

text \<open>The call leaves the reservation alone: it reads no clock past its expiry, nor releases it.\<close>

fun spares :: "u64 \<Rightarrow> u64 \<Rightarrow> store_call \<Rightarrow> bool" where
  "spares i e (CallHeld now) \<longleftrightarrow> now \<le> e"
| "spares i e (CallReserve coins now expires) \<longleftrightarrow> now \<le> e"
| "spares i e (CallRelease j) \<longleftrightarrow> reservation_u64 j \<noteq> i"

lemma local_call_exclusive:
  "exclusive (local_reserved s) \<Longrightarrow> exclusive (local_reserved (local_call c s))"
proof (cases c)
  case (CallHeld now)
  then show "exclusive (local_reserved s) \<Longrightarrow> ?thesis"
    using local_table.held_keeps_exclusive [OF _ surjective_pairing, of s now] by (simp add: local_store_def)
next
  case (CallReserve coins now expires)
  then show "exclusive (local_reserved s) \<Longrightarrow> ?thesis"
    using local_table.reserve_keeps_exclusive [OF _ surjective_pairing, of s coins now expires]
    by (simp add: local_store_def)
next
  case (CallRelease j)
  then show "exclusive (local_reserved s) \<Longrightarrow> ?thesis"
    using local_table.release_keeps_exclusive [OF _ surjective_pairing, of s j] by (simp add: local_store_def)
qed

lemma fold_local_call_exclusive:
  "exclusive (local_reserved s) \<Longrightarrow> exclusive (local_reserved (fold local_call cs s))"
  by (induction cs arbitrary: s) (auto simp del: local_call.simps intro: local_call_exclusive)

text \<open>Handles are handed out in increasing order, so within the counter's range none is reused.\<close>

definition handles_below :: "nat \<Rightarrow> local_reservations \<Rightarrow> bool" where
  "handles_below b s \<longleftrightarrow> \<not> lr_poisoned s \<and> unat (lr_next_id s) \<le> b \<and>
     (\<forall>k \<in> fst ` set (lr_entries s). k < lr_next_id s)"

lemma handles_below_call:
  assumes "handles_below b s" and "Suc b < 2 ^ 64"
  shows "handles_below (Suc b) (local_call c s)"
proof -
  have inc: "lr_next_id s < lr_next_id s + 1" "unat (lr_next_id s + 1) \<le> Suc b"
    using assms by (auto simp: handles_below_def word_less_nat_alt unat_word_ariths)
  show ?thesis
  proof (cases c)
    case (CallReserve coins now expires)
    show ?thesis
      using assms inc unfolding CallReserve
      by (fastforce simp: handles_below_def local_reserve_all_def Let_def expire_def map_insert_def
          split: option.split dest: less_trans)
  next
    case (CallHeld now)
    then show ?thesis
      using assms by (auto simp: handles_below_def local_held_def Let_def expire_def)
  next
    case (CallRelease i)
    then show ?thesis using assms by (auto simp: handles_below_def local_release_def)
  qed
qed

lemma handles_below_fold:
  "handles_below b s \<Longrightarrow> b + length cs < 2 ^ 64 \<Longrightarrow>
     handles_below (b + length cs) (fold local_call cs s)"
proof (induction cs arbitrary: s b)
  case Nil
  then show ?case by simp
next
  case (Cons c cs)
  have "handles_below (Suc b) (local_call c s)"
    using Cons.prems by (intro handles_below_call) auto
  then show ?case using Cons.IH [of "Suc b" "local_call c s"] Cons.prems by simp
qed

lemma spared_call:
  assumes "handles_below b s" and "(i, cs, e) \<in> local_reserved s" and "spares i e c"
  shows "(i, cs, e) \<in> local_reserved (local_call c s)"
proof -
  have ne: "i \<noteq> lr_next_id s" using assms(1,2) by (force simp: handles_below_def)
  show ?thesis
  proof (cases c)
    case (CallReserve coins now expires)
    then show ?thesis
      using assms ne
      by (force simp: handles_below_def local_reserve_all_def Let_def expire_def map_insert_def
          split: option.split)
  next
    case (CallHeld now)
    then show ?thesis
      using assms by (force simp: handles_below_def local_held_def Let_def expire_def)
  next
    case (CallRelease j)
    then show ?thesis using assms by (force simp: handles_below_def local_release_def)
  qed
qed

lemma spared_fold:
  "handles_below b s \<Longrightarrow> b + length calls < 2 ^ 64 \<Longrightarrow> (i, cs, e) \<in> local_reserved s \<Longrightarrow>
     list_all (spares i e) calls \<Longrightarrow> (i, cs, e) \<in> local_reserved (fold local_call calls s)"
proof (induction calls arbitrary: s b)
  case Nil
  then show ?case by simp
next
  case (Cons c calls)
  have "handles_below (Suc b) (local_call c s)"
    using Cons.prems by (intro handles_below_call) auto
  moreover have "(i, cs, e) \<in> local_reserved (local_call c s)"
    using spared_call [OF Cons.prems(1,3)] Cons.prems(4) by simp
  ultimately show ?case using Cons.IH [of "Suc b" "local_call c s"] Cons.prems by simp
qed

section \<open>Properties\<close>

definition live_table :: "u64 \<Rightarrow> local_reservations \<Rightarrow> reservation set" where
  "live_table now s = live_at now (local_reserved s)"

definition reservation_session :: "store_call list \<Rightarrow> local_reservations" where
  "reservation_session calls = fold local_call calls local_new"

lemma handles_below_session:
  "length calls < 2 ^ 64 \<Longrightarrow> handles_below (length calls) (reservation_session calls)"
  using handles_below_fold [of 0 local_new calls]
  by (simp add: reservation_session_def handles_below_def local_new_def)

lemma exclusive_session: "exclusive (local_reserved (reservation_session calls))"
  unfolding reservation_session_def
  by (rule fold_local_call_exclusive) (simp add: local_new_def exclusive_def)

text \<open>\<open>reserve_all\<close> takes every coin or none: it succeeds exactly when no requested coin is in
  a live reservation, and then adds exactly the one reservation asked for under a handle no live
  reservation has; otherwise it names a coin that was requested and is held, and the live table is
  what it was.\<close>

theorem reserve_is_all_or_nothing:
  assumes "\<not> lr_poisoned s" and "lr_next_id s \<notin> fst ` set (lr_entries s)"
  shows "if set coins \<inter> coins_in (live_table now s) = {}
    then \<exists>i s'. local_reserve_all coins now expires s = (Ok (ReservationId i), s') \<and>
           i \<notin> fst ` live_table now s \<and>
           local_reserved s' =
             (if coins = [] then live_table now s else insert (i, coins, expires) (live_table now s))
    else \<exists>c s'. local_reserve_all coins now expires s = (Err (Conflict c), s') \<and>
           c \<in> set coins \<and> c \<in> coins_in (live_table now s) \<and>
           local_reserved s' = live_table now s"
proof -
  define es where "es = expire now (lr_entries s)"
  have live: "live_table now s = (\<lambda>(k, e). (k, e_coins e, e_expires_at e)) ` set es"
    by (simp add: live_table_def es_def local_live)
  have held: "coins_in (live_table now s) = set (held_coins es)"
    by (simp add: live held_coins_in)
  have fresh: "lr_next_id s \<notin> fst ` set es"
    using assms(2) by (auto simp: es_def expire_def)
  then have keep: "filter (\<lambda>(k', _). k' \<noteq> lr_next_id s) es = es"
    by (intro filter_True) force
  have fresh': "lr_next_id s \<notin> fst ` live_table now s"
    using fresh by (force simp: live)
  show ?thesis
  proof (cases "find (\<lambda>c. c \<in> set (held_coins es)) coins")
    case None
    then have "set coins \<inter> coins_in (live_table now s) = {}"
      by (auto simp: held find_None_iff)
    then show ?thesis
      using None assms(1) fresh' keep
      by (simp add: local_reserve_all_def Let_def es_def [symmetric] map_insert_def live)
  next
    case (Some c)
    then have c: "c \<in> set coins" "c \<in> coins_in (live_table now s)"
      by (auto simp: held find_Some_iff)
    moreover have "coins \<noteq> []" using c by auto
    ultimately show ?thesis
      using Some assms(1)
      by (auto simp: local_reserve_all_def Let_def es_def [symmetric] live)
  qed
qed

theorem reserve_is_all_or_nothing_witness:
  "\<exists>s'. local_reserve_all [1, 7] 10 20
        \<lparr>lr_entries = [(0, \<lparr>e_coins = [7], e_expires_at = 15\<rparr>)], lr_next_id = 1, lr_poisoned = False\<rparr>
        = (Err (Conflict 7), s') \<and> local_reserved s' = {(0, [7], 15)}"
  using reserve_is_all_or_nothing
    [of "\<lparr>lr_entries = [(0, \<lparr>e_coins = [7], e_expires_at = 15\<rparr>)], lr_next_id = 1, lr_poisoned = False\<rparr>"
      "[1, 7]" 10 20]
  by (simp add: live_table_def live_at_def coins_in_def Collect_conv_if)

text \<open>Over any sequence of calls to the in-process store, by any number of callers, no coin is
  ever in two reservations.\<close>

theorem no_coin_is_held_twice:
  "exclusive (local_reserved (reservation_session calls))"
  by (rule exclusive_session)

text \<open>C10: A granted reservation keeps its coins: whatever calls follow, as long as none of them releases
  its handle, no clock read passes its expiry and handles have not run out, every attempt to reserve
  any of its coins is refused, up to and including the instant of expiry.\<close>

theorem reservation_guards_its_coins:
  assumes "Suc (length before + length after) < 2 ^ 64"
    and "local_reserve_all coins now expires (reservation_session before) = (Ok (ReservationId i), s)"
    and "list_all (spares i expires) after"
    and "c \<in> set coins" and "c \<in> set wanted" and "now' \<le> expires"
  shows "\<exists>d. fst (local_reserve_all wanted now' expires' (fold local_call after s)) = Err (Conflict d)"
proof -
  have hb: "handles_below (length before) (reservation_session before)"
    using assms(1) by (intro handles_below_session) simp
  have s: "s = local_call (CallReserve coins now expires) (reservation_session before)"
    using assms(2) by simp
  have hs: "handles_below (Suc (length before)) s"
    unfolding s using handles_below_call [OF hb, of "CallReserve coins now expires"] assms(1) by simp
  have "(i, coins, expires) \<in> local_reserved s"
    using local_table.reserve_ok [of coins now expires "reservation_session before" i s] assms(2,4)
    by (auto simp: local_store_def)
  then have held: "(i, coins, expires) \<in> local_reserved (fold local_call after s)"
    using spared_fold [OF hs _ _ assms(3)] assms(1) by simp
  define s2 where "s2 = fold local_call after s"
  have up: "\<not> lr_poisoned s2"
    using handles_below_fold [OF hs, of after] assms(1) by (simp add: s2_def handles_below_def)
  have "c \<in> coins_in (live_at now' (local_reserved s2))"
    using held assms(4,6) unfolding s2_def coins_in_def live_at_def by force
  then have "c \<in> set (held_coins (expire now' (lr_entries s2)))"
    by (simp add: held_coins_in local_live)
  then have "find (\<lambda>c. c \<in> set (held_coins (expire now' (lr_entries s2)))) wanted \<noteq> None"
    using assms(5) by (auto simp: find_None_iff)
  then obtain d where
    "find (\<lambda>c. c \<in> set (held_coins (expire now' (lr_entries s2)))) wanted = Some d"
    by blast
  moreover have "wanted \<noteq> []" using assms(5) by auto
  ultimately show ?thesis
    using up by (simp add: local_reserve_all_def Let_def s2_def)
qed

theorem reservation_guards_its_coins_witness:
  "\<exists>d. fst (local_reserve_all [7, 9] 310 600
     (fold local_call [CallHeld 300, CallReserve [8] 305 605, CallRelease (ReservationId 1)]
       (snd (local_reserve_all [6, 7] 10 310 (reservation_session []))))) = Err (Conflict d)"
  by (rule reservation_guards_its_coins
      [where before = "[]" and coins = "[6, 7]" and now = 10 and expires = 310 and i = 0 and c = 7])
    (simp_all add: reservation_session_def local_new_def local_reserve_all_def expire_def
      held_coins_def Let_def)

text \<open>C11: Select-and-reserve is one step: whatever calls other users of the table make between its
  own, a choice it returns is reserved to it under the handle it returns, was made by the selection
  rule told to avoid every coin then held, and shares no coin with any other reservation.\<close>

theorem selection_is_reserved_exclusively:
  assumes "rv_store rv = local_store"
    and "select_and_reserve rv (\<lambda>k. fold local_call (others k)) attempts sel unusable t
           (reservation_session calls) = (Ok (chosen, j), t', s')"
  shows "exclusive (local_reserved s') \<and>
    (\<exists>ids t0 ex now0 now. fst (sel t0 ex) = Ok (chosen, ids) \<and> rv_clock rv 0 = Ok now0 \<and>
       coins_in (live_table now0 (fold local_call (others 0) (reservation_session calls))) \<subseteq> set ex \<and>
       (ids \<noteq> [] \<longrightarrow>
          (reservation_u64 j, ids, saturating_add now (rv_ttl rv)) \<in> local_reserved s'))"
  using local_table.select_exclusive [OF assms(1) fold_local_call_exclusive exclusive_session assms(2)]
    local_table.select_grants [OF assms(1,2)]
  unfolding live_table_def by blast

definition sample_reservations :: "local_reservations coin_reservations" where
  "sample_reservations = reservations_new local_store (\<lambda>k. Ok (100 + of_nat k))"

definition sample_rule ::
  "nat \<Rightarrow> bytes32 list \<Rightarrow> (bytes32 \<times> bytes32 list, string) result \<times> nat" where
  "sample_rule t excluded =
     (case filter (\<lambda>c. c \<notin> set excluded) [5, 6, 7] of
        [] \<Rightarrow> (Err ''short'', t)
      | c # _ \<Rightarrow> (Ok (c, [c]), t))"

definition sample_selection ::
  "(bytes32 \<times> reservation_id, string) result \<times> nat \<times> local_reservations" where
  "sample_selection =
     select_and_reserve sample_reservations
       (\<lambda>k. fold local_call (if k = 1 then [CallReserve [6] 101 401] else [])) 2 sample_rule
       (\<lambda>_. ''unusable'') 0 (reservation_session [CallReserve [5] 99 399])"

lemma sample_selection_won: "fst sample_selection = Ok (7, ReservationId 2)"
proof -
  have two: "max 1 2 = Suc (Suc 0)" by simp
  show ?thesis
    unfolding sample_selection_def select_and_reserve_def two
    by (simp add: sample_reservations_def reservations_new_def sample_rule_def reservation_session_def
        local_new_def reservations_held_def reservations_reserve_def
        reservations_now_def local_store_def local_held_def local_reserve_all_def expire_def
        held_coins_def map_insert_def Let_def saturating_add_def DEFAULT_RESERVATION_TTL_SECS_def)
qed

theorem selection_is_reserved_exclusively_witness:
  "exclusive (local_reserved (snd (snd sample_selection)))"
proof -
  have *: "sample_selection = (Ok (7, ReservationId 2), fst (snd sample_selection), snd (snd sample_selection))"
    using sample_selection_won by (metis prod.collapse)
  have "rv_store sample_reservations = local_store"
    by (simp add: sample_reservations_def reservations_new_def)
  from selection_is_reserved_exclusively [OF this * [unfolded sample_selection_def], folded sample_selection_def]
  show ?thesis by blast
qed

end
