(* ===== verification/Input_Selection.thy ===== *)
theory Input_Selection
  imports Coin_Reservation "HOL-Library.Product_Lexorder" "HOL-Library.Multiset"
begin

text \<open>
  Input selection of an XCH transfer (\<open>select_input_coins\<close> of
  \<open>src/wallet/transfer.rs\<close>) and the errors a transfer reports.

  An error that carries a rendered message in the crate carries here the fact the message states.
  The listing the chain source answers with is arbitrary: it may repeat coins, name coins of other
  puzzles, or leave heights out.
\<close>

section \<open>Errors\<close>

datatype recipient_reason = Undecodable string | ForeignPrefix string

datatype unreachable_reason =
    ChainError string
  | InputUnconfirmed unconfirmed_input
  | AnsweredForAnother bytes32 bytes32
  | NoPeak

datatype build_reason =
    NoInputs
  | InputsOverflow
  | InputsDoNotCover
  | HintFailed string
  | LeadInputFailed string
  | SecondaryInputFailed string

datatype transfer_error =
    InsufficientFunds u64 u64
  | CoinsReserved u64 u64 u64
  | ReservationUnusable reservation_error
  | TooManyInputCoins nat nat
  | VaultTransferUnsupported
  | SelfPayment
  | ZeroAmount
  | BalanceUnjudgeable
  | AmountOverflow u64 u64
  | InvalidRecipient string recipient_reason
  | SourcesNoLongerSpendable bytes32
  | ReplacementInputsInsufficient u64 u64
  | ReplacementFeeNotHigher u64 u64
  | SpendabilityUnknown bytes32
  | UnexpectedCoinPuzzleHash bytes32 bytes32
  | ChainUnreachable unreachable_reason
  | BuildFailed build_reason

text \<open>\<open>impl From<UnconfirmedInput> for TransferError\<close>.\<close>

definition transfer_error_from :: "unconfirmed_input \<Rightarrow> transfer_error" where
  "transfer_error_from u = ChainUnreachable (InputUnconfirmed u)"

section \<open>Judging the listing\<close>

definition MAX_TRANSFER_INPUT_COINS :: nat where
  "MAX_TRANSFER_INPUT_COINS = 12"

record judged =
  jd_spendable :: "coin list"
  jd_unjudgeable :: "bytes32 list"
  jd_seen :: "bytes32 list"

definition judge_record :: "(coin \<Rightarrow> bytes32) \<Rightarrow> bytes32 \<Rightarrow> coin_record \<Rightarrow> judged \<Rightarrow> judged" where
  "judge_record cid ph r j =
     (if is_spent r then j
      else if puzzle_hash (rec_coin r) \<noteq> ph then j
      else if confirmed_height r = None
        then j\<lparr>jd_unjudgeable := jd_unjudgeable j @ [cid (rec_coin r)]\<rparr>
      else if cid (rec_coin r) \<in> set (jd_seen j) then j
      else j\<lparr>jd_seen := cid (rec_coin r) # jd_seen j, jd_spendable := jd_spendable j @ [rec_coin r]\<rparr>)"

definition judge_listing :: "(coin \<Rightarrow> bytes32) \<Rightarrow> bytes32 \<Rightarrow> coin_record list \<Rightarrow> judged" where
  "judge_listing cid ph records =
     fold (judge_record cid ph) records \<lparr>jd_spendable = [], jd_unjudgeable = [], jd_seen = []\<rparr>"

section \<open>Choosing\<close>

fun largest_first :: "u64 \<Rightarrow> u64 \<Rightarrow> coin list \<Rightarrow> coin list" where
  "largest_first required sofar [] = []"
| "largest_first required sofar (c # cs) =
     (let sofar' = saturating_add sofar (amount c)
      in c # (if required \<le> sofar' then [] else largest_first required sofar' cs))"

definition choose_fewest :: "u64 \<Rightarrow> coin list \<Rightarrow> (coin list, transfer_error) result" where
  "choose_fewest required spendable =
     (case find (\<lambda>c. required \<le> amount c) spendable of
        Some single \<Rightarrow> Ok [single]
      | None \<Rightarrow>
          (let selected = largest_first required 0 (rev spendable) in
           if MAX_TRANSFER_INPUT_COINS < length selected
           then Err (TooManyInputCoins (length selected) MAX_TRANSFER_INPUT_COINS)
           else Ok selected))"

definition choose_inputs ::
  "(coin \<Rightarrow> bytes32) \<Rightarrow> bytes32 \<Rightarrow> u64 \<Rightarrow> bytes32 list \<Rightarrow> coin_record list \<Rightarrow>
     (coin list, transfer_error) result"
where
  "choose_inputs cid ph required reserved records =
     (let j = judge_listing cid ph records;
          spendable = sort_key (\<lambda>c. (amount c, cid c)) (jd_spendable j)
      in and_then (ok_or BalanceUnjudgeable (checked_sum 0 (map amount spendable))) (\<lambda>available.
         if available < required
         then (case jd_unjudgeable j of
                 c # _ \<Rightarrow> Err (SpendabilityUnknown c)
               | [] \<Rightarrow> Err (InsufficientFunds required available))
         else
           let free = filter (\<lambda>c. cid c \<notin> set reserved) spendable
           in and_then (ok_or BalanceUnjudgeable (checked_sum 0 (map amount free))) (\<lambda>selectable.
              if selectable < required then Err (CoinsReserved required available selectable)
              else choose_fewest required free)))"

definition select_input_coins ::
  "(coin \<Rightarrow> bytes32) \<Rightarrow> chain_source \<Rightarrow> bytes32 \<Rightarrow> u64 \<Rightarrow> nat \<Rightarrow> bytes32 list \<Rightarrow>
     (coin list, transfer_error) result \<times> nat"
where
  "select_input_coins cid chain ph required t reserved =
     (case ask_by_puzzle_hash chain t ph False of
        Err e \<Rightarrow> (Err (ChainUnreachable (ChainError e)), Suc t)
      | Ok records \<Rightarrow>
          (case choose_inputs cid ph required reserved records of
             Err e \<Rightarrow> (Err e, Suc t)
           | Ok selected \<Rightarrow>
               (case confirm_all_spendable_by_name cid chain (Suc t) selected of
                  (Err u, t') \<Rightarrow> (Err (transfer_error_from u), t')
                | (Ok _, t') \<Rightarrow> (Ok selected, t'))))"

section \<open>What the listing holds\<close>

definition worth :: "coin list \<Rightarrow> nat" where
  "worth cs = sum_list (map (unat \<circ> amount) cs)"

text \<open>The records of the wallet's own puzzle hash reported unspent, with and without a height.\<close>

definition own_unspent :: "bytes32 \<Rightarrow> coin_record \<Rightarrow> bool" where
  "own_unspent ph r \<longleftrightarrow> spent_height r = None \<and> puzzle_hash (rec_coin r) = ph"

definition usable_coins :: "bytes32 \<Rightarrow> coin_record list \<Rightarrow> coin set" where
  "usable_coins ph records =
     {rec_coin r | r. r \<in> set records \<and> own_unspent ph r \<and> confirmed_height r \<noteq> None}"

definition unjudgeable_ids :: "(coin \<Rightarrow> bytes32) \<Rightarrow> bytes32 \<Rightarrow> coin_record list \<Rightarrow> bytes32 list" where
  "unjudgeable_ids cid ph records =
     map (cid \<circ> rec_coin) (filter (\<lambda>r. own_unspent ph r \<and> confirmed_height r = None) records)"

lemma usable_coins_simps [simp]:
  "usable_coins ph [] = {}"
  "usable_coins ph (r # rs) =
     (if own_unspent ph r \<and> confirmed_height r \<noteq> None then insert (rec_coin r) (usable_coins ph rs)
      else usable_coins ph rs)"
  by (auto simp: usable_coins_def)

lemma worth_simps [simp]:
  "worth [] = 0" "worth (c # cs) = unat (amount c) + worth cs" "worth (xs @ ys) = worth xs + worth ys"
  by (simp_all add: worth_def)

lemma worth_mset: "mset xs = mset ys \<Longrightarrow> worth xs = worth ys"
  unfolding worth_def by (metis mset_map sum_mset_sum_list)

lemma worth_set: "distinct cs \<Longrightarrow> worth cs = (\<Sum>c\<in>set cs. unat (amount c))"
  by (simp add: worth_def sum_list_distinct_conv_sum_set)

lemma worth_filter_le: "worth (filter p cs) \<le> worth cs"
  by (induction cs) auto

lemma checked_worth_Some: "checked_sum 0 (map amount cs) = Some n \<Longrightarrow> unat n = worth cs"
  using checked_sum_Some [of 0 "map amount cs"] by (simp add: worth_def comp_def)

lemma checked_worth_None: "checked_sum 0 (map amount cs) = None \<Longrightarrow> 2 ^ 64 \<le> worth cs"
  using checked_sum_None [of 0 "map amount cs"] by (simp add: worth_def comp_def)

lemma fold_judge:
  assumes "distinct (map cid (jd_spendable j))" and "set (jd_seen j) = cid ` set (jd_spendable j)"
    and j': "j' = fold (judge_record cid ph) records j"
  shows "distinct (map cid (jd_spendable j'))"
    and "set (jd_seen j') = cid ` set (jd_spendable j')"
    and "jd_unjudgeable j' = jd_unjudgeable j @ unjudgeable_ids cid ph records"
    and "set (jd_spendable j) \<subseteq> set (jd_spendable j')"
    and "set (jd_spendable j') \<subseteq> set (jd_spendable j) \<union> usable_coins ph records"
    and "cid ` usable_coins ph records \<subseteq> cid ` set (jd_spendable j')"
proof -
  have "distinct (map cid (jd_spendable j')) \<and> set (jd_seen j') = cid ` set (jd_spendable j') \<and>
      jd_unjudgeable j' = jd_unjudgeable j @ unjudgeable_ids cid ph records \<and>
      set (jd_spendable j) \<subseteq> set (jd_spendable j') \<and>
      set (jd_spendable j') \<subseteq> set (jd_spendable j) \<union> usable_coins ph records \<and>
      cid ` usable_coins ph records \<subseteq> cid ` set (jd_spendable j')"
    using assms(1,2) unfolding j'
  proof (induction records arbitrary: j)
    case Nil
    then show ?case by (auto simp: unjudgeable_ids_def)
  next
    case (Cons r rs)
    let ?j = "judge_record cid ph r j"
    have inv: "distinct (map cid (jd_spendable ?j))" "set (jd_seen ?j) = cid ` set (jd_spendable ?j)"
      using Cons.prems by (auto simp: judge_record_def image_iff)
    show ?case
      using Cons.IH [OF inv] Cons.prems
      by (auto simp: judge_record_def own_unspent_def is_spent_def unjudgeable_ids_def
          split: if_splits)
  qed
  then show "distinct (map cid (jd_spendable j'))"
    "set (jd_seen j') = cid ` set (jd_spendable j')"
    "jd_unjudgeable j' = jd_unjudgeable j @ unjudgeable_ids cid ph records"
    "set (jd_spendable j) \<subseteq> set (jd_spendable j')"
    "set (jd_spendable j') \<subseteq> set (jd_spendable j) \<union> usable_coins ph records"
    "cid ` usable_coins ph records \<subseteq> cid ` set (jd_spendable j')"
    by blast+
qed

lemma judge_listing_distinct: "distinct (map cid (jd_spendable (judge_listing cid ph records)))"
  unfolding judge_listing_def by (rule fold_judge(1) [OF _ _ refl]) simp_all

lemma judge_listing_unjudgeable:
  "jd_unjudgeable (judge_listing cid ph records) = unjudgeable_ids cid ph records"
  unfolding judge_listing_def by (subst fold_judge(3) [OF _ _ refl]) simp_all

lemma judge_listing_usable: "set (jd_spendable (judge_listing cid ph records)) \<subseteq> usable_coins ph records"
  using fold_judge(5) [of cid "\<lparr>jd_spendable = [], jd_unjudgeable = [], jd_seen = []\<rparr>", OF _ _ refl]
  by (simp add: judge_listing_def)

text \<open>Where no two listed coins share an id, what is kept is exactly what is usable.\<close>

lemma judge_listing_exact:
  assumes "inj_on cid (usable_coins ph records)"
  shows "set (jd_spendable (judge_listing cid ph records)) = usable_coins ph records"
proof
  show "set (jd_spendable (judge_listing cid ph records)) \<subseteq> usable_coins ph records"
    by (rule judge_listing_usable)
  have "cid ` usable_coins ph records \<subseteq> cid ` set (jd_spendable (judge_listing cid ph records))"
    using fold_judge(6) [of cid "\<lparr>jd_spendable = [], jd_unjudgeable = [], jd_seen = []\<rparr>", OF _ _ refl]
    by (simp add: judge_listing_def)
  then show "usable_coins ph records \<subseteq> set (jd_spendable (judge_listing cid ph records))"
    using inj_on_image_mem_iff [OF assms] judge_listing_usable [of cid ph records] by blast
qed

section \<open>Fewest inputs\<close>

text \<open>The \<open>k\<close> largest of a descending list are worth at least any \<open>k\<close> of its coins.\<close>

lemma largest_are_worth_most:
  "sorted_wrt (\<ge>) (map amount cs) \<Longrightarrow> distinct cs \<Longrightarrow> S \<subseteq> set cs \<Longrightarrow>
     (\<Sum>c\<in>S. unat (amount c)) \<le> worth (take (card S) cs)"
proof (induction cs arbitrary: S)
  case Nil
  then show ?case by simp
next
  case (Cons y ys)
  have fin: "finite S" using Cons.prems(3) finite_subset by blast
  show ?case
  proof (cases "S = {}")
    case False
    define x where "x = (if y \<in> S then y else (SOME x. x \<in> S))"
    have x: "x \<in> S" "y \<in> S \<longrightarrow> x = y"
      using False by (auto simp: x_def some_in_eq)
    have le: "unat (amount x) \<le> unat (amount y)"
      using x Cons.prems(1,3) by (auto simp: word_le_nat_alt)
    have "S - {x} \<subseteq> set ys" using Cons.prems(3) x by auto
    then have "(\<Sum>c\<in>S - {x}. unat (amount c)) \<le> worth (take (card (S - {x})) ys)"
      using Cons.prems by (intro Cons.IH) auto
    moreover obtain k where k: "card S = Suc k"
      using fin False by (metis card_gt_0_iff gr0_implies_Suc)
    moreover have "card (S - {x}) = k" using fin x k by simp
    moreover have "(\<Sum>c\<in>S. unat (amount c)) = unat (amount x) + (\<Sum>c\<in>S - {x}. unat (amount c))"
      using fin x by (simp add: sum.remove)
    ultimately show ?thesis using le by simp
  qed simp
qed

lemma largest_first_prefix:
  "unat sofar + worth cs < 2 ^ 64 \<Longrightarrow> unat required \<le> unat sofar + worth cs \<Longrightarrow>
     unat sofar < unat required \<Longrightarrow>
     \<exists>k \<le> length cs. largest_first required sofar cs = take k cs \<and>
       unat required \<le> unat sofar + worth (take k cs) \<and>
       (\<forall>j < k. unat sofar + worth (take j cs) < unat required)"
proof (induction cs arbitrary: sofar)
  case Nil
  then show ?case by simp
next
  case (Cons c cs)
  define sofar' where "sofar' = saturating_add sofar (amount c)"
  have s': "unat sofar' = unat sofar + unat (amount c)"
    using Cons.prems(1) by (simp add: sofar'_def unat_saturating_add)
  show ?case
  proof (cases "required \<le> sofar'")
    case True
    then show ?thesis
      using Cons.prems(3) s' by (intro exI [of _ 1]) (auto simp: sofar'_def [symmetric] Let_def word_le_nat_alt)
  next
    case False
    then have "unat sofar' < unat required" by (simp add: word_le_nat_alt)
    then obtain k where k: "k \<le> length cs" "largest_first required sofar' cs = take k cs"
      "unat required \<le> unat sofar' + worth (take k cs)"
      "\<forall>j < k. unat sofar' + worth (take j cs) < unat required"
      using Cons.IH [of sofar'] Cons.prems s' by auto
    have "unat sofar + worth (take j (c # cs)) < unat required" if "j < Suc k" for j
      using that k(4) s' Cons.prems(3) by (cases j) auto
    then show ?thesis
      using k s' False by (intro exI [of _ "Suc k"]) (auto simp: sofar'_def [symmetric] Let_def)
  qed
qed

section \<open>The choice\<close>

definition total_of :: "coin set \<Rightarrow> nat" where
  "total_of S = (\<Sum>c\<in>S. unat (amount c))"

definition free_coins :: "(coin \<Rightarrow> bytes32) \<Rightarrow> bytes32 \<Rightarrow> coin_record list \<Rightarrow> bytes32 list \<Rightarrow> coin set" where
  "free_coins cid ph records reserved = {c \<in> usable_coins ph records. cid c \<notin> set reserved}"

definition ranked :: "(coin \<Rightarrow> bytes32) \<Rightarrow> bytes32 \<Rightarrow> coin_record list \<Rightarrow> coin list" where
  "ranked cid ph records =
     sort_key (\<lambda>c. (amount c, cid c)) (jd_spendable (judge_listing cid ph records))"

definition ranked_free ::
  "(coin \<Rightarrow> bytes32) \<Rightarrow> bytes32 \<Rightarrow> coin_record list \<Rightarrow> bytes32 list \<Rightarrow> coin list" where
  "ranked_free cid ph records reserved = filter (\<lambda>c. cid c \<notin> set reserved) (ranked cid ph records)"

lemma ranked_sorted: "sorted (map amount (ranked cid ph records))"
proof -
  have "sorted (map (\<lambda>c. (amount c, cid c)) (ranked cid ph records))"
    by (simp add: ranked_def)
  then show ?thesis
    unfolding sorted_map by (rule sorted_wrt_mono_rel [rotated]) (auto simp: less_eq_prod_def)
qed

lemma ranked_distinct: "distinct (map cid (ranked cid ph records))"
  using judge_listing_distinct [of cid ph records] by (simp add: ranked_def distinct_map)

lemma ranked_usable: "set (ranked cid ph records) \<subseteq> usable_coins ph records"
  using judge_listing_usable [of cid ph records] by (simp add: ranked_def)

lemma ranked_free_props:
  "distinct (map cid (ranked_free cid ph records reserved))"
  "sorted (map amount (ranked_free cid ph records reserved))"
  "set (ranked_free cid ph records reserved) \<subseteq> free_coins cid ph records reserved"
  using ranked_distinct [of cid ph records] ranked_sorted [of cid ph records]
    ranked_usable [of cid ph records]
  by (auto simp: ranked_free_def free_coins_def distinct_map_filter sorted_filter)

lemma ranked_exact:
  assumes "inj_on cid (usable_coins ph records)"
  shows "set (ranked cid ph records) = usable_coins ph records"
    and "worth (ranked cid ph records) = total_of (usable_coins ph records)"
    and "set (ranked_free cid ph records reserved) = free_coins cid ph records reserved"
    and "worth (ranked_free cid ph records reserved) = total_of (free_coins cid ph records reserved)"
proof -
  show r: "set (ranked cid ph records) = usable_coins ph records"
    using judge_listing_exact [OF assms] by (simp add: ranked_def)
  then show f: "set (ranked_free cid ph records reserved) = free_coins cid ph records reserved"
    by (simp add: ranked_free_def free_coins_def)
  show "worth (ranked cid ph records) = total_of (usable_coins ph records)"
    using ranked_distinct [of cid ph records] r by (simp add: total_of_def worth_set distinct_map)
  show "worth (ranked_free cid ph records reserved) = total_of (free_coins cid ph records reserved)"
    using ranked_free_props(1) [of cid ph records reserved] f
    by (simp add: total_of_def worth_set distinct_map)
qed

lemma choose_inputs_eq:
  "choose_inputs cid ph required reserved records =
     (if 2 ^ 64 \<le> worth (ranked cid ph records) then Err BalanceUnjudgeable
      else if worth (ranked cid ph records) < unat required
      then (case unjudgeable_ids cid ph records of
              c # _ \<Rightarrow> Err (SpendabilityUnknown c)
            | [] \<Rightarrow> Err (InsufficientFunds required (of_nat (worth (ranked cid ph records)))))
      else if worth (ranked_free cid ph records reserved) < unat required
      then Err (CoinsReserved required (of_nat (worth (ranked cid ph records)))
                  (of_nat (worth (ranked_free cid ph records reserved))))
      else choose_fewest required (ranked_free cid ph records reserved))"
proof (cases "checked_sum 0 (map amount (ranked cid ph records))")
  case None
  then show ?thesis
    using checked_worth_None [OF None]
    by (simp add: choose_inputs_def ranked_def [symmetric] ok_or_def)
next
  case (Some a)
  have a: "unat a = worth (ranked cid ph records)" by (rule checked_worth_Some [OF Some])
  have le: "worth (ranked_free cid ph records reserved) \<le> worth (ranked cid ph records)"
    by (simp add: ranked_free_def worth_filter_le)
  have lt: "worth (ranked cid ph records) < 2 ^ 64" using a unat_less_pow [of a] by simp
  have a': "a = of_nat (worth (ranked cid ph records))" by (simp flip: a)
  obtain b where b: "checked_sum 0 (map amount (ranked_free cid ph records reserved)) = Some b"
    using checked_worth_None [of "ranked_free cid ph records reserved"] le lt
    by (cases "checked_sum 0 (map amount (ranked_free cid ph records reserved))") auto
  have bw: "unat b = worth (ranked_free cid ph records reserved)" by (rule checked_worth_Some [OF b])
  then have b': "b = of_nat (worth (ranked_free cid ph records reserved))"
    by (metis of_nat_unat ucast_id)
  have "a < required \<longleftrightarrow> worth (ranked cid ph records) < unat required"
    "b < required \<longleftrightarrow> worth (ranked_free cid ph records reserved) < unat required"
    using a bw by (simp_all add: word_less_nat_alt)
  then show ?thesis
    using Some b lt a' b'
    by (simp add: choose_inputs_def ranked_def [symmetric] ranked_free_def [symmetric] ok_or_def
        Let_def judge_listing_unjudgeable)
qed

text \<open>What the choosing step does with a ranked list that covers.\<close>

lemma choose_fewest_covers:
  assumes "sorted (map amount cs)" and "distinct cs" and "worth cs < 2 ^ 64"
    and "unat required \<le> worth cs" and "0 < required"
  obtains (one) c where "choose_fewest required cs = Ok [c]" "c \<in> set cs" "required \<le> amount c"
      "\<forall>d \<in> set cs. required \<le> amount d \<longrightarrow> amount c \<le> amount d"
  | (few) k where "\<forall>d \<in> set cs. amount d < required" "k \<le> length cs" "unat required \<le> worth (take k (rev cs))"
      "\<forall>j < k. worth (take j (rev cs)) < unat required"
      "choose_fewest required cs =
         (if 12 < k then Err (TooManyInputCoins k 12) else Ok (take k (rev cs)))"
proof (cases "find (\<lambda>c. required \<le> amount c) cs")
  case (Some c)
  then obtain i where i: "i < length cs" "c = cs ! i" "required \<le> amount c"
    "\<forall>j < i. \<not> required \<le> amount (cs ! j)"
    by (auto simp: find_Some_iff)
  have "amount c \<le> amount d" if d: "d \<in> set cs" "required \<le> amount d" for d
  proof -
    obtain j where j: "j < length cs" "d = cs ! j" using d by (auto simp: in_set_conv_nth)
    then have "i \<le> j" using i(4) d(2) by (meson leI)
    then show ?thesis
      using sorted_nth_mono [OF assms(1), of i j] i(1,2) j by simp
  qed
  then show ?thesis using one [of c] Some i by (simp add: choose_fewest_def)
next
  case None
  have "unat (0::u64) + worth (rev cs) < 2 ^ 64" "unat required \<le> unat (0::u64) + worth (rev cs)"
    "unat (0::u64) < unat required"
    using assms worth_mset [of "rev cs" cs] by (simp_all add: unat_gt_0)
  from largest_first_prefix [OF this] obtain k where k: "k \<le> length cs"
    "largest_first required 0 (rev cs) = take k (rev cs)"
    "unat required \<le> worth (take k (rev cs))" "\<forall>j < k. worth (take j (rev cs)) < unat required"
    by auto
  then show ?thesis
    using few [OF _ k(1,3,4)] None by (simp add: choose_fewest_def MAX_TRANSFER_INPUT_COINS_def Let_def
        find_None_iff not_le)
qed

lemma fewest_is_fewest:
  assumes "sorted (map amount cs)" and "distinct cs"
    and "\<forall>j < k. worth (take j (rev cs)) < unat required"
    and "S \<subseteq> set cs" and "unat required \<le> total_of S"
  shows "k \<le> card S"
proof (rule ccontr)
  assume "\<not> k \<le> card S"
  then have "worth (take (card S) (rev cs)) < unat required" using assms(3) by simp
  moreover have "sorted_wrt (\<ge>) (map amount (rev cs))"
    using assms(1) by (simp add: rev_map [symmetric] sorted_wrt_rev)
  then have "total_of S \<le> worth (take (card S) (rev cs))"
    unfolding total_of_def using assms(2,4) by (intro largest_are_worth_most) auto
  ultimately show False using assms(5) by simp
qed

lemma selection_covers:
  assumes "select_input_coins cid chain ph required t reserved = (Ok selected, t')"
  shows "\<exists>records. ask_by_puzzle_hash chain t ph False = Ok records \<and>
    distinct (map cid selected) \<and> set selected \<subseteq> usable_coins ph records \<and>
    cid ` set selected \<inter> set reserved = {} \<and> length selected \<le> 12 \<and>
    unat required \<le> worth selected \<and> worth selected < 2 ^ 64 \<and>
    (\<forall>k < length selected. confirmed_spendable_at cid chain (Suc t + k) (cid (selected ! k)))"
proof -
  obtain records where ask: "ask_by_puzzle_hash chain t ph False = Ok records"
    and ch: "choose_inputs cid ph required reserved records = Ok selected"
    and conf: "confirm_all_spendable_by_name cid chain (Suc t) selected = (Ok (), t')"
    using assms by (auto simp: select_input_coins_def split: result.splits prod.splits)
  define cs where "cs = ranked_free cid ph records reserved"
  note props = ranked_free_props [of cid ph records reserved, folded cs_def]
  have lt: "worth cs < 2 ^ 64" and cover: "unat required \<le> worth cs"
    and cf: "choose_fewest required cs = Ok selected"
    using ch worth_filter_le [of "\<lambda>c. cid c \<notin> set reserved" "ranked cid ph records"]
    by (auto simp: choose_inputs_eq cs_def ranked_free_def split: if_splits list.splits)
  have d: "distinct cs" using props(1) by (simp add: distinct_map)
  have sub: "distinct (map cid selected) \<and> set selected \<subseteq> set cs \<and> length selected \<le> 12 \<and>
      unat required \<le> worth selected \<and> worth selected < 2 ^ 64"
  proof (cases "0 < required")
    case True
    from props(2) d lt cover True show ?thesis
    proof (cases rule: choose_fewest_covers)
      case (one c)
      then show ?thesis using cf unat_less_pow [of "amount c"] by (auto simp: word_le_nat_alt)
    next
      case (few k)
      then have sel: "selected = take k (rev cs)" "k \<le> 12" using cf by (auto split: if_splits)
      have "worth (take k (rev cs)) + worth (drop k (rev cs)) = worth (rev cs)"
        by (metis append_take_drop_id worth_simps(3))
      moreover have "worth (rev cs) = worth cs" by (rule worth_mset) simp
      ultimately have "worth selected < 2 ^ 64" using lt sel by simp
      moreover have "distinct (map cid (take k (rev cs)))"
        using props(1) by (metis distinct_rev distinct_take rev_map take_map)
      ultimately show ?thesis
        using sel few(3) set_take_subset [of k "rev cs"] by auto
    qed
  next
    case False
    then have "required = 0" by (simp add: word_gt_0)
    then show ?thesis
      using cf by (cases cs) (auto simp: choose_fewest_def MAX_TRANSFER_INPUT_COINS_def
          intro: unat_less_pow [where 'a = 64, simplified])
  qed
  then have "set selected \<subseteq> free_coins cid ph records reserved" using props(3) by blast
  then show ?thesis
    using ask sub confirm_all_iff [of cid chain "Suc t" selected t'] conf
    by (intro exI [of _ records]) (auto simp: free_coins_def)
qed

text \<open>A selection that succeeds spends only coins the source reported confirmed, unspent and at
  the wallet's own puzzle hash, none twice and none that is reserved, at most twelve of them; they
  cover the required total without overflow; and each was confirmed spendable by a read of its own
  id made after the listing.\<close>

theorem selection_covers_the_total:
  assumes "select_input_coins cid chain ph required t reserved = (Ok selected, t')"
  shows "\<exists>records. ask_by_puzzle_hash chain t ph False = Ok records \<and>
    distinct (map cid selected) \<and> set selected \<subseteq> usable_coins ph records \<and>
    cid ` set selected \<inter> set reserved = {} \<and> length selected \<le> 12 \<and>
    unat required \<le> worth selected \<and> worth selected < 2 ^ 64 \<and>
    (\<forall>k < length selected. confirmed_spendable_at cid chain (Suc t + k) (cid (selected ! k)))"
  using assms by (rule selection_covers)

definition sample_record :: "bytes32 \<Rightarrow> u64 \<Rightarrow> u32 option \<Rightarrow> coin_record" where
  "sample_record i n h =
     \<lparr>rec_coin = \<lparr>parent_coin_info = i, puzzle_hash = 9, amount = n\<rparr>,
      confirmed_height = h, spent_height = None\<rparr>"

definition sample_listing :: "coin_record list" where
  "sample_listing = [sample_record 1 5 (Some 3), sample_record 2 20 (Some 4), sample_record 3 7 (Some 4)]"

definition sample_chain :: "coin_record list \<Rightarrow> chain_source" where
  "sample_chain listing =
     \<lparr>ask_coin_record = (\<lambda>t i. Ok (find (\<lambda>r. parent_coin_info (rec_coin r) = i) listing)),
      ask_peak = (\<lambda>t. Ok (Some 40)),
      ask_by_puzzle_hash = (\<lambda>t ph b. Ok (filter (\<lambda>r. puzzle_hash (rec_coin r) = ph) listing))\<rparr>"

lemmas sample_chain_simps = sample_chain_def sample_listing_def sample_record_def

lemma sample_judged:
  "jd_spendable (judge_listing parent_coin_info 9 sample_listing) = map rec_coin sample_listing"
  "unjudgeable_ids parent_coin_info 9 sample_listing = []"
  by (simp_all add: judge_listing_def judge_record_def sample_chain_simps is_spent_def
      unjudgeable_ids_def)

lemma sample_ranked:
  "ranked parent_coin_info 9 sample_listing =
     map rec_coin [sample_record 1 5 (Some 3), sample_record 3 7 (Some 4), sample_record 2 20 (Some 4)]"
  unfolding ranked_def sample_judged
  by (simp add: sample_chain_simps less_eq_prod_def)

lemma sample_selection_of_inputs:
  "select_input_coins parent_coin_info (sample_chain sample_listing) 9 12 0 [2] =
     (Ok [rec_coin (sample_record 3 7 (Some 4)), rec_coin (sample_record 1 5 (Some 3))], 3)"
proof -
  have "choose_inputs parent_coin_info 9 12 [2] sample_listing =
      Ok [rec_coin (sample_record 3 7 (Some 4)), rec_coin (sample_record 1 5 (Some 3))]"
    unfolding choose_inputs_eq ranked_free_def sample_ranked
    by (simp add: sample_record_def choose_fewest_def MAX_TRANSFER_INPUT_COINS_def Let_def
        saturating_add_def)
  then show ?thesis
    by (simp add: select_input_coins_def sample_chain_simps confirm_spendable_by_name_def
        is_spent_def)
qed

theorem selection_covers_the_total_witness:
  "\<exists>records. ask_by_puzzle_hash (sample_chain sample_listing) 0 9 False = Ok records \<and>
     set [rec_coin (sample_record 3 7 (Some 4)), rec_coin (sample_record 1 5 (Some 3))]
       \<subseteq> usable_coins 9 records"
  using selection_covers_the_total [OF sample_selection_of_inputs] by blast

text \<open>C39: Selection uses the fewest inputs that can do: no set of free usable coins that covers the
  required total has fewer coins than the one chosen, a single coin chosen is the smallest that
  covers on its own, and selection gives up for needing too many coins only when every covering set
  has more than twelve. So dust never crowds out a coin that could pay.\<close>

theorem selection_uses_fewest_inputs:
  assumes inj: "inj_on cid (usable_coins ph records)" and "0 < required"
    and S: "S \<subseteq> free_coins cid ph records reserved" "unat required \<le> total_of S"
  shows "case choose_inputs cid ph required reserved records of
      Ok selected \<Rightarrow> length selected \<le> card S \<and>
        (\<forall>c d. selected = [c] \<longrightarrow> d \<in> free_coins cid ph records reserved \<longrightarrow>
           required \<le> amount d \<longrightarrow> amount c \<le> amount d)
    | Err (TooManyInputCoins needed cap) \<Rightarrow> cap = 12 \<and> 12 < needed \<and> needed \<le> card S
    | Err e \<Rightarrow> e = BalanceUnjudgeable"
proof -
  define cs where "cs = ranked_free cid ph records reserved"
  note props = ranked_free_props [of cid ph records reserved, folded cs_def]
  have set_cs: "set cs = free_coins cid ph records reserved"
    and worth_cs: "worth cs = total_of (free_coins cid ph records reserved)"
    using ranked_exact [OF inj] by (simp_all add: cs_def)
  have d: "distinct cs" using props(1) by (simp add: distinct_map)
  have fin: "finite (free_coins cid ph records reserved)" by (metis set_cs finite_set)
  have "total_of S \<le> worth cs"
    unfolding worth_cs total_of_def using S(1) fin by (intro sum_mono2) auto
  then have cover: "unat required \<le> worth cs" using S(2) by simp
  have le: "worth cs \<le> worth (ranked cid ph records)"
    by (simp add: cs_def ranked_free_def worth_filter_le)
  have "S \<noteq> {}" using S(2) assms(2) by (auto simp: total_of_def word_gt_0 unat_eq_0)
  then have S1: "1 \<le> card S" using finite_subset [OF S(1) fin] by (simp add: Suc_le_eq card_gt_0_iff)
  show ?thesis
  proof (cases "2 ^ 64 \<le> worth (ranked cid ph records)")
    case True
    then show ?thesis by (simp add: choose_inputs_eq)
  next
    case False
    then have ch: "choose_inputs cid ph required reserved records = choose_fewest required cs"
      using cover le by (simp add: choose_inputs_eq cs_def [symmetric])
    have lt: "worth cs < 2 ^ 64" using le False by simp
    from props(2) d lt cover assms(2) show ?thesis
    proof (cases rule: choose_fewest_covers)
      case (one c)
      then show ?thesis using ch S1 set_cs by auto
    next
      case (few k)
      have k: "k \<le> card S"
        using fewest_is_fewest [OF props(2) d few(4)] S set_cs by simp
      then show ?thesis using ch few(1,5) set_cs by (auto simp: not_le [symmetric])
    qed
  qed
qed

theorem selection_uses_fewest_inputs_witness:
  "length [rec_coin (sample_record 2 20 (Some 4))] \<le> card {rec_coin (sample_record 2 20 (Some 4))}"
proof -
  have u: "usable_coins 9 sample_listing = set (map rec_coin sample_listing)"
    by (auto simp: own_unspent_def sample_chain_simps)
  have inj: "inj_on parent_coin_info (usable_coins 9 sample_listing)"
    by (simp add: u sample_chain_simps)
  have ch: "choose_inputs parent_coin_info 9 15 [] sample_listing = Ok [rec_coin (sample_record 2 20 (Some 4))]"
    unfolding choose_inputs_eq ranked_free_def sample_ranked
    by (simp add: sample_record_def choose_fewest_def)
  have S: "{rec_coin (sample_record 2 20 (Some 4))} \<subseteq> free_coins parent_coin_info 9 sample_listing []"
    "unat (15::u64) \<le> total_of {rec_coin (sample_record 2 20 (Some 4))}"
    by (simp_all only: free_coins_def u total_of_def) (simp_all add: sample_chain_simps)
  show ?thesis
    using selection_uses_fewest_inputs [OF inj _ S] unfolding ch by simp
qed

lemma refusals_are_honest_raw:
  assumes "inj_on cid (usable_coins ph records)"
  shows "choose_inputs cid ph required reserved records =
     (let balance = total_of (usable_coins ph records);
          free = total_of (free_coins cid ph records reserved);
          unknown = unjudgeable_ids cid ph records
      in if 2 ^ 64 \<le> balance then Err BalanceUnjudgeable
         else if balance < unat required
         then (if unknown = [] then Err (InsufficientFunds required (of_nat balance))
               else Err (SpendabilityUnknown (hd unknown)))
         else if free < unat required
         then Err (CoinsReserved required (of_nat balance) (of_nat free))
         else choose_fewest required (ranked_free cid ph records reserved))"
  unfolding choose_inputs_eq ranked_exact [OF assms] by (auto simp: Let_def split: list.split)

text \<open>Every refusal of the choosing step is a true statement about the listing: with the total of
  all usable coins, the total of those not reserved, and the coins whose height is missing, the
  answer is exactly the first of: the balance overflows, it falls short (unjudgeable if any height is
  missing, a shortfall naming the whole balance if none is), the free part falls short (naming both
  totals, reserved coins counted in the balance), the selection.\<close>

theorem refusals_are_honest:
  assumes "inj_on cid (usable_coins ph records)"
  shows "choose_inputs cid ph required reserved records =
     (let balance = total_of (usable_coins ph records);
          free = total_of (free_coins cid ph records reserved);
          unknown = unjudgeable_ids cid ph records
      in if 2 ^ 64 \<le> balance then Err BalanceUnjudgeable
         else if balance < unat required
         then (if unknown = [] then Err (InsufficientFunds required (of_nat balance))
               else Err (SpendabilityUnknown (hd unknown)))
         else if free < unat required
         then Err (CoinsReserved required (of_nat balance) (of_nat free))
         else choose_fewest required (ranked_free cid ph records reserved))"
  unfolding choose_inputs_eq ranked_exact [OF assms] by (auto simp: Let_def split: list.split)

theorem refusals_are_honest_witness:
  "choose_inputs parent_coin_info 9 25 [2] sample_listing = Err (CoinsReserved 25 32 12)"
proof -
  have "inj_on parent_coin_info (usable_coins 9 sample_listing)"
    by (simp add: own_unspent_def sample_chain_simps)
  from refusals_are_honest [OF this, of 25 "[2]"] show ?thesis
    by (simp add: free_coins_def own_unspent_def sample_chain_simps total_of_def
        Collect_disj_eq Collect_conv_if conj_disj_distribR Let_def)
qed

text \<open>\<open>SpendabilityUnknown\<close> is reported also when the coins that could not be judged could not
  have covered the shortfall: a listing with one missing height never yields \<open>InsufficientFunds\<close>,
  however far short the wallet plainly is.\<close>

theorem one_missing_height_hides_a_plain_shortfall:
  assumes "inj_on cid (usable_coins ph records)"
    and "r \<in> set records" and "own_unspent ph r" and "confirmed_height r = None"
    and "total_of (usable_coins ph records)
           + worth (map rec_coin (filter (\<lambda>r. own_unspent ph r \<and> confirmed_height r = None) records))
         < unat required"
  shows "\<exists>i. choose_inputs cid ph required reserved records = Err (SpendabilityUnknown i)"
proof -
  have "unjudgeable_ids cid ph records \<noteq> []"
    using assms(2-4) by (auto simp: unjudgeable_ids_def filter_empty_conv)
  moreover have "total_of (usable_coins ph records) < 2 ^ 64"
    using assms(5) unat_less_pow [of required] by simp
  ultimately show ?thesis
    using assms(5) unfolding refusals_are_honest_raw [OF assms(1)] by (simp add: Let_def)
qed

theorem one_missing_height_hides_a_plain_shortfall_witness:
  "\<exists>i. choose_inputs parent_coin_info 9 1000 [] (sample_record 4 1 None # sample_listing)
     = Err (SpendabilityUnknown i)"
  by (rule one_missing_height_hides_a_plain_shortfall [where r = "sample_record 4 1 None"])
     (simp_all add: own_unspent_def sample_chain_simps total_of_def)

end
