(* ===== verification/Xch_Transfer.thy ===== *)
theory Xch_Transfer
  imports Spend_Summary Input_Selection
begin

text \<open>
  The XCH transfer (\<open>src/wallet/transfer.rs\<close>): payable destinations, the request, building
  the unsigned spends, rebuilding them at a higher fee, the pending transfer and what the chain
  later says of it.

  The spend drivers of \<open>chia-wallet-sdk\<close> are the record \<open>spend_builder\<close>: they turn a
  coin and a list of conditions into a coin spend. The conditions themselves are the crate's and are
  modelled. A profile's wallet key is its public key with the puzzle hash that key curries to.
\<close>

section \<open>The drivers\<close>

datatype memos = NoMemos | Hint "byte list" | MemoList "byte list list"

datatype condition =
    CreateCoin bytes32 u64 memos
  | ReserveFee u64
  | CreateCoinAnnouncement string
  | AssertCoinAnnouncement bytes32

record spend_builder =
  hint_of :: "bytes32 \<Rightarrow> (byte list, string) result"
  standard_spend :: "byte list \<Rightarrow> coin \<Rightarrow> condition list \<Rightarrow> (coin_spend, string) result"
  announcement_id :: "bytes32 \<Rightarrow> string \<Rightarrow> bytes32"

record wallet_key =
  wk_public_key :: "byte list"
  wk_puzzle_hash :: bytes32

definition INPUT_BINDING_MESSAGE :: string where
  "INPUT_BINDING_MESSAGE = ''dig-account:transfer''"

definition MAX_RESERVATION_ATTEMPTS :: nat where
  "MAX_RESERVATION_ATTEMPTS = 16"

section \<open>Destinations and requests\<close>

datatype payable_destination = PayableDestination (dest_puzzle_hash: bytes32)

definition from_address :: "'n spend_driver \<Rightarrow> string \<Rightarrow> (payable_destination, transfer_error) result" where
  "from_address drv address =
     and_then (map_err (\<lambda>e. InvalidRecipient address (Undecodable e)) (decode_address drv address))
       (\<lambda>(ph, prefix).
          if prefix \<noteq> MAINNET_ADDRESS_PREFIX then Err (InvalidRecipient address (ForeignPrefix prefix))
          else Ok (PayableDestination ph))"

definition from_derived :: "bytes32 \<Rightarrow> payable_destination" where
  "from_derived ph = PayableDestination ph"

record transfer_request =
  tr_recipient :: payable_destination
  tr_amount :: u64
  tr_fee :: u64

definition transfer_request_new :: "payable_destination \<Rightarrow> u64 \<Rightarrow> transfer_request" where
  "transfer_request_new d n = \<lparr>tr_recipient = d, tr_amount = n, tr_fee = 0\<rparr>"

definition request_to_address ::
  "'n spend_driver \<Rightarrow> string \<Rightarrow> u64 \<Rightarrow> (transfer_request, transfer_error) result" where
  "request_to_address drv address n =
     and_then (from_address drv address) (\<lambda>d. Ok (transfer_request_new d n))"

definition with_fee :: "u64 \<Rightarrow> transfer_request \<Rightarrow> transfer_request" where
  "with_fee fee r = r\<lparr>tr_fee := fee\<rparr>"

definition required_total :: "transfer_request \<Rightarrow> (u64, transfer_error) result" where
  "required_total r = ok_or (AmountOverflow (tr_amount r) (tr_fee r)) (checked_add (tr_amount r) (tr_fee r))"

abbreviation recipient_of :: "transfer_request \<Rightarrow> bytes32" where
  "recipient_of r \<equiv> dest_puzzle_hash (tr_recipient r)"

section \<open>Building\<close>

record transfer_plan =
  tp_coin_spends :: "coin_spend list"
  tp_payment_coin_id :: bytes32
  tp_source_coin_ids :: "bytes32 list"
  tp_recipient :: bytes32
  tp_amount :: u64
  tp_fee :: u64
  tp_change :: u64
  tp_reservation :: "reservation_id option"

definition lead_conditions ::
  "wallet_key \<Rightarrow> transfer_request \<Rightarrow> byte list \<Rightarrow> u64 \<Rightarrow> bool \<Rightarrow> condition list" where
  "lead_conditions w request hint change alone =
     [CreateCoin (recipient_of request) (tr_amount request) (Hint hint)] @
     (if 0 < change then [CreateCoin (wk_puzzle_hash w) change NoMemos] else []) @
     (if 0 < tr_fee request then [ReserveFee (tr_fee request)] else []) @
     (if alone then [] else [CreateCoinAnnouncement INPUT_BINDING_MESSAGE])"

definition build_transfer_spends ::
  "spend_builder \<Rightarrow> (coin \<Rightarrow> bytes32) \<Rightarrow> wallet_key \<Rightarrow> coin list \<Rightarrow> transfer_request \<Rightarrow>
     reservation_id option \<Rightarrow> (transfer_plan, transfer_error) result"
where
  "build_transfer_spends bld cid w selected request reservation =
     (if selected = [] then Err (BuildFailed NoInputs)
      else let lead = last selected; secondaries = butlast selected in
        and_then (ok_or (BuildFailed InputsOverflow) (checked_sum 0 (map amount selected))) (\<lambda>sum_in.
        and_then (required_total request) (\<lambda>required.
        and_then (ok_or (BuildFailed InputsDoNotCover) (checked_sub sum_in required)) (\<lambda>change.
        and_then (map_err (BuildFailed \<circ> HintFailed) (hint_of bld (recipient_of request))) (\<lambda>hint.
        and_then (map_err (BuildFailed \<circ> LeadInputFailed)
                    (standard_spend bld (wk_public_key w) lead
                       (lead_conditions w request hint change (secondaries = [])))) (\<lambda>lead_spend.
        let binding = announcement_id bld (cid lead) INPUT_BINDING_MESSAGE in
        and_then (collect_results
                    (map (\<lambda>c. map_err (BuildFailed \<circ> SecondaryInputFailed)
                                (standard_spend bld (wk_public_key w) c [AssertCoinAnnouncement binding]))
                       secondaries)) (\<lambda>secondary_spends.
        Ok \<lparr>tp_coin_spends = lead_spend # secondary_spends,
            tp_payment_coin_id =
              cid \<lparr>parent_coin_info = cid lead, puzzle_hash = recipient_of request,
                   amount = tr_amount request\<rparr>,
            tp_source_coin_ids = map cid selected,
            tp_recipient = recipient_of request,
            tp_amount = tr_amount request,
            tp_fee = tr_fee request,
            tp_change = change,
            tp_reservation = reservation\<rparr>)))))))"

definition select_ids ::
  "(coin \<Rightarrow> bytes32) \<Rightarrow> chain_source \<Rightarrow> bytes32 \<Rightarrow> u64 \<Rightarrow> nat \<Rightarrow> bytes32 list \<Rightarrow>
     (coin list \<times> bytes32 list, transfer_error) result \<times> nat"
where
  "select_ids cid chain ph required t excluded =
     (case select_input_coins cid chain ph required t excluded of
        (Err e, t') \<Rightarrow> (Err e, t')
      | (Ok coins, t') \<Rightarrow> (Ok (coins, map cid coins), t'))"

text \<open>\<open>env\<close> is what other users of the reservation store do between this build's own calls.\<close>

definition build_transfer ::
  "spend_builder \<Rightarrow> (coin \<Rightarrow> bytes32) \<Rightarrow> wallet_key \<Rightarrow> chain_source \<Rightarrow> custody_policy \<Rightarrow>
     transfer_request \<Rightarrow> 's coin_reservations \<Rightarrow> (nat \<Rightarrow> 's \<Rightarrow> 's) \<Rightarrow> nat \<Rightarrow> 's \<Rightarrow>
     (transfer_plan, transfer_error) result \<times> nat \<times> 's"
where
  "build_transfer bld cid w chain custody request rv env t s =
     (case custody of
        VaultCustody _ \<Rightarrow> (Err VaultTransferUnsupported, t, s)
      | HotCustody _ \<Rightarrow>
          if tr_amount request = 0 then (Err ZeroAmount, t, s)
          else if recipient_of request = wk_puzzle_hash w then (Err SelfPayment, t, s)
          else (case required_total request of
            Err e \<Rightarrow> (Err e, t, s)
          | Ok required \<Rightarrow>
              (case select_and_reserve rv env MAX_RESERVATION_ATTEMPTS
                      (select_ids cid chain (wk_puzzle_hash w) required) ReservationUnusable t s of
                 (Err e, t', s') \<Rightarrow> (Err e, t', s')
               | (Ok (selected, held), t', s') \<Rightarrow>
                   (case build_transfer_spends bld cid w selected request None of
                      Err e \<Rightarrow> (Err e, t', held_drop rv held s')
                    | Ok plan \<Rightarrow>
                        (let (i, s'') = held_commit held s'
                         in (Ok (plan\<lparr>tp_reservation := Some i\<rparr>), t', s''))))))"

section \<open>The pending transfer\<close>

record pending_transfer =
  pt_payment_coin_id :: bytes32
  pt_source_coin_ids :: "bytes32 list"
  pt_recipient :: bytes32
  pt_amount :: u64
  pt_fee :: u64
  pt_change :: u64
  pt_input_total :: u64
  pt_pushed_at_height :: u32

definition pushed_at :: "transfer_plan \<Rightarrow> u32 \<Rightarrow> pending_transfer" where
  "pushed_at plan pre_push_peak =
     \<lparr>pt_payment_coin_id = tp_payment_coin_id plan,
      pt_source_coin_ids = tp_source_coin_ids plan,
      pt_recipient = tp_recipient plan,
      pt_amount = tp_amount plan,
      pt_fee = tp_fee plan,
      pt_change = tp_change plan,
      pt_input_total = tp_amount plan + tp_fee plan + tp_change plan,
      pt_pushed_at_height = pre_push_peak\<rparr>"

definition peak_height :: "chain_source \<Rightarrow> nat \<Rightarrow> (u32, transfer_error) result \<times> nat" where
  "peak_height chain t =
     (case ask_peak chain t of
        Err e \<Rightarrow> Err (ChainUnreachable (ChainError e))
      | Ok None \<Rightarrow> Err (ChainUnreachable NoPeak)
      | Ok (Some peak) \<Rightarrow> Ok peak, Suc t)"

definition pushed_now ::
  "chain_source \<Rightarrow> transfer_plan \<Rightarrow> nat \<Rightarrow> (pending_transfer, transfer_error) result \<times> nat" where
  "pushed_now chain plan t =
     (case peak_height chain t of
        (Err e, t') \<Rightarrow> (Err e, t')
      | (Ok peak, t') \<Rightarrow> (Ok (pushed_at plan peak), t'))"

definition max_replacement_fee :: "pending_transfer \<Rightarrow> u64" where
  "max_replacement_fee p = pt_fee p + pt_change p"

section \<open>Replacing\<close>

definition reread_spendable_input ::
  "(coin \<Rightarrow> bytes32) \<Rightarrow> chain_source \<Rightarrow> wallet_key \<Rightarrow> nat \<Rightarrow> bytes32 \<Rightarrow>
     (coin, transfer_error) result \<times> nat"
where
  "reread_spendable_input cid chain w t i =
     (case ask_coin_record chain t i of
        Err e \<Rightarrow> Err (ChainUnreachable (ChainError e))
      | Ok None \<Rightarrow> Err (SourcesNoLongerSpendable i)
      | Ok (Some r) \<Rightarrow>
          if cid (rec_coin r) \<noteq> i
          then Err (ChainUnreachable (AnsweredForAnother i (cid (rec_coin r))))
          else if confirmed_height r = None \<or> is_spent r then Err (SourcesNoLongerSpendable i)
          else if puzzle_hash (rec_coin r) \<noteq> wk_puzzle_hash w
          then Err (UnexpectedCoinPuzzleHash i (puzzle_hash (rec_coin r)))
          else Ok (rec_coin r),
      Suc t)"

fun reread_inputs ::
  "(coin \<Rightarrow> bytes32) \<Rightarrow> chain_source \<Rightarrow> wallet_key \<Rightarrow> nat \<Rightarrow> bytes32 list \<Rightarrow>
     (coin list, transfer_error) result \<times> nat"
where
  "reread_inputs cid chain w t [] = (Ok [], t)"
| "reread_inputs cid chain w t (i # is) =
     (case reread_spendable_input cid chain w t i of
        (Err e, t') \<Rightarrow> (Err e, t')
      | (Ok c, t') \<Rightarrow>
          (case reread_inputs cid chain w t' is of
             (Err e, t'') \<Rightarrow> (Err e, t'')
           | (Ok cs, t'') \<Rightarrow> (Ok (c # cs), t'')))"

definition build_transfer_replacing ::
  "spend_builder \<Rightarrow> (coin \<Rightarrow> bytes32) \<Rightarrow> wallet_key \<Rightarrow> chain_source \<Rightarrow> custody_policy \<Rightarrow>
     pending_transfer \<Rightarrow> u64 \<Rightarrow> nat \<Rightarrow> (transfer_plan, transfer_error) result \<times> nat"
where
  "build_transfer_replacing bld cid w chain custody pending new_fee t =
     (case custody of
        VaultCustody _ \<Rightarrow> (Err VaultTransferUnsupported, t)
      | HotCustody _ \<Rightarrow>
          if new_fee \<le> pt_fee pending then (Err (ReplacementFeeNotHigher (pt_fee pending) new_fee), t)
          else
            let request = \<lparr>tr_recipient = from_derived (pt_recipient pending),
                           tr_amount = pt_amount pending, tr_fee = new_fee\<rparr>
            in (case required_total request of
                  Err e \<Rightarrow> (Err e, t)
                | Ok required \<Rightarrow>
                    (case reread_inputs cid chain w t (pt_source_coin_ids pending) of
                       (Err e, t') \<Rightarrow> (Err e, t')
                     | (Ok inputs, t') \<Rightarrow>
                         (case checked_sum 0 (map amount inputs) of
                            None \<Rightarrow> Err BalanceUnjudgeable
                          | Some reused \<Rightarrow>
                              if reused < required then Err (ReplacementInputsInsufficient required reused)
                              else build_transfer_spends bld cid w inputs request None,
                          t'))))"

section \<open>What the chain says of it\<close>

record confirmed_transfer =
  ct_payment_coin_id :: bytes32
  ct_recipient :: bytes32
  ct_amount :: u64
  ct_confirmed_height :: u32

definition confirmed_transfer_from_confirmed ::
  "(coin \<Rightarrow> bytes32) \<Rightarrow> pending_transfer \<Rightarrow> coin_record \<Rightarrow> u32 \<Rightarrow> confirmed_transfer option"
where
  "confirmed_transfer_from_confirmed cid pending r peak =
     (if cid (rec_coin r) \<noteq> pt_payment_coin_id pending then None
      else case confirmed_height r of
        None \<Rightarrow> None
      | Some h \<Rightarrow>
          if h = 0 \<or> h < pt_pushed_at_height pending then None
          else if burial_depth peak h < MIN_CONFIRMATION_DEPTH then None
          else Some \<lparr>ct_payment_coin_id = pt_payment_coin_id pending,
                     ct_recipient = pt_recipient pending,
                     ct_amount = pt_amount pending,
                     ct_confirmed_height = h\<rparr>)"

interpretation settled: buried_evidence pt_payment_coin_id pt_pushed_at_height
    confirmed_transfer_from_confirmed ct_confirmed_height
  by unfold_locales
     (auto simp: confirmed_transfer_from_confirmed_def not_less split: if_splits option.splits)

text \<open>The reason a transfer is dead: the input, the height of the spend and its depth.\<close>

datatype death = SpentElsewhere bytes32 u32 u32

datatype transfer_status = Confirmed confirmed_transfer | Awaiting u32 | Failed death

fun transfer_status_confirmed :: "transfer_status \<Rightarrow> confirmed_transfer option" where
  "transfer_status_confirmed (Confirmed settled) = Some settled"
| "transfer_status_confirmed (Awaiting peak) = None"
| "transfer_status_confirmed (Failed why) = None"

definition read_coin ::
  "chain_source \<Rightarrow> nat \<Rightarrow> bytes32 \<Rightarrow> (coin_record option, transfer_error) result" where
  "read_coin chain t i = map_err (ChainUnreachable \<circ> ChainError) (ask_coin_record chain t i)"

fun proof_of_death ::
  "bytes32 \<Rightarrow> bytes32 list \<Rightarrow> chain_source \<Rightarrow> u32 \<Rightarrow> nat \<Rightarrow> (death option, transfer_error) result \<times> nat"
where
  "proof_of_death payment [] chain peak t = (Ok None, t)"
| "proof_of_death payment (i # is) chain peak t =
     (case read_coin chain t i of
        Err e \<Rightarrow> (Err e, Suc t)
      | Ok record \<Rightarrow>
          (case Option.bind record spent_height of
             None \<Rightarrow> proof_of_death payment is chain peak (Suc t)
           | Some spent \<Rightarrow>
               if spent = 0 then proof_of_death payment is chain peak (Suc t)
               else if burial_depth peak spent < MIN_CONFIRMATION_DEPTH
               then proof_of_death payment is chain peak (Suc t)
               else (case read_coin chain (Suc t) payment of
                       Err e \<Rightarrow> Err e
                     | Ok (Some _) \<Rightarrow> Ok None
                     | Ok None \<Rightarrow> Ok (Some (SpentElsewhere i spent (burial_depth peak spent))),
                     Suc (Suc t))))"

definition transfer_status_of ::
  "(coin \<Rightarrow> bytes32) \<Rightarrow> pending_transfer \<Rightarrow> chain_source \<Rightarrow> nat \<Rightarrow>
     (transfer_status, transfer_error) result \<times> nat"
where
  "transfer_status_of cid pending chain t =
     (case peak_height chain t of
        (Err e, t') \<Rightarrow> (Err e, t')
      | (Ok peak, t') \<Rightarrow>
          (case read_coin chain t' (pt_payment_coin_id pending) of
             Err e \<Rightarrow> (Err e, Suc t')
           | Ok payment \<Rightarrow>
               (case Option.bind payment
                       (\<lambda>r. confirmed_transfer_from_confirmed cid pending r peak) of
                  Some settled \<Rightarrow> (Ok (Confirmed settled), Suc t')
                | None \<Rightarrow>
                    (let waiting = Ok (Awaiting (saturating_sub peak (pt_pushed_at_height pending)))
                     in if payment = None
                        then (case proof_of_death (pt_payment_coin_id pending)
                                     (pt_source_coin_ids pending) chain peak (Suc t') of
                                (Err e, t'') \<Rightarrow> (Err e, t'')
                              | (Ok (Some reason), t'') \<Rightarrow> (Ok (Failed reason), t'')
                              | (Ok None, t'') \<Rightarrow> (waiting, t''))
                        else (waiting, Suc t')))))"

end
