(* ===== verification/Transfer_Properties.thy ===== *)
theory Transfer_Properties
  imports Xch_Transfer
begin

text \<open>
  What a built transfer is: its value, its funding and its reservation, and what a refused build
  leaves behind. The inputs with the conditions each is spent with (\<open>transfer_inputs\<close>) are the
  view of a plan the statements are made over, since the coin spends themselves are the driver's.
\<close>

section \<open>Building\<close>

text \<open>What the conditions of a spend create and reserve.\<close>

definition created :: "condition list \<Rightarrow> nat" where
  "created cs = (\<Sum>c\<leftarrow>cs. case c of CreateCoin _ n _ \<Rightarrow> unat n | _ \<Rightarrow> 0)"

definition reserved_fee :: "condition list \<Rightarrow> nat" where
  "reserved_fee cs = (\<Sum>c\<leftarrow>cs. case c of ReserveFee n \<Rightarrow> unat n | _ \<Rightarrow> 0)"

lemma required_total_Ok:
  "required_total r = Ok n \<longleftrightarrow> checked_add (tr_amount r) (tr_fee r) = Some n"
  by (simp add: required_total_def result_simps)

lemma collect_map_err_Ok:
  "collect_results (map (\<lambda>c. map_err f (g c)) cs) = Ok ys \<longleftrightarrow> map g cs = map Ok ys"
proof (induction cs arbitrary: ys)
  case Nil
  then show ?case by auto
next
  case (Cons c cs)
  show ?case by (cases ys) (auto simp: result_simps Cons)
qed

text \<open>The inputs of a built transfer with the conditions each is spent with: the lead is the last
  selected coin and carries every output, the others assert its announcement.\<close>

definition transfer_inputs ::
  "spend_builder \<Rightarrow> (coin \<Rightarrow> bytes32) \<Rightarrow> wallet_key \<Rightarrow> coin list \<Rightarrow> transfer_request \<Rightarrow> byte list \<Rightarrow> u64 \<Rightarrow>
     (coin \<times> condition list) list"
where
  "transfer_inputs bld cid w selected request hint change =
     (last selected, lead_conditions w request hint change (butlast selected = [])) #
     map (\<lambda>c. (c, [AssertCoinAnnouncement (announcement_id bld (cid (last selected)) INPUT_BINDING_MESSAGE)]))
       (butlast selected)"

definition plan_of ::
  "(coin \<Rightarrow> bytes32) \<Rightarrow> coin list \<Rightarrow> transfer_request \<Rightarrow> u64 \<Rightarrow> coin_spend list \<Rightarrow>
     reservation_id option \<Rightarrow> transfer_plan"
where
  "plan_of cid selected request change spends res =
     \<lparr>tp_coin_spends = spends,
      tp_payment_coin_id =
        cid \<lparr>parent_coin_info = cid (last selected), puzzle_hash = recipient_of request,
             amount = tr_amount request\<rparr>,
      tp_source_coin_ids = map cid selected, tp_recipient = recipient_of request,
      tp_amount = tr_amount request, tp_fee = tr_fee request, tp_change = change,
      tp_reservation = res\<rparr>"

lemma build_transfer_spends_Ok:
  "build_transfer_spends bld cid w selected request res = Ok plan \<longleftrightarrow>
     selected \<noteq> [] \<and>
     (\<exists>change hint spends.
        unat (tr_amount request) + unat (tr_fee request) + unat change = worth selected \<and>
        worth selected < 2 ^ 64 \<and>
        hint_of bld (recipient_of request) = Ok hint \<and>
        map (\<lambda>(c, conds). standard_spend bld (wk_public_key w) c conds)
          (transfer_inputs bld cid w selected request hint change) = map Ok spends \<and>
        plan = plan_of cid selected request change spends res)" (is "?build \<longleftrightarrow> ?spec")
proof
  assume ?build
  then obtain total_in required change hint lead_spend rest where *:
    "selected \<noteq> []" "checked_sum 0 (map amount selected) = Some total_in"
    "checked_add (tr_amount request) (tr_fee request) = Some required"
    "checked_sub total_in required = Some change"
    "hint_of bld (recipient_of request) = Ok hint"
    "standard_spend bld (wk_public_key w) (last selected)
       (lead_conditions w request hint change (butlast selected = [])) = Ok lead_spend"
    "map (\<lambda>c. standard_spend bld (wk_public_key w) c
       [AssertCoinAnnouncement (announcement_id bld (cid (last selected)) INPUT_BINDING_MESSAGE)])
       (butlast selected) = map Ok rest"
    and plan: "plan = plan_of cid selected request change (lead_spend # rest) res"
    by (auto simp: build_transfer_spends_def Let_def result_simps required_total_Ok
        collect_map_err_Ok plan_of_def split: if_splits)
  have "unat total_in = worth selected" by (rule checked_worth_Some [OF *(2)])
  then have "unat (tr_amount request) + unat (tr_fee request) + unat change = worth selected"
    "worth selected < 2 ^ 64"
    using checked_add_unat [OF *(3)] checked_sub_unat [OF *(4)] unat_less_pow [of total_in] by simp_all
  then show ?spec
    using * plan by (auto simp: transfer_inputs_def comp_def intro!: exI [of _ "lead_spend # rest"])
next
  assume ?spec
  then obtain change hint spends where *: "selected \<noteq> []"
    "unat (tr_amount request) + unat (tr_fee request) + unat change = worth selected"
    "worth selected < 2 ^ 64" "hint_of bld (recipient_of request) = Ok hint"
    "map (\<lambda>(c, conds). standard_spend bld (wk_public_key w) c conds)
       (transfer_inputs bld cid w selected request hint change) = map Ok spends"
    and plan: "plan = plan_of cid selected request change spends res"
    by blast
  obtain total_in where t: "checked_sum 0 (map amount selected) = Some total_in"
    using *(3) checked_worth_None [of selected] by (cases "checked_sum 0 (map amount selected)") auto
  have tw: "unat total_in = worth selected" by (rule checked_worth_Some [OF t])
  have a: "checked_add (tr_amount request) (tr_fee request) = Some (tr_amount request + tr_fee request)"
    using *(2,3) by (simp add: checked_add_def)
  have "unat (tr_amount request + tr_fee request) + unat change = unat total_in"
    using checked_add_unat [OF a] *(2) tw by simp
  then have s: "checked_sub total_in (tr_amount request + tr_fee request) = Some change"
    unfolding checked_sub_def by (simp add: word_le_nat_alt unat_sub word_unat_eq_iff)
  obtain lead_spend rest where sp: "spends = lead_spend # rest"
    using *(5) by (cases spends) (auto simp: transfer_inputs_def)
  show ?build
    using * t a s sp plan
    by (auto simp: build_transfer_spends_def Let_def result_simps required_total_Ok
        collect_map_err_Ok transfer_inputs_def comp_def plan_of_def)
qed

lemma transfer_inputs_conserve:
  assumes "selected \<noteq> []"
    and "unat (tr_amount request) + unat (tr_fee request) + unat change = worth selected"
    and ins_def: "ins = transfer_inputs bld cid w selected request hint change"
  shows "mset (map fst ins) = mset selected"
    and "(\<Sum>(c, conds)\<leftarrow>ins. created conds) + (\<Sum>(c, conds)\<leftarrow>ins. reserved_fee conds) = worth selected"
    and "(\<Sum>(c, conds)\<leftarrow>ins. reserved_fee conds) = unat (tr_fee request)"
proof -
  have "mset (last selected # butlast selected) = mset (butlast selected @ [last selected])" by simp
  then show "mset (map fst ins) = mset selected"
    using assms(1) by (simp add: ins_def transfer_inputs_def comp_def)
  have z: "(\<Sum>c\<leftarrow>cs. 0) = (0::nat)" for cs :: "coin list" by (induction cs) auto
  show "(\<Sum>(c, conds)\<leftarrow>ins. reserved_fee conds) = unat (tr_fee request)"
    by (auto simp: ins_def transfer_inputs_def comp_def reserved_fee_def lead_conditions_def z
        word_gt_0)
  moreover have "(\<Sum>(c, conds)\<leftarrow>ins. created conds) = unat (tr_amount request) + unat change"
    by (auto simp: ins_def transfer_inputs_def comp_def created_def lead_conditions_def z word_gt_0)
  ultimately show
    "(\<Sum>(c, conds)\<leftarrow>ins. created conds) + (\<Sum>(c, conds)\<leftarrow>ins. reserved_fee conds) = worth selected"
    using assms(2) by simp
qed

text \<open>A built transfer conserves value to the mojo: each selected coin is spent exactly once, in
  a spend of the plan, the created coins and the reserved fee add up to exactly the inputs, the fee
  reserved is the fee asked for, and amount, fee and change add up to the inputs, with the payment
  coin the plan names being the coin the lead input creates for the recipient.\<close>

theorem transfer_conserves_value:
  assumes "build_transfer_spends bld cid w selected request res = Ok plan"
  shows "\<exists>ins.
     map (\<lambda>(c, conds). standard_spend bld (wk_public_key w) c conds) ins = map Ok (tp_coin_spends plan) \<and>
     mset (map fst ins) = mset selected \<and>
     (\<Sum>(c, conds)\<leftarrow>ins. created conds) + (\<Sum>(c, conds)\<leftarrow>ins. reserved_fee conds) = worth selected \<and>
     (\<Sum>(c, conds)\<leftarrow>ins. reserved_fee conds) = unat (tp_fee plan) \<and>
     unat (tp_amount plan) + unat (tp_fee plan) + unat (tp_change plan) = worth selected \<and>
     (\<exists>lead conds memo. (lead, conds) \<in> set ins \<and>
        CreateCoin (tp_recipient plan) (tp_amount plan) memo \<in> set conds \<and>
        tp_payment_coin_id plan =
          cid \<lparr>parent_coin_info = cid lead, puzzle_hash = tp_recipient plan, amount = tp_amount plan\<rparr>)"
proof -
  obtain change hint spends where *: "selected \<noteq> []"
    "unat (tr_amount request) + unat (tr_fee request) + unat change = worth selected"
    "map (\<lambda>(c, conds). standard_spend bld (wk_public_key w) c conds)
       (transfer_inputs bld cid w selected request hint change) = map Ok spends"
    "plan = plan_of cid selected request change spends res"
    using assms unfolding build_transfer_spends_Ok by blast
  have "(last selected, lead_conditions w request hint change (butlast selected = []))
      \<in> set (transfer_inputs bld cid w selected request hint change)"
    by (simp add: transfer_inputs_def)
  moreover have "CreateCoin (recipient_of request) (tr_amount request) (Hint hint)
      \<in> set (lead_conditions w request hint change (butlast selected = []))"
    by (simp add: lead_conditions_def)
  ultimately show ?thesis
    using transfer_inputs_conserve [OF *(1,2) refl, of bld cid w hint] * unfolding plan_of_def
    by (intro exI [of _ "transfer_inputs bld cid w selected request hint change"] conjI) auto
qed

definition sample_builder :: spend_builder where
  "sample_builder =
     \<lparr>hint_of = (\<lambda>ph. Ok []),
      standard_spend = (\<lambda>pk c conds. Ok \<lparr>spent_coin = c, puzzle_reveal = pk, solution = []\<rparr>),
      announcement_id = (\<lambda>i m. i + 1)\<rparr>"

definition sample_wallet :: wallet_key where
  "sample_wallet = \<lparr>wk_public_key = [7], wk_puzzle_hash = 9\<rparr>"

definition sample_payment :: transfer_request where
  "sample_payment = with_fee 2 (transfer_request_new (from_derived 77) 10)"

definition sample_inputs :: "coin list" where
  "sample_inputs = [rec_coin (sample_record 3 7 (Some 4)), rec_coin (sample_record 1 8 (Some 3))]"

definition sample_plan :: transfer_plan where
  "sample_plan =
     plan_of parent_coin_info sample_inputs sample_payment 3
       (map (\<lambda>c. \<lparr>spent_coin = c, puzzle_reveal = [7], solution = []\<rparr>) (rev sample_inputs)) None"

lemma sample_plan_built:
  "build_transfer_spends sample_builder parent_coin_info sample_wallet sample_inputs sample_payment None
     = Ok sample_plan"
  unfolding build_transfer_spends_Ok
  by (simp add: sample_builder_def sample_wallet_def sample_payment_def sample_inputs_def
      sample_record_def sample_plan_def with_fee_def transfer_request_new_def from_derived_def
      plan_of_def transfer_inputs_def)

theorem transfer_conserves_value_witness:
  "unat (tp_amount sample_plan) + unat (tp_fee sample_plan) + unat (tp_change sample_plan) =
     worth sample_inputs"
  using transfer_conserves_value [OF sample_plan_built] by blast

section \<open>Selecting, reserving and building as one\<close>

lemma select_ids_Ok:
  "fst (select_ids cid chain ph required t ex) = Ok (selected, ids) \<longleftrightarrow>
     ids = map cid selected \<and> fst (select_input_coins cid chain ph required t ex) = Ok selected"
  by (auto simp: select_ids_def split: prod.splits result.splits)

lemma build_transfer_Ok:
  assumes "build_transfer bld cid w chain custody request rv env t s = (Ok plan, t', s')"
  obtains hot required selected held where "custody = HotCustody hot" "tr_amount request \<noteq> 0"
    "recipient_of request \<noteq> wk_puzzle_hash w" "required_total request = Ok required"
    "select_and_reserve rv env MAX_RESERVATION_ATTEMPTS
       (select_ids cid chain (wk_puzzle_hash w) required) ReservationUnusable t s
       = (Ok (selected, held), t', s')"
    "build_transfer_spends bld cid w selected request None = Ok (plan\<lparr>tp_reservation := None\<rparr>)"
    "tp_reservation plan = Some held"
proof -
  obtain hot required selected held p where *: "custody = HotCustody hot" "tr_amount request \<noteq> 0"
    "recipient_of request \<noteq> wk_puzzle_hash w" "required_total request = Ok required"
    "select_and_reserve rv env MAX_RESERVATION_ATTEMPTS
       (select_ids cid chain (wk_puzzle_hash w) required) ReservationUnusable t s
       = (Ok (selected, held), t', s')"
    "build_transfer_spends bld cid w selected request None = Ok p"
    "plan = p\<lparr>tp_reservation := Some held\<rparr>"
    using assms
    by (auto simp: build_transfer_def held_commit_def
        split: custody_policy.splits if_splits result.splits prod.splits)
  moreover have "p\<lparr>tp_reservation := None\<rparr> = p"
    using *(6) by (auto simp: build_transfer_spends_Ok plan_of_def)
  ultimately show ?thesis using that by simp
qed

lemma selected_and_held:
  assumes "rv_store rv = local_store"
    and sel: "select_and_reserve rv (\<lambda>k. fold local_call (others k)) n
       (select_ids cid chain ph required) unusable t (reservation_session calls)
       = (Ok (selected, ReservationId j), t', s')"
    and "selected \<noteq> []"
  shows "exclusive (local_reserved s') \<and> distinct (map cid selected) \<and> length selected \<le> 12 \<and>
    (\<exists>expires. (j, map cid selected, expires) \<in> local_reserved s') \<and>
    (\<exists>t0 records. ask_by_puzzle_hash chain t0 ph False = Ok records \<and>
       set selected \<subseteq> usable_coins ph records) \<and>
    (\<exists>now. rv_clock rv 0 = Ok now \<and> cid ` set selected \<inter>
       coins_in (live_table now (fold local_call (others 0) (reservation_session calls))) = {})"
proof -
  have excl: "exclusive (local_reserved s')"
    by (rule local_table.select_exclusive [OF assms(1) fold_local_call_exclusive exclusive_session sel])
  from local_table.select_grants [OF assms(1) sel]
  obtain ids t0 ex now0 now where g: "fst (select_ids cid chain ph required t0 ex) = Ok (selected, ids)"
    "rv_clock rv 0 = Ok now0"
    "coins_in (live_at now0 (local_reserved (fold local_call (others 0) (reservation_session calls)))) \<subseteq> set ex"
    "ids \<noteq> [] \<longrightarrow>
       (reservation_u64 (ReservationId j), ids, saturating_add now (rv_ttl rv)) \<in> local_reserved s'"
    by blast
  have ids: "ids = map cid selected" and "fst (select_input_coins cid chain ph required t0 ex) = Ok selected"
    using g(1) by (simp_all add: select_ids_Ok)
  then obtain t1 where "select_input_coins cid chain ph required t0 ex = (Ok selected, t1)"
    by (metis prod.collapse)
  from selection_covers [OF this] obtain records where cov:
    "ask_by_puzzle_hash chain t0 ph False = Ok records"
    "distinct (map cid selected)" "set selected \<subseteq> usable_coins ph records"
    "cid ` set selected \<inter> set ex = {}" "length selected \<le> 12"
    by blast
  have "cid ` set selected \<inter>
      coins_in (live_table now0 (fold local_call (others 0) (reservation_session calls))) = {}"
    using cov(4) g(3) unfolding live_table_def by blast
  moreover have "(j, map cid selected, saturating_add now (rv_ttl rv)) \<in> local_reserved s'"
    using g(4) ids assms(3) by simp
  ultimately show ?thesis using excl cov(1,2,3,5) g(2) by blast
qed

text \<open>C9: A transfer that is built is one the profile may make and can fund: hot custody, a positive
  amount, another's puzzle hash; its inputs are at most twelve distinct coins the source reported
  confirmed and unspent at the wallet's own puzzle hash, none of them held by another in-flight
  spend when the build began; and when the build returns they are all held by the plan's own
  reservation and by no other, whatever other users of the table did meanwhile.\<close>

theorem built_transfer_is_funded_and_reserved:
  assumes "rv_store rv = local_store"
    and "build_transfer bld cid w chain custody request rv (\<lambda>k. fold local_call (others k)) t
           (reservation_session calls) = (Ok plan, t', s')"
  shows "(\<exists>hot. custody = HotCustody hot) \<and> tr_amount request \<noteq> 0 \<and>
     recipient_of request \<noteq> wk_puzzle_hash w \<and>
     (\<exists>selected j expires t0 records now.
        tp_source_coin_ids plan = map cid selected \<and> distinct (map cid selected) \<and>
        length selected \<le> 12 \<and>
        ask_by_puzzle_hash chain t0 (wk_puzzle_hash w) False = Ok records \<and>
        set selected \<subseteq> usable_coins (wk_puzzle_hash w) records \<and>
        unat (tr_amount request) + unat (tr_fee request) + unat (tp_change plan) = worth selected \<and>
        rv_clock rv 0 = Ok now \<and>
        cid ` set selected \<inter>
          coins_in (live_table now (fold local_call (others 0) (reservation_session calls))) = {} \<and>
        tp_reservation plan = Some (ReservationId j) \<and>
        (j, map cid selected, expires) \<in> local_reserved s' \<and> exclusive (local_reserved s'))"
proof -
  obtain hot required selected held where *: "custody = HotCustody hot" "tr_amount request \<noteq> 0"
    "recipient_of request \<noteq> wk_puzzle_hash w"
    and sel: "select_and_reserve rv (\<lambda>k. fold local_call (others k)) MAX_RESERVATION_ATTEMPTS
       (select_ids cid chain (wk_puzzle_hash w) required) ReservationUnusable t
       (reservation_session calls) = (Ok (selected, held), t', s')"
    and b: "build_transfer_spends bld cid w selected request None = Ok (plan\<lparr>tp_reservation := None\<rparr>)"
    and held: "tp_reservation plan = Some held"
    using build_transfer_Ok [OF assms(2)] by metis
  obtain change hint spends where ne: "selected \<noteq> []"
    and sum: "unat (tr_amount request) + unat (tr_fee request) + unat change = worth selected"
    and p: "plan\<lparr>tp_reservation := None\<rparr> = plan_of cid selected request change spends None"
    using b unfolding build_transfer_spends_Ok by blast
  have fields: "tp_source_coin_ids plan = map cid selected" "tp_change plan = change"
    using arg_cong [OF p, of tp_source_coin_ids] arg_cong [OF p, of tp_change]
    by (simp_all add: plan_of_def)
  obtain j where j: "held = ReservationId j" by (cases held)
  from selected_and_held [OF assms(1) sel [unfolded j] ne]
  obtain expires t0 records now where
    "(j, map cid selected, expires) \<in> local_reserved s'" "exclusive (local_reserved s')"
    "distinct (map cid selected)" "length selected \<le> 12"
    "ask_by_puzzle_hash chain t0 (wk_puzzle_hash w) False = Ok records"
    "set selected \<subseteq> usable_coins (wk_puzzle_hash w) records" "rv_clock rv 0 = Ok now"
    "cid ` set selected \<inter>
       coins_in (live_table now (fold local_call (others 0) (reservation_session calls))) = {}"
    by blast
  then show ?thesis
    using * fields sum held unfolding j
    by (intro conjI exI [of _ hot] exI [of _ selected] exI [of _ j] exI [of _ expires]
        exI [of _ t0] exI [of _ records] exI [of _ now]) simp_all
qed

definition sample_build ::
  "(transfer_plan, transfer_error) result \<times> nat \<times> local_reservations" where
  "sample_build =
     build_transfer sample_builder parent_coin_info sample_wallet (sample_chain sample_listing)
       (HotCustody hot_wallet_default) sample_payment sample_reservations (\<lambda>k. fold local_call []) 0
       (reservation_session [CallReserve [2] 99 399])"

abbreviation sample_selected :: "coin list" where
  "sample_selected \<equiv> [rec_coin (sample_record 3 7 (Some 4)), rec_coin (sample_record 1 5 (Some 3))]"

lemma sample_request_simps:
  "required_total sample_payment = Ok 12" "wk_puzzle_hash sample_wallet = 9"
  "tr_amount sample_payment \<noteq> 0" "recipient_of sample_payment \<noteq> 9"
  by (simp_all add: sample_payment_def required_total_def checked_add_def with_fee_def
      transfer_request_new_def ok_or_def sample_wallet_def from_derived_def)

lemma sample_selection_reserved:
  assumes "\<And>k. env k = id"
  shows "\<exists>s'. select_and_reserve sample_reservations env MAX_RESERVATION_ATTEMPTS
      (select_ids parent_coin_info (sample_chain sample_listing) 9 12) ReservationUnusable 0
      (reservation_session [CallReserve [2] 99 399]) = (Ok (sample_selected, ReservationId 1), 3, s')"
proof -
  have sel: "select_ids parent_coin_info (sample_chain sample_listing) 9 12 0 [2] =
      (Ok (sample_selected, [3, 1]), 3)"
    unfolding select_ids_def sample_selection_of_inputs by (simp add: sample_record_def)
  obtain m :: nat where sixteen: "max 1 MAX_RESERVATION_ATTEMPTS = Suc m"
    by (cases "max 1 MAX_RESERVATION_ATTEMPTS") auto
  show ?thesis
    unfolding select_and_reserve_def sixteen assms
    by (simp add: sample_reservations_def reservations_new_def reservation_session_def
        local_new_def reservations_held_def reservations_reserve_def reservations_now_def
        local_store_def local_held_def local_reserve_all_def expire_def held_coins_def
        map_insert_def Let_def sel)
qed

lemma sample_build_ok: "\<exists>plan. fst sample_build = Ok plan"
proof -
  obtain s' where s': "select_and_reserve sample_reservations (\<lambda>k. fold local_call [])
      MAX_RESERVATION_ATTEMPTS (select_ids parent_coin_info (sample_chain sample_listing) 9 12)
      ReservationUnusable 0 (reservation_session [CallReserve [2] 99 399]) =
      (Ok (sample_selected, ReservationId 1), 3, s')"
    using sample_selection_reserved [of "\<lambda>k. fold local_call []"] by auto
  have "build_transfer_spends sample_builder parent_coin_info sample_wallet sample_selected
        sample_payment None = Ok (plan_of parent_coin_info sample_selected sample_payment 0
        (map (\<lambda>c. \<lparr>spent_coin = c, puzzle_reveal = [7], solution = []\<rparr>)
          [rec_coin (sample_record 1 5 (Some 3)), rec_coin (sample_record 3 7 (Some 4))]) None)"
    unfolding build_transfer_spends_Ok
    by (simp add: sample_builder_def sample_wallet_def sample_payment_def sample_record_def
        with_fee_def transfer_request_new_def from_derived_def plan_of_def transfer_inputs_def)
  then show ?thesis
    using s' by (simp add: sample_build_def build_transfer_def sample_request_simps held_commit_def)
qed

theorem built_transfer_is_funded_and_reserved_witness:
  "exclusive (local_reserved (snd (snd sample_build)))"
proof -
  obtain plan where "fst sample_build = Ok plan" using sample_build_ok by blast
  then have *: "sample_build = (Ok plan, fst (snd sample_build), snd (snd sample_build))"
    by (metis prod.collapse)
  have "rv_store sample_reservations = local_store"
    by (simp add: sample_reservations_def reservations_new_def)
  from built_transfer_is_funded_and_reserved [OF this * [unfolded sample_build_def], folded sample_build_def]
  show ?thesis by blast
qed

lemma local_reserve_unpoisoned:
  "local_reserve_all coins now expires s = (Ok i, s') \<Longrightarrow> \<not> lr_poisoned s'"
  by (auto simp: local_reserve_all_def Let_def split: if_splits option.splits)

lemma acquire_unpoisoned:
  assumes rv: "rv_store rv = local_store"
    and "acquire rv env sel unusable n k excluded t s = (Ok x, t', s')"
  shows "\<not> lr_poisoned s'"
  using assms(2)
proof (induction n arbitrary: k excluded t s)
  case 0
  then show ?case by simp
next
  case (Suc n)
  obtain ch ids t1 where sel: "sel t excluded = (Ok (ch, ids), t1)"
    using Suc.prems by (cases "sel t excluded") (auto split: result.splits)
  obtain rr s1 where r: "reservations_reserve rv k ids (env k s) = (rr, s1)" by fastforce
  show ?case
  proof (cases rr)
    case (Ok i)
    then have "s1 = s'" using Suc.prems sel r by simp
    then show ?thesis
      using r Ok rv local_reserve_unpoisoned
      by (auto simp: reservations_reserve_def local_store_def split: result.splits)
  next
    case (Err e)
    then show ?thesis using Suc sel r by (cases e) auto
  qed
qed

lemma drop_local:
  "rv_store rv = local_store \<Longrightarrow> \<not> lr_poisoned s \<Longrightarrow>
     local_reserved (held_drop rv j s) \<subseteq> {r \<in> local_reserved s. fst r \<noteq> reservation_u64 j}"
  by (auto simp: held_drop_def reservations_release_def local_store_def local_release_def)

lemma subset_without_own: "A \<subseteq> {r \<in> B. fst r \<noteq> i} \<Longrightarrow> B \<subseteq> insert (i, x) C \<Longrightarrow> A \<subseteq> C"
  by force

text \<open>A selection whose reservation is dropped adds nothing to the table.\<close>

lemma dropped_selection_adds_nothing:
  assumes rv: "rv_store rv = local_store"
    and sel: "select_and_reserve rv (\<lambda>k s. s) n sel unusable t s = (Ok (chosen, j), t', s')"
  shows "local_reserved (held_drop rv j s') \<subseteq> local_reserved s"
proof -
  note frame = local_table.select_frame [OF rv subset_refl sel]
  obtain excluded where "acquired local_reserved (rv_ttl rv) sel excluded s s' chosen j"
    using frame by auto
  then obtain ids now where "local_reserved s' \<subseteq>
      insert (reservation_u64 j, ids, saturating_add now (rv_ttl rv)) (local_reserved s)"
    unfolding acquired_def by (elim exE conjE) (rule that)
  moreover have "\<not> lr_poisoned s'"
    using sel
    by (auto simp: select_and_reserve_def split: prod.splits result.splits
        dest: acquire_unpoisoned [OF rv])
  ultimately show ?thesis by (intro subset_without_own [OF drop_local [OF rv]])
qed

lemma refused_selection_adds_nothing:
  assumes "rv_store rv = local_store"
    and "select_and_reserve rv (\<lambda>k s. s) n sel unusable t s = (Err e, t', s')"
  shows "local_reserved s' \<subseteq> local_reserved s"
  using local_table.select_frame [OF assms(1) subset_refl assms(2)] by simp

text \<open>A build that fails leaves nothing held: when no one else adds to the table meanwhile, every
  reservation left after a refusal, at whichever step it came, was there before, so retrying against
  a failing source cannot lock the wallet's coins one by one.\<close>

theorem failed_build_holds_nothing:
  assumes "rv_store rv = local_store"
    and "build_transfer bld cid w chain custody request rv (\<lambda>k s. s) t s = (Err e, t', s')"
  shows "local_reserved s' \<subseteq> local_reserved s"
proof -
  consider "s' = s" | required e' where "select_and_reserve rv (\<lambda>k s. s) MAX_RESERVATION_ATTEMPTS
      (select_ids cid chain (wk_puzzle_hash w) required) ReservationUnusable t s = (Err e', t', s')"
  | required selected held s1 where "select_and_reserve rv (\<lambda>k s. s) MAX_RESERVATION_ATTEMPTS
      (select_ids cid chain (wk_puzzle_hash w) required) ReservationUnusable t s
      = (Ok (selected, held), t', s1)" "s' = held_drop rv held s1"
    using assms(2)
    by (auto simp: build_transfer_def held_commit_def
        split: custody_policy.splits if_splits result.splits prod.splits)
  then show ?thesis
  proof cases
    case 1
    then show ?thesis by simp
  next
    case 2
    then show ?thesis by (rule refused_selection_adds_nothing [OF assms(1)])
  next
    case 3
    show ?thesis unfolding 3(2) by (rule dropped_selection_adds_nothing [OF assms(1) 3(1)])
  qed
qed

theorem failed_build_holds_nothing_witness:
  "local_reserved (snd (snd
     (build_transfer (sample_builder\<lparr>hint_of := \<lambda>ph. Err ''no''\<rparr>) parent_coin_info sample_wallet
       (sample_chain sample_listing) (HotCustody hot_wallet_default) sample_payment
       sample_reservations (\<lambda>k s. s) 0 (reservation_session [CallReserve [2] 99 399]))))
   \<subseteq> local_reserved (reservation_session [CallReserve [2] 99 399])"
proof -
  have spends: "build_transfer_spends (sample_builder\<lparr>hint_of := \<lambda>ph. Err ''no''\<rparr>) parent_coin_info
      sample_wallet sample_selected sample_payment None = Err (BuildFailed (HintFailed ''no''))"
    by (simp add: build_transfer_spends_def sample_request_simps sample_record_def Let_def
        checked_add_def checked_sub_def ok_or_def)
  obtain s' where "select_and_reserve sample_reservations (\<lambda>k s. s)
      MAX_RESERVATION_ATTEMPTS (select_ids parent_coin_info (sample_chain sample_listing) 9 12)
      ReservationUnusable 0 (reservation_session [CallReserve [2] 99 399]) =
      (Ok (sample_selected, ReservationId 1), 3, s')"
    using sample_selection_reserved [of "\<lambda>k s. s"] by (auto simp: id_def)
  then have *: "build_transfer (sample_builder\<lparr>hint_of := \<lambda>ph. Err ''no''\<rparr>) parent_coin_info sample_wallet
       (sample_chain sample_listing) (HotCustody hot_wallet_default) sample_payment
       sample_reservations (\<lambda>k s. s) 0 (reservation_session [CallReserve [2] 99 399]) =
      (Err (BuildFailed (HintFailed ''no'')), 3, held_drop sample_reservations (ReservationId 1) s')"
    by (simp add: build_transfer_def sample_request_simps spends)
  have "rv_store sample_reservations = local_store"
    by (simp add: sample_reservations_def reservations_new_def)
  from failed_build_holds_nothing [OF this *] show ?thesis by (simp add: *)
qed

section \<open>A build ends, whatever the source and the store answer\<close>

lemma confirm_all_reads:
  "confirm_all_spendable_by_name cid chain t cs = (r, t') \<Longrightarrow> t' \<le> t + length cs"
proof (induction cs arbitrary: t)
  case Nil
  then show ?case by simp
next
  case (Cons c cs)
  obtain r1 t1 where one: "confirm_spendable_by_name cid chain t c = (r1, t1)" by fastforce
  have t1: "t1 = Suc t" using confirm_one_time [of cid chain t c] one by simp
  show ?case
  proof (cases r1)
    case (Ok u)
    then have "confirm_all_spendable_by_name cid chain (Suc t) cs = (r, t')"
      using Cons.prems one t1 by simp
    from Cons.IH [OF this] show ?thesis by simp
  next
    case (Err e)
    then show ?thesis using Cons.prems one t1 by simp
  qed
qed

lemma choose_inputs_at_most_twelve:
  "choose_inputs cid ph required reserved records = Ok sel \<Longrightarrow> length sel \<le> 12"
  by (auto simp: choose_inputs_eq choose_fewest_def MAX_TRANSFER_INPUT_COINS_def Let_def
      split: if_splits list.splits option.splits)

lemma select_input_coins_reads:
  assumes "select_input_coins cid chain ph required t reserved = (r, t')"
  shows "t' \<le> t + 13"
proof (cases "ask_by_puzzle_hash chain t ph False")
  case (Err e)
  then show ?thesis using assms by (simp add: select_input_coins_def)
next
  case (Ok records)
  show ?thesis
  proof (cases "choose_inputs cid ph required reserved records")
    case Err
    then show ?thesis using assms Ok by (simp add: select_input_coins_def)
  next
    case sel: (Ok selected)
    obtain cr t1 where c: "confirm_all_spendable_by_name cid chain (Suc t) selected = (cr, t1)"
      by fastforce
    have "t' = t1" using assms Ok sel c by (cases cr) (simp_all add: select_input_coins_def)
    then show ?thesis
      using confirm_all_reads [OF c] choose_inputs_at_most_twelve [OF sel] by simp
  qed
qed

lemma select_ids_reads: "select_ids cid chain ph required t ex = (r, t') \<Longrightarrow> t' \<le> t + 13"
  by (auto simp: select_ids_def split: prod.splits result.splits dest: select_input_coins_reads)

lemma acquire_reads:
  assumes step: "\<And>t ex r t'. sel t ex = (r, t') \<Longrightarrow> t' \<le> t + b"
    and "acquire rv env sel unusable n k excluded t s = (res, t', s')"
  shows "t' \<le> t + n * b"
  using assms(2)
proof (induction n arbitrary: k excluded t s)
  case 0
  then show ?case by simp
next
  case (Suc n)
  obtain r t1 where r: "sel t excluded = (r, t1)" by fastforce
  have t1: "t1 \<le> t + b" by (rule step [OF r])
  show ?case
  proof (cases "\<exists>k' ex' s1. acquire rv env sel unusable n k' ex' t1 s1 = (res, t', s')")
    case True
    then have "t' \<le> t1 + n * b" using Suc.IH by blast
    then show ?thesis using t1 by simp
  next
    case False
    then have "t' = t1"
      using Suc.prems r
      by (auto split: result.splits prod.splits reservation_error.splits)
    then show ?thesis using t1 by simp
  qed
qed

text \<open>Building a transfer always ends, and after a bounded number of questions: whatever the
  chain source answers, however the store's other users interfere and even if the store reports
  conflicts over coins it does not hold, one build makes at most 208 chain reads (sixteen attempts of
  one listing and twelve confirmations).\<close>

theorem build_reads_are_bounded:
  "fst (snd (build_transfer bld cid w chain custody request rv env t s)) \<le> t + 208"
proof -
  have sel: "fst (snd (select_and_reserve rv env MAX_RESERVATION_ATTEMPTS
      (select_ids cid chain (wk_puzzle_hash w) required) ReservationUnusable t s)) \<le> t + 208" for required
  proof -
    obtain hr s1 where h: "reservations_held rv 0 (env 0 s) = (hr, s1)" by fastforce
    show ?thesis
    proof (cases hr)
      case (Err e)
      then show ?thesis using h by (simp add: select_and_reserve_def)
    next
      case (Ok ex)
      obtain res t' s' where a: "acquire rv env (select_ids cid chain (wk_puzzle_hash w) required)
          ReservationUnusable (max 1 MAX_RESERVATION_ATTEMPTS) 1 ex t s1 = (res, t', s')"
        by (metis prod.exhaust)
      have "t' \<le> t + max 1 MAX_RESERVATION_ATTEMPTS * 13"
        by (rule acquire_reads [OF select_ids_reads a])
      then show ?thesis using h Ok a by (simp add: select_and_reserve_def MAX_RESERVATION_ATTEMPTS_def)
    qed
  qed
  show ?thesis
    using sel
    by (auto simp: build_transfer_def held_commit_def
        split: custody_policy.split result.split prod.split) (metis fst_conv snd_conv)+
qed

end
