(* ===== verification/Transfer_Outcome.thy ===== *)
theory Transfer_Outcome
  imports Transfer_Properties
begin

text \<open>
  What becomes of a transfer after it is built: replacing it at a higher fee
  (\<open>build_transfer_replacing\<close>) and judging it from chain reads (\<open>transfer_status\<close>).
\<close>

section \<open>Replacing a transfer\<close>

lemma reread_one_Ok:
  "reread_spendable_input cid chain w t i = (Ok c, t') \<longleftrightarrow>
     t' = Suc t \<and> (\<exists>r. ask_coin_record chain t i = Ok (Some r) \<and> c = rec_coin r \<and> cid c = i \<and>
       confirmed_height r \<noteq> None \<and> spent_height r = None \<and> puzzle_hash c = wk_puzzle_hash w)"
  by (auto simp: reread_spendable_input_def is_spent_def split: result.splits option.splits)

lemma reread_inputs_Ok:
  assumes "reread_inputs cid chain w t is = (Ok cs, t')"
  shows "map cid cs = is"
    and "\<forall>c \<in> set cs. \<exists>t r. ask_coin_record chain t (cid c) = Ok (Some r) \<and> rec_coin r = c \<and>
           confirmed_height r \<noteq> None \<and> spent_height r = None \<and> puzzle_hash c = wk_puzzle_hash w"
proof -
  have "map cid cs = is \<and> (\<forall>c \<in> set cs. \<exists>t r. ask_coin_record chain t (cid c) = Ok (Some r) \<and>
      rec_coin r = c \<and> confirmed_height r \<noteq> None \<and> spent_height r = None \<and>
      puzzle_hash c = wk_puzzle_hash w)"
    using assms
  proof (induction "is" arbitrary: t cs)
    case Nil
    then show ?case by simp
  next
    case (Cons i "is")
    obtain c cs1 t1 where c: "reread_spendable_input cid chain w t i = (Ok c, t1)"
      and cs1: "reread_inputs cid chain w t1 is = (Ok cs1, t')" and cs: "cs = c # cs1"
      using Cons.prems by (auto split: prod.splits result.splits)
    show ?case
      using Cons.IH [OF cs1] c unfolding cs reread_one_Ok by auto
  qed
  then show "map cid cs = is"
    and "\<forall>c \<in> set cs. \<exists>t r. ask_coin_record chain t (cid c) = Ok (Some r) \<and> rec_coin r = c \<and>
           confirmed_height r \<noteq> None \<and> spent_height r = None \<and> puzzle_hash c = wk_puzzle_hash w"
    by blast+
qed

lemma build_transfer_replacing_Ok:
  assumes "build_transfer_replacing bld cid w chain custody pending fee t = (Ok plan, t')"
  obtains hot inputs where "custody = HotCustody hot" "pt_fee pending < fee"
    "reread_inputs cid chain w t (pt_source_coin_ids pending) = (Ok inputs, t')"
    "build_transfer_spends bld cid w inputs
       \<lparr>tr_recipient = from_derived (pt_recipient pending), tr_amount = pt_amount pending, tr_fee = fee\<rparr>
       None = Ok plan"
  using assms
  by (auto simp: build_transfer_replacing_def Let_def not_le
      split: custody_policy.splits if_splits result.splits prod.splits option.splits)

lemma rereads_of_an_honest_chain:
  assumes re: "reread_inputs cid chain w t (map cid selected) = (Ok inputs, t')"
    and same: "\<forall>u i r c. ask_coin_record chain u i = Ok (Some r) \<longrightarrow> c \<in> set selected \<longrightarrow>
        cid (rec_coin r) = cid c \<longrightarrow> rec_coin r = c"
  shows "inputs = selected"
proof -
  have ids: "map cid inputs = map cid selected" by (rule reread_inputs_Ok(1) [OF re])
  then have len: "length inputs = length selected" by (metis length_map)
  moreover have "inputs ! k = selected ! k" if k: "k < length inputs" for k
  proof -
    obtain u r where "ask_coin_record chain u (cid (inputs ! k)) = Ok (Some r)"
      "rec_coin r = inputs ! k"
      using reread_inputs_Ok(2) [OF re] k nth_mem by blast
    moreover have "cid (inputs ! k) = cid (selected ! k)"
      using ids len k by (metis nth_map)
    ultimately show ?thesis using same len k nth_mem by metis
  qed
  ultimately show ?thesis by (intro nth_equalityI)
qed

text \<open>C12: A replacement conflicts with the transfer it replaces: it spends exactly the same coin ids
  in the same order, pays the same recipient the same amount through the very same payment coin id,
  holds no second reservation, and carries a strictly higher fee. Where the source does not answer
  an input's id with a different coin, the raised fee comes out of the change alone and is at most
  the ceiling the pending transfer announces.\<close>

theorem replacement_conflicts_with_the_original:
  assumes orig: "build_transfer_spends bld cid w selected request res = Ok original"
    and rep: "build_transfer_replacing bld cid w chain custody (pushed_at original peak) fee t
                = (Ok plan, t')"
  shows "tp_source_coin_ids plan = tp_source_coin_ids original \<and>
    tp_payment_coin_id plan = tp_payment_coin_id original \<and>
    tp_recipient plan = tp_recipient original \<and> tp_amount plan = tp_amount original \<and>
    tp_reservation plan = None \<and> tp_fee plan = fee \<and> tp_fee original < fee \<and>
    ((\<forall>u i r c. ask_coin_record chain u i = Ok (Some r) \<longrightarrow> c \<in> set selected \<longrightarrow>
        cid (rec_coin r) = cid c \<longrightarrow> rec_coin r = c) \<longrightarrow>
      unat fee + unat (tp_change plan) = unat (tp_fee original) + unat (tp_change original) \<and>
      fee \<le> max_replacement_fee (pushed_at original peak))"
proof -
  obtain change hint spends where o: "selected \<noteq> []"
    "unat (tr_amount request) + unat (tr_fee request) + unat change = worth selected"
    "worth selected < 2 ^ 64"
    "original = plan_of cid selected request change spends res"
    using orig unfolding build_transfer_spends_Ok by blast
  note of = o(4) [unfolded plan_of_def]
  obtain inputs where f: "tp_fee original < fee"
    and re: "reread_inputs cid chain w t (map cid selected) = (Ok inputs, t')"
    and b: "build_transfer_spends bld cid w inputs
       \<lparr>tr_recipient = from_derived (tp_recipient original), tr_amount = tp_amount original, tr_fee = fee\<rparr>
       None = Ok plan"
    using build_transfer_replacing_Ok [OF rep] of by (auto simp: pushed_at_def)
  obtain change' hint' spends' where n: "inputs \<noteq> []"
    "unat (tp_amount original) + unat fee + unat change' = worth inputs"
    "plan = plan_of cid inputs
       \<lparr>tr_recipient = from_derived (tp_recipient original), tr_amount = tp_amount original, tr_fee = fee\<rparr>
       change' spends' None"
    using b unfolding build_transfer_spends_Ok by auto
  note nf = n(3) [unfolded plan_of_def from_derived_def]
  have ids: "map cid inputs = map cid selected" by (rule reread_inputs_Ok(1) [OF re])
  then have lead: "cid (last inputs) = cid (last selected)"
    using n(1) o(1) by (metis last_map)
  have "unat fee + unat change' = unat (tr_fee request) + unat change \<and>
      fee \<le> max_replacement_fee (pushed_at original peak)"
    if same: "\<forall>u i r c. ask_coin_record chain u i = Ok (Some r) \<longrightarrow> c \<in> set selected \<longrightarrow>
        cid (rec_coin r) = cid c \<longrightarrow> rec_coin r = c"
  proof -
    have "inputs = selected" by (rule rereads_of_an_honest_chain [OF re same])
    then have eq: "unat fee + unat change' = unat (tr_fee request) + unat change"
      using n(2) o(2) of by simp
    moreover have "unat (tr_fee request + change) = unat (tr_fee request) + unat change"
      using o(2,3) by (simp add: unat_word_ariths)
    ultimately have "fee \<le> tr_fee request + change" by (simp add: word_le_nat_alt)
    then show ?thesis using eq of by (simp add: max_replacement_fee_def pushed_at_def)
  qed
  then show ?thesis using ids lead f of nf by simp
qed

definition replaceable_chain :: chain_source where
  "replaceable_chain = sample_chain [sample_record 3 7 (Some 4), sample_record 1 8 (Some 3)]"

definition sample_replacement :: "(transfer_plan, transfer_error) result \<times> nat" where
  "sample_replacement =
     build_transfer_replacing sample_builder parent_coin_info sample_wallet replaceable_chain
       (HotCustody hot_wallet_default) (pushed_at sample_plan 30) 4 0"

lemma sample_replacement_ok: "\<exists>plan. sample_replacement = (Ok plan, 2)"
  by (simp add: sample_replacement_def build_transfer_replacing_def pushed_at_def sample_plan_def
      plan_of_def sample_payment_def sample_inputs_def with_fee_def transfer_request_new_def
      from_derived_def required_total_def checked_add_def checked_sub_def ok_or_def Let_def
      reread_spendable_input_def replaceable_chain_def sample_chain_def sample_record_def
      sample_wallet_def is_spent_def build_transfer_spends_def sample_builder_def)

theorem replacement_conflicts_with_the_original_witness:
  "\<exists>plan. sample_replacement = (Ok plan, 2) \<and>
     tp_source_coin_ids plan = tp_source_coin_ids sample_plan \<and>
     tp_payment_coin_id plan = tp_payment_coin_id sample_plan \<and>
     unat (4::u64) + unat (tp_change plan) = unat (tp_fee sample_plan) + unat (tp_change sample_plan)"
proof -
  obtain plan where plan: "sample_replacement = (Ok plan, 2)" using sample_replacement_ok by blast
  have same: "\<forall>u i r c. ask_coin_record replaceable_chain u i = Ok (Some r) \<longrightarrow> c \<in> set sample_inputs \<longrightarrow>
      parent_coin_info (rec_coin r) = parent_coin_info c \<longrightarrow> rec_coin r = c"
    by (auto simp: replaceable_chain_def sample_chain_def sample_record_def sample_inputs_def
        split: if_splits)
  show ?thesis
    using replacement_conflicts_with_the_original
        [OF sample_plan_built plan [unfolded sample_replacement_def]] same plan by blast
qed

section \<open>What the chain says\<close>

lemma proof_of_death_Ok:
  assumes "proof_of_death payment is chain peak t = (Ok (Some d), t')"
  shows "\<exists>u i r h. t \<le> u \<and> i \<in> set is \<and> ask_coin_record chain u i = Ok (Some r) \<and>
    spent_height r = Some h \<and> h \<noteq> 0 \<and> unat h + 5 \<le> unat peak \<and>
    ask_coin_record chain (Suc u) payment = Ok None \<and> d = SpentElsewhere i h (burial_depth peak h)"
  using assms
proof (induction "is" arbitrary: t)
  case Nil
  then show ?case by simp
next
  case (Cons i "is")
  show ?case
  proof (cases "proof_of_death payment is chain peak (Suc t) = (Ok (Some d), t')")
    case True
    from Cons.IH [OF this] obtain u i' r h where "Suc t \<le> u" "i' \<in> set is"
      "ask_coin_record chain u i' = Ok (Some r)" "spent_height r = Some h" "h \<noteq> 0"
      "unat h + 5 \<le> unat peak" "ask_coin_record chain (Suc u) payment = Ok None"
      "d = SpentElsewhere i' h (burial_depth peak h)"
      by blast
    then show ?thesis
      by (intro exI [of _ u] exI [of _ i'] exI [of _ r] exI [of _ h]) simp
  next
    case False
    then obtain r h where r: "ask_coin_record chain t i = Ok (Some r)" "spent_height r = Some h" "h \<noteq> 0"
      "\<not> burial_depth peak h < MIN_CONFIRMATION_DEPTH" "ask_coin_record chain (Suc t) payment = Ok None"
      "d = SpentElsewhere i h (burial_depth peak h)"
      using Cons.prems
      by (auto simp: read_coin_def result_simps Option.bind_eq_Some_conv
          split: result.splits option.splits if_splits)
    then have "unat h + 5 \<le> unat peak" by (simp add: not_buried_iff)
    then show ?thesis using r by (intro exI [of _ t] exI [of _ i] exI [of _ r] exI [of _ h]) simp
  qed
qed

lemma proof_of_death_Err:
  "proof_of_death payment is chain peak t = (Err e, t') \<Longrightarrow> \<exists>why. e = ChainUnreachable why"
  by (induction "is" arbitrary: t)
     (auto simp: read_coin_def split: result.splits option.splits if_splits elim!: map_err.elims)

lemma confirmed_transfer_Some:
  "confirmed_transfer_from_confirmed cid pending r peak = Some c \<longleftrightarrow>
     (\<exists>h. cid (rec_coin r) = pt_payment_coin_id pending \<and> confirmed_height r = Some h \<and> h \<noteq> 0 \<and>
        pt_pushed_at_height pending \<le> h \<and> unat h + 5 \<le> unat peak \<and>
        c = \<lparr>ct_payment_coin_id = pt_payment_coin_id pending, ct_recipient = pt_recipient pending,
             ct_amount = pt_amount pending, ct_confirmed_height = h\<rparr>)"
  by (auto simp: confirmed_transfer_from_confirmed_def not_less not_buried_iff
      split: if_splits option.splits)

text \<open>The status, once the peak and the payment coin have been read.\<close>

lemma transfer_status_read:
  assumes "ask_peak chain t = Ok (Some peak)"
    and "ask_coin_record chain (Suc t) (pt_payment_coin_id pending) = Ok payment"
  shows "transfer_status_of cid pending chain t =
    (case Option.bind payment (\<lambda>r. confirmed_transfer_from_confirmed cid pending r peak) of
       Some c \<Rightarrow> (Ok (Confirmed c), Suc (Suc t))
     | None \<Rightarrow>
         (if payment = None
          then (case proof_of_death (pt_payment_coin_id pending) (pt_source_coin_ids pending)
                       chain peak (Suc (Suc t)) of
                  (Err e, t'') \<Rightarrow> (Err e, t'')
                | (Ok (Some reason), t'') \<Rightarrow> (Ok (Failed reason), t'')
                | (Ok None, t'') \<Rightarrow>
                    (Ok (Awaiting (saturating_sub peak (pt_pushed_at_height pending))), t''))
          else (Ok (Awaiting (saturating_sub peak (pt_pushed_at_height pending))), Suc (Suc t))))"
  using assms
  by (simp add: transfer_status_of_def peak_height_def read_coin_def Let_def split: option.split)

text \<open>What each answer of the status rests on: the two reads every answer begins with, then its own.\<close>

lemma transfer_status_cases:
  assumes "transfer_status_of cid pending chain t = (res, t')"
  obtains (unread) why where "res = Err (ChainUnreachable why)"
  | (read) peak payment where "ask_peak chain t = Ok (Some peak)"
      "ask_coin_record chain (Suc t) (pt_payment_coin_id pending) = Ok payment"
  using assms
  by (auto simp: transfer_status_of_def peak_height_def read_coin_def
      split: result.splits option.splits if_splits prod.splits elim!: map_err.elims)

lemma absent_payment_verdict:
  assumes read: "ask_peak chain t = Ok (Some peak)"
      "ask_coin_record chain (Suc t) (pt_payment_coin_id pending) = Ok None"
    and st: "transfer_status_of cid pending chain t = (res, t')"
  shows "case res of
      Ok (Confirmed c) \<Rightarrow> False
    | Ok (Failed d) \<Rightarrow>
       \<exists>u i r h. Suc t < u \<and> i \<in> set (pt_source_coin_ids pending) \<and>
         ask_coin_record chain u i = Ok (Some r) \<and> spent_height r = Some h \<and> h \<noteq> 0 \<and>
         unat h + 5 \<le> unat peak \<and>
         ask_coin_record chain (Suc u) (pt_payment_coin_id pending) = Ok None \<and>
         d = SpentElsewhere i h (burial_depth peak h)
    | Ok (Awaiting n) \<Rightarrow> n = saturating_sub peak (pt_pushed_at_height pending)
    | Err e \<Rightarrow> \<exists>why. e = ChainUnreachable why"
proof -
  obtain dr t2 where d: "proof_of_death (pt_payment_coin_id pending) (pt_source_coin_ids pending) chain peak
      (Suc (Suc t)) = (dr, t2)" by fastforce
  show ?thesis
  proof (cases "dr = Ok None \<or> (\<exists>e. dr = Err e)")
    case True
    then show ?thesis using st d proof_of_death_Err transfer_status_read [OF read, of cid] by auto
  next
    case False
    then obtain reason where v: "dr = Ok (Some reason)" by (cases dr) auto
    obtain u i r h where "Suc (Suc t) \<le> u" "i \<in> set (pt_source_coin_ids pending)"
      "ask_coin_record chain u i = Ok (Some r)" "spent_height r = Some h" "h \<noteq> 0"
      "unat h + 5 \<le> unat peak" "ask_coin_record chain (Suc u) (pt_payment_coin_id pending) = Ok None"
      "reason = SpentElsewhere i h (burial_depth peak h)"
      using proof_of_death_Ok d v by blast
    then show ?thesis
      using st transfer_status_read [OF read, of cid] d v
      by (auto intro!: exI [of _ u] exI [of _ i] exI [of _ r] exI [of _ h])
  qed
qed

text \<open>C13: The three verdicts on a pushed transfer are each exactly earned. Confirmed: the source
  showed the very payment coin, at a non-genesis height not before the push and under at least six
  blocks, and the record names the recipient and amount that were built. Failed: the payment coin was
  absent when asked for and absent again after one of the transfer's own inputs had been shown spent
  at a non-genesis height under at least six blocks. Awaiting: the payment record, if any, is not
  such evidence. The only error is that the chain could not be read.\<close>

theorem transfer_verdicts_are_earned:
  "case transfer_status_of cid pending chain t of
     (Ok (Confirmed c), _) \<Rightarrow>
       \<exists>peak r h. ask_peak chain t = Ok (Some peak) \<and>
         ask_coin_record chain (Suc t) (pt_payment_coin_id pending) = Ok (Some r) \<and>
         cid (rec_coin r) = pt_payment_coin_id pending \<and> confirmed_height r = Some h \<and>
         h \<noteq> 0 \<and> pt_pushed_at_height pending \<le> h \<and> unat h + 5 \<le> unat peak \<and>
         c = \<lparr>ct_payment_coin_id = pt_payment_coin_id pending, ct_recipient = pt_recipient pending,
              ct_amount = pt_amount pending, ct_confirmed_height = h\<rparr>
   | (Ok (Failed d), _) \<Rightarrow>
       \<exists>peak u i r h. ask_peak chain t = Ok (Some peak) \<and>
         ask_coin_record chain (Suc t) (pt_payment_coin_id pending) = Ok None \<and>
         Suc t < u \<and> i \<in> set (pt_source_coin_ids pending) \<and>
         ask_coin_record chain u i = Ok (Some r) \<and> spent_height r = Some h \<and> h \<noteq> 0 \<and>
         unat h + 5 \<le> unat peak \<and>
         ask_coin_record chain (Suc u) (pt_payment_coin_id pending) = Ok None \<and>
         d = SpentElsewhere i h (burial_depth peak h)
   | (Ok (Awaiting n), _) \<Rightarrow>
       \<exists>peak payment. ask_peak chain t = Ok (Some peak) \<and>
         ask_coin_record chain (Suc t) (pt_payment_coin_id pending) = Ok payment \<and>
         Option.bind payment (\<lambda>r. confirmed_transfer_from_confirmed cid pending r peak) = None \<and>
         unat n = unat peak - unat (pt_pushed_at_height pending)
   | (Err e, _) \<Rightarrow> \<exists>why. e = ChainUnreachable why"
proof -
  obtain res t' where st: "transfer_status_of cid pending chain t = (res, t')" by fastforce
  show ?thesis
  proof (cases rule: transfer_status_cases [OF st, case_names unread read])
    case (unread why)
    then show ?thesis using st by simp
  next
    case (read peak payment)
    note waiting = unat_saturating_sub [of peak "pt_pushed_at_height pending"]
    show ?thesis
    proof (cases payment)
      case None
      show ?thesis
        using absent_payment_verdict [OF read(1) _ st] read None st waiting
        by (auto split: result.splits transfer_status.splits)
    next
      case (Some r)
      show ?thesis
      proof (cases "confirmed_transfer_from_confirmed cid pending r peak")
        case None
        then show ?thesis using transfer_status_read [OF read, of cid] Some read waiting by simp
      next
        case found: (Some c)
        then obtain h where "confirmed_height r = Some h" "cid (rec_coin r) = pt_payment_coin_id pending"
          "h \<noteq> 0" "pt_pushed_at_height pending \<le> h" "unat h + 5 \<le> unat peak"
          "c = \<lparr>ct_payment_coin_id = pt_payment_coin_id pending, ct_recipient = pt_recipient pending,
                ct_amount = pt_amount pending, ct_confirmed_height = h\<rparr>"
          unfolding confirmed_transfer_Some by blast
        then show ?thesis using transfer_status_read [OF read, of cid] Some found read by simp
      qed
    qed
  qed
qed

text \<open>Confirmation is stable: once a read pair confirms a transfer, any later pair with the same
  record of the payment coin and a peak at least as high confirms it with the same evidence.\<close>

theorem confirmation_is_stable:
  assumes "transfer_status_of cid pending chain t = (Ok (Confirmed c), t1)"
    and "ask_coin_record chain (Suc t) (pt_payment_coin_id pending) = Ok (Some r)"
    and "ask_coin_record chain (Suc u) (pt_payment_coin_id pending) = Ok (Some r)"
    and "ask_peak chain t = Ok (Some peak)" and "ask_peak chain u = Ok (Some peak')"
    and "peak \<le> peak'"
  shows "transfer_status_of cid pending chain u = (Ok (Confirmed c), Suc (Suc u))"
proof -
  have "confirmed_transfer_from_confirmed cid pending r peak = Some c"
    using assms(1) transfer_status_read [OF assms(4,2), of cid]
    by (auto split: option.splits result.splits prod.splits if_splits)
  then have "confirmed_transfer_from_confirmed cid pending r peak' = Some c"
    by (rule settled.evidence_stable [OF _ assms(6)])
  then show ?thesis by (simp add: transfer_status_read [OF assms(5,3)])
qed

theorem confirmation_is_stable_witness:
  "fst (transfer_status_of parent_coin_info
     \<lparr>pt_payment_coin_id = 3, pt_source_coin_ids = [1], pt_recipient = 9, pt_amount = 7, pt_fee = 0,
      pt_change = 0, pt_input_total = 7, pt_pushed_at_height = 2\<rparr> (sample_chain sample_listing) 5)
   = Ok (Confirmed \<lparr>ct_payment_coin_id = 3, ct_recipient = 9, ct_amount = 7, ct_confirmed_height = 4\<rparr>)"
proof -
  let ?p = "\<lparr>pt_payment_coin_id = 3, pt_source_coin_ids = [1], pt_recipient = 9, pt_amount = 7, pt_fee = 0,
      pt_change = 0, pt_input_total = 7, pt_pushed_at_height = 2\<rparr>"
  have first: "transfer_status_of parent_coin_info ?p (sample_chain sample_listing) 0 =
      (Ok (Confirmed \<lparr>ct_payment_coin_id = 3, ct_recipient = 9, ct_amount = 7, ct_confirmed_height = 4\<rparr>), 2)"
    by (simp add: transfer_status_of_def peak_height_def read_coin_def sample_chain_simps
        confirmed_transfer_from_confirmed_def burial_depth_def saturating_add_def saturating_sub_def
        MIN_CONFIRMATION_DEPTH_def Let_def)
  have reads: "ask_coin_record (sample_chain sample_listing) n 3 = Ok (Some (sample_record 3 7 (Some 4)))"
    "ask_peak (sample_chain sample_listing) n = Ok (Some 40)" for n
    by (simp_all add: sample_chain_simps)
  show ?thesis
    using confirmation_is_stable [OF first, of "sample_record 3 7 (Some 4)" 5 40 40] reads by simp
qed

end
