(* ===== verification/Transfer_Summary.thy ===== *)
theory Transfer_Summary
  imports Transfer_Properties
begin

text \<open>
  The transfer builder against the custody summary: what \<open>src/wallet/summary.rs\<close> derives from
  the coin spends that \<open>src/wallet/transfer.rs\<close> built.
\<close>

section \<open>What the gate derives from a built transfer\<close>

fun outputs_of :: "condition list \<Rightarrow> decoded_output list" where
  "outputs_of [] = []"
| "outputs_of (CreateCoin ph n _ # cs) =
     \<lparr>out_puzzle_hash = ph, out_amount = n, out_asset = None\<rparr> # outputs_of cs"
| "outputs_of (_ # cs) = outputs_of cs"

text \<open>
  What the driver's re-parse documents of bare standard spends: every created coin is an output, the
  fee is what the inputs exceed the outputs by, and nothing is destroyed or transferred.
\<close>

definition standard_effect :: "(coin \<times> condition list) list \<Rightarrow> 'n spend_effect" where
  "standard_effect ins =
     \<lparr>eff_outputs = concat (map (outputs_of \<circ> snd) ins), eff_protocol_sink = [],
      eff_fee = of_nat (worth (map fst ins) - (\<Sum>(c, conds)\<leftarrow>ins. created conds)),
      eff_melted = [], eff_nft_operations = []\<rparr>"

lemma outputs_of_lead:
  "outputs_of (lead_conditions w request hint change alone) =
     \<lparr>out_puzzle_hash = recipient_of request, out_amount = tr_amount request, out_asset = None\<rparr> #
     (if 0 < change then [\<lparr>out_puzzle_hash = wk_puzzle_hash w, out_amount = change, out_asset = None\<rparr>]
      else [])"
  by (simp add: lead_conditions_def)

lemma outputs_of_transfer:
  "concat (map (outputs_of \<circ> snd) (transfer_inputs bld cid w selected request hint change)) =
     outputs_of (lead_conditions w request hint change (butlast selected = []))"
  by (simp add: transfer_inputs_def comp_def concat_eq_Nil_conv)

lemma map_Ok_pointwise:
  assumes "map f xs = map Ok ys" and "\<And>x y. x \<in> set xs \<Longrightarrow> f x = Ok y \<Longrightarrow> P x y"
  shows "list_all2 P xs ys"
proof (rule list_all2_all_nthI)
  show len: "length xs = length ys" using assms(1) by (metis length_map)
  fix k
  assume "k < length xs"
  moreover from this have "f (xs ! k) = Ok (ys ! k)"
    using assms(1) len by (metis nth_map)
  ultimately show "P (xs ! k) (ys ! k)" using assms(2) by simp
qed

lemma spends_back_to_the_wallet:
  assumes made: "list_all2 (\<lambda>(c, conds) s. spent_coin s = c \<and>
      p2_curry drv (puzzle_reveal s) = Some p) ins ss"
    and "mset (map fst ins) = mset selected" and "selected \<noteq> []"
    and own: "\<forall>c \<in> set selected. puzzle_hash c = p"
  shows "map spent_coin ss = map fst ins" and "set (p2_destinations drv ss) = {p}"
proof -
  show coins: "map spent_coin ss = map fst ins"
    using made by (induction rule: list_all2_induct) auto
  have "\<forall>s \<in> set ss. p2_curry drv (puzzle_reveal s) = Some p"
    using made by (induction rule: list_all2_induct) auto
  moreover have "spent_coin ` set ss = set selected"
    using assms(2) coins by (metis list.set_map mset_eq_setD)
  then have "\<forall>s \<in> set ss. puzzle_hash (spent_coin s) = p" and "ss \<noteq> []"
    using assms(3) own by auto
  ultimately show "set (p2_destinations drv ss) = {p}"
    by (cases ss) (auto simp: p2_destinations_iff)
qed

lemma derive_effect_of_standard:
  assumes "analyze drv ss = Ok e" and "map spent_coin ss = map fst ins"
    and "worth (map fst ins) < 2 ^ 64"
  shows "derive_effect drv ss = Ok e"
proof -
  obtain n where "checked_sum 0 (map amount (map spent_coin ss)) = Some n"
    using checked_worth_None [of "map spent_coin ss"] assms(2,3)
    by (cases "checked_sum 0 (map amount (map spent_coin ss))") auto
  then show ?thesis using assms(1) by (simp add: derive_effect_def comp_def ok_or_def)
qed

lemma derive_spend_of_a_payment:
  assumes effect: "derive_effect drv ss = Ok e"
    and outs: "filter (\<lambda>out. out_puzzle_hash out \<notin> set (p2_destinations drv ss)) (eff_outputs e) =
      [\<lparr>out_puzzle_hash = dest, out_amount = paid, out_asset = None\<rparr>]"
    and rest: "eff_protocol_sink e = []" "eff_fee e = fee" "eff_melted e = []"
      "eff_nft_operations e = []"
    and sum: "checked_add paid fee = Some out"
  shows "derive_spend drv ss policy = Ok \<lparr>ds_summary = \<lparr>sm_tier = classify policy out,
      sm_recipients = [address_line drv \<lparr>out_puzzle_hash = dest, out_amount = paid, out_asset = None\<rparr>],
      sm_fee = fee, sm_melted = [], sm_nft_operations = []\<rparr>, ds_native_total = out\<rparr>"
proof -
  define sm where "sm = \<lparr>sm_tier = Confirm,
      sm_recipients = [address_line drv \<lparr>out_puzzle_hash = dest, out_amount = paid, out_asset = None\<rparr>],
      sm_fee = fee, sm_melted = [], sm_nft_operations = []\<rparr>"
  have "summary_from_effect drv e ss Confirm = Ok sm"
    using outs rest by (simp add: summary_from_effect_def Let_def sm_def)
  moreover have "checked_native_total_mojos sm = Ok out"
    unfolding native_total_exact using checked_add_unat [OF sum] by (simp add: sm_def)
  ultimately show ?thesis
    using effect by (simp add: derive_spend_def Let_def sm_def
        moves_non_native_assets_def destroys_singletons_def moves_nfts_def)
qed

text \<open>The summary that shows a request and nothing else.\<close>

definition payment_summary :: "'n spend_driver \<Rightarrow> spend_tier \<Rightarrow> transfer_request \<Rightarrow> spend_summary" where
  "payment_summary drv tier request =
     \<lparr>sm_tier = tier,
      sm_recipients = [address_line drv \<lparr>out_puzzle_hash = recipient_of request,
                         out_amount = tr_amount request, out_asset = None\<rparr>],
      sm_fee = tr_fee request, sm_melted = [], sm_nft_operations = []\<rparr>"

lemma built_transfer_derived:
  assumes built: "build_transfer_spends bld cid w selected request res = Ok plan"
    and other: "recipient_of request \<noteq> wk_puzzle_hash w"
    and own: "\<forall>c \<in> set selected. puzzle_hash c = wk_puzzle_hash w"
    and spends: "\<And>c conds s. standard_spend bld (wk_public_key w) c conds = Ok s \<Longrightarrow>
        spent_coin s = c \<and> p2_curry drv (puzzle_reveal s) = Some (wk_puzzle_hash w)"
    and hint: "hint_of bld (recipient_of request) = Ok hint"
    and reads: "analyze drv (tp_coin_spends plan) =
        Ok (standard_effect (transfer_inputs bld cid w selected request hint (tp_change plan)))"
  shows "checked_add (tr_amount request) (tr_fee request) = Some (tr_amount request + tr_fee request)"
    and "mset (map spent_coin (tp_coin_spends plan)) = mset selected"
    and "derive_spend drv (tp_coin_spends plan) policy = Ok \<lparr>ds_summary = payment_summary drv
        (classify policy (tr_amount request + tr_fee request)) request,
      ds_native_total = tr_amount request + tr_fee request\<rparr>"
proof -
  obtain change ss where *: "selected \<noteq> []"
    "unat (tr_amount request) + unat (tr_fee request) + unat change = worth selected"
    "worth selected < 2 ^ 64"
    and sp: "map (\<lambda>(c, conds). standard_spend bld (wk_public_key w) c conds)
       (transfer_inputs bld cid w selected request hint change) = map Ok ss"
    and plan: "plan = plan_of cid selected request change ss res"
    using built hint unfolding build_transfer_spends_Ok by auto
  define ins where "ins = transfer_inputs bld cid w selected request hint change"
  note cons = transfer_inputs_conserve [OF *(1,2) refl, of bld cid w hint, folded ins_def]
  have fields: "tp_coin_spends plan = ss" "tp_change plan = change" by (simp_all add: plan plan_of_def)
  have l2: "list_all2 (\<lambda>(c, conds) s. spent_coin s = c \<and>
      p2_curry drv (puzzle_reveal s) = Some (wk_puzzle_hash w)) ins ss"
    by (rule map_Ok_pointwise [OF sp [folded ins_def]]) (auto dest: spends)
  note built_for_wallet = spends_back_to_the_wallet [OF this cons(1) *(1) own]
  have worth_in: "worth (map fst ins) = worth selected" by (rule worth_mset [OF cons(1)])
  then have "worth (map fst ins) - (\<Sum>(c, conds)\<leftarrow>ins. created conds) = unat (tr_fee request)"
    using cons(2,3) by linarith
  then have fee: "eff_fee (standard_effect ins) = tr_fee request"
    unfolding standard_effect_def by (simp del: of_nat_diff)
  have outs: "filter (\<lambda>out. out_puzzle_hash out \<notin> set (p2_destinations drv ss))
      (eff_outputs (standard_effect ins)) =
      [\<lparr>out_puzzle_hash = recipient_of request, out_amount = tr_amount request, out_asset = None\<rparr>]"
    using other by (simp add: standard_effect_def ins_def outputs_of_transfer outputs_of_lead
        built_for_wallet(2))
  have eff: "derive_effect drv ss = Ok (standard_effect ins)"
    using reads *(3) worth_in
    by (intro derive_effect_of_standard [OF _ built_for_wallet(1)]) (simp_all add: fields ins_def)
  show add: "checked_add (tr_amount request) (tr_fee request) = Some (tr_amount request + tr_fee request)"
    using *(2,3) by (simp add: checked_add_def)
  show "mset (map spent_coin (tp_coin_spends plan)) = mset selected"
    using cons(1) built_for_wallet(1) by (simp add: fields)
  show "derive_spend drv (tp_coin_spends plan) policy = Ok \<lparr>ds_summary = payment_summary drv
        (classify policy (tr_amount request + tr_fee request)) request,
      ds_native_total = tr_amount request + tr_fee request\<rparr>"
    using derive_spend_of_a_payment [OF eff outs _ fee _ _ add, of policy]
    by (simp add: fields standard_effect_def payment_summary_def)
qed

text \<open>C8: What the gate and the human see of a built transfer is the request: derived from its coin
  spends alone, the summary has exactly one recipient line, the requested amount to the requested
  destination, and exactly the requested fee, the change excluded because it returns to the puzzle
  being spent; nothing is destroyed and no NFT moves; and the total every mojo limit is judged on is
  exactly amount plus fee. Assumed of the drivers: a standard spend spends the coin it was given
  under the wallet's own standard puzzle, and the re-parse reads standard spends as documented.\<close>

theorem transfer_is_judged_as_requested:
  assumes built: "build_transfer_spends bld cid w selected request res = Ok plan"
    and other: "recipient_of request \<noteq> wk_puzzle_hash w"
    and own: "\<forall>c \<in> set selected. puzzle_hash c = wk_puzzle_hash w"
    and spends: "\<And>c conds s. standard_spend bld (wk_public_key w) c conds = Ok s \<Longrightarrow>
        spent_coin s = c \<and> p2_curry drv (puzzle_reveal s) = Some (wk_puzzle_hash w)"
    and hint: "hint_of bld (recipient_of request) = Ok hint"
    and reads: "analyze drv (tp_coin_spends plan) =
        Ok (standard_effect (transfer_inputs bld cid w selected request hint (tp_change plan)))"
  shows "\<exists>d. derive_spend drv (tp_coin_spends plan) policy = Ok d \<and>
     required_total request = Ok (ds_native_total d) \<and>
     sm_tier (ds_summary d) = classify policy (ds_native_total d) \<and>
     sm_recipients (ds_summary d) =
       [address_line drv \<lparr>out_puzzle_hash = recipient_of request, out_amount = tr_amount request,
                         out_asset = None\<rparr>] \<and>
     sm_fee (ds_summary d) = tr_fee request \<and>
     sm_melted (ds_summary d) = [] \<and> sm_nft_operations (ds_summary d) = []"
proof -
  note derived = built_transfer_derived [OF built other own spends hint reads]
  show ?thesis
    using derived(1) derived(3) [where policy = policy]
    by (simp add: required_total_def ok_or_def payment_summary_def)
qed

definition reading_driver :: "coin_spend list \<Rightarrow> unit spend_effect \<Rightarrow> unit spend_driver" where
  "reading_driver spends e =
     \<lparr>analyze = (\<lambda>ss. if ss = spends then Ok e else Err ''unaccountable''),
      describe = (\<lambda>_. Err ''no act''), p2_curry = (\<lambda>b. Some 9),
      encode_address = (\<lambda>ph p. Ok ''xch1''), decode_address = (\<lambda>a. Ok (77, ''xch'')),
      hex = (\<lambda>_. ''00''), settlement_hash = 1, launcher_hash = 2\<rparr>"

theorem transfer_is_judged_as_requested_witness:
  "\<exists>d. derive_spend
      (reading_driver (tp_coin_spends sample_plan)
        (standard_effect (transfer_inputs sample_builder parent_coin_info sample_wallet sample_inputs
           sample_payment [] (tp_change sample_plan))))
      (tp_coin_spends sample_plan) (HotCustody \<lparr>auto_send_limit = 12\<rparr>) = Ok d \<and>
    ds_native_total d = 12 \<and> sm_tier (ds_summary d) = AutoSend"
proof -
  let ?drv = "reading_driver (tp_coin_spends sample_plan)
        (standard_effect (transfer_inputs sample_builder parent_coin_info sample_wallet sample_inputs
           sample_payment [] (tp_change sample_plan)))"
  have "recipient_of sample_payment \<noteq> wk_puzzle_hash sample_wallet"
    by (simp add: sample_request_simps)
  moreover have "\<forall>c \<in> set sample_inputs. puzzle_hash c = wk_puzzle_hash sample_wallet"
    by (simp add: sample_inputs_def sample_record_def sample_wallet_def)
  moreover have "spent_coin s = c \<and> p2_curry ?drv (puzzle_reveal s) = Some (wk_puzzle_hash sample_wallet)"
    if "standard_spend sample_builder (wk_public_key sample_wallet) c conds = Ok s" for c conds s
    using that by (auto simp: sample_builder_def reading_driver_def sample_wallet_def)
  moreover have "hint_of sample_builder (recipient_of sample_payment) = Ok []"
    by (simp add: sample_builder_def)
  moreover have "analyze ?drv (tp_coin_spends sample_plan) =
      Ok (standard_effect (transfer_inputs sample_builder parent_coin_info sample_wallet sample_inputs
           sample_payment [] (tp_change sample_plan)))"
    by (simp add: reading_driver_def)
  ultimately show ?thesis
    using transfer_is_judged_as_requested [OF sample_plan_built, where drv = ?drv and hint = "[]"
        and policy = "HotCustody \<lparr>auto_send_limit = 12\<rparr>"]
    by (auto simp: sample_request_simps)
qed

end
