(* ===== verification/Cat_Transfer.thy ===== *)
theory Cat_Transfer
  imports Transfer_Properties
begin

text \<open>
  The $DIG (CAT) transfer (\<open>src/wallet/cat_transfer.rs\<close>): selecting and reserving the asset leg
  and the XCH fee leg as one, proving each input's lineage from its parent spend, building the ring
  and the fee spend, and listing a wallet's CAT coins.

  The CAT drivers of \<open>chia-wallet-sdk\<close> and the CLVM decoder are the record \<open>cat_driver\<close>;
  the parent-spend read of the chain source is an argument of its own. \<open>'v\<close> is the driver's type
  of decoded CLVM nodes and \<open>'p\<close> of inner spends.
\<close>

section \<open>The drivers\<close>

record cat =
  cat_coin :: coin
  cat_asset_id :: bytes32

record ('v, 'p) cat_driver =
  curried_hash :: "bytes32 \<Rightarrow> bytes32 \<Rightarrow> bytes32"
  decode_node :: "byte list \<Rightarrow> ('v, string) result"
  parse_children :: "coin \<Rightarrow> 'v \<Rightarrow> 'v \<Rightarrow> (cat list option, string) result"
  inner_spend :: "byte list \<Rightarrow> condition list \<Rightarrow> ('p, string) result"
  spend_all :: "(cat \<times> 'p) list \<Rightarrow> (coin_spend list, string) result"
  dig_asset :: bytes32

type_synonym parent_reads = "nat \<Rightarrow> bytes32 \<Rightarrow> (coin_spend option, string) result"

definition DIG_BASE_UNITS_PER_TOKEN :: u64 where
  "DIG_BASE_UNITS_PER_TOKEN = 1000"

definition MAX_CAT_TRANSFER_INPUT_COINS :: nat where
  "MAX_CAT_TRANSFER_INPUT_COINS = MAX_TRANSFER_INPUT_COINS"

definition MAX_LISTED_CAT_COINS :: nat where
  "MAX_LISTED_CAT_COINS = 64"

definition FEE_BINDING_MESSAGE :: string where
  "FEE_BINDING_MESSAGE = ''dig-account:cat-transfer''"

section \<open>Errors\<close>

datatype unprovable =
    ParentUnknown
  | RevealUndecodable string
  | SolutionUndecodable string
  | ParentUnparsable string
  | ParentNotCat
  | NotAChild
  | OtherAsset bytes32 bytes32

datatype cat_build_reason =
    NoCats
  | CatsOverflow
  | CatsDoNotCover
  | RecipientHintFailed string
  | ChangeHintFailed string
  | CatInputFailed nat string
  | RingFailed string
  | FeeCoinsOverflow
  | FeeCoinsDoNotCover
  | FeeInputFailed nat string

datatype cat_error =
    InsufficientDig u64 u64
  | CatCoinsReserved u64 u64 u64
  | CatReservationUnusable reservation_error
  | TooManyCatInputs nat nat
  | NoXchForFee u64 u64
  | CatSelfPayment
  | CatZeroAmount
  | CatVaultUnsupported
  | CatBalanceUnjudgeable
  | LineageUnavailable bytes32 unprovable
  | CatChainUnreachable unreachable_reason
  | CatBuildFailed cat_build_reason
  | CatLocked

definition cat_error_from :: "unconfirmed_input \<Rightarrow> cat_error" where
  "cat_error_from u = CatChainUnreachable (InputUnconfirmed u)"

section \<open>Request and plan\<close>

record cat_request =
  cr_recipient :: payable_destination
  cr_amount :: u64
  cr_fee :: u64

definition cat_request_new :: "payable_destination \<Rightarrow> u64 \<Rightarrow> cat_request" where
  "cat_request_new d n = \<lparr>cr_recipient = d, cr_amount = n, cr_fee = 0\<rparr>"

definition with_fee_mojos :: "u64 \<Rightarrow> cat_request \<Rightarrow> cat_request" where
  "with_fee_mojos fee r = r\<lparr>cr_fee := fee\<rparr>"

record cat_plan =
  cp_coin_spends :: "coin_spend list"
  cp_dig_source_coin_ids :: "bytes32 list"
  cp_xch_source_coin_ids :: "bytes32 list"
  cp_recipient :: bytes32
  cp_amount :: u64
  cp_fee :: u64
  cp_change :: u64
  cp_reservation :: "reservation_id option"

definition dig_curried_puzzle_hash :: "('v, 'p) cat_driver \<Rightarrow> bytes32 \<Rightarrow> bytes32" where
  "dig_curried_puzzle_hash d ph = curried_hash d (dig_asset d) ph"

text \<open>\<open>amount_in_dig\<close>: whole tokens and the remaining base units.\<close>

definition amount_in_dig :: "u64 \<Rightarrow> u64 \<times> u64" where
  "amount_in_dig n = (n div DIG_BASE_UNITS_PER_TOKEN, n mod DIG_BASE_UNITS_PER_TOKEN)"

section \<open>Selecting the asset leg\<close>

record cat_judged =
  cj_seen :: "bytes32 list"
  cj_spendable :: "coin list"

definition judge_cat_record :: "(coin \<Rightarrow> bytes32) \<Rightarrow> bytes32 \<Rightarrow> coin_record \<Rightarrow> cat_judged \<Rightarrow> cat_judged" where
  "judge_cat_record cid ph r j =
     (if is_spent r \<or> confirmed_height r = None then j
      else if puzzle_hash (rec_coin r) \<noteq> ph then j
      else if cid (rec_coin r) \<in> set (cj_seen j) then j
      else j\<lparr>cj_seen := cid (rec_coin r) # cj_seen j, cj_spendable := cj_spendable j @ [rec_coin r]\<rparr>)"

definition judge_cat_listing :: "(coin \<Rightarrow> bytes32) \<Rightarrow> bytes32 \<Rightarrow> coin_record list \<Rightarrow> coin list" where
  "judge_cat_listing cid ph records =
     cj_spendable (fold (judge_cat_record cid ph) records \<lparr>cj_seen = [], cj_spendable = []\<rparr>)"

definition choose_fewest_cats :: "u64 \<Rightarrow> coin list \<Rightarrow> (coin list, cat_error) result" where
  "choose_fewest_cats required spendable =
     (case find (\<lambda>c. required \<le> amount c) spendable of
        Some single \<Rightarrow> Ok [single]
      | None \<Rightarrow>
          (let selected = largest_first required 0 (rev spendable) in
           if MAX_CAT_TRANSFER_INPUT_COINS < length selected
           then Err (TooManyCatInputs (length selected) MAX_CAT_TRANSFER_INPUT_COINS)
           else Ok selected))"

definition choose_cats ::
  "(coin \<Rightarrow> bytes32) \<Rightarrow> bytes32 \<Rightarrow> u64 \<Rightarrow> bytes32 list \<Rightarrow> coin_record list \<Rightarrow>
     (coin list, cat_error) result"
where
  "choose_cats cid ph required reserved records =
     (let spendable = sort_key (\<lambda>c. (amount c, cid c)) (judge_cat_listing cid ph records)
      in and_then (ok_or CatBalanceUnjudgeable (checked_sum 0 (map amount spendable))) (\<lambda>available.
         if available < required then Err (InsufficientDig required available)
         else
           let free = filter (\<lambda>c. cid c \<notin> set reserved) spendable
           in and_then (ok_or CatBalanceUnjudgeable (checked_sum 0 (map amount free))) (\<lambda>selectable.
              if selectable < required then Err (CatCoinsReserved required available selectable)
              else choose_fewest_cats required free)))"

definition confirm_choice ::
  "(coin \<Rightarrow> bytes32) \<Rightarrow> chain_source \<Rightarrow> nat \<Rightarrow> coin list \<Rightarrow> (coin list, cat_error) result \<times> nat" where
  "confirm_choice cid chain t chosen =
     (case confirm_all_spendable_by_name cid chain t chosen of
        (Err u, t') \<Rightarrow> (Err (cat_error_from u), t')
      | (Ok _, t') \<Rightarrow> (Ok chosen, t'))"

definition select_cat_coins ::
  "(coin \<Rightarrow> bytes32) \<Rightarrow> ('v, 'p) cat_driver \<Rightarrow> chain_source \<Rightarrow> bytes32 \<Rightarrow> bytes32 \<Rightarrow> u64 \<Rightarrow> nat \<Rightarrow>
     bytes32 list \<Rightarrow> (coin list, cat_error) result \<times> nat"
where
  "select_cat_coins cid d chain asset p2 required t reserved =
     (let ph = curried_hash d asset p2 in
      case ask_by_puzzle_hash chain t ph False of
        Err e \<Rightarrow> (Err (CatChainUnreachable (ChainError e)), Suc t)
      | Ok records \<Rightarrow>
          (case choose_cats cid ph required reserved records of
             Err e \<Rightarrow> (Err e, Suc t)
           | Ok chosen \<Rightarrow> confirm_choice cid chain (Suc t) chosen))"

section \<open>Selecting the fee leg\<close>

definition choose_fee_coin ::
  "(coin \<Rightarrow> bytes32) \<Rightarrow> bytes32 \<Rightarrow> u64 \<Rightarrow> bytes32 list \<Rightarrow> coin_record list \<Rightarrow> (coin, cat_error) result" where
  "choose_fee_coin cid ph fee reserved records =
     (let listed = judge_cat_listing cid ph records
      in and_then (ok_or CatBalanceUnjudgeable (checked_sum 0 (map amount listed))) (\<lambda>available.
         let spendable = sort_key (\<lambda>c. (amount c, cid c)) listed;
             owns_a_covering_coin = list_ex (\<lambda>c. fee \<le> amount c) spendable;
             free = filter (\<lambda>c. cid c \<notin> set reserved) spendable
         in and_then (ok_or CatBalanceUnjudgeable (checked_sum 0 (map amount free))) (\<lambda>selectable.
            case find (\<lambda>c. fee \<le> amount c) free of
              Some c \<Rightarrow> Ok c
            | None \<Rightarrow>
                if owns_a_covering_coin then Err (CatCoinsReserved fee available selectable)
                else Err (NoXchForFee fee available))))"

definition select_fee_coins ::
  "(coin \<Rightarrow> bytes32) \<Rightarrow> chain_source \<Rightarrow> bytes32 \<Rightarrow> u64 \<Rightarrow> nat \<Rightarrow> bytes32 list \<Rightarrow>
     (coin list, cat_error) result \<times> nat"
where
  "select_fee_coins cid chain p2 fee t reserved =
     (if fee = 0 then (Ok [], t)
      else case ask_by_puzzle_hash chain t p2 False of
        Err e \<Rightarrow> (Err (CatChainUnreachable (ChainError e)), Suc t)
      | Ok records \<Rightarrow>
          (case choose_fee_coin cid p2 fee reserved records of
             Err e \<Rightarrow> (Err e, Suc t)
           | Ok c \<Rightarrow> confirm_choice cid chain (Suc t) [c]))"

definition select_both_legs ::
  "(coin \<Rightarrow> bytes32) \<Rightarrow> ('v, 'p) cat_driver \<Rightarrow> chain_source \<Rightarrow> bytes32 \<Rightarrow> bytes32 \<Rightarrow> cat_request \<Rightarrow>
     nat \<Rightarrow> bytes32 list \<Rightarrow> ((coin list \<times> coin list) \<times> bytes32 list, cat_error) result \<times> nat"
where
  "select_both_legs cid d chain asset p2 request t excluded =
     (case select_cat_coins cid d chain asset p2 (cr_amount request) t excluded of
        (Err e, t') \<Rightarrow> (Err e, t')
      | (Ok cats, t') \<Rightarrow>
          (case select_fee_coins cid chain p2 (cr_fee request) t' excluded of
             (Err e, t'') \<Rightarrow> (Err e, t'')
           | (Ok fees, t'') \<Rightarrow> (Ok ((cats, fees), map cid cats @ map cid fees), t'')))"

section \<open>Lineage\<close>

definition resolve_one ::
  "(coin \<Rightarrow> bytes32) \<Rightarrow> ('v, 'p) cat_driver \<Rightarrow> parent_reads \<Rightarrow> bytes32 \<Rightarrow> nat \<Rightarrow> coin \<Rightarrow>
     (cat, cat_error) result"
where
  "resolve_one cid d parents asset t c =
     (let unprovable = (\<lambda>why. LineageUnavailable (cid c) why) in
      and_then (map_err (CatChainUnreachable \<circ> ChainError) (parents t (cid c))) (\<lambda>answer.
      and_then (ok_or (unprovable ParentUnknown) answer) (\<lambda>parent.
      and_then (map_err (unprovable \<circ> RevealUndecodable) (decode_node d (puzzle_reveal parent))) (\<lambda>puzzle.
      and_then (map_err (unprovable \<circ> SolutionUndecodable) (decode_node d (solution parent))) (\<lambda>sol.
      and_then (map_err (unprovable \<circ> ParentUnparsable)
                  (parse_children d (spent_coin parent) puzzle sol)) (\<lambda>parsed.
      and_then (ok_or (unprovable ParentNotCat) parsed) (\<lambda>children.
      and_then (ok_or (unprovable NotAChild) (find (\<lambda>k. cid (cat_coin k) = cid c) children)) (\<lambda>k.
      if cat_asset_id k \<noteq> asset then Err (unprovable (OtherAsset (cat_asset_id k) asset))
      else Ok k))))))))"

text \<open>One parent read per coin; the first failure ends the walk.\<close>

fun resolve_lineage ::
  "(coin \<Rightarrow> bytes32) \<Rightarrow> ('v, 'p) cat_driver \<Rightarrow> parent_reads \<Rightarrow> bytes32 \<Rightarrow> nat \<Rightarrow> coin list \<Rightarrow>
     (cat list, cat_error) result \<times> nat"
where
  "resolve_lineage cid d parents asset t [] = (Ok [], t)"
| "resolve_lineage cid d parents asset t (c # cs) =
     (case resolve_one cid d parents asset t c of
        Err e \<Rightarrow> (Err e, Suc t)
      | Ok k \<Rightarrow>
          (case resolve_lineage cid d parents asset (Suc t) cs of
             (Err e, t') \<Rightarrow> (Err e, t')
           | (Ok ks, t') \<Rightarrow> (Ok (k # ks), t')))"

section \<open>Listing\<close>

record cat_listing =
  cl_cats :: "cat list"
  cl_omitted :: nat

text \<open>\<open>sort_by_cached_key(|c| (Reverse(amount), id))\<close>: largest first, ties by id.\<close>

definition cat_coins ::
  "(coin \<Rightarrow> bytes32) \<Rightarrow> ('v, 'p) cat_driver \<Rightarrow> chain_source \<Rightarrow> parent_reads \<Rightarrow> bytes32 \<Rightarrow> bytes32 \<Rightarrow> nat \<Rightarrow>
     (cat_listing, cat_error) result \<times> nat"
where
  "cat_coins cid d chain parents asset p2 t =
     (let ph = curried_hash d asset p2 in
      case ask_by_puzzle_hash chain t ph False of
        Err e \<Rightarrow> (Err (CatChainUnreachable (ChainError e)), Suc t)
      | Ok records \<Rightarrow>
          (let candidates = sort_key (\<lambda>c. (- 1 - amount c, cid c))
                 (map rec_coin (filter (\<lambda>r. puzzle_hash (rec_coin r) = ph)
                    (filter (\<lambda>r. spent_height r = None) records)));
               omitted = length candidates - MAX_LISTED_CAT_COINS
           in case resolve_lineage cid d parents asset (Suc t) (take MAX_LISTED_CAT_COINS candidates) of
                (Err e, t') \<Rightarrow> (Err e, t')
              | (Ok cats, t') \<Rightarrow> (Ok \<lparr>cl_cats = cats, cl_omitted = omitted\<rparr>, t')))"

definition dig_cat_coins ::
  "(coin \<Rightarrow> bytes32) \<Rightarrow> ('v, 'p) cat_driver \<Rightarrow> chain_source \<Rightarrow> parent_reads \<Rightarrow> bytes32 \<Rightarrow> nat \<Rightarrow>
     (cat_listing, cat_error) result \<times> nat"
where
  "dig_cat_coins cid d chain parents p2 t = cat_coins cid d chain parents (dig_asset d) p2 t"

section \<open>Building\<close>

definition cat_lead_conditions ::
  "wallet_key \<Rightarrow> cat_request \<Rightarrow> byte list \<Rightarrow> byte list \<Rightarrow> u64 \<Rightarrow> bool \<Rightarrow> condition list" where
  "cat_lead_conditions w request hint change_hint change no_fee =
     [CreateCoin (dest_puzzle_hash (cr_recipient request)) (cr_amount request) (Hint hint)] @
     (if 0 < change then [CreateCoin (wk_puzzle_hash w) change (Hint change_hint)] else []) @
     (if no_fee then [] else [CreateCoinAnnouncement FEE_BINDING_MESSAGE])"

definition fee_conditions ::
  "wallet_key \<Rightarrow> bytes32 \<Rightarrow> u64 \<Rightarrow> u64 \<Rightarrow> nat \<Rightarrow> condition list" where
  "fee_conditions w binding fee fee_change index =
     AssertCoinAnnouncement binding #
     (if index = 0
      then (if 0 < fee then [ReserveFee fee] else []) @
           (if 0 < fee_change then [CreateCoin (wk_puzzle_hash w) fee_change NoMemos] else [])
      else [])"

definition build_fee_spends ::
  "spend_builder \<Rightarrow> wallet_key \<Rightarrow> bytes32 \<Rightarrow> u64 \<Rightarrow> coin list \<Rightarrow> (coin_spend list, cat_error) result"
where
  "build_fee_spends bld w binding fee fee_coins =
     and_then (ok_or (CatBuildFailed FeeCoinsOverflow) (checked_sum 0 (map amount fee_coins))) (\<lambda>fee_total.
     if fee_coins = [] then Ok []
     else and_then (ok_or (CatBuildFailed FeeCoinsDoNotCover) (checked_sub fee_total fee)) (\<lambda>fee_change.
       collect_results
         (map (\<lambda>(i, c). map_err (\<lambda>e. CatBuildFailed (FeeInputFailed i e))
                 (standard_spend bld (wk_public_key w) c (fee_conditions w binding fee fee_change i)))
            (enumerate 0 fee_coins))))"

definition build_dig_transfer_spends ::
  "spend_builder \<Rightarrow> ('v, 'p) cat_driver \<Rightarrow> (coin \<Rightarrow> bytes32) \<Rightarrow> wallet_key \<Rightarrow> cat list \<Rightarrow> coin list \<Rightarrow>
     cat_request \<Rightarrow> reservation_id option \<Rightarrow> (cat_plan, cat_error) result"
where
  "build_dig_transfer_spends bld d cid w cats fee_coins request reservation =
     (if cats = [] then Err (CatBuildFailed NoCats)
      else
        let recipient = dest_puzzle_hash (cr_recipient request) in
        and_then (ok_or (CatBuildFailed CatsOverflow) (checked_sum 0 (map (amount \<circ> cat_coin) cats))) (\<lambda>sum_in.
        and_then (ok_or (CatBuildFailed CatsDoNotCover) (checked_sub sum_in (cr_amount request))) (\<lambda>change.
        and_then (map_err (CatBuildFailed \<circ> RecipientHintFailed) (hint_of bld recipient)) (\<lambda>hint.
        and_then (map_err (CatBuildFailed \<circ> ChangeHintFailed) (hint_of bld (wk_puzzle_hash w))) (\<lambda>change_hint.
        and_then (collect_results
          (map (\<lambda>(i, k). and_then
                  (map_err (\<lambda>e. CatBuildFailed (CatInputFailed i e))
                     (inner_spend d (wk_public_key w)
                        (if i = length cats - 1
                         then cat_lead_conditions w request hint change_hint change (fee_coins = [])
                         else [])))
                  (\<lambda>s. Ok (k, s)))
             (enumerate 0 cats))) (\<lambda>ring.
        and_then (map_err (CatBuildFailed \<circ> RingFailed) (spend_all d ring)) (\<lambda>ring_spends.
        let binding = announcement_id bld (cid (cat_coin (last cats))) FEE_BINDING_MESSAGE in
        and_then (build_fee_spends bld w binding (cr_fee request) fee_coins) (\<lambda>fee_spends.
        Ok \<lparr>cp_coin_spends = ring_spends @ fee_spends,
            cp_dig_source_coin_ids = map (cid \<circ> cat_coin) cats,
            cp_xch_source_coin_ids = map cid fee_coins,
            cp_recipient = recipient,
            cp_amount = cr_amount request,
            cp_fee = cr_fee request,
            cp_change = change,
            cp_reservation = reservation\<rparr>))))))))"

definition build_cat_transfer ::
  "spend_builder \<Rightarrow> ('v, 'p) cat_driver \<Rightarrow> (coin \<Rightarrow> bytes32) \<Rightarrow> wallet_key \<Rightarrow> chain_source \<Rightarrow>
     parent_reads \<Rightarrow> custody_policy \<Rightarrow> bytes32 \<Rightarrow> cat_request \<Rightarrow> 's coin_reservations \<Rightarrow> (nat \<Rightarrow> 's \<Rightarrow> 's) \<Rightarrow>
     nat \<Rightarrow> 's \<Rightarrow> (cat_plan, cat_error) result \<times> nat \<times> 's"
where
  "build_cat_transfer bld d cid w chain parents custody asset request rv env t s =
     (case custody of
        VaultCustody _ \<Rightarrow> (Err CatVaultUnsupported, t, s)
      | HotCustody _ \<Rightarrow>
          if cr_amount request = 0 then (Err CatZeroAmount, t, s)
          else if dest_puzzle_hash (cr_recipient request) = wk_puzzle_hash w then (Err CatSelfPayment, t, s)
          else (case select_and_reserve rv env MAX_RESERVATION_ATTEMPTS
                      (select_both_legs cid d chain asset (wk_puzzle_hash w) request)
                      CatReservationUnusable t s of
                  (Err e, t', s') \<Rightarrow> (Err e, t', s')
                | (Ok ((coins, fees), held), t', s') \<Rightarrow>
                    (case resolve_lineage cid d parents asset t' coins of
                       (Err e, t'') \<Rightarrow> (Err e, t'', held_drop rv held s')
                     | (Ok cats, t'') \<Rightarrow>
                         (case build_dig_transfer_spends bld d cid w cats fees request None of
                            Err e \<Rightarrow> (Err e, t'', held_drop rv held s')
                          | Ok plan \<Rightarrow>
                              (let (i, s'') = held_commit held s'
                               in (Ok (plan\<lparr>cp_reservation := Some i\<rparr>), t'', s''))))))"

definition build_dig_transfer ::
  "spend_builder \<Rightarrow> ('v, 'p) cat_driver \<Rightarrow> (coin \<Rightarrow> bytes32) \<Rightarrow> wallet_key \<Rightarrow> chain_source \<Rightarrow>
     parent_reads \<Rightarrow> custody_policy \<Rightarrow> cat_request \<Rightarrow> 's coin_reservations \<Rightarrow> (nat \<Rightarrow> 's \<Rightarrow> 's) \<Rightarrow>
     nat \<Rightarrow> 's \<Rightarrow> (cat_plan, cat_error) result \<times> nat \<times> 's"
where
  "build_dig_transfer bld d cid w chain parents custody request rv env t s =
     build_cat_transfer bld d cid w chain parents custody (dig_asset d) request rv env t s"

end
