(* ===== verification/Cat_Properties.thy ===== *)
theory Cat_Properties
  imports Cat_Transfer
begin

text \<open>
  The CAT transfer's lemmas and properties: selection, the fee leg, lineage, value of both assets,
  reservation, and the listing.
\<close>

section \<open>The asset leg selects as the XCH rule does\<close>

lemma fold_cat_judge:
  "cj_seen j = jd_seen k \<Longrightarrow> cj_spendable j = jd_spendable k \<Longrightarrow>
     cj_spendable (fold (judge_cat_record cid ph) records j) =
     jd_spendable (fold (judge_record cid ph) records k)"
proof (induction records arbitrary: j k)
  case Nil
  then show ?case by simp
next
  case (Cons r rs)
  have "cj_seen (judge_cat_record cid ph r j) = jd_seen (judge_record cid ph r k)"
    "cj_spendable (judge_cat_record cid ph r j) = jd_spendable (judge_record cid ph r k)"
    using Cons.prems by (auto simp: judge_cat_record_def judge_record_def)
  then show ?case using Cons.IH by simp
qed

lemma judge_cat_listing_eq:
  "judge_cat_listing cid ph records = jd_spendable (judge_listing cid ph records)"
  unfolding judge_cat_listing_def judge_listing_def by (rule fold_cat_judge) simp_all

lemma choose_fewest_cats_Ok: "choose_fewest_cats n cs = Ok sel \<longleftrightarrow> choose_fewest n cs = Ok sel"
  by (auto simp: choose_fewest_cats_def choose_fewest_def MAX_CAT_TRANSFER_INPUT_COINS_def Let_def
      split: option.splits)

lemma choose_cats_Ok:
  "choose_cats cid ph required reserved records = Ok sel \<longleftrightarrow>
     choose_inputs cid ph required reserved records = Ok sel"
  by (cases "jd_unjudgeable (judge_listing cid ph records)")
     (auto simp: choose_cats_def choose_inputs_def judge_cat_listing_eq result_simps Let_def
        choose_fewest_cats_Ok split: if_splits)

lemma confirm_choice_Ok:
  "confirm_choice cid chain t chosen = (Ok sel, t') \<longleftrightarrow>
     sel = chosen \<and> confirm_all_spendable_by_name cid chain t chosen = (Ok (), t')"
  by (auto simp: confirm_choice_def split: prod.splits result.splits)

lemma select_cat_coins_Ok:
  "select_cat_coins cid d chain asset p2 required t reserved = (Ok sel, t') \<longleftrightarrow>
     select_input_coins cid chain (curried_hash d asset p2) required t reserved = (Ok sel, t')"
  by (auto simp: select_cat_coins_def select_input_coins_def Let_def choose_cats_Ok confirm_choice_Ok
      split: result.splits prod.splits dest: choose_cats_Ok [THEN iffD2])

text \<open>The CAT builder picks its asset inputs exactly as the XCH builder picks coins, at the asset's
  own curried puzzle hash: the two rules, written separately, succeed on the same listings with the
  same coins after the same reads.\<close>

theorem cat_selection_is_the_xch_rule:
  "select_cat_coins cid d chain asset p2 required t reserved = (Ok selected, t') \<longleftrightarrow>
     select_input_coins cid chain (curried_hash d asset p2) required t reserved = (Ok selected, t')"
  by (rule select_cat_coins_Ok)

definition sample_cat :: "coin_record \<Rightarrow> cat" where
  "sample_cat r = \<lparr>cat_coin = rec_coin r, cat_asset_id = 5\<rparr>"

definition sample_cat_driver :: "(unit, nat) cat_driver" where
  "sample_cat_driver =
     \<lparr>curried_hash = (\<lambda>a p. p + 1), decode_node = (\<lambda>b. Ok ()),
      parse_children = (\<lambda>c p s. Ok (Some (map sample_cat sample_listing))),
      inner_spend = (\<lambda>pk conds. Ok (length conds)),
      spend_all = (\<lambda>ring. Ok (map (\<lambda>(k, _). \<lparr>spent_coin = cat_coin k, puzzle_reveal = [],
                                              solution = []\<rparr>) ring)),
      dig_asset = 5\<rparr>"

definition sample_parents :: parent_reads where
  "sample_parents t i =
     Ok (Some \<lparr>spent_coin = \<lparr>parent_coin_info = 0, puzzle_hash = 0, amount = 32\<rparr>,
               puzzle_reveal = [], solution = []\<rparr>)"

definition sample_cat_wallet :: wallet_key where
  "sample_cat_wallet = \<lparr>wk_public_key = [7], wk_puzzle_hash = 8\<rparr>"

definition sample_cat_request :: cat_request where
  "sample_cat_request = cat_request_new (from_derived 77) 12"

lemmas sample_cat_simps =
  sample_cat_driver_def sample_cat_wallet_def sample_cat_request_def cat_request_new_def
  from_derived_def sample_cat_def sample_record_def

section \<open>The fee leg\<close>

lemma find_sorted_smallest:
  assumes "sorted (map amount cs)" and "find (\<lambda>c. n \<le> amount c) cs = Some c"
  shows "c \<in> set cs \<and> n \<le> amount c \<and> (\<forall>d \<in> set cs. n \<le> amount d \<longrightarrow> amount c \<le> amount d)"
  using assms by (induction cs) (auto split: if_splits)

lemma choose_fee_coin_eq:
  "choose_fee_coin cid ph fee reserved records =
     (if 2 ^ 64 \<le> worth (ranked cid ph records) then Err CatBalanceUnjudgeable
      else case find (\<lambda>c. fee \<le> amount c) (ranked_free cid ph records reserved) of
        Some c \<Rightarrow> Ok c
      | None \<Rightarrow>
          if \<exists>c \<in> set (ranked cid ph records). fee \<le> amount c
          then Err (CatCoinsReserved fee (of_nat (worth (ranked cid ph records)))
                      (of_nat (worth (ranked_free cid ph records reserved))))
          else Err (NoXchForFee fee (of_nat (worth (ranked cid ph records)))))"
proof -
  let ?js = "jd_spendable (judge_listing cid ph records)"
  have w: "worth (ranked cid ph records) = worth ?js"
    by (rule worth_mset) (simp add: ranked_def)
  show ?thesis
  proof (cases "checked_sum 0 (map amount ?js)")
    case None
    then show ?thesis
      using checked_worth_None [OF None] w
      by (simp add: choose_fee_coin_def judge_cat_listing_eq ok_or_def)
  next
    case (Some a)
    have a: "unat a = worth (ranked cid ph records)" using checked_worth_Some [OF Some] w by simp
    have le: "worth (ranked_free cid ph records reserved) \<le> worth (ranked cid ph records)"
      by (simp add: ranked_free_def worth_filter_le)
    have lt: "worth (ranked cid ph records) < 2 ^ 64" using a unat_less_pow [of a] by simp
    obtain b where b: "checked_sum 0 (map amount (ranked_free cid ph records reserved)) = Some b"
      using checked_worth_None [of "ranked_free cid ph records reserved"] le lt
      by (cases "checked_sum 0 (map amount (ranked_free cid ph records reserved))") auto
    have "a = of_nat (worth (ranked cid ph records))" by (simp flip: a)
    moreover have "b = of_nat (worth (ranked_free cid ph records reserved))"
      by (simp flip: checked_worth_Some [OF b])
    ultimately show ?thesis
      using Some b lt
      by (simp add: choose_fee_coin_def judge_cat_listing_eq ranked_def [symmetric]
          ranked_free_def [symmetric] ok_or_def Let_def list_ex_iff split: option.split)
  qed
qed

text \<open>The fee leg is one coin, the smallest free coin that covers the fee, and its refusals name
  the user's real situation: no covering coin at all is \<open>NoXchForFee\<close> with the whole balance,
  while a covering coin that is only busy is reported as reserved.\<close>

theorem fee_coin_is_smallest_or_refusal_is_honest:
  assumes "inj_on cid (usable_coins ph records)" and "total_of (usable_coins ph records) < 2 ^ 64"
  shows "case choose_fee_coin cid ph fee reserved records of
      Ok c \<Rightarrow> c \<in> free_coins cid ph records reserved \<and> fee \<le> amount c \<and>
        (\<forall>d \<in> free_coins cid ph records reserved. fee \<le> amount d \<longrightarrow> amount c \<le> amount d)
    | Err e \<Rightarrow> (\<forall>d \<in> free_coins cid ph records reserved. amount d < fee) \<and>
        (if \<exists>d \<in> usable_coins ph records. fee \<le> amount d
         then e = CatCoinsReserved fee (of_nat (total_of (usable_coins ph records)))
                    (of_nat (total_of (free_coins cid ph records reserved)))
         else e = NoXchForFee fee (of_nat (total_of (usable_coins ph records))))"
proof -
  define cs where "cs = ranked_free cid ph records reserved"
  note ex = ranked_exact [OF assms(1)]
  have set_cs: "set cs = free_coins cid ph records reserved" using ex by (simp add: cs_def)
  have sorted: "sorted (map amount cs)" using ranked_free_props(2) by (simp add: cs_def)
  show ?thesis
  proof (cases "find (\<lambda>c. fee \<le> amount c) cs")
    case None
    have "choose_fee_coin cid ph fee reserved records =
       (if \<exists>c \<in> set (ranked cid ph records). fee \<le> amount c
        then Err (CatCoinsReserved fee (of_nat (worth (ranked cid ph records))) (of_nat (worth cs)))
        else Err (NoXchForFee fee (of_nat (worth (ranked cid ph records)))))"
      using assms(2) ex(2) by (simp add: choose_fee_coin_eq cs_def [symmetric] None)
    moreover have "\<forall>d \<in> set cs. amount d < fee"
      using None by (auto simp: find_None_iff not_le)
    ultimately show ?thesis using ex set_cs by (simp add: cs_def)
  next
    case (Some c)
    note smallest = find_sorted_smallest [OF sorted Some]
    show ?thesis
      using Some smallest assms(2) ex set_cs
      by (simp add: choose_fee_coin_eq cs_def [symmetric])
  qed
qed

theorem fee_coin_is_smallest_or_refusal_is_honest_witness:
  "choose_fee_coin parent_coin_info 9 6 [] sample_listing = Ok (rec_coin (sample_record 3 7 (Some 4))) \<and>
     \<not> amount (rec_coin (sample_record 2 20 (Some 4))) < amount (rec_coin (sample_record 3 7 (Some 4)))"
proof -
  have u: "usable_coins 9 sample_listing = set (map rec_coin sample_listing)"
    by (auto simp: own_unspent_def sample_chain_simps)
  have inj: "inj_on parent_coin_info (usable_coins 9 sample_listing)"
    by (simp add: own_unspent_def sample_chain_simps)
  have tot: "total_of (usable_coins 9 sample_listing) < 2 ^ 64"
    by (simp add: own_unspent_def sample_chain_simps total_of_def)
  have ch: "choose_fee_coin parent_coin_info 9 6 [] sample_listing = Ok (rec_coin (sample_record 3 7 (Some 4)))"
    unfolding choose_fee_coin_eq ranked_free_def sample_ranked by (simp add: sample_record_def)
  have "rec_coin (sample_record 2 20 (Some 4)) \<in> free_coins parent_coin_info 9 sample_listing []"
    by (simp add: free_coins_def own_unspent_def sample_chain_simps)
  moreover have "(6::u64) \<le> amount (rec_coin (sample_record 2 20 (Some 4)))"
    by (simp add: sample_record_def)
  ultimately show ?thesis
    using fee_coin_is_smallest_or_refusal_is_honest [OF inj tot, where fee = 6 and reserved = "[]"] ch
    by (auto simp: not_less)
qed

section \<open>Lineage\<close>

text \<open>The parent spend was read, decodes, parses as a CAT spend of the asset, and creates this coin.\<close>

definition lineage_proven ::
  "(coin \<Rightarrow> bytes32) \<Rightarrow> ('v, 'p) cat_driver \<Rightarrow> parent_reads \<Rightarrow> bytes32 \<Rightarrow> cat \<Rightarrow> bool" where
  "lineage_proven cid d parents asset k \<longleftrightarrow>
     (\<exists>t parent puzzle sol children.
        parents t (cid (cat_coin k)) = Ok (Some parent) \<and>
        decode_node d (puzzle_reveal parent) = Ok puzzle \<and>
        decode_node d (solution parent) = Ok sol \<and>
        parse_children d (spent_coin parent) puzzle sol = Ok (Some children) \<and>
        k \<in> set children \<and> cat_asset_id k = asset)"

lemma resolve_one_Ok:
  "resolve_one cid d parents asset t c = Ok k \<Longrightarrow>
     cid (cat_coin k) = cid c \<and> lineage_proven cid d parents asset k"
  by (auto simp: resolve_one_def result_simps Let_def lineage_proven_def find_Some_iff
      split: if_splits) (metis nth_mem)

lemma resolve_lineage_Ok:
  "resolve_lineage cid d parents asset t cs = (Ok ks, t') \<Longrightarrow>
     map (cid \<circ> cat_coin) ks = map cid cs \<and> (\<forall>k \<in> set ks. lineage_proven cid d parents asset k)"
proof (induction cs arbitrary: t ks)
  case Nil
  then show ?case by simp
next
  case (Cons c cs)
  obtain k ks1 where k: "resolve_one cid d parents asset t c = Ok k"
    and ks1: "resolve_lineage cid d parents asset (Suc t) cs = (Ok ks1, t')" and ks: "ks = k # ks1"
    using Cons.prems by (auto split: result.splits prod.splits)
  show ?case using Cons.IH [OF ks1] resolve_one_Ok [OF k] unfolding ks by auto
qed

section \<open>What a built CAT transfer is\<close>

lemma collect_pairs_Ok:
  "collect_results (map (\<lambda>(i, k). and_then (map_err (f i) (g i k)) (\<lambda>s. Ok (k, s))) xs) = Ok ys \<longleftrightarrow>
     map fst ys = map snd xs \<and> map (\<lambda>(i, k). g i k) xs = map (Ok \<circ> snd) ys"
proof (induction xs arbitrary: ys)
  case Nil
  then show ?case by auto
next
  case (Cons x xs)
  obtain i k where x: "x = (i, k)" by fastforce
  show ?case by (cases ys) (auto simp: x result_simps Cons)
qed

text \<open>The conditions the ring's inputs are spent with: the last creates everything.\<close>

definition ring_inputs ::
  "wallet_key \<Rightarrow> cat list \<Rightarrow> bool \<Rightarrow> cat_request \<Rightarrow> byte list \<Rightarrow> byte list \<Rightarrow> u64 \<Rightarrow>
     (cat \<times> condition list) list"
where
  "ring_inputs w cats no_fee request hint change_hint change =
     map (\<lambda>(i, k). (k, if i = length cats - 1
                     then cat_lead_conditions w request hint change_hint change no_fee else []))
       (enumerate 0 cats)"

definition fee_inputs ::
  "wallet_key \<Rightarrow> bytes32 \<Rightarrow> u64 \<Rightarrow> u64 \<Rightarrow> coin list \<Rightarrow> (coin \<times> condition list) list" where
  "fee_inputs w binding fee fee_change fee_coins =
     map (\<lambda>(i, c). (c, fee_conditions w binding fee fee_change i)) (enumerate 0 fee_coins)"

lemma fee_inputs_fst: "map fst (fee_inputs w binding fee fee_change fee_coins) = fee_coins"
  by (simp add: fee_inputs_def comp_def case_prod_unfold map_snd_enumerate)

lemma ring_inputs_split:
  assumes "cats \<noteq> []"
  shows "ring_inputs w cats no_fee request hint change_hint change =
     map (\<lambda>k. (k, [])) (butlast cats) @
     [(last cats, cat_lead_conditions w request hint change_hint change no_fee)]"
proof -
  obtain xs x where cats: "cats = xs @ [x]" using assms by (metis append_butlast_last_id)
  have "map (\<lambda>(i, k). (k, if i = length xs then L else [])) (enumerate 0 xs) = map (\<lambda>k. (k, [])) xs"
    for L :: "condition list"
    by (rule nth_equalityI) (auto simp: nth_enumerate_eq)
  then show ?thesis by (simp add: ring_inputs_def cats enumerate_append_eq)
qed

lemma ring_inputs_create:
  assumes "cats \<noteq> []"
  shows "(\<Sum>(k, conds)\<leftarrow>ring_inputs w cats no_fee request hint change_hint change. created conds) =
     unat (cr_amount request) + unat change"
proof -
  have z: "(\<Sum>c\<leftarrow>cs. 0) = (0::nat)" for cs :: "cat list" by (induction cs) auto
  show ?thesis
    by (auto simp: ring_inputs_split [OF assms] comp_def z created_def cat_lead_conditions_def word_gt_0)
qed

lemma fee_inputs_conserve:
  assumes "fee_coins \<noteq> []" and "unat fee_change + unat fee = worth fee_coins"
  shows "(\<Sum>(c, conds)\<leftarrow>fee_inputs w binding fee fee_change fee_coins. created conds) +
     (\<Sum>(c, conds)\<leftarrow>fee_inputs w binding fee fee_change fee_coins. reserved_fee conds) = worth fee_coins"
    and "(\<Sum>(c, conds)\<leftarrow>fee_inputs w binding fee fee_change fee_coins. reserved_fee conds) = unat fee"
proof -
  obtain c cs where fc: "fee_coins = c # cs" using assms(1) by (cases fee_coins) auto
  have rest: "(\<Sum>(c, conds)\<leftarrow>map (\<lambda>(i, c). (c, fee_conditions w binding fee fee_change i)) (enumerate (Suc n) cs).
      f conds) = (0::nat)" if "\<And>b. f [AssertCoinAnnouncement b] = 0" for f n
    using that by (induction cs arbitrary: n) (auto simp: fee_conditions_def)
  have a0: "created [AssertCoinAnnouncement b] = 0" "reserved_fee [AssertCoinAnnouncement b] = 0" for b
    by (simp_all add: created_def reserved_fee_def)
  have r: "(\<Sum>(c, conds)\<leftarrow>fee_inputs w binding fee fee_change fee_coins. reserved_fee conds) = unat fee"
    using rest [of reserved_fee 0, OF a0(2)]
    by (auto simp: fee_inputs_def fc fee_conditions_def reserved_fee_def word_gt_0)
  moreover have "(\<Sum>(c, conds)\<leftarrow>fee_inputs w binding fee fee_change fee_coins. created conds) = unat fee_change"
    using rest [of created 0, OF a0(1)]
    by (auto simp: fee_inputs_def fc fee_conditions_def created_def word_gt_0)
  ultimately show "(\<Sum>(c, conds)\<leftarrow>fee_inputs w binding fee fee_change fee_coins. created conds) +
     (\<Sum>(c, conds)\<leftarrow>fee_inputs w binding fee fee_change fee_coins. reserved_fee conds) = worth fee_coins"
    "(\<Sum>(c, conds)\<leftarrow>fee_inputs w binding fee fee_change fee_coins. reserved_fee conds) = unat fee"
    using assms(2) by simp_all
qed

lemma collect_indexed_Ok:
  "collect_results (map (\<lambda>(i, c). map_err (f i) (g i c)) xs) = Ok ys \<longleftrightarrow>
     map (\<lambda>(i, c). g i c) xs = map Ok ys"
proof (induction xs arbitrary: ys)
  case Nil
  then show ?case by auto
next
  case (Cons x xs)
  obtain i c where x: "x = (i, c)" by fastforce
  show ?case by (cases ys) (auto simp: x result_simps Cons)
qed

lemma build_fee_spends_Ok:
  assumes "build_fee_spends bld w binding fee fee_coins = Ok spends" and "fee_coins \<noteq> []"
  obtains fee_change where "unat fee_change + unat fee = worth fee_coins"
    "map (\<lambda>(c, conds). standard_spend bld (wk_public_key w) c conds)
       (fee_inputs w binding fee fee_change fee_coins) = map Ok spends"
proof -
  obtain tot fee_change where *: "checked_sum 0 (map amount fee_coins) = Some tot"
    "checked_sub tot fee = Some fee_change"
    "collect_results (map (\<lambda>(i, c). map_err (\<lambda>e. CatBuildFailed (FeeInputFailed i e))
       (standard_spend bld (wk_public_key w) c (fee_conditions w binding fee fee_change i)))
       (enumerate 0 fee_coins)) = Ok spends"
    using assms by (auto simp: build_fee_spends_def result_simps)
  have "unat fee_change + unat fee = worth fee_coins"
    using checked_sub_unat [OF *(2)] checked_worth_Some [OF *(1)] by simp
  moreover have "map (\<lambda>(c, conds). standard_spend bld (wk_public_key w) c conds)
       (fee_inputs w binding fee fee_change fee_coins) = map Ok spends"
    using *(3) unfolding collect_indexed_Ok by (simp add: fee_inputs_def comp_def case_prod_unfold)
  ultimately show ?thesis using that by blast
qed

lemma build_dig_transfer_spends_Ok:
  assumes "build_dig_transfer_spends bld d cid w cats fee_coins request res = Ok plan"
  obtains change hint change_hint ring ring_spends fee_spends where "cats \<noteq> []"
    "unat (cr_amount request) + unat change = worth (map cat_coin cats)"
    "map (\<lambda>(k, conds). inner_spend d (wk_public_key w) conds)
       (ring_inputs w cats (fee_coins = []) request hint change_hint change) = map (Ok \<circ> snd) ring"
    "map fst ring = cats" "spend_all d ring = Ok ring_spends"
    "build_fee_spends bld w (announcement_id bld (cid (cat_coin (last cats))) FEE_BINDING_MESSAGE)
       (cr_fee request) fee_coins = Ok fee_spends"
    "plan = \<lparr>cp_coin_spends = ring_spends @ fee_spends,
            cp_dig_source_coin_ids = map (cid \<circ> cat_coin) cats,
            cp_xch_source_coin_ids = map cid fee_coins,
            cp_recipient = dest_puzzle_hash (cr_recipient request),
            cp_amount = cr_amount request, cp_fee = cr_fee request, cp_change = change,
            cp_reservation = res\<rparr>"
proof -
  obtain tot change hint change_hint ring ring_spends fee_spends where *: "cats \<noteq> []"
    "checked_sum 0 (map (amount \<circ> cat_coin) cats) = Some tot"
    "checked_sub tot (cr_amount request) = Some change"
    "collect_results (map (\<lambda>(i, k). and_then (map_err (\<lambda>e. CatBuildFailed (CatInputFailed i e))
       (inner_spend d (wk_public_key w) (if i = length cats - 1
          then cat_lead_conditions w request hint change_hint change (fee_coins = []) else [])))
       (\<lambda>s. Ok (k, s))) (enumerate 0 cats)) = Ok ring"
    "spend_all d ring = Ok ring_spends"
    "build_fee_spends bld w (announcement_id bld (cid (cat_coin (last cats))) FEE_BINDING_MESSAGE)
       (cr_fee request) fee_coins = Ok fee_spends"
    "plan = \<lparr>cp_coin_spends = ring_spends @ fee_spends,
            cp_dig_source_coin_ids = map (cid \<circ> cat_coin) cats,
            cp_xch_source_coin_ids = map cid fee_coins,
            cp_recipient = dest_puzzle_hash (cr_recipient request),
            cp_amount = cr_amount request, cp_fee = cr_fee request, cp_change = change,
            cp_reservation = res\<rparr>"
    using assms
    by (auto simp: build_dig_transfer_spends_def Let_def result_simps split: if_splits)
  have "unat change + unat (cr_amount request) = worth (map cat_coin cats)"
    using checked_sub_unat [OF *(3)] checked_worth_Some [of "map cat_coin cats" tot] *(2)
    by (simp add: comp_def)
  moreover have "map (\<lambda>(k, conds). inner_spend d (wk_public_key w) conds)
       (ring_inputs w cats (fee_coins = []) request hint change_hint change) = map (Ok \<circ> snd) ring"
    "map fst ring = cats"
    using *(4) unfolding collect_pairs_Ok
    by (simp_all add: ring_inputs_def comp_def case_prod_unfold map_snd_enumerate)
  ultimately show ?thesis using that * by (simp add: add.commute)
qed

text \<open>A built CAT transfer conserves both assets: the ring's inner spends create exactly the amount
  and the change, which add up to the CATs spent, and every input but the last creates nothing; the
  fee inputs create and reserve exactly what they hold, with exactly the requested fee reserved.\<close>

theorem cat_transfer_conserves_both_assets:
  assumes "build_dig_transfer_spends bld d cid w cats fee_coins request res = Ok plan"
  shows "\<exists>ring fee_ins.
     map fst ring = cats \<and>
     (\<Sum>(k, conds)\<leftarrow>ring. created conds) = worth (map cat_coin cats) \<and>
     unat (cp_amount plan) + unat (cp_change plan) = worth (map cat_coin cats) \<and>
     (\<forall>(k, conds) \<in> set (butlast ring). created conds = 0) \<and>
     map fst fee_ins = fee_coins \<and>
     (\<Sum>(c, conds)\<leftarrow>fee_ins. created conds) + (\<Sum>(c, conds)\<leftarrow>fee_ins. reserved_fee conds)
       = worth fee_coins \<and>
     (\<Sum>(c, conds)\<leftarrow>fee_ins. reserved_fee conds) = (if fee_coins = [] then 0 else unat (cp_fee plan)) \<and>
     (\<exists>inner ring_spends fee_spends.
        map (\<lambda>(k, conds). inner_spend d (wk_public_key w) conds) ring = map Ok inner \<and>
        spend_all d (zip cats inner) = Ok ring_spends \<and>
        map (\<lambda>(c, conds). standard_spend bld (wk_public_key w) c conds) fee_ins = map Ok fee_spends \<and>
        cp_coin_spends plan = ring_spends @ fee_spends)"
proof -
  obtain change hint change_hint pairs ring_spends fee_spends where *: "cats \<noteq> []"
    "unat (cr_amount request) + unat change = worth (map cat_coin cats)"
    "map (\<lambda>(k, conds). inner_spend d (wk_public_key w) conds)
       (ring_inputs w cats (fee_coins = []) request hint change_hint change) = map (Ok \<circ> snd) pairs"
    "map fst pairs = cats" "spend_all d pairs = Ok ring_spends"
    and fee: "build_fee_spends bld w (announcement_id bld (cid (cat_coin (last cats))) FEE_BINDING_MESSAGE)
       (cr_fee request) fee_coins = Ok fee_spends"
    and plan: "plan = \<lparr>cp_coin_spends = ring_spends @ fee_spends,
            cp_dig_source_coin_ids = map (cid \<circ> cat_coin) cats,
            cp_xch_source_coin_ids = map cid fee_coins,
            cp_recipient = dest_puzzle_hash (cr_recipient request),
            cp_amount = cr_amount request, cp_fee = cr_fee request, cp_change = change,
            cp_reservation = res\<rparr>"
    by (rule build_dig_transfer_spends_Ok [OF assms])
  define ring where "ring = ring_inputs w cats (fee_coins = []) request hint change_hint change"
  have ring: "map fst ring = cats" "(\<Sum>(k, conds)\<leftarrow>ring. created conds) = worth (map cat_coin cats)"
    "\<forall>(k, conds) \<in> set (butlast ring). created conds = 0"
    using *(2) ring_inputs_create [OF *(1)]
    by (auto simp: ring_def ring_inputs_split [OF *(1)] comp_def created_def *(1))
  have zip: "zip cats (map snd pairs) = pairs" by (simp add: zip_map_fst_snd flip: *(4))
  obtain fee_ins where fi: "map fst fee_ins = fee_coins"
    "(\<Sum>(c, conds)\<leftarrow>fee_ins. created conds) + (\<Sum>(c, conds)\<leftarrow>fee_ins. reserved_fee conds) = worth fee_coins"
    "(\<Sum>(c, conds)\<leftarrow>fee_ins. reserved_fee conds) = (if fee_coins = [] then 0 else unat (cr_fee request))"
    "map (\<lambda>(c, conds). standard_spend bld (wk_public_key w) c conds) fee_ins = map Ok fee_spends"
  proof (cases "fee_coins = []")
    case True
    then show ?thesis using that [of "[]"] fee by (auto simp: build_fee_spends_def ok_or_def)
  next
    case False
    obtain fee_change where fc: "unat fee_change + unat (cr_fee request) = worth fee_coins"
      "map (\<lambda>(c, conds). standard_spend bld (wk_public_key w) c conds)
         (fee_inputs w (announcement_id bld (cid (cat_coin (last cats))) FEE_BINDING_MESSAGE)
            (cr_fee request) fee_change fee_coins) = map Ok fee_spends"
      by (rule build_fee_spends_Ok [OF fee False])
    show ?thesis
      using False fee_inputs_conserve [OF False fc(1)] fc(2)
      by (intro that) (auto simp: fee_inputs_fst)
  qed
  show ?thesis
    using * ring zip fi unfolding plan
    by (intro exI [of _ ring] exI [of _ fee_ins] conjI exI [of _ "map snd pairs"]
        exI [of _ ring_spends] exI [of _ fee_spends]) (simp_all add: ring_def)
qed

theorem cat_transfer_conserves_both_assets_witness:
  "\<exists>plan. build_dig_transfer_spends sample_builder sample_cat_driver parent_coin_info sample_cat_wallet
       (map sample_cat (tl sample_listing)) [rec_coin (sample_record 9 4 (Some 1))]
       (with_fee_mojos 3 sample_cat_request) None = Ok plan \<and>
     unat (cp_amount plan) + unat (cp_change plan) = 27"
proof -
  obtain plan where plan: "build_dig_transfer_spends sample_builder sample_cat_driver parent_coin_info
       sample_cat_wallet (map sample_cat (tl sample_listing)) [rec_coin (sample_record 9 4 (Some 1))]
       (with_fee_mojos 3 sample_cat_request) None = Ok plan"
    by (simp add: build_dig_transfer_spends_def sample_cat_simps sample_listing_def sample_builder_def
        with_fee_mojos_def checked_add_def checked_sub_def ok_or_def Let_def build_fee_spends_def)
  have "worth (map cat_coin (map sample_cat (tl sample_listing))) = 27"
    by (simp add: sample_listing_def sample_cat_def sample_record_def)
  then show ?thesis using cat_transfer_conserves_both_assets [OF plan] plan by auto
qed

lemma select_both_legs_Ok:
  "fst (select_both_legs cid d chain asset p2 request t ex) = Ok ((cats, fees), ids) \<Longrightarrow>
     ids = map cid cats @ map cid fees \<and> (cr_fee request = 0 \<longrightarrow> fees = [])"
  by (auto simp: select_both_legs_def select_fee_coins_def split: prod.splits result.splits)

lemma build_cat_transfer_Ok:
  assumes "build_cat_transfer bld d cid w chain parents custody asset request rv env t s = (Ok plan, t', s')"
  obtains coins fees held cats t1 where "cr_amount request \<noteq> 0" "\<exists>hot. custody = HotCustody hot"
    "dest_puzzle_hash (cr_recipient request) \<noteq> wk_puzzle_hash w"
    "select_and_reserve rv env MAX_RESERVATION_ATTEMPTS
       (select_both_legs cid d chain asset (wk_puzzle_hash w) request) CatReservationUnusable t s
       = (Ok ((coins, fees), held), t1, s')"
    "resolve_lineage cid d parents asset t1 coins = (Ok cats, t')"
    "cp_dig_source_coin_ids plan = map (cid \<circ> cat_coin) cats" "cp_xch_source_coin_ids plan = map cid fees"
    "cats \<noteq> []" "cp_reservation plan = Some held"
proof -
  obtain coins fees held cats t1 p where *: "cr_amount request \<noteq> 0" "\<exists>hot. custody = HotCustody hot"
    "dest_puzzle_hash (cr_recipient request) \<noteq> wk_puzzle_hash w"
    "select_and_reserve rv env MAX_RESERVATION_ATTEMPTS
       (select_both_legs cid d chain asset (wk_puzzle_hash w) request) CatReservationUnusable t s
       = (Ok ((coins, fees), held), t1, s')"
    "resolve_lineage cid d parents asset t1 coins = (Ok cats, t')"
    "build_dig_transfer_spends bld d cid w cats fees request None = Ok p"
    "plan = p\<lparr>cp_reservation := Some held\<rparr>"
    using assms
    by (auto simp: build_cat_transfer_def held_commit_def
        split: custody_policy.splits if_splits result.splits prod.splits)
  show ?thesis
    by (rule build_dig_transfer_spends_Ok [OF *(6)]) (rule that, use * in simp_all)
qed

text \<open>Every CAT a built transfer spends is proven genuine: its parent spend was read by the coin's
  own id, decodes, parses as a CAT spend and creates this very coin as a child of the asked asset.
  Both legs are held by one reservation, the plan's own, no coin of it in any other, whatever other
  users of the table did meanwhile; a zero fee takes no XCH at all.\<close>

theorem cat_inputs_are_proven_and_reserved:
  assumes "rv_store rv = local_store"
    and "build_cat_transfer bld d cid w chain parents custody asset request rv
           (\<lambda>k. fold local_call (others k)) t (reservation_session calls) = (Ok plan, t', s')"
  shows "\<exists>cats j expires.
     cp_dig_source_coin_ids plan = map (cid \<circ> cat_coin) cats \<and> cats \<noteq> [] \<and>
     (\<forall>k \<in> set cats. lineage_proven cid d parents asset k) \<and>
     (cr_fee request = 0 \<longrightarrow> cp_xch_source_coin_ids plan = []) \<and>
     cp_reservation plan = Some (ReservationId j) \<and>
     (j, cp_dig_source_coin_ids plan @ cp_xch_source_coin_ids plan, expires) \<in> local_reserved s' \<and>
     exclusive (local_reserved s')"
proof -
  obtain coins fees held cats t1 where sel: "select_and_reserve rv (\<lambda>k. fold local_call (others k))
       MAX_RESERVATION_ATTEMPTS (select_both_legs cid d chain asset (wk_puzzle_hash w) request)
       CatReservationUnusable t (reservation_session calls) = (Ok ((coins, fees), held), t1, s')"
    and lin: "resolve_lineage cid d parents asset t1 coins = (Ok cats, t')"
    and plan: "cp_dig_source_coin_ids plan = map (cid \<circ> cat_coin) cats"
      "cp_xch_source_coin_ids plan = map cid fees" "cats \<noteq> []" "cp_reservation plan = Some held"
    by (rule build_cat_transfer_Ok [OF assms(2)])
  obtain j where j: "held = ReservationId j" by (cases held)
  have excl: "exclusive (local_reserved s')"
    by (rule local_table.select_exclusive [OF assms(1) fold_local_call_exclusive exclusive_session sel])
  from local_table.select_grants [OF assms(1) sel]
  obtain ids t0 ex now where
    g: "fst (select_both_legs cid d chain asset (wk_puzzle_hash w) request t0 ex) = Ok ((coins, fees), ids)"
    "ids \<noteq> [] \<longrightarrow> (reservation_u64 held, ids, saturating_add now (rv_ttl rv)) \<in> local_reserved s'"
    by blast
  note legs = select_both_legs_Ok [OF g(1)]
  note lineage = resolve_lineage_Ok [OF lin]
  have ids: "ids = cp_dig_source_coin_ids plan @ cp_xch_source_coin_ids plan"
    using legs lineage plan by simp
  moreover have "ids \<noteq> []" using ids plan by simp
  ultimately have "(j, cp_dig_source_coin_ids plan @ cp_xch_source_coin_ids plan,
      saturating_add now (rv_ttl rv)) \<in> local_reserved s'"
    using g(2) j by simp
  then show ?thesis
    using excl legs lineage plan unfolding j
    by (intro exI [of _ cats] exI [of _ j] exI [of _ "saturating_add now (rv_ttl rv)"]) simp
qed

definition sample_cat_build :: "(cat_plan, cat_error) result \<times> nat \<times> local_reservations" where
  "sample_cat_build =
     build_cat_transfer sample_builder sample_cat_driver parent_coin_info sample_cat_wallet
       (sample_chain sample_listing) sample_parents (HotCustody hot_wallet_default) 5 sample_cat_request
       sample_reservations (\<lambda>k. fold local_call []) 0 (reservation_session [])"

lemma sample_cat_legs:
  "select_both_legs parent_coin_info sample_cat_driver (sample_chain sample_listing) 5 8
     sample_cat_request 0 [] = (Ok (([rec_coin (sample_record 2 20 (Some 4))], []), [2]), 2)"
proof -
  have "choose_inputs parent_coin_info 9 12 [] sample_listing = Ok [rec_coin (sample_record 2 20 (Some 4))]"
    unfolding choose_inputs_eq ranked_free_def sample_ranked
    by (simp add: sample_record_def choose_fewest_def)
  then have "choose_cats parent_coin_info 9 12 [] sample_listing = Ok [rec_coin (sample_record 2 20 (Some 4))]"
    by (simp add: choose_cats_Ok)
  moreover have "ask_by_puzzle_hash (sample_chain sample_listing) 0 9 False = Ok sample_listing"
    by (simp add: sample_chain_simps)
  moreover have "confirm_choice parent_coin_info (sample_chain sample_listing) 1
      [rec_coin (sample_record 2 20 (Some 4))] = (Ok [rec_coin (sample_record 2 20 (Some 4))], 2)"
    by (simp add: confirm_choice_def confirm_spendable_by_name_def sample_chain_simps is_spent_def)
  ultimately show ?thesis
    by (simp add: select_both_legs_def select_cat_coins_def select_fee_coins_def sample_cat_driver_def
        sample_cat_request_def cat_request_new_def Let_def sample_record_def)
qed

lemma sample_cat_build_ok: "\<exists>plan. fst sample_cat_build = Ok plan"
proof -
  obtain m :: nat where sixteen: "max 1 MAX_RESERVATION_ATTEMPTS = Suc m"
    by (cases "max 1 MAX_RESERVATION_ATTEMPTS") auto
  obtain s' where s': "select_and_reserve sample_reservations (\<lambda>k. fold local_call [])
      MAX_RESERVATION_ATTEMPTS
      (select_both_legs parent_coin_info sample_cat_driver (sample_chain sample_listing) 5 8
         sample_cat_request) CatReservationUnusable 0 (reservation_session []) =
      (Ok (([rec_coin (sample_record 2 20 (Some 4))], []), ReservationId 0), 2, s')"
    unfolding select_and_reserve_def sixteen
    by (simp add: sample_reservations_def reservations_new_def reservation_session_def
        local_new_def reservations_held_def reservations_reserve_def reservations_now_def
        local_store_def local_held_def local_reserve_all_def expire_def held_coins_def
        map_insert_def Let_def sample_cat_legs)
  have "wk_puzzle_hash sample_cat_wallet = 8" "cr_amount sample_cat_request \<noteq> 0"
    "dest_puzzle_hash (cr_recipient sample_cat_request) \<noteq> 8"
    by (simp_all add: sample_cat_wallet_def sample_cat_request_def cat_request_new_def from_derived_def)
  moreover have "resolve_lineage parent_coin_info sample_cat_driver sample_parents 5 2
      [rec_coin (sample_record 2 20 (Some 4))] = (Ok [sample_cat (sample_record 2 20 (Some 4))], 3)"
    by (simp add: resolve_one_def sample_parents_def sample_cat_driver_def ok_or_def Let_def
        sample_listing_def sample_cat_def sample_record_def)
  moreover have "\<exists>p. build_dig_transfer_spends sample_builder sample_cat_driver parent_coin_info
       sample_cat_wallet [sample_cat (sample_record 2 20 (Some 4))] [] sample_cat_request None = Ok p"
    by (simp add: build_dig_transfer_spends_def sample_cat_simps sample_builder_def
        checked_add_def checked_sub_def ok_or_def Let_def build_fee_spends_def)
  ultimately show ?thesis
    using s' by (auto simp: sample_cat_build_def build_cat_transfer_def held_commit_def)
qed

theorem cat_inputs_are_proven_and_reserved_witness:
  "exclusive (local_reserved (snd (snd sample_cat_build)))"
proof -
  obtain plan where "fst sample_cat_build = Ok plan" using sample_cat_build_ok by blast
  then have *: "sample_cat_build = (Ok plan, fst (snd sample_cat_build), snd (snd sample_cat_build))"
    by (metis prod.collapse)
  have "rv_store sample_reservations = local_store"
    by (simp add: sample_reservations_def reservations_new_def)
  from cat_inputs_are_proven_and_reserved [OF this * [unfolded sample_cat_build_def], folded sample_cat_build_def]
  show ?thesis by blast
qed

lemma failed_cat_build_adds_nothing:
  assumes "rv_store rv = local_store"
    and "build_cat_transfer bld d cid w chain parents custody asset request rv (\<lambda>k s. s) t s
           = (Err e, t', s')"
  shows "local_reserved s' \<subseteq> local_reserved s"
proof -
  let ?sel = "\<lambda>r t1 s1. select_and_reserve rv (\<lambda>k s. s) MAX_RESERVATION_ATTEMPTS
      (select_both_legs cid d chain asset (wk_puzzle_hash w) request) CatReservationUnusable t s
      = (r, t1, s1)"
  consider "s' = s" | e' t1 where "?sel (Err e') t1 s'"
    | choice held t1 s1 where "?sel (Ok (choice, held)) t1 s1" "s' = held_drop rv held s1"
    using assms(2)
    by (auto simp: build_cat_transfer_def held_commit_def
        split: custody_policy.splits if_splits result.splits prod.splits)
  then show ?thesis
  proof cases
    case 1
    then show ?thesis by simp
  next
    case 2
    then show ?thesis by (rule refused_selection_adds_nothing [OF assms(1)])
  next
    case 3
    show ?thesis unfolding 3(2) by (rule dropped_selection_adds_nothing [OF assms(1) 3(1)])
  qed
qed

section \<open>Listing\<close>

text \<open>The listing of a wallet's CAT coins repeats a coin the source answered with twice, unlike the
  selection rule, so a balance summed from it counts that coin twice: with one coin listed twice,
  \<open>cat_coins\<close> returns two entries of it and omits none, while selection holds one.\<close>

theorem cat_listing_repeats_a_coin:
  assumes "ask_by_puzzle_hash chain t (curried_hash d asset p2) False = Ok [r, r]"
    and "spent_height r = None" and "confirmed_height r \<noteq> None"
    and "puzzle_hash (rec_coin r) = curried_hash d asset p2"
    and "resolve_one cid d parents asset (Suc t) (rec_coin r) = Ok k"
    and "resolve_one cid d parents asset (Suc (Suc t)) (rec_coin r) = Ok k"
  shows "fst (cat_coins cid d chain parents asset p2 t) = Ok \<lparr>cl_cats = [k, k], cl_omitted = 0\<rparr> \<and>
    judge_cat_listing cid (curried_hash d asset p2) [r, r] = [rec_coin r]"
  using assms
  by (simp add: cat_coins_def MAX_LISTED_CAT_COINS_def judge_cat_listing_def judge_cat_record_def
      is_spent_def)

theorem cat_listing_repeats_a_coin_witness:
  "fst (cat_coins parent_coin_info sample_cat_driver
     (sample_chain [sample_record 2 20 (Some 4), sample_record 2 20 (Some 4)]) sample_parents 5 8 0) =
     Ok \<lparr>cl_cats = [sample_cat (sample_record 2 20 (Some 4)), sample_cat (sample_record 2 20 (Some 4))],
         cl_omitted = 0\<rparr>"
proof -
  let ?chain = "sample_chain [sample_record 2 20 (Some 4), sample_record 2 20 (Some 4)]"
  have "ask_by_puzzle_hash ?chain 0 (curried_hash sample_cat_driver 5 8) False =
      Ok [sample_record 2 20 (Some 4), sample_record 2 20 (Some 4)]"
    by (simp add: sample_chain_def sample_cat_driver_def sample_record_def)
  moreover have "resolve_one parent_coin_info sample_cat_driver sample_parents 5 n
      (rec_coin (sample_record 2 20 (Some 4))) = Ok (sample_cat (sample_record 2 20 (Some 4)))" for n
    by (simp add: resolve_one_def sample_parents_def sample_cat_driver_def ok_or_def Let_def
        sample_listing_def sample_cat_def sample_record_def)
  moreover have "spent_height (sample_record 2 20 (Some 4)) = None"
    "confirmed_height (sample_record 2 20 (Some 4)) \<noteq> None"
    "puzzle_hash (rec_coin (sample_record 2 20 (Some 4))) = curried_hash sample_cat_driver 5 8"
    by (simp_all add: sample_record_def sample_cat_driver_def)
  ultimately show ?thesis
    using cat_listing_repeats_a_coin [of ?chain 0 sample_cat_driver 5 8 "sample_record 2 20 (Some 4)"
        parent_coin_info sample_parents "sample_cat (sample_record 2 20 (Some 4))"]
    by blast
qed

end
