(* ===== verification/Vault_Move.thy ===== *)
theory Vault_Move
  imports Xch_Transfer
begin

text \<open>
  The vault's one exit (\<open>src/wallet/vault_move.rs\<close>): a time-locked move to the profile's own hot
  wallet. The time lock is \<open>ClawbackV2\<close> of \<open>chia-wallet-sdk\<close>; its puzzle hash, memo and
  spends are the record \<open>clawback_driver\<close>, its parameters are what this module chooses. A spend
  context is the list of spends added to it.
\<close>

definition MIN_CLAWBACK_SECONDS :: u64 where
  "MIN_CLAWBACK_SECONDS = 24 * 60 * 60"

record clawback =
  cb_sender :: bytes32
  cb_receiver :: bytes32
  cb_seconds :: u64
  cb_amount :: u64
  cb_hinted :: bool

record 'l clawback_driver =
  clawback_hash :: "clawback \<Rightarrow> bytes32"
  clawback_memos :: "bytes32 \<Rightarrow> clawback \<Rightarrow> (memos, string) result"
  recover_spend :: "clawback \<Rightarrow> coin \<Rightarrow> 'l \<Rightarrow> condition list \<Rightarrow> (coin_spend list, string) result"
  finish_spend :: "clawback \<Rightarrow> coin \<Rightarrow> 'l \<Rightarrow> condition list \<Rightarrow> (coin_spend list, string) result"
  from_memo :: "memos \<Rightarrow> bytes32 \<Rightarrow> u64 \<Rightarrow> bool \<Rightarrow> bytes32 \<Rightarrow> clawback option"

datatype vault_move = VaultMove (vm_clawback: clawback)

definition to_hot_wallet ::
  "vault \<Rightarrow> bytes32 \<Rightarrow> bytes32 \<Rightarrow> u64 \<Rightarrow> (u64, account_error) result \<Rightarrow> (vault_move, account_error) result"
where
  "to_hot_wallet v vault_ph hot_ph n clock =
     (if n = 0 then Err (PolicyDenied MoveOfNothing)
      else if hot_ph = vault_ph then Err (PolicyDenied MoveOntoItself)
      else if clawback_seconds v < MIN_CLAWBACK_SECONDS
      then Err (PolicyDenied (MoveWindowTooShort (clawback_seconds v)))
      else and_then clock (\<lambda>now.
        and_then (ok_or (PolicyIndeterminate ClawbackOverflows) (checked_add now (clawback_seconds v)))
          (\<lambda>settles. Ok (VaultMove \<lparr>cb_sender = vault_ph, cb_receiver = hot_ph, cb_seconds = settles,
                                    cb_amount = n, cb_hinted = True\<rparr>))))"

definition move_puzzle_hash :: "'l clawback_driver \<Rightarrow> vault_move \<Rightarrow> bytes32" where
  "move_puzzle_hash d m = clawback_hash d (vm_clawback m)"

definition settles_at_unix :: "vault_move \<Rightarrow> u64" where
  "settles_at_unix m = cb_seconds (vm_clawback m)"

definition funding_conditions ::
  "'l clawback_driver \<Rightarrow> vault_move \<Rightarrow> (condition list, account_error) result" where
  "funding_conditions d m =
     and_then (map_err (\<lambda>e. Spend (''cannot allocate the vault-move memo: '' @ e))
                 (clawback_memos d (cb_receiver (vm_clawback m)) (vm_clawback m)))
       (\<lambda>memos. Ok [CreateCoin (move_puzzle_hash d m) (cb_amount (vm_clawback m)) memos])"

definition move_coin :: "'l clawback_driver \<Rightarrow> vault_move \<Rightarrow> bytes32 \<Rightarrow> coin" where
  "move_coin d m funding_coin_id =
     \<lparr>parent_coin_info = funding_coin_id, puzzle_hash = move_puzzle_hash d m,
      amount = cb_amount (vm_clawback m)\<rparr>"

definition cancel_move ::
  "'l clawback_driver \<Rightarrow> vault_move \<Rightarrow> coin \<Rightarrow> 'l \<Rightarrow> condition list \<Rightarrow> coin_spend list \<Rightarrow>
     (coin_spend list, account_error) result"
where
  "cancel_move d m c layer extra ctx =
     and_then (map_err (\<lambda>e. Spend (''cannot build the vault-move cancel: '' @ e))
                 (recover_spend d (vm_clawback m) c layer extra))
       (\<lambda>spends. Ok (ctx @ spends))"

definition settle_move ::
  "'l clawback_driver \<Rightarrow> vault_move \<Rightarrow> coin \<Rightarrow> 'l \<Rightarrow> condition list \<Rightarrow> coin_spend list \<Rightarrow>
     (coin_spend list, account_error) result"
where
  "settle_move d m c layer extra ctx =
     and_then (map_err (\<lambda>e. Spend (''cannot build the vault-move settlement: '' @ e))
                 (finish_spend d (vm_clawback m) c layer extra))
       (\<lambda>spends. Ok (ctx @ spends))"

definition parse_pending ::
  "'l clawback_driver \<Rightarrow> memos \<Rightarrow> coin \<Rightarrow> bytes32 \<Rightarrow> vault_move option" where
  "parse_pending d memo c hot_ph =
     map_option VaultMove (from_memo d memo hot_ph (amount c) True (puzzle_hash c))"

text \<open>A planned vault move gives at least a day: its deadline is the clock's own reading plus a
  window of no less than 24 hours, without wrap-around, so it is never in the past; it leaves the
  vault for a different puzzle hash and moves something. And the coin that funding it creates is
  found again: read back from its own memo, it is the very same move with the same deadline, where
  the clawback driver reads the memos it writes.\<close>

theorem vault_move_gives_a_day_and_is_found_again:
  assumes "to_hot_wallet v vault_ph hot_ph n clock = Ok m"
    and "clawback_memos d hot_ph (vm_clawback m) = Ok memo"
    and "from_memo d memo hot_ph n True (clawback_hash d (vm_clawback m)) = Some (vm_clawback m)"
  shows "\<exists>now. clock = Ok now \<and>
     unat (settles_at_unix m) = unat now + unat (clawback_seconds v) \<and>
     unat now + 86400 \<le> unat (settles_at_unix m) \<and>
     cb_sender (vm_clawback m) = vault_ph \<and> cb_receiver (vm_clawback m) = hot_ph \<and>
     vault_ph \<noteq> hot_ph \<and> 0 < cb_amount (vm_clawback m) \<and>
     funding_conditions d m =
       Ok [CreateCoin (puzzle_hash (move_coin d m parent)) (amount (move_coin d m parent)) memo] \<and>
     parse_pending d memo (move_coin d m parent) hot_ph = Some m"
proof -
  obtain now settles where *: "n \<noteq> 0" "hot_ph \<noteq> vault_ph" "\<not> clawback_seconds v < MIN_CLAWBACK_SECONDS"
    "clock = Ok now" "checked_add now (clawback_seconds v) = Some settles"
    and m: "m = VaultMove \<lparr>cb_sender = vault_ph, cb_receiver = hot_ph, cb_seconds = settles,
                          cb_amount = n, cb_hinted = True\<rparr>"
    using assms(1) by (auto simp: to_hot_wallet_def result_simps split: if_splits)
  have "86400 \<le> unat (clawback_seconds v)"
    using *(3) by (simp add: MIN_CLAWBACK_SECONDS_def not_less word_le_nat_alt)
  then show ?thesis
    using * checked_add_unat [OF *(5)] assms(2,3)
    by (simp add: m settles_at_unix_def funding_conditions_def move_coin_def parse_pending_def
        move_puzzle_hash_def word_gt_0)
qed

definition sample_move :: vault_move where
  "sample_move = VaultMove \<lparr>cb_sender = 1, cb_receiver = 2, cb_seconds = 86500, cb_amount = 5,
                            cb_hinted = True\<rparr>"

definition sample_clawback_driver :: "unit clawback_driver" where
  "sample_clawback_driver =
     \<lparr>clawback_hash = (\<lambda>c. 33), clawback_memos = (\<lambda>r c. Ok NoMemos),
      recover_spend = (\<lambda>c k l x. Ok []), finish_spend = (\<lambda>c k l x. Ok []),
      from_memo = (\<lambda>m r n b h. if h = 33 then Some (vm_clawback sample_move) else None)\<rparr>"

theorem vault_move_gives_a_day_and_is_found_again_witness:
  "to_hot_wallet vault_default 1 2 5 (Ok 100) = Ok sample_move \<and>
   parse_pending sample_clawback_driver NoMemos (move_coin sample_clawback_driver sample_move 44) 2 =
     Some sample_move"
proof -
  have m: "to_hot_wallet vault_default 1 2 5 (Ok 100) = Ok sample_move"
    by (simp add: to_hot_wallet_def vault_default_def MIN_CLAWBACK_SECONDS_def checked_add_def
        ok_or_def sample_move_def)
  show ?thesis
    using m vault_move_gives_a_day_and_is_found_again
      [OF m, of sample_clawback_driver NoMemos 44]
    by (simp add: sample_clawback_driver_def)
qed

end
