(* ===== verification/Spend_Signing.thy ===== *)
theory Spend_Signing
  imports Xch_Transfer Session_Residency Profile_Registry
begin

text \<open>
  What every act that spends a profile's singletons shares: the signing domain and the push
  outcome (\<open>MintNetwork\<close> of \<open>src/mint/did.rs\<close>, \<open>src/mint/chain.rs\<close>), the
  signing loop each builder runs behind its own gate, and the rule those gates have in common.

  BLS arithmetic is \<open>chia-bls\<close>: the record \<open>signature_scheme\<close> holds the default
  signature, aggregation, signing with a wallet's secret key and the message of a requirement.
  Which signatures a list of spends requires is computed by the drivers, a parameter of each
  builder. A publisher is the host's code, and may look at anything the host holds when it is
  called, so it is a function of the bundle and of the world as it then stands.
\<close>

section \<open>Requirements and the signing domain\<close>

record bls_requirement =
  br_public_key :: "byte list"
  br_raw_message :: "byte list"
  br_appended_info :: "byte list"
  br_domain_string :: "bytes32 option"

datatype required_signature = Bls bls_requirement | Secp

record mint_network =
  mn_me :: bytes32

definition network_from_constants :: "bytes32 \<Rightarrow> mint_network" where
  "network_from_constants me = \<lparr>mn_me = me\<rparr>"

text \<open>\<open>sig_sign w m\<close> signs \<open>m\<close> with the secret key of the wallet key \<open>w\<close>.\<close>

record 'g signature_scheme =
  sig_default :: 'g
  sig_add :: "'g \<Rightarrow> 'g \<Rightarrow> 'g"
  sig_sign :: "wallet_key \<Rightarrow> byte list \<Rightarrow> 'g"
  sig_message :: "bls_requirement \<Rightarrow> byte list"

text \<open>\<open>AGG_SIG_ME\<close> under the wallet's own key: the requirement every gate admits.\<close>

definition own_bound_signature :: "wallet_key \<Rightarrow> mint_network \<Rightarrow> required_signature \<Rightarrow> bool" where
  "own_bound_signature w net r =
     (case r of
        Bls b \<Rightarrow> br_public_key b = wk_public_key w \<and> br_domain_string b = Some (mn_me net)
      | Secp \<Rightarrow> False)"

text \<open>
  The loop every gate runs over the requirements: in order, and for each the key before the domain.
  The refusals it states are the gate's own.
\<close>

fun admit_requirements ::
  "'e \<Rightarrow> 'e \<Rightarrow> 'e \<Rightarrow> wallet_key \<Rightarrow> mint_network \<Rightarrow> required_signature list \<Rightarrow> (unit, 'e) result"
where
  "admit_requirements foreign unbound other w net [] = Ok ()"
| "admit_requirements foreign unbound other w net (Bls b # rs) =
     (if br_public_key b \<noteq> wk_public_key w then Err foreign
      else if br_domain_string b \<noteq> Some (mn_me net) then Err unbound
      else admit_requirements foreign unbound other w net rs)"
| "admit_requirements foreign unbound other w net (Secp # rs) = Err other"

lemma admit_requirements_Ok:
  "admit_requirements f u x w net rs = Ok () \<longleftrightarrow> list_all (own_bound_signature w net) rs"
proof (induction rs)
  case Nil
  then show ?case by simp
next
  case (Cons r rs)
  then show ?case by (cases r) (auto simp: own_bound_signature_def)
qed

text \<open>The loop behind each gate; \<open>unreachable\<close> is the refusal its \<open>else\<close> branch states.\<close>

fun sign_requirements ::
  "'g signature_scheme \<Rightarrow> 'e \<Rightarrow> wallet_key \<Rightarrow> 'g \<Rightarrow> required_signature list \<Rightarrow> ('g, 'e) result"
where
  "sign_requirements sc unreachable w acc [] = Ok acc"
| "sign_requirements sc unreachable w acc (Bls b # rs) =
     sign_requirements sc unreachable w (sig_add sc acc (sig_sign sc w (sig_message sc b))) rs"
| "sign_requirements sc unreachable w acc (Secp # rs) = Err unreachable"

fun bls_messages :: "'g signature_scheme \<Rightarrow> required_signature list \<Rightarrow> byte list list" where
  "bls_messages sc [] = []"
| "bls_messages sc (Bls b # rs) = sig_message sc b # bls_messages sc rs"
| "bls_messages sc (Secp # rs) = bls_messages sc rs"

definition aggregate :: "'g signature_scheme \<Rightarrow> wallet_key \<Rightarrow> byte list list \<Rightarrow> 'g" where
  "aggregate sc w ms = foldl (\<lambda>acc m. sig_add sc acc (sig_sign sc w m)) (sig_default sc) ms"

lemma sign_requirements_own:
  "list_all (own_bound_signature w net) rs \<Longrightarrow>
     sign_requirements sc u w acc rs =
       Ok (foldl (\<lambda>acc m. sig_add sc acc (sig_sign sc w m)) acc (bls_messages sc rs))"
proof (induction rs arbitrary: acc)
  case Nil
  then show ?case by simp
next
  case (Cons r rs)
  then show ?case by (cases r) (auto simp: own_bound_signature_def)
qed

text \<open>
  The gates of the crate, as one contract: whatever else a gate demands of the spends, it admits
  only requirements under the wallet's own key in the network's domain. \<open>'a\<close> is what a gate
  is told besides (the coins it expects), \<open>'e\<close> its errors.
\<close>

locale signing_gate =
  fixes gate ::
    "'a \<Rightarrow> wallet_key \<Rightarrow> mint_network \<Rightarrow> coin_spend list \<Rightarrow> required_signature list \<Rightarrow> (unit, 'e) result"
  assumes gate_own:
    "gate x w net spends required = Ok () \<Longrightarrow> list_all (own_bound_signature w net) required"
begin

text \<open>The branch the sources call unreachable is: a gated list is signed, message by message.\<close>

lemma gated_signature:
  "gate x w net spends required = Ok () \<Longrightarrow>
     sign_requirements sc u w (sig_default sc) required = Ok (aggregate sc w (bls_messages sc required))"
  using sign_requirements_own [OF gate_own] by (simp add: aggregate_def)

lemma gated_sign_result:
  "and_then (gate x w net spends required)
     (\<lambda>_. sign_requirements sc u w (sig_default sc) required) =
   and_then (gate x w net spends required)
     (\<lambda>_. Ok (aggregate sc w (bls_messages sc required)))"
  by (cases "gate x w net spends required") (simp_all add: gated_signature)

lemma gate_keeps_others_out:
  "gate x w net spends required = Ok () \<Longrightarrow> Bls b \<in> set required \<Longrightarrow>
     br_public_key b = wk_public_key w \<and> br_domain_string b = Some (mn_me net)"
  using gate_own [of x w net spends required]
  by (fastforce simp: list_all_iff own_bound_signature_def dest!: bspec)

end

section \<open>Roots\<close>

text \<open>The spends whose parent is not spent in the same bundle: the pre-existing coins.\<close>

definition bundle_roots :: "(coin \<Rightarrow> bytes32) \<Rightarrow> coin_spend list \<Rightarrow> coin_spend list" where
  "bundle_roots cid spends =
     (let spent = map (\<lambda>s. cid (spent_coin s)) spends
      in filter (\<lambda>s. parent_coin_info (spent_coin s) \<notin> set spent) spends)"

section \<open>Pushing\<close>

datatype push_outcome = Accepted | AlreadyInMempool | PushRejected string

record 'g spend_bundle =
  sb_coin_spends :: "coin_spend list"
  sb_signature :: 'g

text \<open>\<open>'w\<close> is the world the publisher is called in, \<open>'p\<close> its own state.\<close>

type_synonym ('g, 'w, 'p) publisher =
  "'g spend_bundle \<Rightarrow> 'w \<Rightarrow> (push_outcome, string) result \<times> 'p"

text \<open>The clock and the shared token at each liveness check of a call, by its number.\<close>

type_synonym liveness = "nat \<Rightarrow> nat \<times> residency"

definition live_at_check :: "liveness \<Rightarrow> nat \<Rightarrow> bool" where
  "live_at_check live k = (case live k of (now, r) \<Rightarrow> residency_is_live now r)"

section \<open>Wallet keys\<close>

text \<open>
  \<open>derive seed ix\<close> is the synthetic public key of the wallet path and \<open>to_ph\<close> the tree
  hash of the standard puzzle with it, both computed by the Chia libraries.
\<close>

definition wallet_key_from_seed_at ::
  "('z \<Rightarrow> profile_ix \<Rightarrow> byte list) \<Rightarrow> (byte list \<Rightarrow> bytes32) \<Rightarrow> 'z \<Rightarrow> profile_ix \<Rightarrow> wallet_key" where
  "wallet_key_from_seed_at derive to_ph seed ix =
     (let pk = derive seed ix in \<lparr>wk_public_key = pk, wk_puzzle_hash = to_ph pk\<rparr>)"

definition wallet_key_from_seed ::
  "('z \<Rightarrow> profile_ix \<Rightarrow> byte list) \<Rightarrow> (byte list \<Rightarrow> bytes32) \<Rightarrow> 'z \<Rightarrow> wallet_key" where
  "wallet_key_from_seed derive to_ph seed = wallet_key_from_seed_at derive to_ph seed root_ix"

definition wallet_address :: "'n spend_driver \<Rightarrow> wallet_key \<Rightarrow> (string, account_error) result" where
  "wallet_address drv w =
     map_err (\<lambda>e. Keystore (''address encode: '' @ e))
       (encode_address drv (wk_puzzle_hash w) MAINNET_ADDRESS_PREFIX)"

end
