(* ===== verification/Did_Mint.thy ===== *)
theory Did_Mint
  imports Spend_Signing
begin

text \<open>
  Minting a DID (\<open>src/mint/did.rs\<close>, with \<open>src/mint/error.rs\<close>,
  \<open>src/mint/status.rs\<close> and the unlock scope of \<open>src/profile_mint.rs\<close>): choosing and
  reserving one funding coin, building the split and the DID creation, gating and signing them,
  pushing the bundle, and reporting where it stands.

  \<open>dig-did\<close> builds the DID spends: the record \<open>did_driver\<close> holds the functions of it
  the crate calls. A function that walks the chain itself reads it an unknown number of times, so
  it is given the number of reads made and returns the number made after. An error that carries a
  rendered message in the crate carries here the fact the message states.
\<close>

section \<open>Errors\<close>

text \<open>
  What a resumed reward-distributor record can fail on: \<open>RecordField\<close>, \<open>OwnershipProof\<close> and
  \<open>RecordRejection\<close>. A \<open>detail\<close> rendered by the crate is here the fact it states.
\<close>

datatype record_field =
    FieldDistributorLauncherId
  | FieldManagerLauncherId
  | FieldFundingCoinId
  | FieldRewardCatCoinId
  | FieldGeneration
  | FieldPushedAtHeight

fun record_field_name :: "record_field \<Rightarrow> string" where
  "record_field_name FieldDistributorLauncherId = ''distributor_launcher_id''"
| "record_field_name FieldManagerLauncherId = ''manager_launcher_id''"
| "record_field_name FieldFundingCoinId = ''funding_coin_id''"
| "record_field_name FieldRewardCatCoinId = ''reward_cat_coin_id''"
| "record_field_name FieldGeneration = ''generation''"
| "record_field_name FieldPushedAtHeight = ''pushed_at_height''"

datatype ownership_proof =
    FundingCoinIsThisAccounts
  | RewardCatCoinIsThisAccounts
  | ManagerLauncherDescends
  | DistributorLauncherDescends

datatype malformed_detail =
    AllZero
  | EqualsFundingCoin
  | EqualsDistributorLauncher
  | PushedAtGenesis
  | NotALaunchComment string

datatype ownership_detail =
    ChainHasNoRecord bytes32
  | NotAtThisPuzzleHash bytes32
  | NotTheDerivedManager bytes32 bytes32
  | SecurityCoinUnknown bytes32
  | TracesToAnotherSettlement bytes32 bytes32

datatype unusable_height = CreationUnknown | CreatedAtGenesis | SpentBeforeCreation u32

datatype unproven_detail =
    FundingStillUnspent
  | SpendHeightUnusable u32 unusable_height
  | SpendTooShallow u32 u32 u32
  | LauncherOnlyInMempool

datatype record_rejection =
    Malformed record_field malformed_detail
  | NotYours ownership_proof ownership_detail
  | Unproven unproven_detail
  | LaunchDead u32 u32

datatype chain_reason =
    SourceFailed string
  | SourceHasNoPeak
  | UnknownCoinState unconfirmed_input
  | PublisherFailed string
  | DidLineageFailed string
  | DidLineageGone
  | DidNoLongerConfirmed bytes32
  | ResumeReadFailed bytes32 string
  | ResumeMisrouted bytes32 bytes32
  | DiscoveryFailed string

datatype mint_refusal =
    KeyNotThisWallets
  | SignatureUnbound
  | SecpSignature
  | NonBlsAfterGate
  | RootNotThisWallets
  | MintRootCount nat
  | LaunchRootCount nat
  | LaunchWithoutDid
  | FundingNotThisWallets
  | TipIsNotRecordedDid bytes32 bytes32
  | DidToSpendIsNotRecorded bytes32 bytes32
  | RewardCatNotThisWallets
  | EpochLengthZero
  | RewardCatNotDig
  | KeyOutsideTheLaunch
  | NotQuoteForm
  | DistributorRootCount nat

datatype mint_build_reason =
    OwnHintFailed string
  | FundingSplitFailed string
  | DidCreateFailed string
  | NoChildDid
  | RequirementsUnreadable string
  | IntermediateFailed string
  | LaunchFailed string
  | DidSpendFailed string
  | FundingSpendFailed string
  | IntermediateNotEven
  | NoLauncherSpend
  | LauncherNotOnIntermediate
  | SeedBodyFailed string
  | ManagerLaunchFailed string
  | ConstantsFailed string
  | CatSettlementFailed string
  | OfferSpendCount
  | OfferFailed string
  | DistributorLaunchFailed string
  | WalletSpendUnreadable string
  | SecurityKeyUnsigned
  | AggregateDoesNotVerify
  | CommitIncentivesFailed string
  | FundingCatSpendFailed string
  | DistributorSpendFailed string
  | WithdrawFailed string
  | AuthorizingSpendFailed string

datatype journal_reason =
    NoMintJournalled profile_ix
  | NoSeedJournalled profile_ix
  | RegistryRefused account_error

datatype mint_error =
    MintFundsInsufficient u64 u64
  | MintCoinsReserved u64 u64
  | MintReservationUnusable reservation_error
  | MintRejected string
  | MintChainUnreachable chain_reason
  | MintBuild mint_build_reason
  | MintLocked
  | FeeAboveCeiling u64 u64
  | MintJournal journal_reason
  | MintRefused mint_refusal
  | MintRecordRejected record_rejection
  | RefillUnownedFundingCoin
  | RefillZeroEpoch
  | RefillWrongAsset
  | RefillZeroRewardsBaseUnits
  | RefillPendingSpendPopulated
  | RefillUnexpectedRoots nat
  | ClawbackNotAuthority
  | ClawbackUnownedCoin
  | ClawbackEpochAlreadyStarted u64 u64
  | ClawbackDriverShareNotRepresentable u64 u64
  | ClawbackDriverShareDisagrees
  | ClawbackPendingSpendPopulated
  | ClawbackUnexpectedRoots nat
  | ClawbackRewardSlotEpochMismatch u64 u64
  | ClawbackRewardSlotInsufficientRewards u64 "128 word"

section \<open>The drivers\<close>

record 'd did_value =
  dv_launcher_id :: bytes32
  dv_coin :: coin
  dv_inner :: 'd

text \<open>
  \<open>did_create staged funding pk\<close> adds to the spends staged in the context and drains it.
\<close>

record 'd did_driver =
  did_create ::
    "coin_spend list \<Rightarrow> coin \<Rightarrow> byte list \<Rightarrow> (coin_spend list \<times> 'd did_value option, string) result"
  did_required :: "bytes32 \<Rightarrow> coin_spend list \<Rightarrow> (required_signature list, string) result"
  did_walk :: "nat \<Rightarrow> bytes32 \<Rightarrow> (('d did_value) option, string) result \<times> nat"

record ('d, 'g) mint_tools =
  mt_id :: "coin \<Rightarrow> bytes32"
  mt_did_of :: "bytes32 \<Rightarrow> string"
  mt_builder :: spend_builder
  mt_did :: "'d did_driver"
  mt_scheme :: "'g signature_scheme"
  mt_keys :: "profile_ix \<Rightarrow> wallet_key"

section \<open>Options and the unlock\<close>

definition SINGLETON_AMOUNT :: u64 where
  "SINGLETON_AMOUNT = 1"

record mint_options =
  mo_fee :: u64

definition options_with_fee :: "u64 \<Rightarrow> mint_options" where
  "options_with_fee fee = \<lparr>mo_fee = fee\<rparr>"

definition required_coin_amount :: "mint_options \<Rightarrow> u64" where
  "required_coin_amount options = saturating_add SINGLETON_AMOUNT (mo_fee options)"

definition check_fee_ceiling :: "mint_options \<Rightarrow> (unit, mint_error) result" where
  "check_fee_ceiling options =
     (if MAX_MINT_FEE_MOJOS < mo_fee options
      then Err (FeeAboveCeiling (mo_fee options) MAX_MINT_FEE_MOJOS) else Ok ())"

text \<open>The \<open>k\<close>-th liveness check of the call.\<close>

definition ensure_live :: "liveness \<Rightarrow> nat \<Rightarrow> (unit, mint_error) result" where
  "ensure_live live k = (if live_at_check live k then Ok () else Err MintLocked)"

definition live_wallet_key ::
  "('d, 'g) mint_tools \<Rightarrow> liveness \<Rightarrow> nat \<Rightarrow> profile_ix \<Rightarrow> (wallet_key, mint_error) result" where
  "live_wallet_key mt live k ix = (if live_at_check live k then Ok (mt_keys mt ix) else Err MintLocked)"

section \<open>Funding\<close>

definition mint_peak_height :: "chain_source \<Rightarrow> nat \<Rightarrow> (u32, mint_error) result \<times> nat" where
  "mint_peak_height chain t =
     (case ask_peak chain t of
        Err e \<Rightarrow> Err (MintChainUnreachable (SourceFailed e))
      | Ok None \<Rightarrow> Err (MintChainUnreachable SourceHasNoPeak)
      | Ok (Some peak) \<Rightarrow> Ok peak, Suc t)"

record funding_scan =
  fs_best :: "coin option"
  fs_available :: u64
  fs_owns :: bool

definition funding_step ::
  "(coin \<Rightarrow> bytes32) \<Rightarrow> u64 \<Rightarrow> bytes32 list \<Rightarrow> coin_record \<Rightarrow> funding_scan \<Rightarrow> funding_scan" where
  "funding_step cid required reserved r f =
     (let c = rec_coin r; f1 = f\<lparr>fs_available := max (fs_available f) (amount c)\<rparr> in
      if amount c < required then f1
      else let f2 = f1\<lparr>fs_owns := True\<rparr> in
        if cid c \<in> set reserved then f2
        else if (case fs_best f2 of None \<Rightarrow> True | Some current \<Rightarrow> amount c < amount current)
        then f2\<lparr>fs_best := Some c\<rparr> else f2)"

definition mint_spendable :: "bytes32 \<Rightarrow> coin_record \<Rightarrow> bool" where
  "mint_spendable ph r \<longleftrightarrow>
     puzzle_hash (rec_coin r) = ph \<and> confirmed_height r \<noteq> None \<and> \<not> is_spent r"

definition scan_funding ::
  "(coin \<Rightarrow> bytes32) \<Rightarrow> bytes32 \<Rightarrow> u64 \<Rightarrow> bytes32 list \<Rightarrow> coin_record list \<Rightarrow> funding_scan" where
  "scan_funding cid ph required reserved records =
     fold (funding_step cid required reserved) (filter (mint_spendable ph) records)
       \<lparr>fs_best = None, fs_available = 0, fs_owns = False\<rparr>"

definition unknown_state :: "unconfirmed_input \<Rightarrow> mint_error" where
  "unknown_state u = MintChainUnreachable (UnknownCoinState u)"

definition select_funding_coin ::
  "(coin \<Rightarrow> bytes32) \<Rightarrow> chain_source \<Rightarrow> bytes32 \<Rightarrow> mint_options \<Rightarrow> nat \<Rightarrow> bytes32 list \<Rightarrow>
     (coin, mint_error) result \<times> nat"
where
  "select_funding_coin cid chain ph options t reserved =
     (case ask_by_puzzle_hash chain t ph False of
        Err e \<Rightarrow> (Err (MintChainUnreachable (SourceFailed e)), Suc t)
      | Ok records \<Rightarrow>
          (let required = required_coin_amount options;
               f = scan_funding cid ph required reserved records in
           case fs_best f of
             None \<Rightarrow>
               (Err (if fs_owns f then MintCoinsReserved required (fs_available f)
                     else MintFundsInsufficient required (fs_available f)), Suc t)
           | Some chosen \<Rightarrow>
               (case confirm_spendable_by_name cid chain (Suc t) chosen of
                  (Err u, t') \<Rightarrow> (Err (unknown_state u), t')
                | (Ok _, t') \<Rightarrow> (Ok chosen, t'))))"

text \<open>The rule as the reservation loop calls it: the coin, and its id to reserve.\<close>

definition funding_rule ::
  "(coin \<Rightarrow> bytes32) \<Rightarrow> chain_source \<Rightarrow> bytes32 \<Rightarrow> mint_options \<Rightarrow> nat \<Rightarrow> bytes32 list \<Rightarrow>
     (coin \<times> bytes32 list, mint_error) result \<times> nat"
where
  "funding_rule cid chain ph options t excluded =
     (case select_funding_coin cid chain ph options t excluded of
        (Err e, t') \<Rightarrow> (Err e, t')
      | (Ok c, t') \<Rightarrow> (Ok (c, [cid c]), t'))"

section \<open>Building, gating, signing\<close>

definition split_change_and_fee :: "u64 \<Rightarrow> u64 \<Rightarrow> u64 \<times> u64" where
  "split_change_and_fee source_amount requested_fee =
     (let change = saturating_sub (saturating_sub source_amount SINGLETON_AMOUNT) requested_fee in
      if change = SINGLETON_AMOUNT then (0, saturating_add requested_fee change)
      else (change, requested_fee))"

definition mint_conditions :: "bytes32 \<Rightarrow> byte list \<Rightarrow> u64 \<Rightarrow> u64 \<Rightarrow> condition list" where
  "mint_conditions ph hint change fee =
     [CreateCoin ph SINGLETON_AMOUNT (Hint hint)] @
     (if 0 < change then [CreateCoin ph change (Hint hint)] else []) @
     (if 0 < fee then [ReserveFee fee] else [])"

definition build_mint_spends ::
  "('d, 'g) mint_tools \<Rightarrow> wallet_key \<Rightarrow> coin \<Rightarrow> mint_options \<Rightarrow> u32 \<Rightarrow>
     (coin_spend list \<times> pending_mint, mint_error) result"
where
  "build_mint_spends mt w source options pushed_at_height =
     (let ph = wk_puzzle_hash w; (change, fee) = split_change_and_fee (amount source) (mo_fee options) in
      and_then (map_err (MintBuild \<circ> OwnHintFailed) (hint_of (mt_builder mt) ph)) (\<lambda>hint.
      and_then (map_err (MintBuild \<circ> FundingSplitFailed)
                  (standard_spend (mt_builder mt) (wk_public_key w) source
                     (mint_conditions ph hint change fee))) (\<lambda>split_spend.
      let funding = \<lparr>parent_coin_info = mt_id mt source, puzzle_hash = ph, amount = SINGLETON_AMOUNT\<rparr> in
      and_then (map_err (MintBuild \<circ> DidCreateFailed)
                  (did_create (mt_did mt) [split_spend] funding (wk_public_key w))) (\<lambda>(spends, child).
      and_then (ok_or (MintBuild NoChildDid) child) (\<lambda>did.
      Ok (spends, pending_mint_new (dv_launcher_id did) (mt_id mt (dv_coin did)) (mt_id mt source)
                    pushed_at_height))))))"

definition mint_gate ::
  "(coin \<Rightarrow> bytes32) \<Rightarrow> wallet_key \<Rightarrow> mint_network \<Rightarrow> coin_spend list \<Rightarrow> required_signature list \<Rightarrow>
     (unit, mint_error) result"
where
  "mint_gate cid w net spends required =
     and_then (admit_requirements (MintRefused KeyNotThisWallets) (MintRefused SignatureUnbound)
                 (MintRefused SecpSignature) w net required)
       (\<lambda>_. case bundle_roots cid spends of
            [only] \<Rightarrow> (if puzzle_hash (spent_coin only) = wk_puzzle_hash w then Ok ()
                       else Err (MintRefused RootNotThisWallets))
          | roots \<Rightarrow> Err (MintRefused (MintRootCount (length roots))))"

interpretation mint: signing_gate "mint_gate"
  by unfold_locales (auto simp: mint_gate_def result_simps admit_requirements_Ok)

definition sign_mint_spends ::
  "('d, 'g) mint_tools \<Rightarrow> wallet_key \<Rightarrow> coin_spend list \<Rightarrow> mint_network \<Rightarrow> ('g, mint_error) result" where
  "sign_mint_spends mt w spends net =
     and_then (map_err (MintBuild \<circ> RequirementsUnreadable) (did_required (mt_did mt) (mn_me net) spends))
       (\<lambda>required.
     and_then (mint_gate (mt_id mt) w net spends required) (\<lambda>_.
     sign_requirements (mt_scheme mt) (MintRefused NonBlsAfterGate) w (sig_default (mt_scheme mt)) required))"

section \<open>The ceremony\<close>

definition prepare_did_mint ::
  "('d, 'g) mint_tools \<Rightarrow> liveness \<Rightarrow> profile_ix \<Rightarrow> chain_source \<Rightarrow> mint_network \<Rightarrow> mint_options \<Rightarrow>
     's coin_reservations \<Rightarrow> (nat \<Rightarrow> 's \<Rightarrow> 's) \<Rightarrow> nat \<Rightarrow> 's \<Rightarrow>
     ('g spend_bundle \<times> pending_mint \<times> reservation_id, mint_error) result \<times> nat \<times> 's"
where
  "prepare_did_mint mt live ix chain net options rv env t s =
     (case and_then (live_wallet_key mt live 0 ix) (\<lambda>w.
             and_then (check_fee_ceiling options) (\<lambda>_. Ok w)) of
        Err e \<Rightarrow> (Err e, t, s)
      | Ok w \<Rightarrow>
          (case select_and_reserve rv env MAX_RESERVATION_ATTEMPTS
                  (funding_rule (mt_id mt) chain (wk_puzzle_hash w) options)
                  MintReservationUnusable t s of
             (Err e, t1, s1) \<Rightarrow> (Err e, t1, s1)
           | (Ok (source, held), t1, s1) \<Rightarrow>
               (case mint_peak_height chain t1 of
                  (Err e, t2) \<Rightarrow> (Err e, t2, held_drop rv held s1)
                | (Ok peak, t2) \<Rightarrow>
                    (case and_then (build_mint_spends mt w source options peak) (\<lambda>(spends, pending).
                          and_then (ensure_live live 1) (\<lambda>_.
                          and_then (sign_mint_spends mt w spends net) (\<lambda>signature.
                          Ok (\<lparr>sb_coin_spends = spends, sb_signature = signature\<rparr>, pending)))) of
                       Err e \<Rightarrow> (Err e, t2, held_drop rv held s1)
                     | Ok (bundle, pending) \<Rightarrow> (Ok (bundle, pending, held), t2, s1)))))"

definition push_bundle ::
  "('g, 'w, 'p) publisher \<Rightarrow> 'g spend_bundle \<Rightarrow> 'w \<Rightarrow> (unit, mint_error) result \<times> 'p" where
  "push_bundle pub bundle world =
     (case pub bundle world of
        (Err e, p) \<Rightarrow> (Err (MintChainUnreachable (PublisherFailed e)), p)
      | (Ok (PushRejected reason), p) \<Rightarrow> (Err (MintRejected reason), p)
      | (Ok _, p) \<Rightarrow> (Ok (), p))"

definition begin_did_mint ::
  "('d, 'g) mint_tools \<Rightarrow> liveness \<Rightarrow> profile_ix \<Rightarrow> chain_source \<Rightarrow> ('g, 's \<times> 'p, 'p) publisher \<Rightarrow>
     mint_network \<Rightarrow> mint_options \<Rightarrow> 's coin_reservations \<Rightarrow> (nat \<Rightarrow> 's \<Rightarrow> 's) \<Rightarrow> nat \<Rightarrow> 's \<Rightarrow> 'p \<Rightarrow>
     (pending_mint \<times> reservation_id, mint_error) result \<times> nat \<times> 's \<times> 'p"
where
  "begin_did_mint mt live ix chain pub net options rv env t s p =
     (case prepare_did_mint mt live ix chain net options rv env t s of
        (Err e, t1, s1) \<Rightarrow> (Err e, t1, s1, p)
      | (Ok (bundle, pending, held), t1, s1) \<Rightarrow>
          (case push_bundle pub bundle (s1, p) of
             (Ok _, p1) \<Rightarrow> (let (i, s2) = held_commit held s1 in (Ok (pending, i), t1, s2, p1))
           | (Err (MintRejected reason), p1) \<Rightarrow>
               (Err (MintRejected reason), t1, held_drop rv held s1, p1)
           | (Err e, p1) \<Rightarrow> (let (i, s2) = held_commit held s1 in (Err e, t1, s2, p1))))"

datatype mint_status = MintConfirmed minted_did | MintAwaiting u32 | MintFailed

definition mint_minted :: "mint_status \<Rightarrow> minted_did option" where
  "mint_minted st = (case st of MintConfirmed d \<Rightarrow> Some d | _ \<Rightarrow> None)"

definition did_mint_status ::
  "('d, 'g) mint_tools \<Rightarrow> pending_mint \<Rightarrow> chain_source \<Rightarrow> nat \<Rightarrow> (mint_status, mint_error) result \<times> nat"
where
  "did_mint_status mt pending chain t =
     (case mint_peak_height chain t of
        (Err e, t1) \<Rightarrow> (Err e, t1)
      | (Ok peak, t1) \<Rightarrow>
          (case ask_coin_record chain t1 (pm_did_coin_id pending) of
             Err e \<Rightarrow> (Err (MintChainUnreachable (SourceFailed e)), Suc t1)
           | Ok did_record \<Rightarrow>
               (case Option.bind did_record
                       (\<lambda>r. minted_did_from_confirmed (mt_did_of mt) (mt_id mt) pending r peak) of
                  Some minted \<Rightarrow> (Ok (MintConfirmed minted), Suc t1)
                | None \<Rightarrow>
                    (case ask_coin_record chain (Suc t1) (pm_source_coin_id pending) of
                       Err e \<Rightarrow> (Err (MintChainUnreachable (SourceFailed e)), Suc (Suc t1))
                     | Ok source \<Rightarrow>
                         (if did_record = None \<and> (case source of None \<Rightarrow> False | Some r \<Rightarrow> is_spent r)
                          then (Ok MintFailed, Suc (Suc t1))
                          else (Ok (MintAwaiting (saturating_sub peak (pm_pushed_at_height pending))),
                                Suc (Suc t1)))))))"

end
