(* ===== verification/Profile_Content.thy ===== *)
theory Profile_Content
  imports Did_Mint
begin

text \<open>
  A profile's content as the edit seam handles it: the standard slots (\<open>src/edit/slot.rs\<close>),
  the fields read back (\<open>src/edit/fields.rs\<close>), a batch of changes
  (\<open>src/edit/batch.rs\<close>) and the content a new profile starts with
  (\<open>src/mint/seed.rs\<close>).

  The slot schema, the body encoding and its merkle root are \<open>dig-social-profile\<close>: the record
  \<open>schema\<close> holds the functions of it the crate calls. A \<open>BTreeMap\<close> is a list of
  key/value pairs in ascending key order; the crate orders slots by their schema id.
\<close>

section \<open>Ordered maps\<close>

fun btree_get :: "('k \<Rightarrow> 'o::linorder) \<Rightarrow> 'k \<Rightarrow> ('k \<times> 'v) list \<Rightarrow> 'v option" where
  "btree_get key k [] = None"
| "btree_get key k ((k', v) # m) = (if key k = key k' then Some v else btree_get key k m)"

fun btree_insert :: "('k \<Rightarrow> 'o::linorder) \<Rightarrow> 'k \<Rightarrow> 'v \<Rightarrow> ('k \<times> 'v) list \<Rightarrow> ('k \<times> 'v) list" where
  "btree_insert key k v [] = [(k, v)]"
| "btree_insert key k v ((k', v') # m) =
     (if key k < key k' then (k, v) # (k', v') # m
      else if key k = key k' then (k', v) # m
      else (k', v') # btree_insert key k v m)"

definition btree_remove :: "('k \<Rightarrow> 'o::linorder) \<Rightarrow> 'k \<Rightarrow> ('k \<times> 'v) list \<Rightarrow> ('k \<times> 'v) list" where
  "btree_remove key k m = filter (\<lambda>(k', _). key k' \<noteq> key k) m"

definition btree_ordered :: "('k \<Rightarrow> 'o::linorder) \<Rightarrow> ('k \<times> 'v) list \<Rightarrow> bool" where
  "btree_ordered key m \<longleftrightarrow> sorted_wrt (\<lambda>a b. key (fst a) < key (fst b)) m"

lemma btree_get_insert:
  "btree_get key a (btree_insert key k v m) = (if key a = key k then Some v else btree_get key a m)"
  by (induction key k v m rule: btree_insert.induct) auto

lemma btree_get_remove:
  "btree_get key a (btree_remove key k m) = (if key a = key k then None else btree_get key a m)"
  by (induction m) (auto simp: btree_remove_def)

lemma btree_insert_keys: "(key \<circ> fst) ` set (btree_insert key k v m) = insert (key k) ((key \<circ> fst) ` set m)"
  by (induction key k v m rule: btree_insert.induct) auto

lemma btree_ordered_insert: "btree_ordered key m \<Longrightarrow> btree_ordered key (btree_insert key k v m)"
proof (induction key k v m rule: btree_insert.induct)
  case (1 key k v)
  then show ?case by (simp add: btree_ordered_def)
next
  case (2 key k v k' v' m)
  have later: "\<forall>x\<in>set (btree_insert key k v m). key k' < key (fst x)"
    if lt: "key k' < key k"
  proof
    fix x
    assume "x \<in> set (btree_insert key k v m)"
    then have "key (fst x) \<in> insert (key k) ((key \<circ> fst) ` set m)"
      using btree_insert_keys [of key k v m] by force
    then show "key k' < key (fst x)" using lt 2(2) by (auto simp: btree_ordered_def)
  qed
  show ?case
    using 2 later by (auto simp: btree_ordered_def)
qed

lemma btree_ordered_remove: "btree_ordered key m \<Longrightarrow> btree_ordered key (btree_remove key k m)"
  by (simp add: btree_ordered_def btree_remove_def sorted_wrt_filter)

lemma btree_get_Some: "btree_get key k m = Some v \<Longrightarrow> \<exists>k'. (k', v) \<in> set m \<and> key k' = key k"
  by (induction m) (auto split: if_splits)

lemma btree_get_in:
  "btree_ordered key m \<Longrightarrow> (k, v) \<in> set m \<Longrightarrow> btree_get key k m = Some v"
proof (induction m)
  case Nil
  then show ?case by simp
next
  case (Cons x m)
  then show ?case by (cases x) (force simp: btree_ordered_def)
qed

section \<open>The schema\<close>

datatype profile_slot =
    DisplayName | Bio | Avatar | Banner | Pronouns | Location | Links | XchAddress
  | AvatarImage | BannerImage

definition ALL_SLOTS :: "profile_slot list" where
  "ALL_SLOTS =
     [DisplayName, Bio, Avatar, Banner, Pronouns, Location, Links, XchAddress, AvatarImage, BannerImage]"

text \<open>The values of the schema the crate does not name are of a type \<open>'x\<close> of that crate.\<close>

datatype 'x slot_value = Utf8 string | OtherValue 'x

datatype 'x slot_edit = SetSlot u16 "'x slot_value" | RemoveSlot u16

record ('q, 'b, 'x) schema =
  sc_slot :: "profile_slot \<Rightarrow> u16"
  sc_version_slot :: u16
  sc_v2 :: 'q
  sc_set :: "u16 \<Rightarrow> 'x slot_value \<Rightarrow> 'q \<Rightarrow> 'q"
  sc_get :: "'q \<Rightarrow> u16 \<Rightarrow> 'x slot_value option"
  sc_version :: "'q \<Rightarrow> u16 option"
  sc_apply_all :: "'x slot_edit list \<Rightarrow> 'q \<Rightarrow> 'q"
  sc_decode :: "byte list \<Rightarrow> ('x slot_value, string) result"
  sc_from_pairs :: "(u16 \<times> 'x slot_value) list \<Rightarrow> ('b, string) result"
  sc_from_profile :: "'q \<Rightarrow> ('b, string) result"
  sc_root :: "'b \<Rightarrow> bytes32"
  sc_bytes :: "'b \<Rightarrow> byte list"
  sc_profile :: "'b \<Rightarrow> 'q"

section \<open>Slots\<close>

definition slot_id :: "('q, 'b, 'x) schema \<Rightarrow> profile_slot \<Rightarrow> u16" where
  "slot_id sc slot = sc_slot sc slot"

definition slot_from_id :: "('q, 'b, 'x) schema \<Rightarrow> u16 \<Rightarrow> profile_slot option" where
  "slot_from_id sc i = find (\<lambda>slot. slot_id sc slot = i) ALL_SLOTS"

fun slot_key :: "profile_slot \<Rightarrow> string" where
  "slot_key DisplayName = ''display_name''"
| "slot_key Bio = ''bio''"
| "slot_key Avatar = ''avatar''"
| "slot_key Banner = ''banner''"
| "slot_key Pronouns = ''pronouns''"
| "slot_key Location = ''location''"
| "slot_key Links = ''links''"
| "slot_key XchAddress = ''xch_address''"
| "slot_key AvatarImage = ''avatar_image''"
| "slot_key BannerImage = ''banner_image''"

lemma all_slots: "slot \<in> set ALL_SLOTS"
  by (cases slot) (simp_all add: ALL_SLOTS_def)

section \<open>Fields\<close>

type_synonym profile_fields = "(profile_slot \<times> string) list"

definition fields_new :: profile_fields where
  "fields_new = []"

definition fields_get :: "('q, 'b, 'x) schema \<Rightarrow> profile_slot \<Rightarrow> profile_fields \<Rightarrow> string option" where
  "fields_get sc slot f = btree_get (slot_id sc) slot f"

definition fields_insert ::
  "('q, 'b, 'x) schema \<Rightarrow> profile_slot \<Rightarrow> string \<Rightarrow> profile_fields \<Rightarrow> profile_fields" where
  "fields_insert sc slot text f = btree_insert (slot_id sc) slot text f"

definition fields_remove ::
  "('q, 'b, 'x) schema \<Rightarrow> profile_slot \<Rightarrow> profile_fields \<Rightarrow> profile_fields" where
  "fields_remove sc slot f = btree_remove (slot_id sc) slot f"

section \<open>A batch of changes\<close>

datatype slot_change = Set string | Remove

type_synonym profile_edit = "(profile_slot \<times> slot_change) list"

definition edit_new :: profile_edit where
  "edit_new = []"

definition edit_set :: "('q, 'b, 'x) schema \<Rightarrow> profile_slot \<Rightarrow> string \<Rightarrow> profile_edit \<Rightarrow> profile_edit" where
  "edit_set sc slot text e = btree_insert (slot_id sc) slot (Set text) e"

definition edit_remove :: "('q, 'b, 'x) schema \<Rightarrow> profile_slot \<Rightarrow> profile_edit \<Rightarrow> profile_edit" where
  "edit_remove sc slot e = btree_insert (slot_id sc) slot Remove e"

definition edit_is_empty :: "profile_edit \<Rightarrow> bool" where
  "edit_is_empty e \<longleftrightarrow> e = []"

definition preview_step ::
  "('q, 'b, 'x) schema \<Rightarrow> profile_slot \<times> slot_change \<Rightarrow> profile_fields \<Rightarrow> profile_fields" where
  "preview_step sc change f =
     (case change of
        (slot, Set text) \<Rightarrow> fields_insert sc slot text f
      | (slot, Remove) \<Rightarrow> fields_remove sc slot f)"

definition edit_preview ::
  "('q, 'b, 'x) schema \<Rightarrow> profile_edit \<Rightarrow> profile_fields \<Rightarrow> profile_fields" where
  "edit_preview sc e current = fold (preview_step sc) e current"

definition slot_edits :: "('q, 'b, 'x) schema \<Rightarrow> profile_edit \<Rightarrow> 'x slot_edit list" where
  "slot_edits sc e =
     map (\<lambda>(slot, change).
            case change of
              Set text \<Rightarrow> SetSlot (slot_id sc slot) (Utf8 text)
            | Remove \<Rightarrow> RemoveSlot (slot_id sc slot)) e"

definition project_step ::
  "('q, 'b, 'x) schema \<Rightarrow> 'q \<Rightarrow> profile_slot \<Rightarrow> profile_fields \<Rightarrow> profile_fields" where
  "project_step sc body slot f =
     (case sc_get sc body (slot_id sc slot) of
        Some (Utf8 text) \<Rightarrow> fields_insert sc slot text f
      | _ \<Rightarrow> f)"

definition project_standard_slots :: "('q, 'b, 'x) schema \<Rightarrow> 'q \<Rightarrow> profile_fields" where
  "project_standard_slots sc body = fold (project_step sc body) ALL_SLOTS fields_new"

section \<open>The seed of a new profile\<close>

definition seed_new :: "('q, 'b, 'x) schema \<Rightarrow> 'q" where
  "seed_new sc = sc_v2 sc"

definition seed_with_utf8 :: "('q, 'b, 'x) schema \<Rightarrow> u16 \<Rightarrow> string \<Rightarrow> 'q \<Rightarrow> 'q" where
  "seed_with_utf8 sc slot text q = sc_set sc slot (Utf8 text) q"

definition seed_with_display_name :: "('q, 'b, 'x) schema \<Rightarrow> string \<Rightarrow> 'q \<Rightarrow> 'q" where
  "seed_with_display_name sc name q = seed_with_utf8 sc (sc_slot sc DisplayName) name q"

definition seed_with_bio :: "('q, 'b, 'x) schema \<Rightarrow> string \<Rightarrow> 'q \<Rightarrow> 'q" where
  "seed_with_bio sc bio q = seed_with_utf8 sc (sc_slot sc Bio) bio q"

definition seed_with_xch_address :: "('q, 'b, 'x) schema \<Rightarrow> string \<Rightarrow> 'q \<Rightarrow> 'q" where
  "seed_with_xch_address sc address q = seed_with_utf8 sc (sc_slot sc XchAddress) address q"

definition seed_body :: "('q, 'b, 'x) schema \<Rightarrow> 'q \<Rightarrow> ('b, mint_error) result" where
  "seed_body sc q = map_err (MintBuild \<circ> SeedBodyFailed) (sc_from_profile sc q)"

definition seed_root :: "('q, 'b, 'x) schema \<Rightarrow> 'q \<Rightarrow> (bytes32, mint_error) result" where
  "seed_root sc q = and_then (seed_body sc q) (\<lambda>b. Ok (sc_root sc b))"

definition seed_body_bytes :: "('q, 'b, 'x) schema \<Rightarrow> 'q \<Rightarrow> (byte list, mint_error) result" where
  "seed_body_bytes sc q = and_then (seed_body sc q) (\<lambda>b. Ok (sc_bytes sc b))"

section \<open>What the schema is documented to do\<close>

fun edit_slot :: "'x slot_edit \<Rightarrow> u16" where
  "edit_slot (SetSlot i v) = i"
| "edit_slot (RemoveSlot i) = i"

fun apply_edit :: "(u16 \<rightharpoonup> 'x slot_value) \<Rightarrow> 'x slot_edit \<Rightarrow> (u16 \<rightharpoonup> 'x slot_value)" where
  "apply_edit m (SetSlot i v) = m(i \<mapsto> v)"
| "apply_edit m (RemoveSlot i) = m(i := None)"

text \<open>Ids are distinct, and a batch is applied edit by edit to the slots it names.\<close>

definition schema_laws :: "('q, 'b, 'x) schema \<Rightarrow> bool" where
  "schema_laws sc \<longleftrightarrow>
     inj (sc_slot sc) \<and>
     (\<forall>es q. sc_get sc (sc_apply_all sc es q) = foldl apply_edit (sc_get sc q) es)"

lemma slot_id_inj: "schema_laws sc \<Longrightarrow> slot_id sc a = slot_id sc b \<longleftrightarrow> a = b"
  by (auto simp: schema_laws_def slot_id_def dest: injD)

end
