(* ===== verification/Store_Launch.thy ===== *)
theory Store_Launch
  imports Profile_Content
begin

text \<open>
  Launching a profile's store from its DID (\<open>src/mint/store_launch.rs\<close>): the even-amount
  intermediate coin, the launcher and eve store, the DID spend that authorizes them and the funding
  coin, drained as one bundle, checked for its shape, gated and signed.

  The drivers stage spends into a context and are the record \<open>store_driver\<close>: each takes the
  staged spends and returns them with its own. The datastore driver is called with the profile kind,
  the owner's puzzle hash and no delegated puzzles. The conditions the DID spend carries are opaque.
\<close>

definition LAUNCHER_AMOUNT :: u64 where
  "LAUNCHER_AMOUNT = 1"

definition INTERMEDIATE_AMOUNT :: u64 where
  "INTERMEDIATE_AMOUNT = 0"

definition INTERMEDIATE_MINT_NUMBER :: nat where
  "INTERMEDIATE_MINT_NUMBER = 0"

definition INTERMEDIATE_MINT_TOTAL :: nat where
  "INTERMEDIATE_MINT_TOTAL = 1"

record 'c launched_store =
  ls_coin :: coin
  ls_launcher_id :: bytes32
  ls_parent_conditions :: 'c

record ('d, 'l, 'c) store_driver =
  sd_intermediate_coin :: "bytes32 \<Rightarrow> nat \<Rightarrow> nat \<Rightarrow> coin"
  sd_create :: "coin_spend list \<Rightarrow> bytes32 \<Rightarrow> nat \<Rightarrow> nat \<Rightarrow> (coin_spend list \<times> 'l, string) result"
  sd_launch ::
    "coin_spend list \<Rightarrow> 'l \<Rightarrow> bytes32 \<Rightarrow> string option \<Rightarrow> string option \<Rightarrow> bytes32 \<Rightarrow>
       (coin_spend list \<times> 'c launched_store, string) result"
  sd_did_spend ::
    "coin_spend list \<Rightarrow> 'd did_value \<Rightarrow> byte list \<Rightarrow> 'c \<Rightarrow> (coin_spend list, string) result"
  sd_required :: "bytes32 \<Rightarrow> coin_spend list \<Rightarrow> (required_signature list, string) result"

definition store_metadata :: "string \<Rightarrow> string option \<times> string option" where
  "store_metadata did_string =
     (Some ''DIG profile'', Some (''The DIG profile store for '' @ did_string))"

definition launch_funding_conditions :: "bytes32 \<Rightarrow> byte list \<Rightarrow> u64 \<Rightarrow> u64 \<Rightarrow> condition list" where
  "launch_funding_conditions ph hint change fee =
     (if 0 < change then [CreateCoin ph change (Hint hint)] else []) @
     (if 0 < fee then [ReserveFee fee] else [])"

definition spend_funding_coin ::
  "spend_builder \<Rightarrow> wallet_key \<Rightarrow> coin_spend list \<Rightarrow> coin \<Rightarrow> u64 \<Rightarrow> (coin_spend list, mint_error) result"
where
  "spend_funding_coin bld w staged funding fee =
     and_then (map_err (MintBuild \<circ> OwnHintFailed) (hint_of bld (wk_puzzle_hash w))) (\<lambda>hint.
     and_then (ok_or (MintFundsInsufficient (saturating_add LAUNCHER_AMOUNT fee) (amount funding))
                 (Option.bind (checked_sub (amount funding) LAUNCHER_AMOUNT) (\<lambda>left. checked_sub left fee)))
       (\<lambda>change.
     and_then (map_err (MintBuild \<circ> FundingSpendFailed)
                 (standard_spend bld (wk_public_key w) funding
                    (launch_funding_conditions (wk_puzzle_hash w) hint change fee))) (\<lambda>spend.
     Ok (staged @ [spend]))))"

definition launch_gate ::
  "(coin \<Rightarrow> bytes32) \<times> bytes32 \<Rightarrow> wallet_key \<Rightarrow> mint_network \<Rightarrow> coin_spend list \<Rightarrow>
     required_signature list \<Rightarrow> (unit, mint_error) result"
where
  "launch_gate ctx w net spends required =
     (let (cid, did_coin_id) = ctx in
      and_then (admit_requirements (MintRefused KeyNotThisWallets) (MintRefused SignatureUnbound)
                  (MintRefused SecpSignature) w net required)
       (\<lambda>_. case bundle_roots cid spends of
            [first, second] \<Rightarrow>
              and_then
                (if cid (spent_coin first) = did_coin_id then Ok second
                 else if cid (spent_coin second) = did_coin_id then Ok first
                 else Err (MintRefused LaunchWithoutDid))
                (\<lambda>wallet_spend.
                   if puzzle_hash (spent_coin wallet_spend) \<noteq> wk_puzzle_hash w
                   then Err (MintRefused FundingNotThisWallets) else Ok ())
          | roots \<Rightarrow> Err (MintRefused (LaunchRootCount (length roots)))))"

interpretation launch: signing_gate launch_gate
  by unfold_locales (auto simp: launch_gate_def result_simps admit_requirements_Ok)

text \<open>The two properties asserted over the drained spends.\<close>

definition check_launch_shape ::
  "(coin \<Rightarrow> bytes32) \<Rightarrow> coin \<Rightarrow> bytes32 \<Rightarrow> coin_spend list \<Rightarrow> (unit, mint_error) result" where
  "check_launch_shape cid intermediate store_launcher_id spends =
     (if amount intermediate \<noteq> INTERMEDIATE_AMOUNT then Err (MintBuild IntermediateNotEven)
      else and_then (ok_or (MintBuild NoLauncherSpend)
                       (find (\<lambda>s. cid (spent_coin s) = store_launcher_id) spends)) (\<lambda>launcher.
        if parent_coin_info (spent_coin launcher) \<noteq> cid intermediate
        then Err (MintBuild LauncherNotOnIntermediate) else Ok ()))"

definition build_and_sign_store_launch ::
  "('d, 'g) mint_tools \<Rightarrow> ('d, 'l, 'c) store_driver \<Rightarrow> wallet_key \<Rightarrow> 'd did_value \<Rightarrow> bytes32 \<Rightarrow> coin \<Rightarrow>
     bytes32 \<Rightarrow> string \<Rightarrow> u64 \<Rightarrow> u32 \<Rightarrow> mint_network \<Rightarrow>
     ('g spend_bundle \<times> pending_store_launch, mint_error) result"
where
  "build_and_sign_store_launch mt sd w did did_coin_id funding root did_string fee pushed_at_height net =
     (let cid = mt_id mt in
      if cid (dv_coin did) \<noteq> did_coin_id
      then Err (MintRefused (DidToSpendIsNotRecorded (cid (dv_coin did)) did_coin_id))
      else
        let intermediate = sd_intermediate_coin sd did_coin_id INTERMEDIATE_MINT_NUMBER INTERMEDIATE_MINT_TOTAL;
            (label, description) = store_metadata did_string in
        and_then (map_err (MintBuild \<circ> IntermediateFailed)
                    (sd_create sd [] did_coin_id INTERMEDIATE_MINT_NUMBER INTERMEDIATE_MINT_TOTAL))
          (\<lambda>(staged1, launcher).
        and_then (map_err (MintBuild \<circ> LaunchFailed)
                    (sd_launch sd staged1 launcher root label description (wk_puzzle_hash w)))
          (\<lambda>(staged2, store).
        and_then (map_err (MintBuild \<circ> DidSpendFailed)
                    (sd_did_spend sd staged2 did (wk_public_key w) (ls_parent_conditions store)))
          (\<lambda>staged3.
        and_then (spend_funding_coin (mt_builder mt) w staged3 funding fee) (\<lambda>spends.
        and_then (check_launch_shape cid intermediate (ls_launcher_id store) spends) (\<lambda>_.
        and_then (map_err (MintBuild \<circ> RequirementsUnreadable) (sd_required sd (mn_me net) spends))
          (\<lambda>required.
        and_then (launch_gate (cid, did_coin_id) w net spends required) (\<lambda>_.
        and_then (sign_requirements (mt_scheme mt) (MintRefused NonBlsAfterGate) w
                    (sig_default (mt_scheme mt)) required) (\<lambda>signature.
        Ok (\<lparr>sb_coin_spends = spends, sb_signature = signature\<rparr>,
            pending_store_launch_new (ls_launcher_id store) (cid (ls_coin store)) did_coin_id root
              pushed_at_height))))))))))"

end
