(* ===== verification/Profile_Mint.thy ===== *)
theory Profile_Mint
  imports Store_Launch
begin

text \<open>
  The profile mint (\<open>src/mint/profile.rs\<close>): the two-phase ceremony over the registry's
  journal, the wallet's reservations, the chain and the publisher. Phase A mints the DID, phase B
  launches the store from it; the journal is written before each push, so that a restart resumes
  where the last call stopped.

  The ceremony's state is the record \<open>mint_world\<close>: the registry, the reads made of the chain,
  the reservation store and the publisher's own state. A call whose registry write panics unwinds:
  the guard on the funding coin is dropped.
\<close>

record ('s, 'p) mint_world =
  mw_registry :: profile_registry
  mw_reads :: nat
  mw_store :: 's
  mw_publisher :: 'p

datatype profile_mint_status =
    DidPending bytes32
  | DidConfirmedNoStore minted_did
  | StorePending minted_did bytes32
  | ProfileConfirmed minted_did confirmed_store

type_synonym ('s, 'p) ceremony =
  "((profile_mint_status, mint_error) result, ('s, 'p) mint_world) run"

section \<open>Reading the journal back\<close>

definition pending_mint_from :: "pending_mint_record \<Rightarrow> pending_mint" where
  "pending_mint_from r =
     pending_mint_new (pmr_launcher_id r) (pmr_did_coin_id r) (pmr_source_coin_id r)
       (pmr_pushed_at_height r)"

definition pending_store_from :: "pending_store_launch_record \<Rightarrow> pending_store_launch" where
  "pending_store_from r =
     pending_store_launch_new (psr_launcher_id r) (psr_store_coin_id r) (psr_did_coin_id r)
       (psr_committed_root r) (psr_pushed_at_height r)"

definition mint_coin_record ::
  "chain_source \<Rightarrow> nat \<Rightarrow> bytes32 \<Rightarrow> (coin_record option, mint_error) result \<times> nat" where
  "mint_coin_record chain t i =
     (map_err (MintChainUnreachable \<circ> SourceFailed) (ask_coin_record chain t i), Suc t)"

definition confirmed_did ::
  "('d, 'g) mint_tools \<Rightarrow> chain_source \<Rightarrow> nat \<Rightarrow> pending_mint \<Rightarrow> u32 \<Rightarrow>
     (minted_did option, mint_error) result \<times> nat"
where
  "confirmed_did mt chain t pending peak =
     (case mint_coin_record chain t (pm_did_coin_id pending) of
        (res, t') \<Rightarrow>
          (and_then res (\<lambda>r. Ok (Option.bind r
             (\<lambda>r. minted_did_from_confirmed (mt_did_of mt) (mt_id mt) pending r peak))), t'))"

definition store_confirmed ::
  "('d, 'g) mint_tools \<Rightarrow> chain_source \<Rightarrow> nat \<Rightarrow> pending_store_launch \<Rightarrow> u32 \<Rightarrow>
     (confirmed_store option, mint_error) result \<times> nat"
where
  "store_confirmed mt chain t pending peak =
     (case mint_coin_record chain t (ps_store_coin_id pending) of
        (res, t') \<Rightarrow>
          (and_then res (\<lambda>r. Ok (Option.bind r
             (\<lambda>r. confirmed_store_from_confirmed (mt_id mt) pending r peak))), t'))"

definition reverified_did ::
  "('d, 'g) mint_tools \<Rightarrow> chain_source \<Rightarrow> nat \<Rightarrow> minted_did_record \<Rightarrow> u32 \<Rightarrow>
     (minted_did, mint_error) result \<times> nat"
where
  "reverified_did mt chain t d peak =
     (case mint_coin_record chain t (mdr_coin_id d) of
        (res, t') \<Rightarrow>
          (and_then res (\<lambda>r. ok_or (MintChainUnreachable (DidNoLongerConfirmed (mdr_coin_id d)))
             (Option.bind r (\<lambda>r. minted_did_reverified (mt_did_of mt) (mt_id mt) (mdr_launcher_id d)
                (mdr_coin_id d) (mdr_confirmed_height d) r peak))), t'))"

definition journalled_mint :: "profile_registry \<Rightarrow> profile_ix \<Rightarrow> (mint_in_progress, mint_error) result"
where
  "journalled_mint r ix =
     ok_or (MintJournal (NoMintJournalled ix)) (find (\<lambda>m. mp_ix m = ix) (in_progress r))"

definition profile_mint_status_of ::
  "('d, 'g) mint_tools \<Rightarrow> profile_registry \<Rightarrow> profile_ix \<Rightarrow> chain_source \<Rightarrow> nat \<Rightarrow>
     (profile_mint_status, mint_error) result \<times> nat"
where
  "profile_mint_status_of mt r ix chain t =
     (case journalled_mint r ix of
        Err e \<Rightarrow> (Err e, t)
      | Ok m \<Rightarrow>
          (case mint_peak_height chain t of
             (Err e, t1) \<Rightarrow> (Err e, t1)
           | (Ok peak, t1) \<Rightarrow>
               (case mp_stage m of
                  DidPushed rec \<Rightarrow>
                    (let pending = pending_mint_from rec in
                     case confirmed_did mt chain t1 pending peak of
                       (res, t2) \<Rightarrow>
                         (and_then res (\<lambda>d. Ok (case d of
                            Some did \<Rightarrow> DidConfirmedNoStore did
                          | None \<Rightarrow> DidPending (pm_did_coin_id pending))), t2))
                | DidConfirmedStoreNotLaunched d \<Rightarrow>
                    (case reverified_did mt chain t1 d peak of
                       (res, t2) \<Rightarrow> (and_then res (\<lambda>did. Ok (DidConfirmedNoStore did)), t2))
                | StorePushed d rec \<Rightarrow>
                    (case reverified_did mt chain t1 d peak of
                       (Err e, t2) \<Rightarrow> (Err e, t2)
                     | (Ok did, t2) \<Rightarrow>
                         (let pending = pending_store_from rec in
                          case store_confirmed mt chain t2 pending peak of
                            (res, t3) \<Rightarrow>
                              (and_then res (\<lambda>s. Ok (case s of
                                 Some store \<Rightarrow> ProfileConfirmed did store
                               | None \<Rightarrow> StorePending did (ps_launcher_id pending))), t3))))))"

section \<open>Phase A: the DID\<close>

definition release_index_on_a_definitive_no ::
  "(bytes32 \<Rightarrow> string) \<Rightarrow> profile_ix \<Rightarrow> mint_error \<Rightarrow> profile_registry \<Rightarrow> (unit, profile_registry) run"
where
  "release_index_on_a_definitive_no did_of ix e r =
     (case e of
        MintRejected _ \<Rightarrow> map_run (\<lambda>_. ()) (abandon_mint did_of ix r)
      | _ \<Rightarrow> Returns () r)"

text \<open>The guard's fate once the bundle was handed over: released exactly on a definitive no.\<close>

definition settle_guard :: "'s coin_reservations \<Rightarrow> reservation_id \<Rightarrow> mint_error \<Rightarrow> 's \<Rightarrow> 's" where
  "settle_guard rv held e s =
     (case e of MintRejected _ \<Rightarrow> held_drop rv held s | _ \<Rightarrow> snd (held_commit held s))"

definition begin_profile_mint ::
  "('d, 'g) mint_tools \<Rightarrow> ('q, 'b, 'x) schema \<Rightarrow> liveness \<Rightarrow> profile_ix \<Rightarrow> 'q \<Rightarrow> chain_source \<Rightarrow>
     ('g, ('s, 'p) mint_world, 'p) publisher \<Rightarrow> mint_network \<Rightarrow> mint_options \<Rightarrow>
     's coin_reservations \<Rightarrow> (nat \<Rightarrow> 's \<Rightarrow> 's) \<Rightarrow> ('s, 'p) mint_world \<Rightarrow> ('s, 'p) ceremony"
where
  "begin_profile_mint mt sc live ix seed chain pub net options rv env w =
     (case seed_root sc seed of
        Err e \<Rightarrow> Returns (Err e) w
      | Ok root \<Rightarrow>
          (case prepare_did_mint mt live ix chain net options rv env (mw_reads w) (mw_store w) of
             (Err e, t, s) \<Rightarrow> Returns (Err e) (w\<lparr>mw_reads := t, mw_store := s\<rparr>)
           | (Ok (bundle, pending, held), t, s) \<Rightarrow>
               (let w1 = w\<lparr>mw_reads := t, mw_store := s\<rparr>; released = held_drop rv held s in
                case begin_seeded_mint (mt_did_of mt) ix (DidPushed (pending_mint_record_from pending))
                       root (mo_fee options) (mw_registry w) of
                  Panics r \<Rightarrow> Panics (w1\<lparr>mw_registry := r, mw_store := released\<rparr>)
                | Returns (Err e) r \<Rightarrow>
                    Returns (Err (MintJournal (RegistryRefused e)))
                      (w1\<lparr>mw_registry := r, mw_store := released\<rparr>)
                | Returns (Ok _) r \<Rightarrow>
                    (let w2 = w1\<lparr>mw_registry := r\<rparr> in
                     case push_bundle pub bundle w2 of
                       (Err e, p) \<Rightarrow>
                         (case release_index_on_a_definitive_no (mt_did_of mt) ix e r of
                            Panics r' \<Rightarrow>
                              Panics (w2\<lparr>mw_registry := r', mw_store := released, mw_publisher := p\<rparr>)
                          | Returns _ r' \<Rightarrow>
                              Returns (Err e)
                                (w2\<lparr>mw_registry := r', mw_store := settle_guard rv held e s,
                                    mw_publisher := p\<rparr>))
                     | (Ok _, p) \<Rightarrow>
                         Returns (Ok (DidPending (pm_did_coin_id pending)))
                           (w2\<lparr>mw_store := snd (held_commit held s), mw_publisher := p\<rparr>)))))"

section \<open>Phase B: the store\<close>

definition rewind_on_a_definitive_no ::
  "profile_ix \<Rightarrow> minted_did \<Rightarrow> mint_error \<Rightarrow> profile_registry \<Rightarrow> (unit, profile_registry) run"
where
  "rewind_on_a_definitive_no ix did e r =
     (case e of
        MintRejected _ \<Rightarrow>
          map_run (\<lambda>_. ()) (advance_mint ix (DidConfirmedStoreNotLaunched (minted_did_record_from did)) r)
      | _ \<Rightarrow> Returns () r)"

text \<open>What \<open>launch_store\<close> establishes before it reserves a coin.\<close>

definition launch_inputs ::
  "('d, 'g) mint_tools \<Rightarrow> liveness \<Rightarrow> profile_registry \<Rightarrow> profile_ix \<Rightarrow> minted_did \<Rightarrow> nat \<Rightarrow>
     (bytes32 \<times> u64 \<times> wallet_key \<times> 'd did_value, mint_error) result \<times> nat"
where
  "launch_inputs mt live r ix did t =
     (case and_then (journalled_mint r ix) (\<lambda>m.
           and_then (ok_or (MintJournal (NoSeedJournalled ix)) (mp_seed_root m)) (\<lambda>root.
           and_then (live_wallet_key mt live 0 ix) (\<lambda>w. Ok (root, mp_store_fee m, w)))) of
        Err e \<Rightarrow> (Err e, t)
      | Ok (root, fee, w) \<Rightarrow>
          (case did_walk (mt_did mt) t (md_launcher_id did) of
             (Err e, t') \<Rightarrow> (Err (MintChainUnreachable (DidLineageFailed e)), t')
           | (Ok None, t') \<Rightarrow> (Err (MintChainUnreachable DidLineageGone), t')
           | (Ok (Some tip), t') \<Rightarrow>
               (if mt_id mt (dv_coin tip) \<noteq> md_coin_id did
                then (Err (MintRefused (TipIsNotRecordedDid (mt_id mt (dv_coin tip)) (md_coin_id did))), t')
                else (Ok (root, fee, w, tip), t'))))"

definition launch_store ::
  "('d, 'g) mint_tools \<Rightarrow> ('d, 'l, 'c) store_driver \<Rightarrow> liveness \<Rightarrow> profile_ix \<Rightarrow> minted_did \<Rightarrow>
     chain_source \<Rightarrow> ('g, ('s, 'p) mint_world, 'p) publisher \<Rightarrow> mint_network \<Rightarrow>
     's coin_reservations \<Rightarrow> (nat \<Rightarrow> 's \<Rightarrow> 's) \<Rightarrow> ('s, 'p) mint_world \<Rightarrow> ('s, 'p) ceremony"
where
  "launch_store mt sd live ix did chain pub net rv env w =
     (case launch_inputs mt live (mw_registry w) ix did (mw_reads w) of
        (Err e, t) \<Rightarrow> Returns (Err e) (w\<lparr>mw_reads := t\<rparr>)
      | (Ok (root, fee, wallet, tip), t) \<Rightarrow>
          (case select_and_reserve rv env MAX_RESERVATION_ATTEMPTS
                  (funding_rule (mt_id mt) chain (wk_puzzle_hash wallet) (options_with_fee fee))
                  MintReservationUnusable t (mw_store w) of
             (Err e, t1, s1) \<Rightarrow> Returns (Err e) (w\<lparr>mw_reads := t1, mw_store := s1\<rparr>)
           | (Ok (funding, held), t1, s1) \<Rightarrow>
               (let released = held_drop rv held s1 in
                case mint_peak_height chain t1 of
                  (Err e, t2) \<Rightarrow> Returns (Err e) (w\<lparr>mw_reads := t2, mw_store := released\<rparr>)
                | (Ok peak, t2) \<Rightarrow>
                    (case and_then (ensure_live live 1) (\<lambda>_.
                            build_and_sign_store_launch mt sd wallet tip (md_coin_id did) funding root
                              (md_did did) fee peak net) of
                       Err e \<Rightarrow> Returns (Err e) (w\<lparr>mw_reads := t2, mw_store := released\<rparr>)
                     | Ok (bundle, pending) \<Rightarrow>
                         (let w1 = w\<lparr>mw_reads := t2, mw_store := s1\<rparr> in
                          case advance_mint ix (StorePushed (minted_did_record_from did)
                                 (pending_store_launch_record_from pending)) (mw_registry w) of
                            Panics r \<Rightarrow> Panics (w1\<lparr>mw_registry := r, mw_store := released\<rparr>)
                          | Returns (Err e) r \<Rightarrow>
                              Returns (Err (MintJournal (RegistryRefused e)))
                                (w1\<lparr>mw_registry := r, mw_store := released\<rparr>)
                          | Returns (Ok _) r \<Rightarrow>
                              (let w2 = w1\<lparr>mw_registry := r\<rparr> in
                               case push_bundle pub bundle w2 of
                                 (Err e, p) \<Rightarrow>
                                   (case rewind_on_a_definitive_no ix did e r of
                                      Panics r' \<Rightarrow>
                                        Panics (w2\<lparr>mw_registry := r', mw_store := released,
                                                   mw_publisher := p\<rparr>)
                                    | Returns _ r' \<Rightarrow>
                                        Returns (Err e)
                                          (w2\<lparr>mw_registry := r', mw_store := settle_guard rv held e s1,
                                              mw_publisher := p\<rparr>))
                               | (Ok _, p) \<Rightarrow>
                                   Returns (Ok (StorePending did (ps_launcher_id pending)))
                                     (w2\<lparr>mw_store := snd (held_commit held s1), mw_publisher := p\<rparr>)))))))"

definition advance_profile_mint ::
  "('d, 'g) mint_tools \<Rightarrow> ('d, 'l, 'c) store_driver \<Rightarrow> liveness \<Rightarrow> profile_ix \<Rightarrow> chain_source \<Rightarrow>
     ('g, ('s, 'p) mint_world, 'p) publisher \<Rightarrow> mint_network \<Rightarrow> 's coin_reservations \<Rightarrow>
     (nat \<Rightarrow> 's \<Rightarrow> 's) \<Rightarrow> ('s, 'p) mint_world \<Rightarrow> ('s, 'p) ceremony"
where
  "advance_profile_mint mt sd live ix chain pub net rv env w =
     (case profile_mint_status_of mt (mw_registry w) ix chain (mw_reads w) of
        (Err e, t) \<Rightarrow> Returns (Err e) (w\<lparr>mw_reads := t\<rparr>)
      | (Ok (DidConfirmedNoStore did), t) \<Rightarrow>
          launch_store mt sd live ix did chain pub net rv env (w\<lparr>mw_reads := t\<rparr>)
      | (Ok settled, t) \<Rightarrow> Returns (Ok settled) (w\<lparr>mw_reads := t\<rparr>))"

end
