(* ===== verification/Mint_Properties.thy ===== *)
theory Mint_Properties
  imports Profile_Mint Transfer_Properties
begin

text \<open>
  What a mint promises of the wallet's coins: which coin funds it, where its value goes, what its
  signature covers, and what becomes of the reservation.
\<close>

section \<open>The funding coin\<close>

text \<open>The records that could fund a mint of \<open>required\<close> mojos, reservations aside.\<close>

definition covering :: "bytes32 \<Rightarrow> u64 \<Rightarrow> coin_record list \<Rightarrow> coin list" where
  "covering ph required records =
     filter (\<lambda>c. required \<le> amount c) (map rec_coin (filter (mint_spendable ph) records))"

definition scanned :: "(coin \<Rightarrow> bytes32) \<Rightarrow> u64 \<Rightarrow> bytes32 list \<Rightarrow> coin list \<Rightarrow> funding_scan \<Rightarrow> bool" where
  "scanned cid required reserved cs f \<longleftrightarrow>
     list_all (\<lambda>c. amount c \<le> fs_available f) cs \<and>
     fs_available f \<in> insert 0 (amount ` set cs) \<and>
     fs_owns f = list_ex (\<lambda>c. required \<le> amount c) cs \<and>
     (case fs_best f of
        None \<Rightarrow> list_all (\<lambda>c. required \<le> amount c \<longrightarrow> cid c \<in> set reserved) cs
      | Some b \<Rightarrow> b \<in> set cs \<and> required \<le> amount b \<and> cid b \<notin> set reserved \<and>
          list_all (\<lambda>c. required \<le> amount c \<and> cid c \<notin> set reserved \<longrightarrow> amount b \<le> amount c) cs)"

lemma scanned_step:
  assumes "scanned cid required reserved cs f"
  shows "scanned cid required reserved (cs @ [rec_coin r]) (funding_step cid required reserved r f)"
proof -
  let ?c = "rec_coin r"
  let ?g = "funding_step cid required reserved r f"
  have av: "fs_available ?g = max (fs_available f) (amount ?c)"
    by (simp add: funding_step_def Let_def)
  have ow: "fs_owns ?g \<longleftrightarrow> fs_owns f \<or> required \<le> amount ?c"
    by (auto simp: funding_step_def Let_def not_less)
  have be: "fs_best ?g =
      (if required \<le> amount ?c \<and> cid ?c \<notin> set reserved \<and>
          (case fs_best f of None \<Rightarrow> True | Some b \<Rightarrow> amount ?c < amount b)
       then Some ?c else fs_best f)"
    by (auto simp: funding_step_def Let_def not_less split: option.splits)
  show ?thesis
    using assms unfolding scanned_def av ow be
    by (auto simp: list_all_iff max_def split: option.splits if_splits)
qed

lemma scan_funding_exact:
  "scanned cid required reserved (map rec_coin (filter (mint_spendable ph) records))
     (scan_funding cid ph required reserved records)"
proof -
  have "scanned cid required reserved (map rec_coin rs)
      (fold (funding_step cid required reserved) rs \<lparr>fs_best = None, fs_available = 0, fs_owns = False\<rparr>)"
    for rs
  proof (induction rs rule: rev_induct)
    case Nil
    then show ?case by (simp add: scanned_def)
  next
    case (snoc r rs)
    then show ?case using scanned_step by simp
  qed
  then show ?thesis by (simp add: scan_funding_def)
qed

text \<open>The largest coin the wallet could spend, zero when it has none.\<close>

definition largest_spendable :: "bytes32 \<Rightarrow> coin_record list \<Rightarrow> u64" where
  "largest_spendable ph records =
     fold max (map (amount \<circ> rec_coin) (filter (mint_spendable ph) records)) 0"

lemma fold_max_bound:
  "fold max xs (a::'a::linorder) \<in> insert a (set xs) \<and> a \<le> fold max xs a \<and> (\<forall>x\<in>set xs. x \<le> fold max xs a)"
proof (induction xs rule: rev_induct)
  case Nil
  then show ?case by simp
next
  case (snoc x xs)
  then show ?case by (auto simp: max_def)
qed

lemma scanned_available:
  assumes "scanned cid required reserved cs f"
  shows "fs_available f = fold max (map amount cs) 0"
proof -
  have "fold max (map amount cs) 0 \<le> fs_available f"
    using assms fold_max_bound [of "map amount cs" 0] by (auto simp: scanned_def list_all_iff)
  moreover have "fs_available f \<le> fold max (map amount cs) 0"
    using assms fold_max_bound [of "map amount cs" 0] by (auto simp: scanned_def)
  ultimately show ?thesis by (rule antisym [rotated])
qed

lemma funding_choice:
  assumes "ask_by_puzzle_hash chain t ph False = Ok records"
  shows "case fs_best (scan_funding cid ph (required_coin_amount options) reserved records) of
      None \<Rightarrow> select_funding_coin cid chain ph options t reserved =
        (Err (if covering ph (required_coin_amount options) records = []
              then MintFundsInsufficient (required_coin_amount options) (largest_spendable ph records)
              else MintCoinsReserved (required_coin_amount options) (largest_spendable ph records)), Suc t)
    | Some c \<Rightarrow> \<exists>res. select_funding_coin cid chain ph options t reserved = (res, Suc (Suc t)) \<and>
        (if confirmed_spendable_at cid chain (Suc t) (cid c) then res = Ok c
         else \<exists>u. res = Err (unknown_state u))"
proof -
  let ?required = "required_coin_amount options"
  let ?f = "scan_funding cid ph ?required reserved records"
  note exact = scan_funding_exact [of cid ?required reserved ph records]
  have owns: "fs_owns ?f \<longleftrightarrow> covering ph ?required records \<noteq> []"
    using exact by (auto simp: scanned_def covering_def list_ex_iff filter_empty_conv)
  have avail: "fs_available ?f = largest_spendable ph records"
    using scanned_available [OF exact] by (simp add: largest_spendable_def)
  show ?thesis
  proof (cases "fs_best ?f")
    case None
    then show ?thesis using assms owns avail by (simp add: select_funding_coin_def Let_def)
  next
    case (Some c)
    obtain res t' where c: "confirm_spendable_by_name cid chain (Suc t) c = (res, t')" by fastforce
    have t': "t' = Suc (Suc t)" using confirm_one_time [of cid chain "Suc t" c] c by simp
    show ?thesis
      using assms Some c t' confirm_one_iff [of cid chain "Suc t" c t']
      by (cases res) (auto simp: select_funding_coin_def Let_def)
  qed
qed

lemma funding_best:
  "case fs_best (scan_funding cid ph required reserved records) of
     None \<Rightarrow> \<forall>c\<in>set (covering ph required records). cid c \<in> set reserved
   | Some b \<Rightarrow> b \<in> set (covering ph required records) \<and> cid b \<notin> set reserved \<and>
       (\<forall>c\<in>set (covering ph required records). cid c \<notin> set reserved \<longrightarrow> amount b \<le> amount c)"
  using scan_funding_exact [of cid required reserved ph records]
  by (auto simp: scanned_def covering_def list_all_iff split: option.splits)

lemma funding_coin_found:
  assumes "select_funding_coin cid chain ph options t reserved = (Ok c, t')"
  shows "\<exists>records. ask_by_puzzle_hash chain t ph False = Ok records \<and> t' = Suc (Suc t) \<and>
    c \<in> set (covering ph (required_coin_amount options) records) \<and> cid c \<notin> set reserved \<and>
    (\<forall>c'\<in>set (covering ph (required_coin_amount options) records).
       cid c' \<notin> set reserved \<longrightarrow> amount c \<le> amount c') \<and>
    confirmed_spendable_at cid chain (Suc t) (cid c)"
proof (cases "ask_by_puzzle_hash chain t ph False")
  case (Err e)
  then show ?thesis using assms by (simp add: select_funding_coin_def)
next
  case (Ok records)
  then show ?thesis
    using assms funding_choice [OF Ok, where cid = cid and options = options and reserved = reserved]
      funding_best [where cid = cid and ph = ph and required = "required_coin_amount options" and reserved = reserved and records = records]
    by (auto split: option.splits if_splits)
qed

lemma funding_refused:
  assumes listing: "ask_by_puzzle_hash chain t ph False = Ok records"
  shows "fst (select_funding_coin cid chain ph options t reserved) = Err (MintFundsInsufficient r a) \<longleftrightarrow>
      covering ph (required_coin_amount options) records = [] \<and>
      r = required_coin_amount options \<and> a = largest_spendable ph records"
    and "fst (select_funding_coin cid chain ph options t reserved) = Err (MintCoinsReserved r a) \<longleftrightarrow>
      covering ph (required_coin_amount options) records \<noteq> [] \<and>
      (\<forall>c\<in>set (covering ph (required_coin_amount options) records). cid c \<in> set reserved) \<and>
      r = required_coin_amount options \<and> a = largest_spendable ph records"
  using funding_choice [OF listing, where cid = cid and options = options and reserved = reserved]
    funding_best [where cid = cid and ph = ph and required = "required_coin_amount options" and reserved = reserved and records = records]
  by (auto simp: unknown_state_def split: option.splits if_splits)

text \<open>The coin that funds a mint is, among the wallet's own confirmed unspent coins that cover the
  singleton and the fee and that no in-flight spend holds, one of least amount, and a second read by
  name called it spendable. A refusal is honest: "insufficient funds" is answered exactly when no
  spendable coin covers, "reserved" exactly when some does and all that do are held, and both name
  the wallet's largest spendable coin.\<close>

theorem mint_funding_is_honest:
  assumes "ask_by_puzzle_hash chain t ph False = Ok records"
    and "required = required_coin_amount options"
  shows "(\<forall>c t'. select_funding_coin cid chain ph options t reserved = (Ok c, t') \<longrightarrow>
      c \<in> set (covering ph required records) \<and> cid c \<notin> set reserved \<and>
      (\<forall>c'\<in>set (covering ph required records). cid c' \<notin> set reserved \<longrightarrow> amount c \<le> amount c') \<and>
      confirmed_spendable_at cid chain (Suc t) (cid c)) \<and>
    (\<forall>r a. fst (select_funding_coin cid chain ph options t reserved) = Err (MintFundsInsufficient r a) \<longleftrightarrow>
      covering ph required records = [] \<and> r = required \<and> a = largest_spendable ph records) \<and>
    (\<forall>r a. fst (select_funding_coin cid chain ph options t reserved) = Err (MintCoinsReserved r a) \<longleftrightarrow>
      covering ph required records \<noteq> [] \<and>
      (\<forall>c\<in>set (covering ph required records). cid c \<in> set reserved) \<and>
      r = required \<and> a = largest_spendable ph records)"
  unfolding assms(2)
proof (intro conjI allI impI)
  fix c t'
  assume "select_funding_coin cid chain ph options t reserved = (Ok c, t')"
  note found = funding_coin_found [OF this]
  show "c \<in> set (covering ph (required_coin_amount options) records)"
    "cid c \<notin> set reserved" "confirmed_spendable_at cid chain (Suc t) (cid c)"
    "\<forall>c'\<in>set (covering ph (required_coin_amount options) records).
       cid c' \<notin> set reserved \<longrightarrow> amount c \<le> amount c'"
    using found assms(1) by auto
qed (simp_all add: funding_refused [OF assms(1)])

lemma sample_listing_read: "ask_by_puzzle_hash (sample_chain sample_listing) 0 9 False = Ok sample_listing"
  by (simp add: sample_chain_simps)

theorem mint_funding_is_honest_witness:
  "fst (select_funding_coin parent_coin_info (sample_chain sample_listing) 9 (options_with_fee 99) 0 []) =
     Err (MintFundsInsufficient 100 20)"
proof -
  have "covering 9 100 sample_listing = []" "largest_spendable 9 sample_listing = 20"
    by (simp_all add: covering_def largest_spendable_def mint_spendable_def is_spent_def sample_chain_simps)
  moreover have "100 = required_coin_amount (options_with_fee 99)"
    by (simp add: required_coin_amount_def options_with_fee_def SINGLETON_AMOUNT_def saturating_add_def)
  ultimately show ?thesis
    using mint_funding_is_honest [OF sample_listing_read, where required = 100
        and options = "options_with_fee 99" and cid = parent_coin_info and reserved = "[]"]
    by simp
qed

section \<open>What a prepared mint is\<close>

lemma acquire_chosen:
  "acquire rv env sel unusable n k excluded t s = (Ok (chosen, j), t', s') \<Longrightarrow>
     \<exists>t0 ex ids. sel t0 ex = (Ok (chosen, ids), t')"
proof (induction rv env sel unusable n k excluded t s rule: acquire.induct)
  case (1 rv env sel unusable k excluded t s)
  then show ?case by simp
next
  case (2 rv env sel unusable n k excluded t s)
  then show ?case
    by (force split: prod.splits result.splits reservation_error.splits)
qed

lemma select_chosen:
  "select_and_reserve rv env attempts sel unusable t s = (Ok (chosen, j), t', s') \<Longrightarrow>
     \<exists>t0 ex ids. sel t0 ex = (Ok (chosen, ids), t')"
  using acquire_chosen
  by (fastforce simp: select_and_reserve_def split: prod.splits result.splits)

lemma funding_rule_Ok:
  "funding_rule cid chain ph options t ex = (Ok (c, ids), t') \<longleftrightarrow>
     select_funding_coin cid chain ph options t ex = (Ok c, t') \<and> ids = [cid c]"
  by (auto simp: funding_rule_def split: prod.splits result.splits)

lemma funding_chosen:
  assumes "select_and_reserve rv env attempts (funding_rule cid chain ph options) unusable t s =
      (Ok (c, j), t', s')"
  shows "puzzle_hash c = ph \<and> required_coin_amount options \<le> amount c \<and>
    (\<exists>t0. confirmed_spendable_at cid chain t0 (cid c))"
proof -
  obtain t0 ex where "select_funding_coin cid chain ph options t0 ex = (Ok c, t')"
    using select_chosen [OF assms] by (auto simp: funding_rule_Ok)
  from funding_coin_found [OF this] show ?thesis
    by (auto simp: covering_def mint_spendable_def)
qed

lemma funding_covers:
  assumes "mo_fee options \<le> MAX_MINT_FEE_MOJOS"
    and "select_and_reserve rv env attempts (funding_rule cid chain ph options) unusable t s =
      (Ok (c, j), t', s')"
  shows "unat (mo_fee options) + 1 \<le> unat (amount c)"
proof -
  have "unat (mo_fee options) \<le> unat MAX_MINT_FEE_MOJOS"
    using assms(1) by (simp add: word_le_nat_alt)
  then have "unat (required_coin_amount options) = unat (mo_fee options) + 1"
    by (simp add: required_coin_amount_def SINGLETON_AMOUNT_def unat_saturating_add
        MAX_MINT_FEE_MOJOS_def)
  then show ?thesis using funding_chosen [OF assms(2)] by (simp add: word_le_nat_alt)
qed

lemma mint_peak_Ok:
  "mint_peak_height chain t = (Ok peak, t') \<longleftrightarrow> ask_peak chain t = Ok (Some peak) \<and> t' = Suc t"
  by (auto simp: mint_peak_height_def split: result.splits option.splits)

lemma prepare_did_mint_Ok:
  assumes "prepare_did_mint mt live ix chain net options rv env t s = (Ok (bundle, pending, held), t', s')"
  shows "\<exists>source peak t1. live_at_check live 0 \<and> live_at_check live 1 \<and>
    mo_fee options \<le> MAX_MINT_FEE_MOJOS \<and>
    select_and_reserve rv env MAX_RESERVATION_ATTEMPTS
      (funding_rule (mt_id mt) chain (wk_puzzle_hash (mt_keys mt ix)) options)
      MintReservationUnusable t s = (Ok (source, held), t1, s') \<and>
    ask_peak chain t1 = Ok (Some peak) \<and> t' = Suc t1 \<and>
    build_mint_spends mt (mt_keys mt ix) source options peak = Ok (sb_coin_spends bundle, pending) \<and>
    sign_mint_spends mt (mt_keys mt ix) (sb_coin_spends bundle) net = Ok (sb_signature bundle)"
  using assms
  by (auto simp: prepare_did_mint_def result_simps live_wallet_key_def check_fee_ceiling_def
      ensure_live_def mint_peak_Ok not_less split: prod.splits result.splits if_splits)

lemma build_mint_spends_Ok:
  assumes "build_mint_spends mt w source options h = Ok (spends, pending)"
  shows "\<exists>hint change fee split did. hint_of (mt_builder mt) (wk_puzzle_hash w) = Ok hint \<and>
    split_change_and_fee (amount source) (mo_fee options) = (change, fee) \<and>
    standard_spend (mt_builder mt) (wk_public_key w) source
      (mint_conditions (wk_puzzle_hash w) hint change fee) = Ok split \<and>
    did_create (mt_did mt) [split]
      \<lparr>parent_coin_info = mt_id mt source, puzzle_hash = wk_puzzle_hash w, amount = SINGLETON_AMOUNT\<rparr>
      (wk_public_key w) = Ok (spends, Some did) \<and>
    pending = pending_mint_new (dv_launcher_id did) (mt_id mt (dv_coin did)) (mt_id mt source) h"
proof -
  obtain change fee where cf: "split_change_and_fee (amount source) (mo_fee options) = (change, fee)"
    by fastforce
  then show ?thesis
    using assms by (auto simp: build_mint_spends_def Let_def result_simps)
qed

text \<open>C25: A mint signs for nothing but one coin of its own: when a DID mint has been prepared, the
  account was unlocked both at the start and after the last read, the fee is within the ceiling, the
  bundle has exactly one pre-existing coin and it sits at the profile's own puzzle hash, the funding
  coin is the profile's, read back by name as spendable and large enough, and the signature is the
  aggregate of one signature per requirement, each under the profile's own key in this network's
  domain.\<close>

theorem mint_signs_for_one_own_coin:
  assumes "prepare_did_mint mt live ix chain net options rv env t s = (Ok (bundle, pending, held), t', s')"
    and "w = mt_keys mt ix"
  shows "live_at_check live 0 \<and> live_at_check live 1 \<and> mo_fee options \<le> MAX_MINT_FEE_MOJOS \<and>
    (\<exists>root. bundle_roots (mt_id mt) (sb_coin_spends bundle) = [root] \<and>
       puzzle_hash (spent_coin root) = wk_puzzle_hash w) \<and>
    (\<exists>source t0. pm_source_coin_id pending = mt_id mt source \<and> puzzle_hash source = wk_puzzle_hash w \<and>
       unat (mo_fee options) + 1 \<le> unat (amount source) \<and>
       confirmed_spendable_at (mt_id mt) chain t0 (mt_id mt source)) \<and>
    (\<exists>required. did_required (mt_did mt) (mn_me net) (sb_coin_spends bundle) = Ok required \<and>
       list_all (own_bound_signature w net) required \<and>
       sb_signature bundle = aggregate (mt_scheme mt) w (bls_messages (mt_scheme mt) required))"
proof -
  obtain source peak t1 where p: "live_at_check live 0" "live_at_check live 1"
    "mo_fee options \<le> MAX_MINT_FEE_MOJOS"
    "select_and_reserve rv env MAX_RESERVATION_ATTEMPTS
      (funding_rule (mt_id mt) chain (wk_puzzle_hash w) options)
      MintReservationUnusable t s = (Ok (source, held), t1, s')"
    "build_mint_spends mt w source options peak = Ok (sb_coin_spends bundle, pending)"
    "sign_mint_spends mt w (sb_coin_spends bundle) net = Ok (sb_signature bundle)"
    using prepare_did_mint_Ok [OF assms(1)] assms(2) by blast
  obtain required where req: "did_required (mt_did mt) (mn_me net) (sb_coin_spends bundle) = Ok required"
    "mint_gate (mt_id mt) w net (sb_coin_spends bundle) required = Ok ()"
    "sign_requirements (mt_scheme mt) (MintRefused NonBlsAfterGate) w (sig_default (mt_scheme mt)) required
       = Ok (sb_signature bundle)"
    using p(6) by (auto simp: sign_mint_spends_def result_simps)
  have "sb_signature bundle = aggregate (mt_scheme mt) w (bls_messages (mt_scheme mt) required)"
    using mint.gated_signature [OF req(2)] req(3) by (metis result.inject(1))
  moreover have "\<exists>root. bundle_roots (mt_id mt) (sb_coin_spends bundle) = [root] \<and>
      puzzle_hash (spent_coin root) = wk_puzzle_hash w"
    using req(2) by (auto simp: mint_gate_def result_simps split: list.splits if_splits)
  moreover have "unat (mo_fee options) + 1 \<le> unat (amount source)"
    by (rule funding_covers [OF p(3,4)])
  moreover have "pm_source_coin_id pending = mt_id mt source"
    using build_mint_spends_Ok [OF p(5)] by (auto simp: pending_mint_new_def)
  ultimately show ?thesis
    using p(1-3) funding_chosen [OF p(4)] req(1) mint.gate_own [OF req(2)] by blast
qed

definition sample_mint_id :: "coin \<Rightarrow> bytes32" where
  "sample_mint_id c = parent_coin_info c + 100"

definition sample_source :: coin where
  "sample_source = \<lparr>parent_coin_info = 1, puzzle_hash = 9, amount = 20\<rparr>"

definition sample_did_value :: "unit did_value" where
  "sample_did_value =
     \<lparr>dv_launcher_id = 50, dv_coin = \<lparr>parent_coin_info = 201, puzzle_hash = 9, amount = 1\<rparr>, dv_inner = ()\<rparr>"

definition sample_tools :: "(unit, byte list list) mint_tools" where
  "sample_tools =
     \<lparr>mt_id = sample_mint_id, mt_did_of = (\<lambda>i. ''did''), mt_builder = sample_builder,
      mt_did = \<lparr>did_create = (\<lambda>staged c pk. Ok (staged @ [\<lparr>spent_coin = c, puzzle_reveal = pk, solution = []\<rparr>],
                                               Some sample_did_value)),
                did_required = (\<lambda>me spends. Ok [Bls \<lparr>br_public_key = [7], br_raw_message = [1],
                                  br_appended_info = [], br_domain_string = Some me\<rparr>]),
                did_walk = (\<lambda>t i. (Ok (Some sample_did_value), Suc t))\<rparr>,
      mt_scheme = \<lparr>sig_default = [], sig_add = (@), sig_sign = (\<lambda>w m. [m]), sig_message = br_raw_message\<rparr>,
      mt_keys = (\<lambda>ix. sample_wallet)\<rparr>"

text \<open>The funding coin is listed; the DID coin it leads to is on chain since block 45, the
  store coin launched from that since block 120.\<close>

definition sample_mint_chain :: "u32 \<Rightarrow> chain_source" where
  "sample_mint_chain peak =
     \<lparr>ask_coin_record = (\<lambda>t i.
        if i = 101 then Ok (Some \<lparr>rec_coin = sample_source, confirmed_height = Some 4, spent_height = None\<rparr>)
        else if i = 301
          then Ok (Some \<lparr>rec_coin = dv_coin sample_did_value, confirmed_height = Some 45, spent_height = None\<rparr>)
        else if i = 601
          then Ok (Some \<lparr>rec_coin = \<lparr>parent_coin_info = 501, puzzle_hash = 72, amount = 1\<rparr>,
                          confirmed_height = Some 120, spent_height = None\<rparr>)
        else Ok None),
      ask_peak = (\<lambda>t. Ok (Some peak)),
      ask_by_puzzle_hash = (\<lambda>t ph b.
        Ok [\<lparr>rec_coin = sample_source, confirmed_height = Some 4, spent_height = None\<rparr>])\<rparr>"

definition sample_live :: liveness where
  "sample_live k = (0, residency_new)"

definition sample_network :: mint_network where
  "sample_network = network_from_constants 6"

lemmas sample_mint_simps =
  sample_mint_id_def sample_source_def sample_did_value_def sample_tools_def sample_mint_chain_def
  sample_live_def sample_network_def network_from_constants_def options_with_fee_def
  live_at_check_def residency_is_live_def residency_new_def

lemma sample_funding:
  "funding_rule sample_mint_id (sample_mint_chain peak) 9 (options_with_fee 3) t [] =
     (Ok (sample_source, [101]), Suc (Suc t))"
  by (simp add: funding_rule_def select_funding_coin_def sample_mint_simps scan_funding_def
      funding_step_def mint_spendable_def is_spent_def Let_def required_coin_amount_def
      saturating_add_def SINGLETON_AMOUNT_def confirm_spendable_by_name_def)

lemma sample_mint_reserved:
  "select_and_reserve sample_reservations (\<lambda>k s. s) MAX_RESERVATION_ATTEMPTS
      (funding_rule sample_mint_id (sample_mint_chain peak) 9 (options_with_fee 3))
      MintReservationUnusable t local_new =
    (Ok (sample_source, ReservationId 0), Suc (Suc t),
     \<lparr>lr_entries = [(0, \<lparr>e_coins = [101], e_expires_at = 401\<rparr>)], lr_next_id = 1, lr_poisoned = False\<rparr>)"
proof -
  obtain m :: nat where sixteen: "max 1 MAX_RESERVATION_ATTEMPTS = Suc m"
    by (cases "max 1 MAX_RESERVATION_ATTEMPTS") auto
  show ?thesis
    unfolding select_and_reserve_def sixteen
    by (simp add: sample_reservations_def reservations_new_def
        local_new_def reservations_held_def reservations_reserve_def reservations_now_def
        local_store_def local_held_def local_reserve_all_def expire_def held_coins_def
        map_insert_def Let_def sample_funding saturating_add_def DEFAULT_RESERVATION_TTL_SECS_def)
qed

definition sample_bundle :: "byte list list spend_bundle" where
  "sample_bundle =
     \<lparr>sb_coin_spends =
        [\<lparr>spent_coin = sample_source, puzzle_reveal = [7], solution = []\<rparr>,
         \<lparr>spent_coin = \<lparr>parent_coin_info = 101, puzzle_hash = 9, amount = 1\<rparr>,
          puzzle_reveal = [7], solution = []\<rparr>],
      sb_signature = [[1]]\<rparr>"

definition sample_held :: local_reservations where
  "sample_held =
     \<lparr>lr_entries = [(0, \<lparr>e_coins = [101], e_expires_at = 401\<rparr>)], lr_next_id = 1, lr_poisoned = False\<rparr>"

lemma sample_peak: "mint_peak_height (sample_mint_chain peak) t = (Ok peak, Suc t)"
  by (simp add: mint_peak_height_def sample_mint_chain_def)

lemma sample_prepared:
  "prepare_did_mint sample_tools sample_live ix (sample_mint_chain peak) sample_network
      (options_with_fee 3) sample_reservations (\<lambda>k s. s) t local_new =
    (Ok (sample_bundle, pending_mint_new 50 301 101 peak, ReservationId 0), Suc (Suc (Suc t)), sample_held)"
proof -
  have w: "mt_keys sample_tools ix = sample_wallet" "wk_puzzle_hash sample_wallet = 9"
    "mt_id sample_tools = sample_mint_id"
    by (simp_all add: sample_tools_def sample_wallet_def)
  have "build_mint_spends sample_tools sample_wallet sample_source (options_with_fee 3) peak =
      Ok (sb_coin_spends sample_bundle, pending_mint_new 50 301 101 peak)"
    by (simp add: build_mint_spends_def split_change_and_fee_def saturating_sub_def SINGLETON_AMOUNT_def
        sample_mint_simps sample_builder_def sample_wallet_def sample_bundle_def ok_or_def)
  moreover have "sign_mint_spends sample_tools sample_wallet (sb_coin_spends sample_bundle) sample_network
      = Ok [[1]]"
    by (simp add: sign_mint_spends_def mint_gate_def bundle_roots_def sample_mint_simps
        sample_wallet_def sample_bundle_def)
  moreover have "check_fee_ceiling (options_with_fee 3) = Ok ()"
    by (simp add: check_fee_ceiling_def options_with_fee_def MAX_MINT_FEE_MOJOS_def)
  moreover have "live_at_check sample_live k" for k
    by (simp add: sample_mint_simps)
  moreover have "sample_bundle = \<lparr>sb_coin_spends = sb_coin_spends sample_bundle, sb_signature = [[1]]\<rparr>"
    by (simp add: sample_bundle_def)
  ultimately show ?thesis
    unfolding prepare_did_mint_def
    by (simp add: w live_wallet_key_def ensure_live_def sample_mint_reserved sample_peak sample_held_def)
qed

theorem mint_signs_for_one_own_coin_witness:
  "\<exists>root. bundle_roots sample_mint_id (sb_coin_spends sample_bundle) = [root] \<and>
     puzzle_hash (spent_coin root) = wk_puzzle_hash sample_wallet"
  using mint_signs_for_one_own_coin [OF sample_prepared [where ix = root_ix and peak = 40] refl]
  by (simp add: sample_tools_def)

section \<open>Where the value goes\<close>

lemma split_change_exact:
  assumes "unat fee + 1 \<le> unat n" and "split_change_and_fee n fee = (change, fee')"
  shows "1 + unat change + unat fee' = unat n" and "unat fee \<le> unat fee'"
    and "unat fee' \<le> unat fee + 1" and "change \<noteq> 1"
proof -
  let ?c = "saturating_sub (saturating_sub n SINGLETON_AMOUNT) fee"
  have c: "unat ?c + unat fee + 1 = unat n"
    using assms(1) by (simp add: unat_saturating_sub SINGLETON_AMOUNT_def)
  have top: "unat n < 2 ^ 64" using unat_less_pow [of n] by simp
  have f: "unat (saturating_add fee ?c) = unat fee + unat ?c"
    using c top by (simp add: unat_saturating_add)
  have cf: "(change, fee') = (if ?c = 1 then (0, saturating_add fee ?c) else (?c, fee))"
    using assms(2) by (auto simp: split_change_and_fee_def Let_def SINGLETON_AMOUNT_def split: if_splits)
  show "1 + unat change + unat fee' = unat n" "unat fee \<le> unat fee'" "unat fee' \<le> unat fee + 1"
    "change \<noteq> 1"
    using cf c f by (auto split: if_splits)
qed

text \<open>Every coin the conditions create is paid to \<open>ph\<close>.\<close>

definition pays_only :: "bytes32 \<Rightarrow> condition list \<Rightarrow> bool" where
  "pays_only ph conds \<longleftrightarrow> list_all (\<lambda>c. case c of CreateCoin ph' _ _ \<Rightarrow> ph' = ph | _ \<Rightarrow> True) conds"

lemma mint_conditions_value:
  "created (mint_conditions ph hint change fee) + reserved_fee (mint_conditions ph hint change fee) =
     1 + unat change + unat fee"
  "pays_only ph (mint_conditions ph hint change fee)"
  by (auto simp: created_def reserved_fee_def mint_conditions_def SINGLETON_AMOUNT_def pays_only_def
      word_gt_0)

lemma launch_funding_conditions_value:
  "created (launch_funding_conditions ph hint change fee) + reserved_fee (launch_funding_conditions ph hint change fee) =
     unat change + unat fee"
  "pays_only ph (launch_funding_conditions ph hint change fee)"
  by (auto simp: created_def reserved_fee_def launch_funding_conditions_def pays_only_def word_gt_0)

lemma spend_funding_coin_Ok:
  assumes "spend_funding_coin bld w staged funding fee = Ok spends"
  shows "\<exists>hint change spend. hint_of bld (wk_puzzle_hash w) = Ok hint \<and>
    1 + unat change + unat fee = unat (amount funding) \<and>
    standard_spend bld (wk_public_key w) funding
      (launch_funding_conditions (wk_puzzle_hash w) hint change fee) = Ok spend \<and> spends = staged @ [spend]"
proof -
  obtain hint left change spend where *: "hint_of bld (wk_puzzle_hash w) = Ok hint"
    "checked_sub (amount funding) LAUNCHER_AMOUNT = Some left" "checked_sub left fee = Some change"
    "standard_spend bld (wk_public_key w) funding
      (launch_funding_conditions (wk_puzzle_hash w) hint change fee) = Ok spend" "spends = staged @ [spend]"
    using assms by (auto simp: spend_funding_coin_def result_simps bind_eq_Some_conv)
  have "1 + unat change + unat fee = unat (amount funding)"
    using checked_sub_unat [OF *(2)] checked_sub_unat [OF *(3)] by (simp add: LAUNCHER_AMOUNT_def)
  with * show ?thesis by blast
qed

text \<open>A mint moves no value anywhere but home: the funding coin of a prepared mint is split by
  conditions that create coins only at the profile's own puzzle hash, and the coins they create with
  the fee they reserve add up to exactly that coin. The fee reserved is the fee asked for, or one mojo
  more when the change would have been a second singleton-sized coin, so the change is never one mojo.\<close>

theorem mint_value_stays_home:
  assumes "prepare_did_mint mt live ix chain net options rv env t s = (Ok (bundle, pending, held), t', s')"
    and "w = mt_keys mt ix"
  shows "\<exists>source hint change fee split.
    pm_source_coin_id pending = mt_id mt source \<and>
    standard_spend (mt_builder mt) (wk_public_key w) source
      (mint_conditions (wk_puzzle_hash w) hint change fee) = Ok split \<and>
    pays_only (wk_puzzle_hash w) (mint_conditions (wk_puzzle_hash w) hint change fee) \<and>
    created (mint_conditions (wk_puzzle_hash w) hint change fee) +
      reserved_fee (mint_conditions (wk_puzzle_hash w) hint change fee) = unat (amount source) \<and>
    1 + unat change + unat fee = unat (amount source) \<and>
    unat (mo_fee options) \<le> unat fee \<and> unat fee \<le> unat (mo_fee options) + 1 \<and> change \<noteq> 1"
proof -
  obtain source peak t1 where p: "mo_fee options \<le> MAX_MINT_FEE_MOJOS"
    "select_and_reserve rv env MAX_RESERVATION_ATTEMPTS
      (funding_rule (mt_id mt) chain (wk_puzzle_hash w) options)
      MintReservationUnusable t s = (Ok (source, held), t1, s')"
    "build_mint_spends mt w source options peak = Ok (sb_coin_spends bundle, pending)"
    using prepare_did_mint_Ok [OF assms(1)] assms(2) by blast
  have cover: "unat (mo_fee options) + 1 \<le> unat (amount source)"
    by (rule funding_covers [OF p(1,2)])
  obtain hint change fee split where *:
    "split_change_and_fee (amount source) (mo_fee options) = (change, fee)"
    "standard_spend (mt_builder mt) (wk_public_key w) source
      (mint_conditions (wk_puzzle_hash w) hint change fee) = Ok split"
    "pm_source_coin_id pending = mt_id mt source"
    using build_mint_spends_Ok [OF p(3)] by (auto simp: pending_mint_new_def)
  show ?thesis
    using * split_change_exact [OF cover *(1)] mint_conditions_value
    by (intro exI [of _ source] exI [of _ hint] exI [of _ change] exI [of _ fee] exI [of _ split]) simp
qed

theorem mint_value_stays_home_witness:
  "\<exists>source hint change fee split.
    standard_spend sample_builder [7] source (mint_conditions 9 hint change fee) = Ok split \<and>
    1 + unat change + unat fee = unat (amount source)"
  using mint_value_stays_home [OF sample_prepared [where ix = root_ix and peak = 40] refl]
  by (simp add: sample_tools_def sample_wallet_def) blast

end
