(* ===== verification/Mint_Ceremony.thy ===== *)
theory Mint_Ceremony
  imports Mint_Properties Registry_Properties
begin

text \<open>
  What the two-phase profile mint promises across calls: the journal is written before anything is
  pushed, the outcome of a push decides both the journal and the reservation, no call panics, a lost
  answer never becomes a second launch, and a ceremony that reports confirmation can be recorded.
\<close>

section \<open>The registry's journal, call by call\<close>

lemma sorted_find_unique:
  fixes k :: "'a \<Rightarrow> 'k::linorder"
  assumes "sorted_wrt (<) (map k xs)" and "sorted_wrt (<) (map k ys)"
    and "\<And>w. find (\<lambda>x. k x = w) xs = find (\<lambda>x. k x = w) ys"
  shows "xs = ys"
proof (rule map_sorted_distinct_set_unique)
  have dx: "distinct (map k xs)" "distinct (map k ys)" by (auto intro: sorted_lt_distinct assms)
  show s: "set xs = set ys"
  proof (intro set_eqI iffI)
    fix x
    assume "x \<in> set xs"
    then have "find (\<lambda>y. k y = k x) xs = Some x" using find_Some_iff_unique [OF dx(1)] by simp
    then show "x \<in> set ys" using assms(3) find_Some_iff_unique [OF dx(2)] by simp
  next
    fix x
    assume "x \<in> set ys"
    then have "find (\<lambda>y. k y = k x) ys = Some x" using find_Some_iff_unique [OF dx(2)] by simp
    then show "x \<in> set xs" using assms(3) find_Some_iff_unique [OF dx(1)] by simp
  qed
  show "inj_on k (set xs \<union> set ys)" using dx(1) s by (simp add: distinct_map)
  show "sorted (map k xs)" "sorted (map k ys)"
    using assms(1,2) by (auto intro: strict_sorted_imp_sorted simp: strict_sorted_iff)
  show "distinct (map k xs)" "distinct (map k ys)" using dx by auto
qed

text \<open>On well-formed registries the abstract registry is the registry.\<close>

lemma abs_registry_inj:
  assumes "registry_wf did_of r" and "registry_wf did_of r'" and "abs_registry r = abs_registry r'"
  shows "r = r'"
proof -
  have sorted: "sorted_wrt (<) (map en_ix (entries r))" "sorted_wrt (<) (map en_ix (entries r'))"
    "sorted_wrt (<) (map mp_ix (in_progress r))" "sorted_wrt (<) (map mp_ix (in_progress r'))"
    using assms(1,2) by (simp_all add: registry_wf_def registry_sorted_def)
  have same: "registry_get r = registry_get r'" "active_ix r = active_ix r'"
    "\<And>k. find (\<lambda>m. mp_ix m = k) (in_progress r) = find (\<lambda>m. mp_ix m = k) (in_progress r')"
    using arg_cong [OF assms(3), of sp_profiles] arg_cong [OF assms(3), of sp_active]
      fun_cong [OF arg_cong [OF assms(3), of sp_mints]] by simp_all
  have "entries r = entries r'"
    by (rule sorted_find_unique [OF sorted(1,2)]) (use fun_cong [OF same(1)] in \<open>simp add: registry_get_def\<close>)
  moreover have "in_progress r = in_progress r'"
    by (rule sorted_find_unique [OF sorted(3,4) same(3)])
  ultimately show ?thesis using same(2) by (cases r, cases r') simp
qed

abbreviation journal_at :: "profile_registry \<Rightarrow> profile_ix \<Rightarrow> mint_in_progress option" where
  "journal_at r ix \<equiv> find (\<lambda>m. mp_ix m = ix) (in_progress r)"

lemma seeded_mint_cases:
  assumes "registry_wf did_of r" and "stage_ok did_of stage"
  shows "(\<exists>e. begin_seeded_mint did_of ix stage root fee r = Returns (Err e) r) \<or>
    (\<exists>r'. begin_seeded_mint did_of ix stage root fee r = Returns (Ok ()) r' \<and> registry_wf did_of r' \<and>
       journal_at r ix = None \<and> fee \<le> MAX_MINT_FEE_MOJOS \<and>
       abs_registry r' = (abs_registry r)\<lparr>sp_mints := (sp_mints (abs_registry r))
         (ix \<mapsto> mint_in_progress_with_seed_root ix stage root fee)\<rparr>)"
  using reserve_mint_cases [of did_of r "mint_in_progress_with_seed_root ix stage root fee"] assms
  by (auto simp: begin_seeded_mint_def mint_in_progress_with_seed_root_def)

text \<open>Abandoning the mint just journalled gives back the registry as it was.\<close>

lemma abandon_after_seeded:
  assumes wf: "registry_wf did_of r" "registry_wf did_of r'" and fresh: "journal_at r ix = None"
    and abs: "abs_registry r' = (abs_registry r)\<lparr>sp_mints := (sp_mints (abs_registry r))(ix \<mapsto> m)\<rparr>"
  shows "abandon_mint did_of ix r' = Returns (Ok ()) r"
proof -
  have m: "journal_at r' ix = Some m"
    using fun_cong [OF arg_cong [OF abs, of sp_mints], of ix] by simp
  then have "mint_position r' ix \<noteq> None"
    by (auto simp: mint_position_iff find_Some_iff)
  then obtain pos where pos: "position (\<lambda>m. mp_ix m = ix) (in_progress r') = Some pos"
    by (auto simp: mint_position_def)
  let ?r = "r'\<lparr>in_progress := vec_remove pos (in_progress r')\<rparr>"
  have run: "abandon_mint did_of ix r' = expect_valid did_of ?r (Ok ())"
    using pos by (simp add: abandon_mint_def mint_position_def)
  have meets: "cmd_meets did_of (AbandonMint ix) r'" by (rule abandon_mint_meets [OF wf(2)])
  have ok: "abandon_mint did_of ix r' = Returns (Ok ()) ?r" "registry_wf did_of ?r"
    using meets run by (auto simp: cmd_meets_def expect_valid_def split: result.splits)
  have "abs_registry ?r = (abs_registry r')\<lparr>sp_mints := (sp_mints (abs_registry r'))(ix := None)\<rparr>"
    by (rule abs_mints) (simp add: find_after_remove(1) [OF wfD(5) [OF wf(2)] pos])
  also have "\<dots> = (abs_registry r)\<lparr>sp_mints := (sp_mints (abs_registry r))(ix := None)\<rparr>"
    unfolding abs by simp
  also have "\<dots> = abs_registry r"
    using fresh by (simp add: fun_upd_idem)
  finally have "?r = r" by (rule abs_registry_inj [OF ok(2) wf(1)])
  with ok(1) show ?thesis by simp
qed

lemma advance_mint_cases:
  assumes wf: "registry_wf did_of r" and stage: "stage_ok did_of stage"
    and m: "journal_at r ix = Some m"
  shows "\<exists>r'. advance_mint ix stage r = Returns (Ok ()) r' \<and> registry_wf did_of r' \<and>
    abs_registry r' = (abs_registry r)\<lparr>sp_mints := (sp_mints (abs_registry r))(ix \<mapsto> m\<lparr>mp_stage := stage\<rparr>)\<rparr>"
proof -
  have "mint_position r ix \<noteq> None" using m by (auto simp: mint_position_iff find_Some_iff)
  then obtain r' where r': "advance_mint ix stage r = Returns (Ok ()) r'"
    by (auto simp: advance_mint_def)
  then have "registry_wf did_of r'" "registry_step (abs_registry r) (AdvanceMint ix stage) (abs_registry r')"
    using advance_mint_meets [OF wf stage, of ix] by (auto simp: cmd_meets_def)
  with r' m show ?thesis by (auto elim!: registry_step.cases)
qed

section \<open>What each call of the ceremony does\<close>

lemma fresh_stage_ok: "stage_ok did_of (DidPushed rec)"
  by (simp add: stage_ok_def)

text \<open>
  Every call of phase A either stops before the publisher is asked, with the registry as it was, or
  journals the mint, asks the publisher once, and settles the journal and the guard by the answer.
\<close>

definition settled_begin ::
  "'s coin_reservations \<Rightarrow> reservation_id \<Rightarrow> bytes32 \<Rightarrow> ('s, 'p) mint_world \<Rightarrow> ('s, 'p) mint_world \<Rightarrow>
     (unit, mint_error) result \<times> 'p \<Rightarrow> ('s, 'p) ceremony"
where
  "settled_begin rv held did_coin before journalled answer =
     (case answer of
        (Ok _, p) \<Rightarrow> Returns (Ok (DidPending did_coin)) (journalled\<lparr>mw_publisher := p\<rparr>)
      | (Err (MintRejected reason), p) \<Rightarrow>
          Returns (Err (MintRejected reason))
            (journalled\<lparr>mw_registry := mw_registry before,
                        mw_store := held_drop rv held (mw_store journalled), mw_publisher := p\<rparr>)
      | (Err e, p) \<Rightarrow> Returns (Err e) (journalled\<lparr>mw_publisher := p\<rparr>))"

lemma begin_profile_mint_cases:
  assumes wf: "registry_wf (mt_did_of mt) (mw_registry w)"
  shows
    "(\<exists>e t s. begin_profile_mint mt sc live ix seed chain pub net options rv env w =
        Returns (Err e) (w\<lparr>mw_reads := t, mw_store := s\<rparr>) \<and>
        ((t, s) = (mw_reads w, mw_store w) \<or>
         (\<exists>e'. prepare_did_mint mt live ix chain net options rv env (mw_reads w) (mw_store w) = (Err e', t, s)) \<or>
         (\<exists>bundle pending held s0. s = held_drop rv held s0 \<and>
            prepare_did_mint mt live ix chain net options rv env (mw_reads w) (mw_store w) =
              (Ok (bundle, pending, held), t, s0)))) \<or>
     (\<exists>root bundle pending held t s r.
        seed_root sc seed = Ok root \<and>
        prepare_did_mint mt live ix chain net options rv env (mw_reads w) (mw_store w) =
          (Ok (bundle, pending, held), t, s) \<and>
        registry_wf (mt_did_of mt) r \<and> journal_at (mw_registry w) ix = None \<and>
        abs_registry r = (abs_registry (mw_registry w))\<lparr>sp_mints := (sp_mints (abs_registry (mw_registry w)))
          (ix \<mapsto> mint_in_progress_with_seed_root ix (DidPushed (pending_mint_record_from pending)) root
                   (mo_fee options))\<rparr> \<and>
        begin_profile_mint mt sc live ix seed chain pub net options rv env w =
          settled_begin rv held (pm_did_coin_id pending) w
            (w\<lparr>mw_reads := t, mw_store := s, mw_registry := r\<rparr>)
            (push_bundle pub bundle (w\<lparr>mw_reads := t, mw_store := s, mw_registry := r\<rparr>)))"
proof (cases "seed_root sc seed")
  case (Err e)
  then show ?thesis by (intro disjI1 exI [of _ e] exI [of _ "mw_reads w"] exI [of _ "mw_store w"])
      (simp add: begin_profile_mint_def)
next
  case (Ok root)
  obtain pr t s where prep:
    "prepare_did_mint mt live ix chain net options rv env (mw_reads w) (mw_store w) = (pr, t, s)"
    by (metis prod_cases3)
  show ?thesis
  proof (cases pr)
    case (Err e)
    then show ?thesis
      using Ok prep by (intro disjI1 exI [of _ e] exI [of _ t] exI [of _ s])
        (simp add: begin_profile_mint_def)
  next
    case pr: (Ok x)
    obtain bun pending held where x: "x = (bun, pending, held)" by (cases x)
    let ?stage = "DidPushed (pending_mint_record_from pending)"
    consider (refused) e where
        "begin_seeded_mint (mt_did_of mt) ix ?stage root (mo_fee options) (mw_registry w) =
           Returns (Err e) (mw_registry w)"
      | (journalled) r where
        "begin_seeded_mint (mt_did_of mt) ix ?stage root (mo_fee options) (mw_registry w) =
           Returns (Ok ()) r" "registry_wf (mt_did_of mt) r" "journal_at (mw_registry w) ix = None"
        "abs_registry r = (abs_registry (mw_registry w))\<lparr>sp_mints := (sp_mints (abs_registry (mw_registry w)))
           (ix \<mapsto> mint_in_progress_with_seed_root ix ?stage root (mo_fee options))\<rparr>"
      using seeded_mint_cases [OF wf fresh_stage_ok, of ix "pending_mint_record_from pending" root "mo_fee options"]
      by blast
    then show ?thesis
    proof cases
      case refused
      then show ?thesis
        using Ok prep pr x
        by (intro disjI1 exI [of _ "MintJournal (RegistryRefused e)"] exI [of _ t]
              exI [of _ "held_drop rv held s"])
           (auto simp: begin_profile_mint_def Let_def)
    next
      case journalled
      obtain res p where push: "push_bundle pub bun (w\<lparr>mw_reads := t, mw_store := s, mw_registry := r\<rparr>) = (res, p)"
        by fastforce
      note undo = abandon_after_seeded [OF wf journalled(2-4)]
      have "begin_profile_mint mt sc live ix seed chain pub net options rv env w =
          settled_begin rv held (pm_did_coin_id pending) w
            (w\<lparr>mw_reads := t, mw_store := s, mw_registry := r\<rparr>) (res, p)"
        using Ok prep pr x journalled(1) push undo
        by (auto simp: begin_profile_mint_def Let_def settled_begin_def held_commit_def settle_guard_def
            release_index_on_a_definitive_no_def split: result.splits mint_error.splits)
      then show ?thesis
        using Ok prep pr x journalled(2-4) push
        by (intro disjI2 exI [of _ root] exI [of _ bun] exI [of _ pending] exI [of _ held] exI [of _ t]
              exI [of _ s] exI [of _ r]) simp
    qed
  qed
qed

text \<open>
  Phase B likewise: nothing is pushed and the registry stands, or the launch is journalled as pushed
  (naming the DID coin it spends), the publisher is asked once, and its answer settles the rest.
\<close>

definition with_stage :: "registry_spec \<Rightarrow> profile_ix \<Rightarrow> mint_in_progress \<Rightarrow> mint_stage \<Rightarrow> registry_spec" where
  "with_stage s ix m stage = s\<lparr>sp_mints := (sp_mints s)(ix \<mapsto> m\<lparr>mp_stage := stage\<rparr>)\<rparr>"

lemma launch_inputs_Ok:
  assumes "launch_inputs mt live r ix did t = (Ok (root, fee, wallet, tip), t')"
  shows "\<exists>m. journal_at r ix = Some m \<and> mp_seed_root m = Some root \<and> fee = mp_store_fee m \<and>
    live_at_check live 0 \<and> wallet = mt_keys mt ix \<and> mt_id mt (dv_coin tip) = md_coin_id did"
  using assms
  by (auto simp: launch_inputs_def result_simps journalled_mint_def live_wallet_key_def
      split: result.splits prod.splits option.splits if_splits)

lemma launch_pending_did:
  "build_and_sign_store_launch mt sd w did i funding root ds fee h net = Ok (bundle, pending) \<Longrightarrow>
     ps_did_coin_id pending = i \<and> ps_committed_root pending = root \<and> ps_pushed_at_height pending = h"
  by (auto simp: build_and_sign_store_launch_def Let_def result_simps pending_store_launch_new_def
      split: if_splits prod.splits)

definition rewound ::
  "profile_registry \<Rightarrow> profile_registry \<Rightarrow> profile_ix \<Rightarrow> mint_in_progress \<Rightarrow> minted_did \<Rightarrow> bool" where
  "rewound r before ix m did \<longleftrightarrow>
     abs_registry r =
       with_stage (abs_registry before) ix m (DidConfirmedStoreNotLaunched (minted_did_record_from did))"

definition settled_launch ::
  "'s coin_reservations \<Rightarrow> reservation_id \<Rightarrow> profile_mint_status \<Rightarrow> profile_registry \<Rightarrow>
     ('s, 'p) mint_world \<Rightarrow> (unit, mint_error) result \<times> 'p \<Rightarrow> ('s, 'p) ceremony"
where
  "settled_launch rv held launched rewound_registry journalled answer =
     (case answer of
        (Ok _, p) \<Rightarrow> Returns (Ok launched) (journalled\<lparr>mw_publisher := p\<rparr>)
      | (Err (MintRejected reason), p) \<Rightarrow>
          Returns (Err (MintRejected reason))
            (journalled\<lparr>mw_registry := rewound_registry,
                        mw_store := held_drop rv held (mw_store journalled), mw_publisher := p\<rparr>)
      | (Err e, p) \<Rightarrow> Returns (Err e) (journalled\<lparr>mw_publisher := p\<rparr>))"

lemma did_stage_ok:
  "did_honest did_of did \<Longrightarrow> stage_ok did_of (DidConfirmedStoreNotLaunched (minted_did_record_from did))"
  "did_honest did_of did \<Longrightarrow> stage_ok did_of (StorePushed (minted_did_record_from did) p)"
  by (simp_all add: stage_ok_def journalled_did_ok_def did_honest_def minted_did_record_from_def)

lemma launch_journals_and_can_rewind:
  assumes wf: "registry_wf (mt_did_of mt) reg" and did: "did_honest (mt_did_of mt) did"
    and entry: "journal_at reg ix = Some m"
  obtains r r0 where
    "advance_mint ix (StorePushed (minted_did_record_from did) st) reg = Returns (Ok ()) r"
    "registry_wf (mt_did_of mt) r"
    "abs_registry r = with_stage (abs_registry reg) ix m (StorePushed (minted_did_record_from did) st)"
    "advance_mint ix (DidConfirmedStoreNotLaunched (minted_did_record_from did)) r = Returns (Ok ()) r0"
    "registry_wf (mt_did_of mt) r0" "rewound r0 reg ix m did"
proof -
  let ?stage = "StorePushed (minted_did_record_from did) st"
  let ?rewound = "DidConfirmedStoreNotLaunched (minted_did_record_from did)"
  obtain r where r: "advance_mint ix ?stage reg = Returns (Ok ()) r" "registry_wf (mt_did_of mt) r"
    "abs_registry r = with_stage (abs_registry reg) ix m ?stage"
    using advance_mint_cases [OF wf did_stage_ok(2) [OF did] entry] by (auto simp: with_stage_def)
  have m': "journal_at r ix = Some (m\<lparr>mp_stage := ?stage\<rparr>)"
    using fun_cong [OF arg_cong [OF r(3), of sp_mints], of ix] by (simp add: with_stage_def)
  obtain r0 where r0: "advance_mint ix ?rewound r = Returns (Ok ()) r0" "registry_wf (mt_did_of mt) r0"
    "abs_registry r0 = with_stage (abs_registry r) ix (m\<lparr>mp_stage := ?stage\<rparr>) ?rewound"
    using advance_mint_cases [OF r(2) did_stage_ok(1) [OF did] m'] by (auto simp: with_stage_def)
  have "rewound r0 reg ix m did"
    unfolding rewound_def r0(3) r(3) by (simp add: with_stage_def)
  with r r0 show ?thesis by (intro that)
qed

lemma launch_store_cases:
  assumes wf: "registry_wf (mt_did_of mt) (mw_registry w)" and did: "did_honest (mt_did_of mt) did"
  shows
    "(\<exists>e t s. launch_store mt sd live ix did chain pub net rv env w =
        Returns (Err e) (w\<lparr>mw_reads := t, mw_store := s\<rparr>)) \<or>
     (\<exists>m root tip funding held t s peak bundle pending r r0.
        journal_at (mw_registry w) ix = Some m \<and> mp_seed_root m = Some root \<and>
        live_at_check live 0 \<and> live_at_check live 1 \<and>
        mt_id mt (dv_coin tip) = md_coin_id did \<and>
        build_and_sign_store_launch mt sd (mt_keys mt ix) tip (md_coin_id did) funding root (md_did did)
          (mp_store_fee m) peak net = Ok (bundle, pending) \<and>
        registry_wf (mt_did_of mt) r \<and> registry_wf (mt_did_of mt) r0 \<and>
        rewound r0 (mw_registry w) ix m did \<and>
        abs_registry r = with_stage (abs_registry (mw_registry w)) ix m
          (StorePushed (minted_did_record_from did) (pending_store_launch_record_from pending)) \<and>
        launch_store mt sd live ix did chain pub net rv env w =
          settled_launch rv held (StorePending did (ps_launcher_id pending)) r0
            (w\<lparr>mw_reads := t, mw_store := s, mw_registry := r\<rparr>)
            (push_bundle pub bundle (w\<lparr>mw_reads := t, mw_store := s, mw_registry := r\<rparr>)))"
proof -
  obtain li t where li: "launch_inputs mt live (mw_registry w) ix did (mw_reads w) = (li, t)" by fastforce
  show ?thesis
  proof (cases li)
    case (Err e)
    then have "launch_store mt sd live ix did chain pub net rv env w =
        Returns (Err e) (w\<lparr>mw_reads := t, mw_store := mw_store w\<rparr>)"
      using li by (simp add: launch_store_def)
    then show ?thesis by blast
  next
    case (Ok x)
    obtain root fee wallet tip where x: "x = (root, fee, wallet, tip)" by (cases x)
    obtain m where m: "journal_at (mw_registry w) ix = Some m" "mp_seed_root m = Some root"
      "fee = mp_store_fee m" "live_at_check live 0" "wallet = mt_keys mt ix"
      "mt_id mt (dv_coin tip) = md_coin_id did"
      using launch_inputs_Ok [OF li [unfolded Ok x]] by blast
    obtain sel t1 s1 where sel: "select_and_reserve rv env MAX_RESERVATION_ATTEMPTS
        (funding_rule (mt_id mt) chain (wk_puzzle_hash wallet) (options_with_fee fee))
        MintReservationUnusable t (mw_store w) = (sel, t1, s1)"
      by (metis prod_cases3)
    show ?thesis
    proof (cases sel)
      case (Err e)
      then have "launch_store mt sd live ix did chain pub net rv env w =
          Returns (Err e) (w\<lparr>mw_reads := t1, mw_store := s1\<rparr>)"
        using li Ok x sel by (simp add: launch_store_def)
      then show ?thesis by blast
    next
      case sel': (Ok fh)
      obtain funding held where fh: "fh = (funding, held)" by fastforce
      obtain pk t2 where pk: "mint_peak_height chain t1 = (pk, t2)" by fastforce
      note start = li Ok x sel sel' fh pk
      show ?thesis
      proof (cases pk)
        case (Err e)
        then have "launch_store mt sd live ix did chain pub net rv env w =
            Returns (Err e) (w\<lparr>mw_reads := t2, mw_store := held_drop rv held s1\<rparr>)"
          using start by (simp add: launch_store_def)
        then show ?thesis by blast
      next
        case pk': (Ok peak)
        show ?thesis
        proof (cases "and_then (ensure_live live 1) (\<lambda>_.
            build_and_sign_store_launch mt sd wallet tip (md_coin_id did) funding root
              (md_did did) fee peak net)")
          case (Err e)
          then have "launch_store mt sd live ix did chain pub net rv env w =
              Returns (Err e) (w\<lparr>mw_reads := t2, mw_store := held_drop rv held s1\<rparr>)"
            using start pk' by (simp add: launch_store_def)
          then show ?thesis by blast
        next
          case built: (Ok bp)
          obtain bun pending where bp: "bp = (bun, pending)" by fastforce
          obtain r r0 where r:
            "advance_mint ix (StorePushed (minted_did_record_from did) (pending_store_launch_record_from pending))
               (mw_registry w) = Returns (Ok ()) r"
            "registry_wf (mt_did_of mt) r"
            "abs_registry r = with_stage (abs_registry (mw_registry w)) ix m
               (StorePushed (minted_did_record_from did) (pending_store_launch_record_from pending))"
            "advance_mint ix (DidConfirmedStoreNotLaunched (minted_did_record_from did)) r =
               Returns (Ok ()) r0"
            "registry_wf (mt_did_of mt) r0" "rewound r0 (mw_registry w) ix m did"
            by (rule launch_journals_and_can_rewind [OF wf did m(1)])
          have live1: "live_at_check live 1"
            and build: "build_and_sign_store_launch mt sd wallet tip (md_coin_id did) funding root
              (md_did did) fee peak net = Ok (bun, pending)"
            using built bp by (auto simp: result_simps ensure_live_def split: if_splits)
          obtain res p where push:
            "push_bundle pub bun (w\<lparr>mw_reads := t2, mw_store := s1, mw_registry := r\<rparr>) = (res, p)"
            by fastforce
          have "launch_store mt sd live ix did chain pub net rv env w =
              settled_launch rv held (StorePending did (ps_launcher_id pending)) r0
                (w\<lparr>mw_reads := t2, mw_store := s1, mw_registry := r\<rparr>) (res, p)"
            using start pk' built bp r(1,4) push
            by (auto simp: launch_store_def Let_def settled_launch_def held_commit_def settle_guard_def
                rewind_on_a_definitive_no_def split: result.splits mint_error.splits)
          then show ?thesis
            using m live1 build r(2,3,5,6) push
            by (intro disjI2 exI [of _ m] exI [of _ root] exI [of _ tip] exI [of _ funding]
                exI [of _ held] exI [of _ t2] exI [of _ s1] exI [of _ peak] exI [of _ bun]
                exI [of _ pending] exI [of _ r] exI [of _ r0]) simp
        qed
      qed
    qed
  qed
qed

section \<open>The push decides\<close>

text \<open>A publisher that answers by the bundle and notes what the registry said when it was asked.\<close>

definition watching ::
  "('g spend_bundle \<Rightarrow> (push_outcome, string) result) \<Rightarrow>
     ('g, ('s, ('g spend_bundle \<times> profile_registry) list) mint_world,
      ('g spend_bundle \<times> profile_registry) list) publisher"
where
  "watching answer b w = (answer b, mw_publisher w @ [(b, mw_registry w)])"

fun answered :: "(push_outcome, string) result \<Rightarrow> (unit, mint_error) result" where
  "answered (Ok (PushRejected reason)) = Err (MintRejected reason)"
| "answered (Ok _) = Ok ()"
| "answered (Err e) = Err (MintChainUnreachable (PublisherFailed e))"

lemma answered_cases:
  obtains (yes) "answered a = Ok ()" | (no) reason where "answered a = Err (MintRejected reason)"
    | (unknown) e where "answered a = Err (MintChainUnreachable (PublisherFailed e))"
  by (cases a rule: answered.cases) auto

lemma push_watching:
  "push_bundle (watching answer) b w = (answered (answer b), mw_publisher w @ [(b, mw_registry w)])"
  by (auto simp: push_bundle_def watching_def split: result.splits push_outcome.splits)

lemma settled_begin_watching:
  "settled_begin rv held i w w1 (push_bundle (watching answer) b w1) =
     (case answered (answer b) of
        Ok _ \<Rightarrow> Returns (Ok (DidPending i)) (w1\<lparr>mw_publisher := mw_publisher w1 @ [(b, mw_registry w1)]\<rparr>)
      | Err e \<Rightarrow> Returns (Err e)
          (case e of
             MintRejected _ \<Rightarrow> w1\<lparr>mw_registry := mw_registry w, mw_store := held_drop rv held (mw_store w1),
                                   mw_publisher := mw_publisher w1 @ [(b, mw_registry w1)]\<rparr>
           | _ \<Rightarrow> w1\<lparr>mw_publisher := mw_publisher w1 @ [(b, mw_registry w1)]\<rparr>))"
  by (auto simp: settled_begin_def push_watching split: result.splits mint_error.splits)

lemma prepare_holds:
  assumes rv: "rv_store rv = local_store"
    and prep: "prepare_did_mint mt live ix chain net options rv env t s = (Ok (b, pending, held), t', s')"
  shows "\<exists>until. (reservation_u64 held, [pm_source_coin_id pending], until) \<in> local_reserved s'"
proof -
  obtain source peak t1 where p: "select_and_reserve rv env MAX_RESERVATION_ATTEMPTS
      (funding_rule (mt_id mt) chain (wk_puzzle_hash (mt_keys mt ix)) options)
      MintReservationUnusable t s = (Ok (source, held), t1, s')"
    "build_mint_spends mt (mt_keys mt ix) source options peak = Ok (sb_coin_spends b, pending)"
    using prepare_did_mint_Ok [OF prep] by blast
  have "pm_source_coin_id pending = mt_id mt source"
    using build_mint_spends_Ok [OF p(2)] by (auto simp: pending_mint_new_def)
  moreover obtain ids t0 ex now0 now where
    "fst (funding_rule (mt_id mt) chain (wk_puzzle_hash (mt_keys mt ix)) options t0 ex) = Ok (source, ids)"
    "ids \<noteq> [] \<longrightarrow> (reservation_u64 held, ids, saturating_add now (rv_ttl rv)) \<in> local_reserved s'"
    using local_table.select_grants [OF rv p(1)] by (elim exE conjE) (rule that)
  moreover from this have "ids = [mt_id mt source]"
    by (auto simp: funding_rule_def split: prod.splits result.splits)
  ultimately have "(reservation_u64 held, [pm_source_coin_id pending], saturating_add now (rv_ttl rv))
      \<in> local_reserved s'" by simp
  then show ?thesis by (rule exI)
qed

lemma prepare_adds_at_most_its_hold:
  assumes rv: "rv_store rv = local_store"
  shows "prepare_did_mint mt live ix chain net options rv (\<lambda>k s. s) t s = (Err e, t', s') \<Longrightarrow>
      local_reserved s' \<subseteq> local_reserved s"
    and "prepare_did_mint mt live ix chain net options rv (\<lambda>k s. s) t s = (Ok (b, pending, held), t', s') \<Longrightarrow>
      local_reserved (held_drop rv held s') \<subseteq> local_reserved s"
proof -
  let ?rule = "funding_rule (mt_id mt) chain (wk_puzzle_hash (mt_keys mt ix)) options"
  assume "prepare_did_mint mt live ix chain net options rv (\<lambda>k s. s) t s = (Err e, t', s')"
  then consider "s' = s"
    | e' t1 where "select_and_reserve rv (\<lambda>k s. s) MAX_RESERVATION_ATTEMPTS ?rule
        MintReservationUnusable t s = (Err e', t1, s')"
    | source h t1 s1 where "select_and_reserve rv (\<lambda>k s. s) MAX_RESERVATION_ATTEMPTS ?rule
        MintReservationUnusable t s = (Ok (source, h), t1, s1)" "s' = held_drop rv h s1"
    by (auto simp: prepare_did_mint_def live_wallet_key_def result_simps
        split: prod.splits result.splits if_splits)
  then show "local_reserved s' \<subseteq> local_reserved s"
  proof cases
    case 1
    then show ?thesis by simp
  next
    case 2
    then show ?thesis by (rule refused_selection_adds_nothing [OF rv])
  next
    case 3
    show ?thesis unfolding 3(2) by (rule dropped_selection_adds_nothing [OF rv 3(1)])
  qed
next
  assume "prepare_did_mint mt live ix chain net options rv (\<lambda>k s. s) t s = (Ok (b, pending, held), t', s')"
  from prepare_did_mint_Ok [OF this] obtain source t1 where
    "select_and_reserve rv (\<lambda>k s. s) MAX_RESERVATION_ATTEMPTS
       (funding_rule (mt_id mt) chain (wk_puzzle_hash (mt_keys mt ix)) options)
       MintReservationUnusable t s = (Ok (source, held), t1, s')"
    by (elim exE conjE) (rule that)
  then show "local_reserved (held_drop rv held s') \<subseteq> local_reserved s"
    by (rule dropped_selection_adds_nothing [OF rv])
qed

text \<open>How the begun mint settles on the answer to its push: kept and held unless the mempool refused.\<close>

lemma settled_begin_answer:
  assumes run: "settled_begin rv held (pm_did_coin_id pending) w (w\<lparr>mw_reads := t, mw_store := s, mw_registry := r\<rparr>)
      (push_bundle (watching answer) b (w\<lparr>mw_reads := t, mw_store := s, mw_registry := r\<rparr>)) = Returns res w'"
    and hold: "\<exists>i until. (i, [pm_source_coin_id pending], until) \<in> local_reserved s"
    and drop: "local_reserved (held_drop rv held s) \<subseteq> local_reserved (mw_store w)"
  shows "mw_publisher w' = mw_publisher w @ [(b, r)] \<and>
    (case answered (answer b) of
       Err (MintRejected reason) \<Rightarrow> res = Err (MintRejected reason) \<and> mw_registry w' = mw_registry w \<and>
         local_reserved (mw_store w') \<subseteq> local_reserved (mw_store w)
     | answer \<Rightarrow> res = and_then answer (\<lambda>_. Ok (DidPending (pm_did_coin_id pending))) \<and>
         mw_registry w' = r \<and> (\<exists>i until. (i, [pm_source_coin_id pending], until) \<in> local_reserved (mw_store w')))"
proof -
  note run' = run [unfolded settled_begin_watching]
  have "mw_publisher w' = mw_publisher w @ [(b, r)]"
    using run' by (auto split: result.splits mint_error.splits)
  then show ?thesis
    using run' hold drop by (cases "answer b" rule: answered_cases) (simp_all, (elim conjE, hypsubst, simp)+)
qed

text \<open>C23: In phase A of a profile mint the journal comes before the push and the push decides the rest.
  A call that never asks the publisher fails and leaves the registry and the reservations as they
  were. A call that asks it asks exactly once, and at that moment the journal already holds this
  mint at its index. A definitive rejection then gives back the registry as it was and releases the
  funding coin; an acceptance, and just as much an answer that never came, keep both the journal
  entry and the hold on the funding coin the journal names.\<close>

theorem profile_mint_follows_the_push:
  assumes wf: "registry_wf (mt_did_of mt) (mw_registry w)"
    and rv: "rv_store rv = local_store"
    and run: "begin_profile_mint mt sc live ix seed chain (watching answer) net options rv (\<lambda>k s. s) w
      = Returns res w'"
  shows "(mw_publisher w' = mw_publisher w \<and> \<not> is_ok res \<and> mw_registry w' = mw_registry w \<and>
       local_reserved (mw_store w') \<subseteq> local_reserved (mw_store w)) \<or>
    (\<exists>b r rec root. mw_publisher w' = mw_publisher w @ [(b, r)] \<and>
       journal_at r ix = Some (mint_in_progress_with_seed_root ix (DidPushed rec) root (mo_fee options)) \<and>
       (case answered (answer b) of
          Err (MintRejected reason) \<Rightarrow> res = Err (MintRejected reason) \<and> mw_registry w' = mw_registry w \<and>
            local_reserved (mw_store w') \<subseteq> local_reserved (mw_store w)
        | answer \<Rightarrow> res = and_then answer (\<lambda>_. Ok (DidPending (pmr_did_coin_id rec))) \<and>
            mw_registry w' = r \<and>
            (\<exists>i until. (i, [pmr_source_coin_id rec], until) \<in> local_reserved (mw_store w'))))"
  using begin_profile_mint_cases [OF wf, of sc live ix seed chain "watching answer" net options rv "\<lambda>k s. s"]
proof (elim disjE exE conjE)
  fix e t s
  assume b: "begin_profile_mint mt sc live ix seed chain (watching answer) net options rv (\<lambda>k s. s) w =
      Returns (Err e) (w\<lparr>mw_reads := t, mw_store := s\<rparr>)"
    and "(t, s) = (mw_reads w, mw_store w)"
  then show ?thesis using run by auto
next
  fix e t s e'
  assume b: "begin_profile_mint mt sc live ix seed chain (watching answer) net options rv (\<lambda>k s. s) w =
      Returns (Err e) (w\<lparr>mw_reads := t, mw_store := s\<rparr>)"
    and p: "prepare_did_mint mt live ix chain net options rv (\<lambda>k s. s) (mw_reads w) (mw_store w) = (Err e', t, s)"
  show ?thesis using b run prepare_adds_at_most_its_hold(1) [OF rv p] by auto
next
  fix e t s b pending held s0
  assume b: "begin_profile_mint mt sc live ix seed chain (watching answer) net options rv (\<lambda>k s. s) w =
      Returns (Err e) (w\<lparr>mw_reads := t, mw_store := s\<rparr>)"
    and s: "s = held_drop rv held s0"
    and p: "prepare_did_mint mt live ix chain net options rv (\<lambda>k s. s) (mw_reads w) (mw_store w)
      = (Ok (b, pending, held), t, s0)"
  show ?thesis using b run prepare_adds_at_most_its_hold(2) [OF rv p] s by auto
next
  fix root b pending held t s r
  assume p: "prepare_did_mint mt live ix chain net options rv (\<lambda>k s. s) (mw_reads w) (mw_store w)
      = (Ok (b, pending, held), t, s)"
    and abs: "abs_registry r = (abs_registry (mw_registry w))\<lparr>sp_mints := (sp_mints (abs_registry (mw_registry w)))
          (ix \<mapsto> mint_in_progress_with_seed_root ix (DidPushed (pending_mint_record_from pending)) root
                   (mo_fee options))\<rparr>"
    and b: "begin_profile_mint mt sc live ix seed chain (watching answer) net options rv (\<lambda>k s. s) w =
          settled_begin rv held (pm_did_coin_id pending) w
            (w\<lparr>mw_reads := t, mw_store := s, mw_registry := r\<rparr>)
            (push_bundle (watching answer) b (w\<lparr>mw_reads := t, mw_store := s, mw_registry := r\<rparr>))"
  let ?rec = "pending_mint_record_from pending"
  have j: "journal_at r ix = Some (mint_in_progress_with_seed_root ix (DidPushed ?rec) root (mo_fee options))"
    using fun_cong [OF arg_cong [OF abs, of sp_mints], of ix] by simp
  have hold: "\<exists>i until. (i, [pm_source_coin_id pending], until) \<in> local_reserved s"
    using prepare_holds [OF rv p] by blast
  have fields: "pmr_did_coin_id ?rec = pm_did_coin_id pending" "pmr_source_coin_id ?rec = pm_source_coin_id pending"
    by (simp_all add: pending_mint_record_from_def)
  have drop: "local_reserved (held_drop rv held s) \<subseteq> local_reserved (mw_store w)"
    by (rule prepare_adds_at_most_its_hold(2) [OF rv p])
  note settled = settled_begin_answer [OF run [unfolded b] hold drop, folded fields]
  show ?thesis
    by (intro disjI2 exI [of _ b] exI [of _ r] exI [of _ ?rec] exI [of _ root] conjI)
       (rule conjunct1 [OF settled], rule j, rule conjunct2 [OF settled])
qed

text \<open>A small schema: a profile is its slots, with the ids the sources document.\<close>

fun standard_id :: "profile_slot \<Rightarrow> u16" where
  "standard_id DisplayName = 1"
| "standard_id Bio = 2"
| "standard_id Avatar = 3"
| "standard_id Banner = 4"
| "standard_id Pronouns = 5"
| "standard_id Location = 6"
| "standard_id Links = 7"
| "standard_id XchAddress = 8"
| "standard_id AvatarImage = 32"
| "standard_id BannerImage = 33"

definition sample_schema ::
  "(u16 \<Rightarrow> unit slot_value option, u16 \<Rightarrow> unit slot_value option, unit) schema" where
  "sample_schema =
     \<lparr>sc_slot = standard_id, sc_version_slot = 0,
      sc_v2 = [0 \<mapsto> OtherValue ()], sc_set = (\<lambda>i v q. q(i \<mapsto> v)), sc_get = (\<lambda>q. q),
      sc_version = (\<lambda>q. if q 0 = Some (OtherValue ()) then Some 2 else None),
      sc_apply_all = (\<lambda>es q. foldl apply_edit q es),
      sc_decode = (\<lambda>bs. Ok (Utf8 [])), sc_from_pairs = (\<lambda>ps. Ok (map_of ps)),
      sc_from_profile = (\<lambda>q. Ok q), sc_root = (\<lambda>b. 77), sc_bytes = (\<lambda>b. []), sc_profile = (\<lambda>b. b)\<rparr>"

lemma standard_id_inj: "inj standard_id"
  by (intro injI) (case_tac x; case_tac y; simp)

lemma sample_schema_laws: "schema_laws sample_schema"
  by (simp add: schema_laws_def sample_schema_def standard_id_inj)

lemma sample_seed_root: "seed_root sample_schema (seed_new sample_schema) = Ok 77"
  by (simp add: seed_root_def seed_body_def sample_schema_def)

definition sample_world ::
  "profile_registry \<Rightarrow> (local_reservations, (byte list list spend_bundle \<times> profile_registry) list) mint_world"
where
  "sample_world r = \<lparr>mw_registry = r, mw_reads = 0, mw_store = local_new, mw_publisher = []\<rparr>"

definition sample_pending_record :: pending_mint_record where
  "sample_pending_record = pending_mint_record_from (pending_mint_new 50 301 101 40)"

definition sample_journal :: "mint_stage \<Rightarrow> profile_registry" where
  "sample_journal stage =
     \<lparr>entries = [], active_ix = None,
      in_progress = [mint_in_progress_with_seed_root root_ix stage 77 3]\<rparr>"

lemma sample_journalled:
  "begin_seeded_mint did_of root_ix (DidPushed rec) 77 3 registry_empty =
     Returns (Ok ()) (sample_journal (DidPushed rec))"
  by (simp add: begin_seeded_mint_def reserve_mint_def Let_def registry_empty_def registry_contains_def
      registry_get_def mint_position_def mint_in_progress_with_seed_root_def MAX_MINT_FEE_MOJOS_def
      partition_point_def vec_insert_def expect_valid_def registry_check_def known_ixs_def
      check_active_def registry_live_def sample_journal_def)

abbreviation sample_begin where
  "sample_begin answer \<equiv> begin_profile_mint sample_tools sample_schema sample_live root_ix
     (seed_new sample_schema) (sample_mint_chain 40) (watching answer) sample_network
     (options_with_fee 3) sample_reservations (\<lambda>k s. s) (sample_world registry_empty)"

lemma sample_begun:
  "sample_begin (\<lambda>b. Err ''no answer'') =
     Returns (Err (MintChainUnreachable (PublisherFailed ''no answer'')))
       \<lparr>mw_registry = sample_journal (DidPushed sample_pending_record), mw_reads = 3,
        mw_store = sample_held,
        mw_publisher = [(sample_bundle, sample_journal (DidPushed sample_pending_record))]\<rparr>"
proof -
  have "mo_fee (options_with_fee 3) = 3" by (simp add: options_with_fee_def)
  then show ?thesis
    by (simp add: begin_profile_mint_def sample_seed_root sample_world_def sample_prepared Let_def
        sample_journalled push_watching settle_guard_def held_commit_def
        release_index_on_a_definitive_no_def sample_pending_record_def)
qed

text \<open>The answer was lost: the journal entry stands and so does the hold on the funding coin.\<close>

theorem profile_mint_follows_the_push_witness:
  "\<exists>i until. (i, [101], until) \<in> local_reserved sample_held"
proof -
  have wf: "registry_wf (mt_did_of sample_tools) (mw_registry (sample_world registry_empty))"
    by (simp add: sample_world_def registry_empty_wf)
  have rv: "rv_store sample_reservations = local_store"
    by (simp add: sample_reservations_def reservations_new_def)
  have "sample_journal (DidPushed sample_pending_record) \<noteq> registry_empty"
    by (simp add: sample_journal_def registry_empty_def)
  moreover have "journal_at (sample_journal (DidPushed sample_pending_record)) root_ix =
      Some (mint_in_progress_with_seed_root root_ix (DidPushed sample_pending_record) 77 3)"
    by (simp add: sample_journal_def mint_in_progress_with_seed_root_def)
  moreover have "pmr_source_coin_id sample_pending_record = 101"
    by (simp add: sample_pending_record_def pending_mint_record_from_def pending_mint_new_def)
  ultimately show ?thesis
    using profile_mint_follows_the_push [OF wf rv sample_begun]
    by (auto simp: sample_world_def mint_in_progress_with_seed_root_def simp del: image_iff)
qed

section \<open>The store launch\<close>

lemma minted_did_reverified_honest:
  "minted_did_reverified did_of cid l c h r peak = Some d \<Longrightarrow> did_honest did_of d"
  unfolding minted_did_reverified_def by (rule minted_did_honest)

definition store_in_flight :: "profile_registry \<Rightarrow> profile_ix \<Rightarrow> bool" where
  "store_in_flight r ix \<longleftrightarrow> (\<exists>m d p. journal_at r ix = Some m \<and> mp_stage m = StorePushed d p)"

lemma confirmed_no_store:
  assumes "profile_mint_status_of mt r ix chain t = (Ok (DidConfirmedNoStore did), t')"
  shows "did_honest (mt_did_of mt) did \<and> \<not> store_in_flight r ix"
  using assms
  by (auto simp: profile_mint_status_of_def journalled_mint_def result_simps confirmed_did_def
      reverified_did_def store_in_flight_def Let_def bind_eq_Some_conv
      split: result.splits prod.splits mint_stage.splits option.splits if_splits
      dest: minted_did_honest minted_did_reverified_honest)

lemma advance_cases:
  assumes wf: "registry_wf (mt_did_of mt) (mw_registry w)"
  shows
    "(\<exists>res t s. advance_profile_mint mt sd live ix chain pub net rv env w =
        Returns res (w\<lparr>mw_reads := t, mw_store := s\<rparr>)) \<or>
     (\<exists>did m root tip funding held t s peak b pending r r0.
        did_honest (mt_did_of mt) did \<and> \<not> store_in_flight (mw_registry w) ix \<and>
        journal_at (mw_registry w) ix = Some m \<and> mp_seed_root m = Some root \<and>
        build_and_sign_store_launch mt sd (mt_keys mt ix) tip (md_coin_id did) funding root (md_did did)
          (mp_store_fee m) peak net = Ok (b, pending) \<and>
        registry_wf (mt_did_of mt) r \<and> registry_wf (mt_did_of mt) r0 \<and>
        rewound r0 (mw_registry w) ix m did \<and>
        abs_registry r = with_stage (abs_registry (mw_registry w)) ix m
          (StorePushed (minted_did_record_from did) (pending_store_launch_record_from pending)) \<and>
        advance_profile_mint mt sd live ix chain pub net rv env w =
          settled_launch rv held (StorePending did (ps_launcher_id pending)) r0
            (w\<lparr>mw_reads := t, mw_store := s, mw_registry := r\<rparr>)
            (push_bundle pub b (w\<lparr>mw_reads := t, mw_store := s, mw_registry := r\<rparr>)))"
proof -
  obtain st t0 where st: "profile_mint_status_of mt (mw_registry w) ix chain (mw_reads w) = (st, t0)"
    by fastforce
  show ?thesis
  proof (cases "\<exists>did. st = Ok (DidConfirmedNoStore did)")
    case False
    have same: "w\<lparr>mw_reads := t0\<rparr> = w\<lparr>mw_reads := t0, mw_store := mw_store w\<rparr>" by simp
    have "advance_profile_mint mt sd live ix chain pub net rv env w = Returns st (w\<lparr>mw_reads := t0\<rparr>)"
      using st False
      by (auto simp: advance_profile_mint_def split: result.splits profile_mint_status.splits)
    then show ?thesis using same by metis
  next
    case True
    then obtain did where did: "st = Ok (DidConfirmedNoStore did)" by blast
    note hon = confirmed_no_store [OF st [unfolded did]]
    have adv: "advance_profile_mint mt sd live ix chain pub net rv env w =
        launch_store mt sd live ix did chain pub net rv env (w\<lparr>mw_reads := t0\<rparr>)"
      using st did by (simp add: advance_profile_mint_def)
    have wf0: "registry_wf (mt_did_of mt) (mw_registry (w\<lparr>mw_reads := t0\<rparr>))" using wf by simp
    from launch_store_cases [OF wf0 conjunct1 [OF hon], of sd live ix chain pub net rv env]
    show ?thesis
    proof (elim disjE exE conjE)
      fix e t s
      assume "launch_store mt sd live ix did chain pub net rv env (w\<lparr>mw_reads := t0\<rparr>) =
        Returns (Err e) (w\<lparr>mw_reads := t0, mw_reads := t, mw_store := s\<rparr>)"
      then show ?thesis using adv by auto
    next
      fix m root tip funding held t s peak b pending r r0
      assume "journal_at (mw_registry (w\<lparr>mw_reads := t0\<rparr>)) ix = Some m" "mp_seed_root m = Some root"
        "build_and_sign_store_launch mt sd (mt_keys mt ix) tip (md_coin_id did) funding root (md_did did)
          (mp_store_fee m) peak net = Ok (b, pending)"
        "registry_wf (mt_did_of mt) r" "registry_wf (mt_did_of mt) r0"
        "rewound r0 (mw_registry (w\<lparr>mw_reads := t0\<rparr>)) ix m did"
        "abs_registry r = with_stage (abs_registry (mw_registry (w\<lparr>mw_reads := t0\<rparr>))) ix m
          (StorePushed (minted_did_record_from did) (pending_store_launch_record_from pending))"
        "launch_store mt sd live ix did chain pub net rv env (w\<lparr>mw_reads := t0\<rparr>) =
          settled_launch rv held (StorePending did (ps_launcher_id pending)) r0
            (w\<lparr>mw_reads := t0, mw_reads := t, mw_store := s, mw_registry := r\<rparr>)
            (push_bundle pub b (w\<lparr>mw_reads := t0, mw_reads := t, mw_store := s, mw_registry := r\<rparr>))"
      then show ?thesis using adv hon
        by (intro disjI2 exI [of _ did] exI [of _ m] exI [of _ root] exI [of _ tip] exI [of _ funding]
            exI [of _ held] exI [of _ t] exI [of _ s] exI [of _ peak] exI [of _ b]
            exI [of _ pending] exI [of _ r] exI [of _ r0]) simp
    qed
  qed
qed

lemma journal_with_stage:
  assumes abs: "abs_registry r = with_stage (abs_registry r') ix m stage"
  shows "journal_at r k = (if k = ix then Some (m\<lparr>mp_stage := stage\<rparr>) else journal_at r' k)"
  using fun_cong [OF arg_cong [OF abs, of sp_mints], of k] by (simp add: with_stage_def split: if_splits)

text \<open>In phase B the journal comes before the push too. A call to advance a mint that pushes
  nothing leaves the registry as it was. One that pushes does so once, from a mint whose store was not
  yet in flight, after journalling the launch with the DID coin it spends and the content root the
  mint was begun with; a definitive rejection rewinds that entry to the confirmed DID with the store
  unlaunched, and an acceptance or a lost answer keeps it, so the launch can only be waited for.\<close>

theorem store_launch_follows_the_push:
  assumes wf: "registry_wf (mt_did_of mt) (mw_registry w)"
    and run: "advance_profile_mint mt sd live ix chain (watching answer) net rv env w = Returns res w'"
  shows "(mw_publisher w' = mw_publisher w \<and> mw_registry w' = mw_registry w) \<or>
    (\<exists>b r m did rec. mw_publisher w' = mw_publisher w @ [(b, r)] \<and>
       \<not> store_in_flight (mw_registry w) ix \<and> journal_at (mw_registry w) ix = Some m \<and>
       journal_at r ix = Some (m\<lparr>mp_stage := StorePushed (minted_did_record_from did) rec\<rparr>) \<and>
       psr_did_coin_id rec = md_coin_id did \<and> mp_seed_root m = Some (psr_committed_root rec) \<and>
       (case answered (answer b) of
          Err (MintRejected reason) \<Rightarrow> res = Err (MintRejected reason) \<and>
            journal_at (mw_registry w') ix =
              Some (m\<lparr>mp_stage := DidConfirmedStoreNotLaunched (minted_did_record_from did)\<rparr>)
        | answer \<Rightarrow> res = and_then answer (\<lambda>_. Ok (StorePending did (psr_launcher_id rec))) \<and>
            mw_registry w' = r))"
  using advance_cases [OF wf, of sd live ix chain "watching answer" net rv env]
proof (elim disjE exE conjE)
  fix res' t s
  assume "advance_profile_mint mt sd live ix chain (watching answer) net rv env w =
      Returns res' (w\<lparr>mw_reads := t, mw_store := s\<rparr>)"
  then show ?thesis using run by auto
next
  fix did m root tip funding held t s peak b pending r r0
  assume idle: "\<not> store_in_flight (mw_registry w) ix" and m: "journal_at (mw_registry w) ix = Some m"
    and root: "mp_seed_root m = Some root"
    and built: "build_and_sign_store_launch mt sd (mt_keys mt ix) tip (md_coin_id did) funding root (md_did did)
          (mp_store_fee m) peak net = Ok (b, pending)"
    and rew: "rewound r0 (mw_registry w) ix m did"
    and r: "abs_registry r = with_stage (abs_registry (mw_registry w)) ix m
          (StorePushed (minted_did_record_from did) (pending_store_launch_record_from pending))"
    and adv: "advance_profile_mint mt sd live ix chain (watching answer) net rv env w =
          settled_launch rv held (StorePending did (ps_launcher_id pending)) r0
            (w\<lparr>mw_reads := t, mw_store := s, mw_registry := r\<rparr>)
            (push_bundle (watching answer) b (w\<lparr>mw_reads := t, mw_store := s, mw_registry := r\<rparr>))"
  let ?rec = "pending_store_launch_record_from pending"
  have fields: "psr_launcher_id ?rec = ps_launcher_id pending" "psr_did_coin_id ?rec = md_coin_id did"
    "psr_committed_root ?rec = root"
    using launch_pending_did [OF built] by (simp_all add: pending_store_launch_record_from_def)
  note run' = run [unfolded adv settled_launch_def push_watching]
  have back': "journal_at r0 ix =
      Some (m\<lparr>mp_stage := DidConfirmedStoreNotLaunched (minted_did_record_from did)\<rparr>)"
    using journal_with_stage [OF rew [unfolded rewound_def], of ix] by simp
  show ?thesis
  proof (intro disjI2 exI [of _ b] exI [of _ r] exI [of _ m] exI [of _ did] exI [of _ ?rec] conjI)
    show "mw_publisher w' = mw_publisher w @ [(b, r)]"
      using run' by (cases "answer b" rule: answered_cases) auto
    show "\<not> store_in_flight (mw_registry w) ix" "journal_at (mw_registry w) ix = Some m"
      "psr_did_coin_id ?rec = md_coin_id did" "mp_seed_root m = Some (psr_committed_root ?rec)"
      using idle m fields root by simp_all
    show "journal_at r ix = Some (m\<lparr>mp_stage := StorePushed (minted_did_record_from did) ?rec\<rparr>)"
      using journal_with_stage [OF r, of ix] by simp
    show "case answered (answer b) of
          Err (MintRejected reason) \<Rightarrow> res = Err (MintRejected reason) \<and>
            journal_at (mw_registry w') ix =
              Some (m\<lparr>mp_stage := DidConfirmedStoreNotLaunched (minted_did_record_from did)\<rparr>)
        | answer \<Rightarrow> res = and_then answer (\<lambda>_. Ok (StorePending did (psr_launcher_id ?rec))) \<and>
            mw_registry w' = r"
      using run' fields back' by (cases "answer b" rule: answered_cases) auto
  qed
qed

text \<open>A store driver whose coins are numbered by \<open>sample_mint_id\<close>.\<close>

abbreviation plain_spend :: "coin \<Rightarrow> coin_spend" where
  "plain_spend c \<equiv> \<lparr>spent_coin = c, puzzle_reveal = [7], solution = []\<rparr>"

definition sample_intermediate :: coin where
  "sample_intermediate = \<lparr>parent_coin_info = 301, puzzle_hash = 70, amount = 0\<rparr>"

definition sample_launcher :: coin where
  "sample_launcher = \<lparr>parent_coin_info = 401, puzzle_hash = 71, amount = 1\<rparr>"

definition sample_store_driver :: "(unit, unit, unit) store_driver" where
  "sample_store_driver =
     \<lparr>sd_intermediate_coin = (\<lambda>i n m. sample_intermediate),
      sd_create = (\<lambda>staged i n m. Ok (staged @ [plain_spend sample_intermediate], ())),
      sd_launch = (\<lambda>staged l root label description owner.
        Ok (staged @ [plain_spend sample_launcher],
            \<lparr>ls_coin = \<lparr>parent_coin_info = 501, puzzle_hash = 72, amount = 1\<rparr>, ls_launcher_id = 501,
             ls_parent_conditions = ()\<rparr>)),
      sd_did_spend = (\<lambda>staged d pk conds. Ok (staged @ [plain_spend (dv_coin d)])),
      sd_required = (\<lambda>me spends. Ok [Bls \<lparr>br_public_key = [7], br_raw_message = [2],
                        br_appended_info = [], br_domain_string = Some me\<rparr>])\<rparr>"

definition sample_launch_bundle :: "byte list list spend_bundle" where
  "sample_launch_bundle =
     \<lparr>sb_coin_spends = [plain_spend sample_intermediate, plain_spend sample_launcher,
        plain_spend (dv_coin sample_did_value), plain_spend sample_source],
      sb_signature = [[2]]\<rparr>"

lemma sample_launch_built:
  "build_and_sign_store_launch sample_tools sample_store_driver sample_wallet sample_did_value 301
     sample_source 77 ds 3 peak sample_network =
   Ok (sample_launch_bundle, pending_store_launch_new 501 601 301 77 peak)"
proof -
  have fund: "spend_funding_coin sample_builder sample_wallet staged sample_source 3 =
      Ok (staged @ [plain_spend sample_source])" for staged
    by (simp add: spend_funding_coin_def sample_builder_def sample_wallet_def sample_source_def
        ok_or_def checked_sub_def LAUNCHER_AMOUNT_def)
  have gate: "launch_gate (sample_mint_id, 301) sample_wallet sample_network (sb_coin_spends sample_launch_bundle)
      [Bls \<lparr>br_public_key = [7], br_raw_message = [2], br_appended_info = [],
            br_domain_string = Some 6\<rparr>] = Ok ()"
    by (simp add: launch_gate_def bundle_roots_def sample_launch_bundle_def sample_mint_simps
        sample_intermediate_def sample_launcher_def sample_wallet_def)
  have shape: "check_launch_shape sample_mint_id sample_intermediate 501 (sb_coin_spends sample_launch_bundle)
      = Ok ()"
    by (simp add: check_launch_shape_def sample_launch_bundle_def sample_mint_simps ok_or_def
        sample_intermediate_def sample_launcher_def INTERMEDIATE_AMOUNT_def)
  have tools: "mt_id sample_tools = sample_mint_id" "mt_builder sample_tools = sample_builder"
    "mt_scheme sample_tools = \<lparr>sig_default = [], sig_add = (@), sig_sign = (\<lambda>w m. [m]), sig_message = br_raw_message\<rparr>"
    by (simp_all add: sample_tools_def)
  have ids: "sample_mint_id (dv_coin sample_did_value) = 301" "mn_me sample_network = 6"
    "sample_mint_id \<lparr>parent_coin_info = 501, puzzle_hash = 72, amount = 1\<rparr> = 601"
    by (simp_all add: sample_mint_simps)
  have bun: "[plain_spend sample_intermediate, plain_spend sample_launcher,
        plain_spend (dv_coin sample_did_value), plain_spend sample_source] = sb_coin_spends sample_launch_bundle"
    by (simp add: sample_launch_bundle_def)
  show ?thesis
    unfolding build_and_sign_store_launch_def
    by (simp add: Let_def tools ids sample_store_driver_def store_metadata_def fund bun shape gate)
       (simp add: sample_launch_bundle_def)
qed

definition sample_did_record :: minted_did_record where
  "sample_did_record = minted_did_record_from
     \<lparr>md_did = ''did'', md_launcher_id = 50, md_coin_id = 301, md_confirmed_height = 45\<rparr>"

abbreviation sample_advance where
  "sample_advance answer r \<equiv> advance_profile_mint sample_tools sample_store_driver sample_live root_ix
     (sample_mint_chain 100) (watching answer) sample_network sample_reservations (\<lambda>k s. s) (sample_world r)"

definition sample_launch_record :: pending_store_launch_record where
  "sample_launch_record = pending_store_launch_record_from (pending_store_launch_new 501 601 301 77 100)"

lemma sample_status:
  "profile_mint_status_of sample_tools (sample_journal (DidConfirmedStoreNotLaunched sample_did_record)) root_ix
      (sample_mint_chain 100) 0 =
    (Ok (DidConfirmedNoStore \<lparr>md_did = ''did'', md_launcher_id = 50, md_coin_id = 301,
       md_confirmed_height = 45\<rparr>), 2)"
proof -
  have read: "mint_coin_record (sample_mint_chain 100) t 301 =
      (Ok (Some \<lparr>rec_coin = dv_coin sample_did_value, confirmed_height = Some 45, spent_height = None\<rparr>), Suc t)"
    for t
    by (simp add: mint_coin_record_def sample_mint_chain_def)
  have "minted_did_reverified (mt_did_of sample_tools) (mt_id sample_tools) 50 301 45
      \<lparr>rec_coin = dv_coin sample_did_value, confirmed_height = Some 45, spent_height = None\<rparr> 100 =
      Some \<lparr>md_did = ''did'', md_launcher_id = 50, md_coin_id = 301, md_confirmed_height = 45\<rparr>"
    by (simp add: sample_mint_simps minted_did_reverified_def
        minted_did_from_confirmed_def pending_mint_new_def burial_depth_def saturating_sub_def
        saturating_add_def MIN_CONFIRMATION_DEPTH_def)
  then have "reverified_did sample_tools (sample_mint_chain 100) t sample_did_record 100 =
      (Ok \<lparr>md_did = ''did'', md_launcher_id = 50, md_coin_id = 301, md_confirmed_height = 45\<rparr>, Suc t)" for t
    by (simp add: reverified_did_def sample_did_record_def minted_did_record_from_def read ok_or_def)
  then show ?thesis
    by (simp add: profile_mint_status_of_def journalled_mint_def sample_journal_def ok_or_def
        mint_in_progress_with_seed_root_def sample_peak)
qed

lemma sample_launched_from:
  assumes "profile_mint_status_of sample_tools (sample_journal stage) root_ix (sample_mint_chain 100) 0 =
    (Ok (DidConfirmedNoStore \<lparr>md_did = ''did'', md_launcher_id = 50, md_coin_id = 301,
       md_confirmed_height = 45\<rparr>), 2)"
  shows "sample_advance (\<lambda>b. Err ''no answer'') (sample_journal stage) =
     Returns (Err (MintChainUnreachable (PublisherFailed ''no answer'')))
       \<lparr>mw_registry = sample_journal (StorePushed sample_did_record sample_launch_record), mw_reads = 6,
        mw_store = sample_held,
        mw_publisher = [(sample_launch_bundle,
                         sample_journal (StorePushed sample_did_record sample_launch_record))]\<rparr>"
proof -
  let ?did = "\<lparr>md_did = ''did'', md_launcher_id = 50, md_coin_id = 301, md_confirmed_height = 45\<rparr>"
  let ?r = "sample_journal stage"
  have inputs: "launch_inputs sample_tools sample_live ?r root_ix ?did 2 =
      (Ok (77, 3, sample_wallet, sample_did_value), 3)"
    by (simp add: launch_inputs_def journalled_mint_def sample_journal_def ok_or_def
        mint_in_progress_with_seed_root_def live_wallet_key_def sample_mint_simps)
  have adv: "advance_mint root_ix (StorePushed sample_did_record sample_launch_record) ?r =
      Returns (Ok ()) (sample_journal (StorePushed sample_did_record sample_launch_record))"
    by (simp add: advance_mint_def mint_position_def sample_journal_def mint_in_progress_with_seed_root_def)
  have ph: "wk_puzzle_hash sample_wallet = 9" "mt_id sample_tools = sample_mint_id"
    by (simp_all add: sample_wallet_def sample_tools_def)
  have live: "ensure_live sample_live k = Ok ()" for k
    by (simp add: ensure_live_def sample_mint_simps)
  show ?thesis
    unfolding advance_profile_mint_def launch_store_def sample_world_def
    by (simp add: assms inputs ph sample_mint_reserved sample_peak live sample_launch_built
        adv [unfolded sample_launch_record_def] sample_did_record_def [symmetric]
        push_watching settle_guard_def held_commit_def rewind_on_a_definitive_no_def sample_held_def
        sample_launch_record_def Let_def)
qed

lemmas sample_launched = sample_launched_from [OF sample_status]

lemma sample_journal_wf:
  "stage_ok did_of stage \<Longrightarrow> registry_wf did_of (sample_journal stage)"
  by (simp add: registry_wf_def registry_ok_def registry_sorted_def static_ok_def known_ixs_def
      active_ok_def registry_live_def sample_journal_def mint_in_progress_with_seed_root_def
      mint_ok_def MAX_MINT_FEE_MOJOS_def)

theorem store_launch_follows_the_push_witness:
  "store_in_flight (sample_journal (StorePushed sample_did_record sample_launch_record)) root_ix \<and>
   \<not> store_in_flight (sample_journal (DidConfirmedStoreNotLaunched sample_did_record)) root_ix"
proof -
  have "stage_ok (mt_did_of sample_tools) (DidConfirmedStoreNotLaunched sample_did_record)"
    by (simp add: stage_ok_def journalled_did_ok_def sample_did_record_def minted_did_record_from_def
        sample_tools_def)
  then have wf: "registry_wf (mt_did_of sample_tools)
      (mw_registry (sample_world (sample_journal (DidConfirmedStoreNotLaunched sample_did_record))))"
    by (simp add: sample_world_def sample_journal_wf)
  from store_launch_follows_the_push [OF wf sample_launched] show ?thesis
    by (auto simp: sample_world_def store_in_flight_def)
qed

lemma launch_built_parts:
  assumes "build_and_sign_store_launch mt sd w did did_coin_id funding root ds fee h net = Ok (b, pending)"
  shows "\<exists>staged required.
    spend_funding_coin (mt_builder mt) w staged funding fee = Ok (sb_coin_spends b) \<and>
    check_launch_shape (mt_id mt)
       (sd_intermediate_coin sd did_coin_id INTERMEDIATE_MINT_NUMBER INTERMEDIATE_MINT_TOTAL)
       (ps_launcher_id pending) (sb_coin_spends b) = Ok () \<and>
    sd_required sd (mn_me net) (sb_coin_spends b) = Ok required \<and>
    launch_gate (mt_id mt, did_coin_id) w net (sb_coin_spends b) required = Ok () \<and>
    sign_requirements (mt_scheme mt) (MintRefused NonBlsAfterGate) w (sig_default (mt_scheme mt)) required
       = Ok (sb_signature b)"
  using assms
  by (clarsimp simp: build_and_sign_store_launch_def Let_def result_simps pending_store_launch_new_def
      split: if_splits prod.splits) blast

text \<open>C24: A store launch is signed only in the shape it claims: the bundle's pre-existing coins are exactly
  two, the DID coin the mint recorded and one coin of this wallet; the launcher hangs on the
  zero-amount intermediate coin; the funding coin pays the launcher mojo, the fee asked for and change
  home, to the mojo; and the signature covers each requirement under the profile's own key. What is
  journalled of it is the coin spent and the content root given.\<close>

theorem store_launch_spends_did_and_one_own_coin:
  assumes "build_and_sign_store_launch mt sd w did did_coin_id funding root ds fee h net = Ok (b, pending)"
  shows "(\<exists>x y. bundle_roots (mt_id mt) (sb_coin_spends b) = [x, y] \<and>
       (mt_id mt (spent_coin x) = did_coin_id \<and> puzzle_hash (spent_coin y) = wk_puzzle_hash w \<or>
        mt_id mt (spent_coin y) = did_coin_id \<and> puzzle_hash (spent_coin x) = wk_puzzle_hash w)) \<and>
    (\<exists>l intermediate. l \<in> set (sb_coin_spends b) \<and> mt_id mt (spent_coin l) = ps_launcher_id pending \<and>
       parent_coin_info (spent_coin l) = mt_id mt intermediate \<and> amount intermediate = 0) \<and>
    (\<exists>hint change spend. standard_spend (mt_builder mt) (wk_public_key w) funding
         (launch_funding_conditions (wk_puzzle_hash w) hint change fee) = Ok spend \<and>
       spend \<in> set (sb_coin_spends b) \<and> 1 + unat change + unat fee = unat (amount funding) \<and>
       pays_only (wk_puzzle_hash w) (launch_funding_conditions (wk_puzzle_hash w) hint change fee)) \<and>
    (\<exists>required. sd_required sd (mn_me net) (sb_coin_spends b) = Ok required \<and>
       list_all (own_bound_signature w net) required \<and>
       sb_signature b = aggregate (mt_scheme mt) w (bls_messages (mt_scheme mt) required)) \<and>
    ps_did_coin_id pending = did_coin_id \<and> ps_committed_root pending = root"
proof -
  obtain staged required where p:
    "spend_funding_coin (mt_builder mt) w staged funding fee = Ok (sb_coin_spends b)"
    "check_launch_shape (mt_id mt)
       (sd_intermediate_coin sd did_coin_id INTERMEDIATE_MINT_NUMBER INTERMEDIATE_MINT_TOTAL)
       (ps_launcher_id pending) (sb_coin_spends b) = Ok ()"
    "sd_required sd (mn_me net) (sb_coin_spends b) = Ok required"
    "launch_gate (mt_id mt, did_coin_id) w net (sb_coin_spends b) required = Ok ()"
    "sign_requirements (mt_scheme mt) (MintRefused NonBlsAfterGate) w (sig_default (mt_scheme mt)) required
       = Ok (sb_signature b)"
    using launch_built_parts [OF assms] by blast
  have "\<exists>x y. bundle_roots (mt_id mt) (sb_coin_spends b) = [x, y] \<and>
       (mt_id mt (spent_coin x) = did_coin_id \<and> puzzle_hash (spent_coin y) = wk_puzzle_hash w \<or>
        mt_id mt (spent_coin y) = did_coin_id \<and> puzzle_hash (spent_coin x) = wk_puzzle_hash w)"
    using p(4) by (auto simp: launch_gate_def result_simps split: list.splits if_splits)
  moreover have "\<exists>l intermediate. l \<in> set (sb_coin_spends b) \<and>
       mt_id mt (spent_coin l) = ps_launcher_id pending \<and>
       parent_coin_info (spent_coin l) = mt_id mt intermediate \<and> amount intermediate = 0"
  proof -
    let ?i = "sd_intermediate_coin sd did_coin_id INTERMEDIATE_MINT_NUMBER INTERMEDIATE_MINT_TOTAL"
    obtain l where l: "find (\<lambda>s. mt_id mt (spent_coin s) = ps_launcher_id pending) (sb_coin_spends b) = Some l"
      "parent_coin_info (spent_coin l) = mt_id mt ?i" "amount ?i = 0"
      using p(2) by (auto simp: check_launch_shape_def result_simps INTERMEDIATE_AMOUNT_def split: if_splits)
    then have "l \<in> set (sb_coin_spends b)" "mt_id mt (spent_coin l) = ps_launcher_id pending"
      by (auto simp: find_Some_iff)
    with l(2,3) show ?thesis by blast
  qed
  moreover have "\<exists>hint change spend. standard_spend (mt_builder mt) (wk_public_key w) funding
         (launch_funding_conditions (wk_puzzle_hash w) hint change fee) = Ok spend \<and>
       spend \<in> set (sb_coin_spends b) \<and> 1 + unat change + unat fee = unat (amount funding) \<and>
       pays_only (wk_puzzle_hash w) (launch_funding_conditions (wk_puzzle_hash w) hint change fee)"
    using spend_funding_coin_Ok [OF p(1)] launch_funding_conditions_value(2) by fastforce
  moreover have "sb_signature b = aggregate (mt_scheme mt) w (bls_messages (mt_scheme mt) required)"
    using launch.gated_signature [OF p(4)] p(5) by (metis result.inject(1))
  ultimately show ?thesis
    using p(3) launch.gate_own [OF p(4)] launch_pending_did [OF assms] by blast
qed

theorem store_launch_spends_did_and_one_own_coin_witness:
  "\<exists>hint change spend. standard_spend sample_builder [7] sample_source (launch_funding_conditions 9 hint change 3) = Ok spend \<and>
     1 + unat change + 3 = unat (amount sample_source)"
  using store_launch_spends_did_and_one_own_coin [OF sample_launch_built [where ds = "[]" and peak = 100]]
  by (auto simp: sample_tools_def sample_wallet_def)

section \<open>One launch, however often it is resumed\<close>

record ('g, 's) advance_call =
  ac_live :: liveness
  ac_chain :: chain_source
  ac_env :: "nat \<Rightarrow> 's \<Rightarrow> 's"
  ac_answer :: "'g spend_bundle \<Rightarrow> (push_outcome, string) result"

fun advance_run ::
  "('d, 'g) mint_tools \<Rightarrow> ('d, 'l, 'c) store_driver \<Rightarrow> profile_ix \<Rightarrow> mint_network \<Rightarrow> 's coin_reservations \<Rightarrow>
     ('g, 's) advance_call list \<Rightarrow> ('s, ('g spend_bundle \<times> profile_registry) list) mint_world \<Rightarrow>
     ('s, ('g spend_bundle \<times> profile_registry) list) mint_world"
where
  "advance_run mt sd ix net rv [] w = w"
| "advance_run mt sd ix net rv (c # cs) w =
     advance_run mt sd ix net rv cs
       (run_state (advance_profile_mint mt sd (ac_live c) ix (ac_chain c) (watching (ac_answer c)) net rv
                     (ac_env c) w))"

lemma store_in_flight_stage:
  "journal_at r ix = Some (m\<lparr>mp_stage := StorePushed d p\<rparr>) \<Longrightarrow> store_in_flight r ix"
  by (auto simp: store_in_flight_def)

lemma advance_counts:
  assumes wf: "registry_wf (mt_did_of mt) (mw_registry w)"
    and no: "\<forall>b reason. answer b \<noteq> Ok (PushRejected reason)"
  shows "let w' = run_state (advance_profile_mint mt sd live ix chain (watching answer) net rv env w) in
    registry_wf (mt_did_of mt) (mw_registry w') \<and>
    (mw_publisher w' = mw_publisher w \<and> store_in_flight (mw_registry w') ix = store_in_flight (mw_registry w) ix \<or>
     length (mw_publisher w') = Suc (length (mw_publisher w)) \<and>
       \<not> store_in_flight (mw_registry w) ix \<and> store_in_flight (mw_registry w') ix)"
  using advance_cases [OF wf, of sd live ix chain "watching answer" net rv env]
proof (elim disjE exE conjE)
  fix res t s
  assume "advance_profile_mint mt sd live ix chain (watching answer) net rv env w =
      Returns res (w\<lparr>mw_reads := t, mw_store := s\<rparr>)"
  then show ?thesis using wf by simp
next
  fix did m root tip funding held t s peak b pending r r0
  assume idle: "\<not> store_in_flight (mw_registry w) ix"
    and r: "registry_wf (mt_did_of mt) r" "abs_registry r = with_stage (abs_registry (mw_registry w)) ix m
          (StorePushed (minted_did_record_from did) (pending_store_launch_record_from pending))"
    and adv: "advance_profile_mint mt sd live ix chain (watching answer) net rv env w =
          settled_launch rv held (StorePending did (ps_launcher_id pending)) r0
            (w\<lparr>mw_reads := t, mw_store := s, mw_registry := r\<rparr>)
            (push_bundle (watching answer) b (w\<lparr>mw_reads := t, mw_store := s, mw_registry := r\<rparr>))"
  have "store_in_flight r ix"
    using journal_with_stage [OF r(2), of ix] by (auto simp: store_in_flight_def)
  moreover have "run_state (advance_profile_mint mt sd live ix chain (watching answer) net rv env w) =
      w\<lparr>mw_reads := t, mw_store := s, mw_registry := r, mw_publisher := mw_publisher w @ [(b, r)]\<rparr>"
    using no unfolding adv settled_launch_def push_watching
    by (cases "answer b" rule: answered.cases) auto
  ultimately show ?thesis using idle r(1) by simp
qed

text \<open>C22: A lost answer never becomes a second launch: however often, under whatever chain answers, and
  with whatever others do to the reservations, a mint is resumed, as long as no push is definitively
  rejected at most one store launch is ever handed to the publisher, and none once one is in flight.\<close>

theorem store_is_launched_at_most_once:
  assumes "registry_wf (mt_did_of mt) (mw_registry w)"
    and "\<forall>c\<in>set calls. \<forall>b reason. ac_answer c b \<noteq> Ok (PushRejected reason)"
  shows "length (mw_publisher (advance_run mt sd ix net rv calls w)) \<le>
    length (mw_publisher w) + (if store_in_flight (mw_registry w) ix then 0 else 1)"
  using assms
proof (induction calls arbitrary: w)
  case Nil
  then show ?case by simp
next
  case (Cons c cs)
  define w1 where "w1 = run_state (advance_profile_mint mt sd (ac_live c) ix (ac_chain c)
    (watching (ac_answer c)) net rv (ac_env c) w)"
  have no: "\<forall>b reason. ac_answer c b \<noteq> Ok (PushRejected reason)" using Cons.prems(2) by simp
  note step = advance_counts [OF Cons.prems(1) no, where sd = sd and live = "ac_live c" and ix = ix and
      chain = "ac_chain c" and net = net and rv = rv and env = "ac_env c", unfolded Let_def, folded w1_def]
  have "length (mw_publisher (advance_run mt sd ix net rv cs w1)) \<le>
      length (mw_publisher w1) + (if store_in_flight (mw_registry w1) ix then 0 else 1)"
    using Cons.IH [of w1] step Cons.prems(2) by simp
  moreover have "advance_run mt sd ix net rv (c # cs) w = advance_run mt sd ix net rv cs w1"
    by (simp add: w1_def)
  ultimately show ?case using step by (auto split: if_splits)
qed

definition sample_call :: "(byte list list, local_reservations) advance_call" where
  "sample_call = \<lparr>ac_live = sample_live, ac_chain = sample_mint_chain 100, ac_env = (\<lambda>k s. s),
     ac_answer = (\<lambda>b. Err ''no answer'')\<rparr>"

lemma sample_confirmed_wf:
  "registry_wf (mt_did_of sample_tools)
     (mw_registry (sample_world (sample_journal (DidConfirmedStoreNotLaunched sample_did_record))))"
  by (simp add: sample_world_def sample_journal_wf stage_ok_def journalled_did_ok_def
      sample_did_record_def minted_did_record_from_def sample_tools_def)

theorem store_is_launched_at_most_once_witness:
  "length (mw_publisher (advance_run sample_tools sample_store_driver root_ix sample_network sample_reservations
      [sample_call, sample_call, sample_call]
      (sample_world (sample_journal (DidConfirmedStoreNotLaunched sample_did_record))))) \<le> 1"
proof -
  have "\<forall>c\<in>set [sample_call, sample_call, sample_call]. \<forall>b reason. ac_answer c b \<noteq> Ok (PushRejected reason)"
    by (simp add: sample_call_def)
  from store_is_launched_at_most_once [OF sample_confirmed_wf this, where sd = sample_store_driver
      and ix = root_ix and net = sample_network and rv = sample_reservations]
  show ?thesis by (auto simp: sample_world_def split: if_splits)
qed

section \<open>Every state a host can reach\<close>

text \<open>The journal's own writers aside, which the ceremony calls for the host.\<close>

fun host_cmd :: "registry_cmd \<Rightarrow> bool" where
  "host_cmd (BeginMint _ _ _) \<longleftrightarrow> False"
| "host_cmd (BeginSeededMint _ _ _ _) \<longleftrightarrow> False"
| "host_cmd (AdvanceMint _ _) \<longleftrightarrow> False"
| "host_cmd _ \<longleftrightarrow> True"

text \<open>
  From an empty registry: any ceremony call, with whatever chain, publisher and clock, any other
  registry call, and any change to the reservations, the reads and the publisher in between.
\<close>

inductive ceremony_reach ::
  "('d, 'g) mint_tools \<Rightarrow> ('q, 'b, 'x) schema \<Rightarrow> ('d, 'l, 'c) store_driver \<Rightarrow> ('s, 'p) mint_world \<Rightarrow> bool"
  for mt sc sd
where
  Reach_start: "mw_registry w = registry_empty \<Longrightarrow> ceremony_reach mt sc sd w"
| Reach_begin: "ceremony_reach mt sc sd w \<Longrightarrow>
    begin_profile_mint mt sc live ix seed chain pub net options rv env w = Returns res w' \<Longrightarrow>
    ceremony_reach mt sc sd w'"
| Reach_advance: "ceremony_reach mt sc sd w \<Longrightarrow>
    advance_profile_mint mt sd live ix chain pub net rv env w = Returns res w' \<Longrightarrow>
    ceremony_reach mt sc sd w'"
| Reach_host: "ceremony_reach mt sc sd w \<Longrightarrow> host_cmd c \<Longrightarrow> cmd_honest (mt_did_of mt) c \<Longrightarrow>
    exec_cmd (mt_did_of mt) c (mw_registry w) = Returns res' r \<Longrightarrow>
    mw_registry w' = r \<Longrightarrow> ceremony_reach mt sc sd w'"

text \<open>A launch in flight spends the DID coin journalled beside it, for the root the mint began with.\<close>

definition stage_paired :: "mint_in_progress \<Rightarrow> bool" where
  "stage_paired m \<longleftrightarrow>
     (case mp_stage m of
        StorePushed d p \<Rightarrow> psr_did_coin_id p = mdr_coin_id d \<and> mp_seed_root m = Some (psr_committed_root p)
      | _ \<Rightarrow> True)"

definition journal_paired :: "profile_registry \<Rightarrow> bool" where
  "journal_paired r \<longleftrightarrow> (\<forall>ix m. journal_at r ix = Some m \<longrightarrow> stage_paired m)"

lemma settled_begin_registry:
  "settled_begin rv held i w w1 a = Returns res w' \<Longrightarrow> mw_registry w' \<in> {mw_registry w, mw_registry w1}"
  by (auto simp: settled_begin_def split: prod.splits result.splits mint_error.splits)

lemma settled_launch_registry:
  "settled_launch rv held st r0 w1 a = Returns res w' \<Longrightarrow> mw_registry w' \<in> {r0, mw_registry w1}"
  by (auto simp: settled_launch_def split: prod.splits result.splits mint_error.splits)

lemma settled_returns:
  "\<exists>res w'. settled_begin rv held i w w1 a = Returns res w'"
  "\<exists>res w'. settled_launch rv held st r0 w1 a = Returns res w'"
  by (auto simp: settled_begin_def settled_launch_def split: prod.splits result.splits mint_error.splits)

lemma begin_keeps:
  assumes wf: "registry_wf (mt_did_of mt) (mw_registry w)" and paired: "journal_paired (mw_registry w)"
  shows "\<exists>res w'. begin_profile_mint mt sc live ix seed chain pub net options rv env w = Returns res w' \<and>
    registry_wf (mt_did_of mt) (mw_registry w') \<and> journal_paired (mw_registry w')"
  using begin_profile_mint_cases [OF wf, of sc live ix seed chain pub net options rv env]
proof (elim disjE exE conjE)
  fix root b pending held t s r
  let ?m = "mint_in_progress_with_seed_root ix (DidPushed (pending_mint_record_from pending)) root (mo_fee options)"
  assume r: "registry_wf (mt_did_of mt) r"
    "abs_registry r = (abs_registry (mw_registry w))\<lparr>sp_mints := (sp_mints (abs_registry (mw_registry w)))(ix \<mapsto> ?m)\<rparr>"
    and run: "begin_profile_mint mt sc live ix seed chain pub net options rv env w =
          settled_begin rv held (pm_did_coin_id pending) w
            (w\<lparr>mw_reads := t, mw_store := s, mw_registry := r\<rparr>)
            (push_bundle pub b (w\<lparr>mw_reads := t, mw_store := s, mw_registry := r\<rparr>))"
  have "journal_at r k = (if k = ix then Some ?m else journal_at (mw_registry w) k)" for k
    using fun_cong [OF arg_cong [OF r(2), of sp_mints], of k] by (simp split: if_splits)
  then have "journal_paired r"
    using paired by (auto simp: journal_paired_def stage_paired_def mint_in_progress_with_seed_root_def)
  moreover obtain res w' where ret: "begin_profile_mint mt sc live ix seed chain pub net options rv env w = Returns res w'"
    using settled_returns(1) run by metis
  moreover have "mw_registry w' \<in> {mw_registry w, r}"
    using settled_begin_registry ret run by fastforce
  ultimately show ?thesis using wf paired r(1) by auto
qed (use wf paired in auto)

lemma advance_keeps:
  assumes wf: "registry_wf (mt_did_of mt) (mw_registry w)" and paired: "journal_paired (mw_registry w)"
  shows "\<exists>res w'. advance_profile_mint mt sd live ix chain pub net rv env w = Returns res w' \<and>
    registry_wf (mt_did_of mt) (mw_registry w') \<and> journal_paired (mw_registry w')"
  using advance_cases [OF wf, of sd live ix chain pub net rv env]
proof (elim disjE exE conjE)
  fix did m root tip funding held t s peak b pending r r0
  assume root: "mp_seed_root m = Some root"
    and built: "build_and_sign_store_launch mt sd (mt_keys mt ix) tip (md_coin_id did) funding root (md_did did)
          (mp_store_fee m) peak net = Ok (b, pending)"
    and wfs: "registry_wf (mt_did_of mt) r" "registry_wf (mt_did_of mt) r0"
    and rew: "rewound r0 (mw_registry w) ix m did"
    and r: "abs_registry r = with_stage (abs_registry (mw_registry w)) ix m
          (StorePushed (minted_did_record_from did) (pending_store_launch_record_from pending))"
    and run: "advance_profile_mint mt sd live ix chain pub net rv env w =
          settled_launch rv held (StorePending did (ps_launcher_id pending)) r0
            (w\<lparr>mw_reads := t, mw_store := s, mw_registry := r\<rparr>)
            (push_bundle pub b (w\<lparr>mw_reads := t, mw_store := s, mw_registry := r\<rparr>))"
  have "stage_paired (m\<lparr>mp_stage := StorePushed (minted_did_record_from did)
      (pending_store_launch_record_from pending)\<rparr>)"
    using launch_pending_did [OF built] root
    by (simp add: stage_paired_def pending_store_launch_record_from_def minted_did_record_from_def)
  then have "journal_paired r"
    using paired journal_with_stage [OF r] by (auto simp: journal_paired_def)
  moreover have "stage_paired (m\<lparr>mp_stage := DidConfirmedStoreNotLaunched (minted_did_record_from did)\<rparr>)"
    by (simp add: stage_paired_def)
  then have "journal_paired r0"
    using paired journal_with_stage [OF rew [unfolded rewound_def]] by (auto simp: journal_paired_def)
  moreover obtain res w' where ret: "advance_profile_mint mt sd live ix chain pub net rv env w = Returns res w'"
    using settled_returns(2) run by metis
  moreover have "mw_registry w' \<in> {r0, r}"
    using settled_launch_registry ret run by fastforce
  ultimately show ?thesis using wfs by auto
qed (use wf paired in auto)

lemma host_step_mints:
  "registry_step s c s' \<Longrightarrow> host_cmd c \<Longrightarrow> sp_mints s' ix = Some m \<Longrightarrow> sp_mints s ix = Some m"
  by (cases rule: registry_step.cases) (auto split: if_splits)

lemma ceremony_invariant:
  "ceremony_reach mt sc sd w \<Longrightarrow>
     registry_wf (mt_did_of mt) (mw_registry w) \<and> journal_paired (mw_registry w)"
proof (induction rule: ceremony_reach.induct)
  case (Reach_start w)
  then show ?case by (simp add: registry_empty_wf) (simp add: journal_paired_def registry_empty_def)
next
  case (Reach_begin w live ix seed chain pub net options rv env res w')
  then show ?case
    using begin_keeps [of mt w sc live ix seed chain pub net options rv env] by auto
next
  case (Reach_advance w live ix chain pub net rv env res w')
  then show ?case
    using advance_keeps [of mt w sd live ix chain pub net rv env] by auto
next
  case (Reach_host w c res' r w')
  then have wf: "registry_wf (mt_did_of mt) (mw_registry w)" and p: "journal_paired (mw_registry w)" by auto
  have wf': "registry_wf (mt_did_of mt) r"
    by (rule exec_cmd_wf [OF wf Reach_host.hyps(3,4)])
  have "journal_paired r"
  proof (cases res')
    case (Err e)
    then show ?thesis using exec_cmd_Err [OF wf Reach_host.hyps(3)] Reach_host.hyps(4) p by simp
  next
    case (Ok u)
    then have "registry_step (abs_registry (mw_registry w)) c (abs_registry r)"
      using exec_cmd_Ok(2) [OF wf Reach_host.hyps(3)] Reach_host.hyps(4) by simp
    then show ?thesis
      using p host_step_mints [OF _ Reach_host.hyps(2)] by (fastforce simp: journal_paired_def)
  qed
  with wf' Reach_host.hyps(5) show ?case by simp
qed


text \<open>The ceremony never panics. From an empty registry, through any interleaving of mint calls and
  other registry calls and under any chain and publisher answers, the registry satisfies its full
  invariant and both entry points return: no later call can meet a registry one of them broke.\<close>

theorem ceremony_never_panics:
  assumes "ceremony_reach mt sc sd w"
  shows "registry_wf (mt_did_of mt) (mw_registry w) \<and>
    (\<exists>res w'. begin_profile_mint mt sc live ix seed chain pub net options rv env w = Returns res w') \<and>
    (\<exists>res w'. advance_profile_mint mt sd live ix' chain' pub' net' rv' env' w = Returns res w')"
  using ceremony_invariant [OF assms]
    begin_keeps [of mt w sc live ix seed chain pub net options rv env]
    advance_keeps [of mt w sd live ix' chain' pub' net' rv' env'] by auto

theorem ceremony_never_panics_witness:
  "registry_wf (mt_did_of sample_tools) (sample_journal (DidPushed sample_pending_record)) \<and>
   (\<exists>res w'. advance_profile_mint sample_tools sample_store_driver sample_live root_ix (sample_mint_chain 100)
      (watching (\<lambda>b. Err ''no answer'')) sample_network sample_reservations (\<lambda>k s. s)
      \<lparr>mw_registry = sample_journal (DidPushed sample_pending_record), mw_reads = 3,
       mw_store = sample_held,
       mw_publisher = [(sample_bundle, sample_journal (DidPushed sample_pending_record))]\<rparr>
      = Returns res w')"
proof -
  have "ceremony_reach sample_tools sample_schema sample_store_driver (sample_world registry_empty)"
    by (rule Reach_start) (simp add: sample_world_def)
  from Reach_begin [OF this sample_begun]
  have reach: "ceremony_reach sample_tools sample_schema sample_store_driver
      \<lparr>mw_registry = sample_journal (DidPushed sample_pending_record), mw_reads = 3,
       mw_store = sample_held,
       mw_publisher = [(sample_bundle, sample_journal (DidPushed sample_pending_record))]\<rparr>" .
  from ceremony_never_panics [OF reach] show ?thesis by simp
qed

section \<open>What a confirmed profile is good for\<close>

lemma reverified_coin_id:
  "minted_did_reverified did_of cid l c h r peak = Some d \<Longrightarrow> md_coin_id d = c"
  by (auto simp: minted_did_reverified_def minted_did_from_confirmed_def pending_mint_new_def
      split: if_splits option.splits)

lemma confirmed_store_fields:
  "confirmed_store_from_confirmed cid p r peak = Some s \<Longrightarrow>
     cs_did_coin_id s = ps_did_coin_id p \<and> cs_committed_root s = ps_committed_root p"
  by (auto simp: confirmed_store_from_confirmed_def split: if_splits option.splits)

lemma status_profile_confirmed:
  assumes "profile_mint_status_of mt r ix chain t = (Ok (ProfileConfirmed did store), t')"
  shows "\<exists>m d p. journal_at r ix = Some m \<and> mp_stage m = StorePushed d p \<and>
    did_honest (mt_did_of mt) did \<and> cs_confirmed_height store \<noteq> 0 \<and> md_coin_id did = mdr_coin_id d \<and>
    cs_did_coin_id store = psr_did_coin_id p \<and> cs_committed_root store = psr_committed_root p"
proof -
  from assms obtain m d p rec1 rec2 peak where m: "journal_at r ix = Some m" "mp_stage m = StorePushed d p"
    and did: "minted_did_reverified (mt_did_of mt) (mt_id mt) (mdr_launcher_id d) (mdr_coin_id d)
        (mdr_confirmed_height d) rec1 peak = Some did"
    and store: "confirmed_store_from_confirmed (mt_id mt) (pending_store_from p) rec2 peak = Some store"
    by (auto simp: profile_mint_status_of_def journalled_mint_def result_simps confirmed_did_def
        reverified_did_def store_confirmed_def Let_def bind_eq_Some_conv
        split: result.splits prod.splits mint_stage.splits option.splits if_splits)
  then show ?thesis
    using minted_did_reverified_honest [OF did] reverified_coin_id [OF did]
      confirmed_store_fields [OF store] confirmed_store_height_nonzero [OF store]
    by (simp add: pending_store_from_def pending_store_launch_new_def)
qed

text \<open>C38: A confirmed profile can always be recorded. In any registry a host can reach, when the chain
  answers that the mint at an index is confirmed in both halves, its evidence pairs: the store was
  launched from that very DID coin and commits to the root the mint was begun with. If the index and
  the identity are still free, recording it succeeds, keeps the registry well-formed, takes the mint
  off the journal and registers exactly that anchor.\<close>

theorem confirmed_profile_is_recordable:
  assumes reach: "ceremony_reach mt sc sd w"
    and status: "profile_mint_status_of mt (mw_registry w) ix chain t = (Ok (ProfileConfirmed did store), t')"
  shows "\<exists>anchor m. anchor_from_confirmed did store = Ok anchor \<and> pairing_holds anchor \<and>
    journal_at (mw_registry w) ix = Some m \<and> mp_seed_root m = Some (cs_committed_root store) \<and>
    (registry_get (mw_registry w) ix = None \<and> holder_of (mw_registry w) (md_launcher_id did) = None \<longrightarrow>
      (\<exists>entry r'. record_minted (mt_did_of mt) ix did store label (mw_registry w) = Returns (Ok entry) r' \<and>
         en_anchor entry = anchor \<and> is_live entry \<and> registry_wf (mt_did_of mt) r' \<and>
         registry_get r' ix = Some entry \<and> journal_at r' ix = None))"
proof -
  have wf: "registry_wf (mt_did_of mt) (mw_registry w)" and p: "journal_paired (mw_registry w)"
    using ceremony_invariant [OF reach] by auto
  obtain m d q where m: "journal_at (mw_registry w) ix = Some m" "mp_stage m = StorePushed d q"
    and did: "did_honest (mt_did_of mt) did" and h: "cs_confirmed_height store \<noteq> 0"
    and coin: "md_coin_id did = mdr_coin_id d" "cs_did_coin_id store = psr_did_coin_id q"
    and root: "cs_committed_root store = psr_committed_root q"
    using status_profile_confirmed [OF status] by auto
  have paired: "psr_did_coin_id q = mdr_coin_id d" "mp_seed_root m = Some (psr_committed_root q)"
    using p m by (fastforce simp: journal_paired_def stage_paired_def)+
  obtain anchor where a: "anchor_from_confirmed did store = Ok anchor"
    using coin paired(1) by (simp add: anchor_from_confirmed_def)
  note ok = anchor_from_confirmed_ok [OF did h a]
  have "\<exists>entry r'. record_minted (mt_did_of mt) ix did store label (mw_registry w) = Returns (Ok entry) r' \<and>
         en_anchor entry = anchor \<and> is_live entry \<and> registry_wf (mt_did_of mt) r' \<and>
         registry_get r' ix = Some entry \<and> journal_at r' ix = None"
    if new: "registry_get (mw_registry w) ix = None"
      and free: "holder_of (mw_registry w) (md_launcher_id did) = None"
  proof -
    let ?r = "after_minted ix anchor label (mw_registry w)"
    have wf': "registry_wf (mt_did_of mt) ?r"
      using free ok by (intro after_minted_wf [OF wf new]) (simp_all add: holder_of_None)
    have "journal_at ?r ix = None" by (simp add: after_minted_def find_filter_ne)
    then show ?thesis
      using wf' by (simp add: record_minted_accepts [OF new free a] expect_valid_eq registry_wf_def
          after_minted_get [OF wf new])
  qed
  then show ?thesis
    using a m paired root ok(1) by (auto simp: anchor_ok_def)
qed

text \<open>The sample mint from an empty registry to a confirmed profile.\<close>

lemma sample_pushed_status:
  "profile_mint_status_of sample_tools (sample_journal (DidPushed sample_pending_record)) root_ix
      (sample_mint_chain 100) 0 =
    (Ok (DidConfirmedNoStore \<lparr>md_did = ''did'', md_launcher_id = 50, md_coin_id = 301,
       md_confirmed_height = 45\<rparr>), 2)"
proof -
  have read: "mint_coin_record (sample_mint_chain 100) t 301 =
      (Ok (Some \<lparr>rec_coin = dv_coin sample_did_value, confirmed_height = Some 45, spent_height = None\<rparr>), Suc t)"
    for t
    by (simp add: mint_coin_record_def sample_mint_chain_def)
  have "minted_did_from_confirmed (mt_did_of sample_tools) (mt_id sample_tools)
      (pending_mint_from sample_pending_record)
      \<lparr>rec_coin = dv_coin sample_did_value, confirmed_height = Some 45, spent_height = None\<rparr> 100 =
      Some \<lparr>md_did = ''did'', md_launcher_id = 50, md_coin_id = 301, md_confirmed_height = 45\<rparr>"
    by (simp add: sample_mint_simps pending_mint_from_def sample_pending_record_def
        pending_mint_record_from_def minted_did_from_confirmed_def pending_mint_new_def burial_depth_def
        saturating_sub_def saturating_add_def MIN_CONFIRMATION_DEPTH_def)
  then have "confirmed_did sample_tools (sample_mint_chain 100) t (pending_mint_from sample_pending_record) 100 =
      (Ok (Some \<lparr>md_did = ''did'', md_launcher_id = 50, md_coin_id = 301, md_confirmed_height = 45\<rparr>), Suc t)"
    for t
    using read
    by (simp add: confirmed_did_def pending_mint_from_def sample_pending_record_def
        pending_mint_record_from_def pending_mint_new_def)
  then show ?thesis
    by (simp add: profile_mint_status_of_def journalled_mint_def sample_journal_def ok_or_def
        mint_in_progress_with_seed_root_def sample_peak Let_def)
qed

lemma sample_reached:
  "ceremony_reach sample_tools sample_schema sample_store_driver
     (sample_world (sample_journal (StorePushed sample_did_record sample_launch_record)))"
proof -
  let ?reach = "ceremony_reach sample_tools sample_schema sample_store_driver"
  have reset: "?reach (sample_world (mw_registry w))" if "?reach w" "registry_get (mw_registry w) root_ix = None"
    for w :: "(local_reservations, (byte list list spend_bundle \<times> profile_registry) list) mint_world"
    by (rule Reach_host [OF that(1), where c = "SetActive root_ix" and r = "mw_registry w"
          and res' = "Err (ProfileNotFound root_ix)"])
       (use that(2) in \<open>simp_all add: set_active_def sample_world_def\<close>)
  have "?reach (sample_world registry_empty)"
    by (rule Reach_start) (simp add: sample_world_def)
  from reset [OF Reach_begin [OF this sample_begun]]
  have "?reach (sample_world (sample_journal (DidPushed sample_pending_record)))"
    by (simp add: sample_journal_def registry_get_def)
  from reset [OF Reach_advance [OF this sample_launched_from [OF sample_pushed_status]]]
  show ?thesis by (simp add: sample_journal_def registry_get_def)
qed

lemma sample_confirmed:
  "\<exists>t. profile_mint_status_of sample_tools
      (sample_journal (StorePushed sample_did_record sample_launch_record)) root_ix (sample_mint_chain 200) 0 =
    (Ok (ProfileConfirmed
       \<lparr>md_did = ''did'', md_launcher_id = 50, md_coin_id = 301, md_confirmed_height = 45\<rparr>
       \<lparr>cs_launcher_id = 501, cs_coin_id = 601, cs_confirmed_height = 120, cs_did_coin_id = 301,
        cs_committed_root = 77\<rparr>), t)"
  by (simp add: profile_mint_status_of_def journalled_mint_def sample_journal_def ok_or_def
      mint_in_progress_with_seed_root_def mint_peak_height_def reverified_did_def store_confirmed_def Let_def
      mint_coin_record_def sample_mint_simps sample_did_record_def minted_did_record_from_def
      minted_did_reverified_def minted_did_from_confirmed_def pending_mint_new_def burial_depth_def
      saturating_sub_def saturating_add_def MIN_CONFIRMATION_DEPTH_def sample_launch_record_def
      pending_store_launch_record_from_def pending_store_from_def pending_store_launch_new_def
      confirmed_store_from_confirmed_def)

theorem confirmed_profile_is_recordable_witness:
  "\<exists>entry r'. record_minted (mt_did_of sample_tools) root_ix
      \<lparr>md_did = ''did'', md_launcher_id = 50, md_coin_id = 301, md_confirmed_height = 45\<rparr>
      \<lparr>cs_launcher_id = 501, cs_coin_id = 601, cs_confirmed_height = 120, cs_did_coin_id = 301,
       cs_committed_root = 77\<rparr> None
      (sample_journal (StorePushed sample_did_record sample_launch_record)) = Returns (Ok entry) r' \<and>
    is_live entry \<and> journal_at r' root_ix = None"
proof -
  obtain t where status: "profile_mint_status_of sample_tools
      (mw_registry (sample_world (sample_journal (StorePushed sample_did_record sample_launch_record))))
      root_ix (sample_mint_chain 200) 0 =
    (Ok (ProfileConfirmed
       \<lparr>md_did = ''did'', md_launcher_id = 50, md_coin_id = 301, md_confirmed_height = 45\<rparr>
       \<lparr>cs_launcher_id = 501, cs_coin_id = 601, cs_confirmed_height = 120, cs_did_coin_id = 301,
        cs_committed_root = 77\<rparr>), t)"
    using sample_confirmed by (auto simp: sample_world_def)
  have "registry_get (sample_journal (StorePushed sample_did_record sample_launch_record)) root_ix = None"
    "holder_of (sample_journal (StorePushed sample_did_record sample_launch_record)) 50 = None"
    by (simp_all add: sample_journal_def registry_get_def holder_of_def)
  then show ?thesis
    using confirmed_profile_is_recordable [OF sample_reached status, where label = None]
    by (auto simp: sample_world_def)
qed

end
