(* ===== verification/Profile_Editing.thy ===== *)
theory Profile_Editing
  imports Profile_Mint
begin

text \<open>
  Reading and editing a published profile (\<open>src/edit/read.rs\<close>, \<open>src/edit/commit.rs\<close>,
  with \<open>src/edit/error.rs\<close> and the seam of \<open>src/edit/content.rs\<close>): resolving the
  store's tip from its lineage, binding the fetched body to the root found there, applying a batch,
  and building, gating, signing and pushing the store's recreation.

  A chain source's lineage walk answers with a tip id, a length and a membership test
  (\<open>dig-chainsource-interface\<close>); hydrating a store from a spend, recreating and melting one
  are \<open>dig-merkle\<close>, the record \<open>merkle_driver\<close>. Reads are numbered as before.
\<close>

section \<open>Sources and drivers\<close>

record lineage =
  ln_tip :: bytes32
  ln_len :: nat
  ln_contains :: "bytes32 \<Rightarrow> bool"

record singleton_source =
  ss_chain :: chain_source
  ask_lineage :: "nat \<Rightarrow> bytes32 \<Rightarrow> (lineage option, string) result"
  ask_parent_spend :: "nat \<Rightarrow> bytes32 \<Rightarrow> (coin_spend option, string) result"
  ask_coin_spend :: "nat \<Rightarrow> bytes32 \<Rightarrow> (coin_spend option, string) result"

type_synonym content_source = "nat \<Rightarrow> bytes32 \<Rightarrow> bytes32 \<Rightarrow> ((u16 \<times> byte list) list, string) result"

text \<open>The metadata's other fields are of a type \<open>'m\<close>, the delegated puzzles of a type \<open>'p\<close>.\<close>

record 'm metadata =
  md_root_hash :: bytes32
  md_rest :: 'm

record ('m, 'p) datastore =
  st_coin :: coin
  st_launcher_id :: bytes32
  st_owner_puzzle_hash :: bytes32
  st_delegated_puzzles :: "'p list"
  st_metadata :: "'m metadata"

record ('m, 'p) merkle_driver =
  mk_hydrate :: "coin_spend \<Rightarrow> (('m, 'p) datastore, string) result"
  mk_update_root ::
    "('m, 'p) datastore \<Rightarrow> byte list \<Rightarrow> 'm metadata \<Rightarrow> (coin_spend list, string) result"
  mk_melt :: "('m, 'p) datastore \<Rightarrow> byte list \<Rightarrow> (coin_spend list, string) result"
  mk_required :: "bytes32 \<Rightarrow> coin_spend list \<Rightarrow> (required_signature list, string) result"

section \<open>Errors\<close>

datatype edit_refusal =
    EmptyEdit
  | WithoutSchemaVersion
  | StoreOwnedByAnother
  | NotTheAnchoredStore
  | DelegatedPuzzles
  | NotTheStoreTip
  | EditSpendCount nat
  | EditNonBls
  | EditForeignKey
  | EditUnbound
  | EditNonBlsAfterGate

datatype edit_format_reason =
    StoreTipUnreadable string
  | SlotUndecodable u16 string
  | BodyRefused string
  | EditedBodyRefused string
  | PublishedBodyRefused string

datatype edit_build_reason = StoreUpdateFailed string | EditRequirementsUnreadable string

datatype edit_error =
    EditChainUnreachable string
  | EditRejected string
  | NoStore
  | StaleOrTamperedContent
  | ContentUnavailable string
  | EditFormat edit_format_reason
  | EditBuild edit_build_reason
  | EditLocked
  | EditRefused edit_refusal

section \<open>Reading\<close>

definition resolve_store_tip ::
  "('m, 'p) merkle_driver \<Rightarrow> profile_anchor \<Rightarrow> singleton_source \<Rightarrow> nat \<Rightarrow>
     (('m, 'p) datastore, edit_error) result \<times> nat"
where
  "resolve_store_tip mk anchor src t =
     (case ask_lineage src t (an_store_launcher_id anchor) of
        Err e \<Rightarrow> (Err (EditChainUnreachable e), Suc t)
      | Ok None \<Rightarrow> (Err NoStore, Suc t)
      | Ok (Some l) \<Rightarrow>
          (case ask_parent_spend src (Suc t) (ln_tip l) of
             Err e \<Rightarrow> (Err (EditChainUnreachable e), Suc (Suc t))
           | Ok None \<Rightarrow> (Err NoStore, Suc (Suc t))
           | Ok (Some creating_spend) \<Rightarrow>
               (map_err (EditFormat \<circ> StoreTipUnreadable) (mk_hydrate mk creating_spend), Suc (Suc t))))"

fun decode_slots ::
  "('q, 'b, 'x) schema \<Rightarrow> (u16 \<times> byte list) list \<Rightarrow> ((u16 \<times> 'x slot_value) list, edit_error) result"
where
  "decode_slots sc [] = Ok []"
| "decode_slots sc ((i, encoded) # slots) =
     and_then (map_err (\<lambda>e. EditFormat (SlotUndecodable i e)) (sc_decode sc encoded)) (\<lambda>v.
     and_then (decode_slots sc slots) (\<lambda>pairs. Ok ((i, v) # pairs)))"

definition assemble_body ::
  "('q, 'b, 'x) schema \<Rightarrow> (u16 \<times> byte list) list \<Rightarrow> ('b, edit_error) result" where
  "assemble_body sc slots =
     and_then (decode_slots sc slots) (\<lambda>pairs.
       map_err (EditFormat \<circ> BodyRefused) (sc_from_pairs sc (sort_key fst pairs)))"

record 'b profile_snapshot =
  sn_root :: bytes32
  sn_body :: 'b
  sn_fields :: profile_fields

definition read_profile ::
  "('q, 'b, 'x) schema \<Rightarrow> ('m, 'p) merkle_driver \<Rightarrow> profile_anchor \<Rightarrow> singleton_source \<Rightarrow>
     content_source \<Rightarrow> nat \<Rightarrow> ('b profile_snapshot, edit_error) result \<times> nat"
where
  "read_profile sc mk anchor src content t =
     (case resolve_store_tip mk anchor src t of
        (Err e, t1) \<Rightarrow> (Err e, t1)
      | (Ok store, t1) \<Rightarrow>
          (let root = md_root_hash (st_metadata store) in
           (and_then (map_err ContentUnavailable (content t1 (an_store_launcher_id anchor) root)) (\<lambda>slots.
            and_then (assemble_body sc slots) (\<lambda>body.
            if sc_root sc body \<noteq> root then Err StaleOrTamperedContent
            else Ok \<lparr>sn_root = root, sn_body = body,
                     sn_fields = project_standard_slots sc (sc_profile sc body)\<rparr>)), Suc t1)))"

section \<open>Where an edit stands\<close>

datatype edit_status = EditPushed bytes32 | EditConfirmed bytes32

fun confirmed_root :: "edit_status \<Rightarrow> bytes32 option" where
  "confirmed_root (EditConfirmed root) = Some root"
| "confirmed_root (EditPushed root) = None"

record committed_edit =
  ce_status :: edit_status
  ce_body :: "byte list"

definition committed_root :: "committed_edit \<Rightarrow> bytes32" where
  "committed_root ce = (case ce_status ce of EditPushed root \<Rightarrow> root | EditConfirmed root \<Rightarrow> root)"

definition edit_status_of ::
  "('m, 'p) merkle_driver \<Rightarrow> profile_anchor \<Rightarrow> bytes32 \<Rightarrow> singleton_source \<Rightarrow> nat \<Rightarrow>
     (edit_status, edit_error) result \<times> nat"
where
  "edit_status_of mk anchor new_root src t =
     (case resolve_store_tip mk anchor src t of
        (res, t1) \<Rightarrow>
          (and_then res (\<lambda>store.
             let anchored = md_root_hash (st_metadata store) in
             if anchored = new_root then Ok (EditConfirmed anchored) else Ok (EditPushed new_root)), t1))"

section \<open>Gates\<close>

definition reject_profile_without_schema_version ::
  "('q, 'b, 'x) schema \<Rightarrow> 'q \<Rightarrow> (unit, edit_error) result" where
  "reject_profile_without_schema_version sc q =
     (if sc_version sc q = None then Err (EditRefused WithoutSchemaVersion) else Ok ())"

definition removes_slot :: "u16 \<Rightarrow> 'x slot_edit \<Rightarrow> bool" where
  "removes_slot i e = (case e of RemoveSlot j \<Rightarrow> j = i | SetSlot j v \<Rightarrow> False)"

definition reject_protected_removals ::
  "('q, 'b, 'x) schema \<Rightarrow> profile_edit \<Rightarrow> (unit, edit_error) result" where
  "reject_protected_removals sc e =
     (if list_ex (removes_slot (sc_version_slot sc)) (slot_edits sc e)
      then Err (EditRefused WithoutSchemaVersion) else Ok ())"

definition gate_store_identity ::
  "wallet_key \<Rightarrow> bytes32 \<Rightarrow> ('m, 'p) datastore \<Rightarrow> (unit, edit_error) result" where
  "gate_store_identity w expected_launcher_id store =
     (if st_owner_puzzle_hash store \<noteq> wk_puzzle_hash w then Err (EditRefused StoreOwnedByAnother)
      else if st_launcher_id store \<noteq> expected_launcher_id then Err (EditRefused NotTheAnchoredStore)
      else if st_delegated_puzzles store \<noteq> [] then Err (EditRefused DelegatedPuzzles)
      else Ok ())"

text \<open>The gate is told the store's coin.\<close>

definition gate_edit ::
  "coin \<Rightarrow> wallet_key \<Rightarrow> mint_network \<Rightarrow> coin_spend list \<Rightarrow> required_signature list \<Rightarrow>
     (unit, edit_error) result"
where
  "gate_edit store_coin w net spends required =
     and_then
       (case spends of
          [only] \<Rightarrow> (if spent_coin only = store_coin then Ok () else Err (EditRefused NotTheStoreTip))
        | _ \<Rightarrow> Err (EditRefused (EditSpendCount (length spends))))
       (\<lambda>_. admit_requirements (EditRefused EditForeignKey) (EditRefused EditUnbound)
              (EditRefused EditNonBls) w net required)"

interpretation editing: signing_gate gate_edit
  by unfold_locales (auto simp: gate_edit_def result_simps admit_requirements_Ok)

section \<open>Building, signing, pushing\<close>

text \<open>\<open>ed_keys\<close> derives the profile's wallet key from the unlocked seed.\<close>

record ('q, 'b, 'x, 'm, 'p, 'g) edit_tools =
  ed_schema :: "('q, 'b, 'x) schema"
  ed_merkle :: "('m, 'p) merkle_driver"
  ed_scheme :: "'g signature_scheme"
  ed_keys :: "profile_ix \<Rightarrow> wallet_key"

definition edit_wallet_key ::
  "('q, 'b, 'x, 'm, 'p, 'g) edit_tools \<Rightarrow> liveness \<Rightarrow> profile_ix \<Rightarrow> (wallet_key, edit_error) result" where
  "edit_wallet_key ed live ix = (if live_at_check live 0 then Ok (ed_keys ed ix) else Err EditLocked)"

definition sign_update ::
  "('q, 'b, 'x, 'm, 'p, 'g) edit_tools \<Rightarrow> profile_anchor \<Rightarrow> wallet_key \<Rightarrow> bytes32 \<Rightarrow> mint_network \<Rightarrow>
     ('m, 'p) datastore \<Rightarrow> ('g spend_bundle, edit_error) result"
where
  "sign_update ed anchor w new_root net store =
     (let mk = ed_merkle ed in
      and_then (gate_store_identity w (an_store_launcher_id anchor) store) (\<lambda>_.
      and_then (map_err (EditBuild \<circ> StoreUpdateFailed)
                  (mk_update_root mk store (wk_public_key w)
                     ((st_metadata store)\<lparr>md_root_hash := new_root\<rparr>))) (\<lambda>spends.
      and_then (map_err (EditBuild \<circ> EditRequirementsUnreadable) (mk_required mk (mn_me net) spends))
        (\<lambda>required.
      and_then (gate_edit (st_coin store) w net spends required) (\<lambda>_.
      and_then (sign_requirements (ed_scheme ed) (EditRefused EditNonBlsAfterGate) w
                  (sig_default (ed_scheme ed)) required) (\<lambda>signature.
      Ok \<lparr>sb_coin_spends = spends, sb_signature = signature\<rparr>))))))"

definition build_and_sign_update ::
  "('q, 'b, 'x, 'm, 'p, 'g) edit_tools \<Rightarrow> profile_anchor \<Rightarrow> wallet_key \<Rightarrow> bytes32 \<Rightarrow>
     singleton_source \<Rightarrow> mint_network \<Rightarrow> nat \<Rightarrow> ('g spend_bundle, edit_error) result \<times> nat"
where
  "build_and_sign_update ed anchor w new_root src net t =
     (case resolve_store_tip (ed_merkle ed) anchor src t of
        (res, t1) \<Rightarrow> (and_then res (sign_update ed anchor w new_root net), t1))"

text \<open>The end both entry points share: build against the tip, push once, and report the answer.\<close>

definition push_update ::
  "('q, 'b, 'x, 'm, 'p, 'g) edit_tools \<Rightarrow> profile_anchor \<Rightarrow> wallet_key \<Rightarrow> bytes32 \<Rightarrow> byte list \<Rightarrow>
     singleton_source \<Rightarrow> ('g, 'w, 'w) publisher \<Rightarrow> mint_network \<Rightarrow> nat \<Rightarrow> 'w \<Rightarrow>
     (committed_edit, edit_error) result \<times> nat \<times> 'w"
where
  "push_update ed anchor w new_root body src pub net t p =
     (case build_and_sign_update ed anchor w new_root src net t of
        (Err e, t1) \<Rightarrow> (Err e, t1, p)
      | (Ok bun, t1) \<Rightarrow>
          (case pub bun p of
             (Err e, p1) \<Rightarrow> (Err (EditChainUnreachable e), t1, p1)
           | (Ok (PushRejected reason), p1) \<Rightarrow> (Err (EditRejected reason), t1, p1)
           | (Ok _, p1) \<Rightarrow> (Ok \<lparr>ce_status = EditPushed new_root, ce_body = body\<rparr>, t1, p1)))"

definition commit_edit ::
  "('q, 'b, 'x, 'm, 'p, 'g) edit_tools \<Rightarrow> liveness \<Rightarrow> profile_ix \<Rightarrow> profile_anchor \<Rightarrow> profile_edit \<Rightarrow>
     singleton_source \<Rightarrow> content_source \<Rightarrow> ('g, 'w, 'w) publisher \<Rightarrow> mint_network \<Rightarrow> nat \<Rightarrow> 'w \<Rightarrow>
     (committed_edit, edit_error) result \<times> nat \<times> 'w"
where
  "commit_edit ed live ix anchor edit src content pub net t p =
     (let sc = ed_schema ed in
      case and_then (if edit_is_empty edit then Err (EditRefused EmptyEdit) else Ok ()) (\<lambda>_.
           and_then (reject_protected_removals sc edit) (\<lambda>_. edit_wallet_key ed live ix)) of
        Err e \<Rightarrow> (Err e, t, p)
      | Ok w \<Rightarrow>
          (case read_profile sc (ed_merkle ed) anchor src content t of
             (Err e, t1) \<Rightarrow> (Err e, t1, p)
           | (Ok snapshot, t1) \<Rightarrow>
               (case map_err (EditFormat \<circ> EditedBodyRefused)
                       (sc_from_profile sc
                          (sc_apply_all sc (slot_edits sc edit) (sc_profile sc (sn_body snapshot)))) of
                  Err e \<Rightarrow> (Err e, t1, p)
                | Ok next \<Rightarrow>
                    (let new_root = sc_root sc next; body = sc_bytes sc next in
                     if new_root = sn_root snapshot
                     then (Ok \<lparr>ce_status = EditConfirmed new_root, ce_body = body\<rparr>, t1, p)
                     else push_update ed anchor w new_root body src pub net t1 p))))"

definition publish_profile ::
  "('q, 'b, 'x, 'm, 'p, 'g) edit_tools \<Rightarrow> liveness \<Rightarrow> profile_ix \<Rightarrow> profile_anchor \<Rightarrow> 'q \<Rightarrow>
     singleton_source \<Rightarrow> ('g, 'w, 'w) publisher \<Rightarrow> mint_network \<Rightarrow> nat \<Rightarrow> 'w \<Rightarrow>
     (committed_edit, edit_error) result \<times> nat \<times> 'w"
where
  "publish_profile ed live ix anchor q src pub net t p =
     (let sc = ed_schema ed in
      case and_then (reject_profile_without_schema_version sc q) (\<lambda>_.
           and_then (edit_wallet_key ed live ix) (\<lambda>w.
           and_then (map_err (EditFormat \<circ> PublishedBodyRefused) (sc_from_profile sc q)) (\<lambda>next.
             Ok (w, next)))) of
        Err e \<Rightarrow> (Err e, t, p)
      | Ok (w, next) \<Rightarrow>
          (let new_root = sc_root sc next; body = sc_bytes sc next in
           case resolve_store_tip (ed_merkle ed) anchor src t of
             (Err e, t1) \<Rightarrow> (Err e, t1, p)
           | (Ok store, t1) \<Rightarrow>
               (if md_root_hash (st_metadata store) = new_root
                then (Ok \<lparr>ce_status = EditConfirmed new_root, ce_body = body\<rparr>, t1, p)
                else push_update ed anchor w new_root body src pub net t1 p)))"

end
