(* ===== verification/Editing_Properties.thy ===== *)
theory Editing_Properties
  imports Profile_Editing Mint_Ceremony
begin

text \<open>
  What an edit promises: the body it commits is the published one with exactly the batch applied, the
  bundle it pushes recreates exactly the owned, anchored store under an own signature, and what it
  reports is what was established.
\<close>

section \<open>A batch, slot by slot\<close>

text \<open>What a batch makes of the value at a slot it may name.\<close>

definition changed :: "slot_change option \<Rightarrow> 'x slot_value option \<Rightarrow> 'x slot_value option" where
  "changed c old = (case c of None \<Rightarrow> old | Some (Set text) \<Rightarrow> Some (Utf8 text) | Some Remove \<Rightarrow> None)"

lemma edits_leave_others:
  "i \<notin> (slot_id sc \<circ> fst) ` set e \<Longrightarrow> foldl apply_edit m (slot_edits sc e) i = m i"
proof (induction e arbitrary: m)
  case Nil
  then show ?case by (simp add: slot_edits_def)
next
  case (Cons x e)
  obtain slot change where x: "x = (slot, change)" by fastforce
  show ?case using Cons by (cases change) (simp_all add: slot_edits_def x)
qed

lemma edits_at_slot:
  "btree_ordered (slot_id sc) e \<Longrightarrow>
     foldl apply_edit m (slot_edits sc e) (slot_id sc slot) =
       changed (btree_get (slot_id sc) slot e) (m (slot_id sc slot))"
proof (induction e arbitrary: m)
  case Nil
  then show ?case by (simp add: slot_edits_def changed_def)
next
  case (Cons x e)
  obtain k change where x: "x = (k, change)" by fastforce
  have ord: "btree_ordered (slot_id sc) e" and above: "\<forall>y\<in>set e. slot_id sc k < slot_id sc (fst y)"
    using Cons.prems by (auto simp: btree_ordered_def x)
  show ?case
  proof (cases "slot_id sc slot = slot_id sc k")
    case True
    have "slot_id sc k \<notin> (slot_id sc \<circ> fst) ` set e" using above by force
    from edits_leave_others [OF this] True show ?thesis
      by (cases change) (simp_all add: slot_edits_def x changed_def)
  next
    case False
    with Cons.IH [OF ord] show ?thesis
      by (cases change) (simp_all add: slot_edits_def x)
  qed
qed

section \<open>The preview is what reading back shows\<close>

lemma btree_get_find:
  assumes "inj key"
  shows "find (\<lambda>x. key (fst x) = key a) m = map_option (Pair a) (btree_get key a m)"
  using assms by (induction m) (auto dest: injD)

lemma btree_ext:
  fixes key :: "'k \<Rightarrow> 'o::linorder"
  assumes inj: "inj key" and ord: "btree_ordered key m" "btree_ordered key m'"
    and get: "\<And>a. btree_get key a m = btree_get key a m'"
  shows "m = m'"
proof (rule sorted_find_unique [where k = "key \<circ> fst"])
  show "sorted_wrt (<) (map (key \<circ> fst) m)" "sorted_wrt (<) (map (key \<circ> fst) m')"
    using ord by (simp_all add: btree_ordered_def sorted_wrt_map)
  fix w
  show "find (\<lambda>x. (key \<circ> fst) x = w) m = find (\<lambda>x. (key \<circ> fst) x = w) m'"
  proof (cases "w \<in> range key")
    case True
    then obtain a where w: "w = key a" by blast
    show ?thesis by (simp add: w btree_get_find [OF inj] get)
  next
    case False
    then show ?thesis by (simp add: find_None_iff image_iff [symmetric] cong: if_cong)
        (metis (mono_tags, lifting) find_None_iff rangeI)
  qed
qed

lemma projected:
  assumes "schema_laws sc" and "btree_ordered (slot_id sc) f"
  shows "btree_ordered (slot_id sc) (fold (project_step sc q) slots f) \<and>
    btree_get (slot_id sc) a (fold (project_step sc q) slots f) =
      (if a \<in> set slots
       then case sc_get sc q (slot_id sc a) of Some (Utf8 text) \<Rightarrow> Some text | _ \<Rightarrow> btree_get (slot_id sc) a f
       else btree_get (slot_id sc) a f)"
  using assms(2)
proof (induction slots arbitrary: f)
  case Nil
  then show ?case by simp
next
  case (Cons s slots)
  have ord: "btree_ordered (slot_id sc) (project_step sc q s f)"
    using Cons.prems
    by (auto simp: project_step_def fields_insert_def btree_ordered_insert
        split: option.splits slot_value.splits)
  show ?case
    using Cons.IH [OF ord]
    by (auto simp: project_step_def fields_insert_def btree_get_insert slot_id_inj [OF assms(1)]
        split: option.splits slot_value.splits)
qed

lemma projection:
  assumes "schema_laws sc"
  shows "btree_ordered (slot_id sc) (project_standard_slots sc q)"
    and "fields_get sc a (project_standard_slots sc q) =
      (case sc_get sc q (slot_id sc a) of Some (Utf8 text) \<Rightarrow> Some text | _ \<Rightarrow> None)"
proof -
  have "btree_ordered (slot_id sc) fields_new" by (simp add: btree_ordered_def fields_new_def)
  from projected [OF assms this, where q = q and slots = ALL_SLOTS and a = a]
  show "btree_ordered (slot_id sc) (project_standard_slots sc q)"
    and "fields_get sc a (project_standard_slots sc q) =
      (case sc_get sc q (slot_id sc a) of Some (Utf8 text) \<Rightarrow> Some text | _ \<Rightarrow> None)"
    by (auto simp: project_standard_slots_def fields_get_def all_slots fields_new_def
        split: option.splits slot_value.splits)
qed

lemma previewed:
  assumes "schema_laws sc" and "btree_ordered (slot_id sc) f" and "btree_ordered (slot_id sc) e"
  shows "btree_ordered (slot_id sc) (edit_preview sc e f) \<and>
    btree_get (slot_id sc) a (edit_preview sc e f) =
      (case btree_get (slot_id sc) a e of
         None \<Rightarrow> btree_get (slot_id sc) a f | Some (Set text) \<Rightarrow> Some text | Some Remove \<Rightarrow> None)"
  using assms(2,3) unfolding edit_preview_def
proof (induction e arbitrary: f)
  case Nil
  then show ?case by simp
next
  case (Cons x e)
  obtain k change where x: "x = (k, change)" by fastforce
  have ord: "btree_ordered (slot_id sc) e" and above: "\<forall>y\<in>set e. slot_id sc k < slot_id sc (fst y)"
    using Cons.prems by (auto simp: btree_ordered_def x)
  have none: "btree_get (slot_id sc) k e = None"
    using above btree_get_Some [of "slot_id sc" k e] by (cases "btree_get (slot_id sc) k e") fastforce+
  have f: "btree_ordered (slot_id sc) (preview_step sc x f)"
    using Cons.prems(1)
    by (simp add: preview_step_def x fields_insert_def fields_remove_def btree_ordered_insert
        btree_ordered_remove split: slot_change.splits)
  have step: "btree_get (slot_id sc) a (preview_step sc x f) =
      (if a = k then case change of Set text \<Rightarrow> Some text | Remove \<Rightarrow> None
       else btree_get (slot_id sc) a f)"
    by (simp add: preview_step_def x fields_insert_def fields_remove_def btree_get_insert
        btree_get_remove slot_id_inj [OF assms(1)] split: slot_change.splits)
  show ?case
    using Cons.IH [OF f ord] none step
    by (cases "a = k") (auto simp: x slot_id_inj [OF assms(1)] split: option.splits)
qed

lemma preview_is_projection:
  assumes laws: "schema_laws sc" and e: "btree_ordered (slot_id sc) e"
  shows "edit_preview sc e (project_standard_slots sc q) =
    project_standard_slots sc (sc_apply_all sc (slot_edits sc e) q)"
proof (rule btree_ext)
  show "inj (slot_id sc)" using slot_id_inj [OF laws] by (auto simp: inj_def)
  note old = projection [OF laws, where q = q]
    and new = projection [OF laws, where q = "sc_apply_all sc (slot_edits sc e) q"]
  note pre = previewed [OF laws old(1) e]
  show "btree_ordered (slot_id sc) (edit_preview sc e (project_standard_slots sc q))" using pre by simp
  show "btree_ordered (slot_id sc) (project_standard_slots sc (sc_apply_all sc (slot_edits sc e) q))"
    by (rule new(1))
  fix a
  have "sc_get sc (sc_apply_all sc (slot_edits sc e) q) (slot_id sc a) =
      changed (btree_get (slot_id sc) a e) (sc_get sc q (slot_id sc a))"
    using laws edits_at_slot [OF e] by (simp add: schema_laws_def)
  then show "btree_get (slot_id sc) a (edit_preview sc e (project_standard_slots sc q)) =
      btree_get (slot_id sc) a (project_standard_slots sc (sc_apply_all sc (slot_edits sc e) q))"
    using pre [of a] old(2) [where a = a] new(2) [where a = a]
    by (auto simp: fields_get_def changed_def split: option.splits slot_change.splits)
qed

section \<open>What is signed and pushed\<close>

text \<open>A publisher that answers by the bundle and notes what it was handed.\<close>

definition recording ::
  "('g spend_bundle \<Rightarrow> (push_outcome, string) result) \<Rightarrow>
     ('g, 'g spend_bundle list, 'g spend_bundle list) publisher" where
  "recording answer b bs = (answer b, bs @ [b])"

text \<open>What a push means for the caller, as the sources document it.\<close>

fun edit_answered :: "bytes32 \<Rightarrow> byte list \<Rightarrow> (push_outcome, string) result \<Rightarrow> (committed_edit, edit_error) result"
where
  "edit_answered root body (Ok (PushRejected reason)) = Err (EditRejected reason)"
| "edit_answered root body (Ok _) = Ok \<lparr>ce_status = EditPushed root, ce_body = body\<rparr>"
| "edit_answered root body (Err e) = Err (EditChainUnreachable e)"

text \<open>A bundle that recreates the profile's own store, its metadata kept but for the root.\<close>

definition recreates ::
  "('q, 'b, 'x, 'm, 'p, 'g) edit_tools \<Rightarrow> profile_anchor \<Rightarrow> wallet_key \<Rightarrow> mint_network \<Rightarrow>
     ('m, 'p) datastore \<Rightarrow> bytes32 \<Rightarrow> 'g spend_bundle \<Rightarrow> bool"
where
  "recreates ed anchor w net store root b \<longleftrightarrow>
     st_owner_puzzle_hash store = wk_puzzle_hash w \<and>
     st_launcher_id store = an_store_launcher_id anchor \<and> st_delegated_puzzles store = [] \<and>
     map spent_coin (sb_coin_spends b) = [st_coin store] \<and>
     mk_update_root (ed_merkle ed) store (wk_public_key w) ((st_metadata store)\<lparr>md_root_hash := root\<rparr>) =
       Ok (sb_coin_spends b) \<and>
     (\<exists>required. mk_required (ed_merkle ed) (mn_me net) (sb_coin_spends b) = Ok required \<and>
        list_all (own_bound_signature w net) required \<and>
        sb_signature b = aggregate (ed_scheme ed) w (bls_messages (ed_scheme ed) required))"

lemma gate_edit_Ok:
  "gate_edit c w net spends required = Ok () \<Longrightarrow> map spent_coin spends = [c]"
  by (auto simp: gate_edit_def result_simps split: list.splits if_splits)

lemma gate_store_identity_Ok:
  "gate_store_identity w l store = Ok () \<longleftrightarrow>
     st_owner_puzzle_hash store = wk_puzzle_hash w \<and> st_launcher_id store = l \<and>
     st_delegated_puzzles store = []"
  by (simp add: gate_store_identity_def)

lemma sign_update_Ok:
  assumes "sign_update ed anchor w root net store = Ok b"
  shows "recreates ed anchor w net store root b"
proof -
  obtain spends required where gate: "gate_edit (st_coin store) w net spends required = Ok ()"
    and parts: "gate_store_identity w (an_store_launcher_id anchor) store = Ok ()"
      "mk_update_root (ed_merkle ed) store (wk_public_key w) ((st_metadata store)\<lparr>md_root_hash := root\<rparr>) = Ok spends"
      "mk_required (ed_merkle ed) (mn_me net) spends = Ok required"
      "sb_coin_spends b = spends"
      "sign_requirements (ed_scheme ed) (EditRefused EditNonBlsAfterGate) w (sig_default (ed_scheme ed)) required
         = Ok (sb_signature b)"
    using assms by (auto simp: sign_update_def Let_def result_simps)
  have "sb_signature b = aggregate (ed_scheme ed) w (bls_messages (ed_scheme ed) required)"
    using parts(5) unfolding editing.gated_signature [OF gate] by simp
  then show ?thesis
    using parts editing.gate_own [OF gate] gate_edit_Ok [OF gate]
    by (simp add: recreates_def gate_store_identity_Ok)
qed

lemma push_update_cases:
  "(\<exists>e t'. push_update ed anchor w root body src (recording answer) net t bs = (Err e, t', bs)) \<or>
   (\<exists>store t1 b. resolve_store_tip (ed_merkle ed) anchor src t = (Ok store, t1) \<and>
      recreates ed anchor w net store root b \<and>
      push_update ed anchor w root body src (recording answer) net t bs =
        (edit_answered root body (answer b), t1, bs @ [b]))"
proof (cases "build_and_sign_update ed anchor w root src net t")
  case (Pair res t1)
  show ?thesis
  proof (cases res)
    case (Err e)
    with Pair show ?thesis by (simp add: push_update_def)
  next
    case (Ok b)
    with Pair obtain store where store: "resolve_store_tip (ed_merkle ed) anchor src t = (Ok store, t1)"
      and signed: "sign_update ed anchor w root net store = Ok b"
      by (auto simp: build_and_sign_update_def result_simps split: prod.splits)
    have "push_update ed anchor w root body src (recording answer) net t bs =
        (edit_answered root body (answer b), t1, bs @ [b])"
      using Pair Ok
      by (cases "answer b" rule: answered.cases) (simp_all add: push_update_def recording_def)
    then show ?thesis using store sign_update_Ok [OF signed] by blast
  qed
qed

section \<open>What is committed\<close>

text \<open>A body made from a profile holds that profile.\<close>

definition body_laws :: "('q, 'b, 'x) schema \<Rightarrow> bool" where
  "body_laws sc \<longleftrightarrow> (\<forall>q b. sc_from_profile sc q = Ok b \<longrightarrow> sc_profile sc b = q)"

lemma read_profile_Ok:
  "read_profile sc mk anchor src content t = (Ok snapshot, t1) \<Longrightarrow>
     sc_root sc (sn_body snapshot) = sn_root snapshot \<and>
     sn_fields snapshot = project_standard_slots sc (sc_profile sc (sn_body snapshot)) \<and>
     (\<exists>store t0. resolve_store_tip mk anchor src t = (Ok store, t0) \<and>
        sn_root snapshot = md_root_hash (st_metadata store))"
  by (auto simp: read_profile_def Let_def result_simps split: prod.splits result.splits if_splits)

lemma edit_answered_Ok:
  "edit_answered root body res = Ok ce \<Longrightarrow> ce = \<lparr>ce_status = EditPushed root, ce_body = body\<rparr>"
  by (cases res rule: answered.cases) simp_all

text \<open>How a commit that succeeds ends: the root was already there and nothing is handed over, or one bundle
  is, which recreates the tip found at read \<open>t1\<close> with that root.\<close>

definition published ::
  "('q, 'b, 'x, 'm, 'p, 'g) edit_tools \<Rightarrow> profile_anchor \<Rightarrow> wallet_key \<Rightarrow> mint_network \<Rightarrow>
     singleton_source \<Rightarrow> nat \<Rightarrow> bytes32 \<Rightarrow> bytes32 \<Rightarrow> 'g spend_bundle list \<Rightarrow> bool"
where
  "published ed anchor w net src t1 old root bundles \<longleftrightarrow>
     (if root = old then bundles = []
      else \<exists>store t2 b. bundles = [b] \<and> resolve_store_tip (ed_merkle ed) anchor src t1 = (Ok store, t2) \<and>
        recreates ed anchor w net store root b)"

lemma commit_edit_Ok:
  assumes "commit_edit ed live ix anchor edit src content (recording answer) net t bs = (Ok ce, t', bs')"
  shows "\<exists>snapshot t1 nxt bundles.
    read_profile (ed_schema ed) (ed_merkle ed) anchor src content t = (Ok snapshot, t1) \<and>
    sc_from_profile (ed_schema ed) (sc_apply_all (ed_schema ed) (slot_edits (ed_schema ed) edit)
      (sc_profile (ed_schema ed) (sn_body snapshot))) = Ok nxt \<and>
    committed_root ce = sc_root (ed_schema ed) nxt \<and> ce_body ce = sc_bytes (ed_schema ed) nxt \<and>
    bs' = bs @ bundles \<and>
    published ed anchor (ed_keys ed ix) net src t1 (sn_root snapshot) (sc_root (ed_schema ed) nxt) bundles"
proof -
  let ?sc = "ed_schema ed"
  obtain snapshot t1 nxt where read: "read_profile ?sc (ed_merkle ed) anchor src content t = (Ok snapshot, t1)"
    and made: "sc_from_profile ?sc (sc_apply_all ?sc (slot_edits ?sc edit) (sc_profile ?sc (sn_body snapshot))) = Ok nxt"
    and fin: "(if sc_root ?sc nxt = sn_root snapshot
        then (Ok \<lparr>ce_status = EditConfirmed (sc_root ?sc nxt), ce_body = sc_bytes ?sc nxt\<rparr>, t1, bs)
        else push_update ed anchor (ed_keys ed ix) (sc_root ?sc nxt) (sc_bytes ?sc nxt) src (recording answer)
          net t1 bs) = (Ok ce, t', bs')"
    using assms
    by (auto simp: commit_edit_def Let_def result_simps edit_wallet_key_def
        split: prod.splits result.splits if_splits)
  show ?thesis
  proof (cases "sc_root ?sc nxt = sn_root snapshot")
    case True
    with fin show ?thesis
      by (intro exI [of _ snapshot] exI [of _ t1] exI [of _ nxt] exI [of _ "[]"])
         (auto simp: read made published_def committed_root_def)
  next
    case False
    with fin have push: "push_update ed anchor (ed_keys ed ix) (sc_root ?sc nxt) (sc_bytes ?sc nxt) src
        (recording answer) net t1 bs = (Ok ce, t', bs')" by simp
    from push_update_cases [of ed anchor "ed_keys ed ix" "sc_root ?sc nxt" "sc_bytes ?sc nxt" src answer net t1 bs]
    obtain store t2 b where tip: "resolve_store_tip (ed_merkle ed) anchor src t1 = (Ok store, t2)"
      and rec: "recreates ed anchor (ed_keys ed ix) net store (sc_root ?sc nxt) b"
      and ans: "edit_answered (sc_root ?sc nxt) (sc_bytes ?sc nxt) (answer b) = Ok ce" and bs': "bs' = bs @ [b]"
      unfolding push by auto
    show ?thesis
      using False tip rec bs' edit_answered_Ok [OF ans]
      by (intro exI [of _ snapshot] exI [of _ t1] exI [of _ nxt] exI [of _ "[b]"])
         (simp add: read made published_def committed_root_def)
  qed
qed

lemma committed_body:
  assumes laws: "schema_laws sc" "body_laws sc" and batch: "btree_ordered (slot_id sc) edit"
    and made: "sc_from_profile sc (sc_apply_all sc (slot_edits sc edit) old) = Ok nxt"
  shows "sc_get sc (sc_profile sc nxt) (slot_id sc slot) =
      changed (btree_get (slot_id sc) slot edit) (sc_get sc old (slot_id sc slot))"
    and "i \<notin> range (slot_id sc) \<Longrightarrow> sc_get sc (sc_profile sc nxt) i = sc_get sc old i"
    and "project_standard_slots sc (sc_profile sc nxt) = edit_preview sc edit (project_standard_slots sc old)"
proof -
  have prof: "sc_profile sc nxt = sc_apply_all sc (slot_edits sc edit) old"
    using laws(2) made by (simp add: body_laws_def)
  then have get: "sc_get sc (sc_profile sc nxt) = foldl apply_edit (sc_get sc old) (slot_edits sc edit)"
    using laws(1) by (simp add: schema_laws_def)
  show "sc_get sc (sc_profile sc nxt) (slot_id sc slot) =
      changed (btree_get (slot_id sc) slot edit) (sc_get sc old (slot_id sc slot))"
    unfolding get by (rule edits_at_slot [OF batch])
  show "sc_get sc (sc_profile sc nxt) i = sc_get sc old i" if "i \<notin> range (slot_id sc)"
    unfolding get using that by (intro edits_leave_others) auto
  show "project_standard_slots sc (sc_profile sc nxt) = edit_preview sc edit (project_standard_slots sc old)"
    unfolding prof by (rule preview_is_projection [OF laws(1) batch, symmetric])
qed

text \<open>C31: An edit that succeeds publishes the profile the chain published with exactly the batch applied to
  it. The body it starts from hashes to the root of the store's tip; the returned bytes and root are those
  of a body in which every slot the batch names holds what the batch says, and every other slot, the ones
  the edit seam cannot name included, is as it was, and reading that body back shows exactly the fields the
  preview of the batch showed. If that root is the one read, nothing is handed to the publisher; otherwise
  exactly one bundle is, and it is the update of the store's tip to that very root, signed for the
  profile's own wallet.\<close>

theorem edit_commits_exactly_the_batch:
  assumes laws: "schema_laws (ed_schema ed)" "body_laws (ed_schema ed)"
    and batch: "btree_ordered (slot_id (ed_schema ed)) edit"
    and run: "commit_edit ed live ix anchor edit src content (recording answer) net t bs = (Ok ce, t', bs')"
  shows "let sc = ed_schema ed in \<exists>snapshot t1 nxt bundles.
    read_profile sc (ed_merkle ed) anchor src content t = (Ok snapshot, t1) \<and>
    sc_root sc (sn_body snapshot) = sn_root snapshot \<and>
    committed_root ce = sc_root sc nxt \<and> ce_body ce = sc_bytes sc nxt \<and>
    (\<forall>slot. sc_get sc (sc_profile sc nxt) (slot_id sc slot) =
       changed (btree_get (slot_id sc) slot edit)
         (sc_get sc (sc_profile sc (sn_body snapshot)) (slot_id sc slot))) \<and>
    (\<forall>i. i \<in> range (slot_id sc) \<or>
       sc_get sc (sc_profile sc nxt) i = sc_get sc (sc_profile sc (sn_body snapshot)) i) \<and>
    project_standard_slots sc (sc_profile sc nxt) = edit_preview sc edit (sn_fields snapshot) \<and>
    bs' = bs @ bundles \<and>
    published ed anchor (ed_keys ed ix) net src t1 (sn_root snapshot) (committed_root ce) bundles"
proof -
  obtain snapshot t1 nxt bundles where
    read: "read_profile (ed_schema ed) (ed_merkle ed) anchor src content t = (Ok snapshot, t1)"
    and made: "sc_from_profile (ed_schema ed) (sc_apply_all (ed_schema ed) (slot_edits (ed_schema ed) edit)
      (sc_profile (ed_schema ed) (sn_body snapshot))) = Ok nxt"
    and ce: "committed_root ce = sc_root (ed_schema ed) nxt" "ce_body ce = sc_bytes (ed_schema ed) nxt"
      "bs' = bs @ bundles"
      "published ed anchor (ed_keys ed ix) net src t1 (sn_root snapshot) (sc_root (ed_schema ed) nxt) bundles"
    using commit_edit_Ok [OF run] by blast
  note body = committed_body [OF laws batch made]
  have "i \<in> range (slot_id (ed_schema ed)) \<or> sc_get (ed_schema ed) (sc_profile (ed_schema ed) nxt) i =
      sc_get (ed_schema ed) (sc_profile (ed_schema ed) (sn_body snapshot)) i" for i
    using body(2) by blast
  then show ?thesis
    using read_profile_Ok [OF read] ce unfolding Let_def
    by (intro exI [of _ snapshot] exI [of _ t1] exI [of _ nxt] exI [of _ bundles])
       (simp add: read body(1,3))
qed

section \<open>Each call pushes at most once\<close>

text \<open>An edit call: a batch over what is published, or a profile published wholesale.\<close>

datatype 'q edit_request = Commit profile_edit content_source | Publish 'q

fun edit_call ::
  "('q, 'b, 'x, 'm, 'p, 'g) edit_tools \<Rightarrow> liveness \<Rightarrow> profile_ix \<Rightarrow> profile_anchor \<Rightarrow>
     singleton_source \<Rightarrow> ('g, 'w, 'w) publisher \<Rightarrow> mint_network \<Rightarrow> nat \<Rightarrow> 'w \<Rightarrow> 'q edit_request \<Rightarrow>
     (committed_edit, edit_error) result \<times> nat \<times> 'w"
where
  "edit_call ed live ix anchor src pub net t p (Commit edit content) =
     commit_edit ed live ix anchor edit src content pub net t p"
| "edit_call ed live ix anchor src pub net t p (Publish q) =
     publish_profile ed live ix anchor q src pub net t p"

definition settled_edit ::
  "('q, 'b, 'x, 'm, 'p, 'g) edit_tools \<Rightarrow> profile_anchor \<Rightarrow> singleton_source \<Rightarrow> nat \<Rightarrow>
     (committed_edit, edit_error) result \<Rightarrow> bool"
where
  "settled_edit ed anchor src t res \<longleftrightarrow>
     (case res of
        Err e \<Rightarrow> True
      | Ok ce \<Rightarrow> (\<exists>store t0. resolve_store_tip (ed_merkle ed) anchor src t = (Ok store, t0) \<and>
          ce_status ce = EditConfirmed (md_root_hash (st_metadata store))))"

lemma resolve_store_tip_later: "resolve_store_tip mk anchor src t = (r, t1) \<Longrightarrow> t < t1"
  by (auto simp: resolve_store_tip_def split: result.splits option.splits)

lemma read_profile_later: "read_profile sc mk anchor src content t = (r, t1) \<Longrightarrow> t < t1"
  by (auto simp: read_profile_def Let_def split: prod.splits result.splits dest!: resolve_store_tip_later)

lemma edit_wallet_key_Ok:
  "edit_wallet_key ed live ix = Ok w \<longleftrightarrow> live_at_check live 0 \<and> w = ed_keys ed ix"
  by (auto simp: edit_wallet_key_def)

text \<open>Each entry point either settles without a push or ends in the shared one.\<close>

lemma commit_edit_cases:
  "(\<exists>res t'. commit_edit ed live ix anchor edit src content pub net t p = (res, t', p) \<and>
      settled_edit ed anchor src t res) \<or>
   (\<exists>root body t1. live_at_check live 0 \<and> t < t1 \<and>
      commit_edit ed live ix anchor edit src content pub net t p =
        push_update ed anchor (ed_keys ed ix) root body src pub net t1 p)"
proof -
  let ?sc = "ed_schema ed"
  obtain pre where pre: "and_then (if edit_is_empty edit then Err (EditRefused EmptyEdit) else Ok ()) (\<lambda>_.
      and_then (reject_protected_removals ?sc edit) (\<lambda>_. edit_wallet_key ed live ix)) = pre" by blast
  obtain rd t1 where rd: "read_profile ?sc (ed_merkle ed) anchor src content t = (rd, t1)" by fastforce
  show ?thesis
  proof (cases pre)
    case (Err e)
    then show ?thesis using pre by (simp add: commit_edit_def Let_def settled_edit_def)
  next
    case w: (Ok w)
    then have key: "live_at_check live 0" "w = ed_keys ed ix"
      using pre by (simp_all add: result_simps edit_wallet_key_Ok)
    show ?thesis
    proof (cases rd)
      case (Err e)
      then show ?thesis using pre w rd by (simp add: commit_edit_def Let_def settled_edit_def)
    next
      case (Ok snapshot)
      let ?next = "sc_from_profile ?sc (sc_apply_all ?sc (slot_edits ?sc edit) (sc_profile ?sc (sn_body snapshot)))"
      obtain store t0 where tip: "resolve_store_tip (ed_merkle ed) anchor src t = (Ok store, t0)"
        and root: "sn_root snapshot = md_root_hash (st_metadata store)"
        using read_profile_Ok [OF rd [unfolded Ok]] by blast
      show ?thesis
      proof (cases ?next)
        case (Err e)
        then show ?thesis using pre w rd Ok by (simp add: commit_edit_def Let_def settled_edit_def)
      next
        case body: (Ok body)
        have eq: "commit_edit ed live ix anchor edit src content pub net t p =
            (if sc_root ?sc body = sn_root snapshot
             then (Ok \<lparr>ce_status = EditConfirmed (sc_root ?sc body), ce_body = sc_bytes ?sc body\<rparr>, t1, p)
             else push_update ed anchor (ed_keys ed ix) (sc_root ?sc body) (sc_bytes ?sc body) src pub net t1 p)"
          using pre w rd Ok body key by (simp add: commit_edit_def Let_def)
        show ?thesis
        proof (cases "sc_root ?sc body = sn_root snapshot")
          case True
          with eq tip root show ?thesis by (simp add: settled_edit_def)
        next
          case False
          with eq have "commit_edit ed live ix anchor edit src content pub net t p =
            push_update ed anchor (ed_keys ed ix) (sc_root ?sc body) (sc_bytes ?sc body) src pub net t1 p"
            by simp
          with key(1) read_profile_later [OF rd] show ?thesis by blast
        qed
      qed
    qed
  qed
qed

lemma publish_profile_cases:
  "(\<exists>res t'. publish_profile ed live ix anchor q src pub net t p = (res, t', p) \<and>
      settled_edit ed anchor src t res) \<or>
   (\<exists>root body t1. live_at_check live 0 \<and> t < t1 \<and>
      publish_profile ed live ix anchor q src pub net t p =
        push_update ed anchor (ed_keys ed ix) root body src pub net t1 p)"
proof -
  let ?sc = "ed_schema ed"
  obtain pre where pre: "and_then (reject_profile_without_schema_version ?sc q) (\<lambda>_.
      and_then (edit_wallet_key ed live ix) (\<lambda>w.
      and_then (map_err (EditFormat \<circ> PublishedBodyRefused) (sc_from_profile ?sc q)) (\<lambda>body.
        Ok (w, body)))) = pre" by blast
  obtain rd t1 where rd: "resolve_store_tip (ed_merkle ed) anchor src t = (rd, t1)" by fastforce
  show ?thesis
  proof (cases pre)
    case (Err e)
    then show ?thesis using pre by (simp add: publish_profile_def Let_def settled_edit_def)
  next
    case (Ok wb)
    then obtain body where wb: "wb = (ed_keys ed ix, body)" and key: "live_at_check live 0"
      using pre by (auto simp: result_simps edit_wallet_key_Ok)
    show ?thesis
    proof (cases rd)
      case (Err e)
      then show ?thesis using pre Ok wb rd by (simp add: publish_profile_def Let_def settled_edit_def)
    next
      case store: (Ok store)
      have eq: "publish_profile ed live ix anchor q src pub net t p =
          (if md_root_hash (st_metadata store) = sc_root ?sc body
           then (Ok \<lparr>ce_status = EditConfirmed (sc_root ?sc body), ce_body = sc_bytes ?sc body\<rparr>, t1, p)
           else push_update ed anchor (ed_keys ed ix) (sc_root ?sc body) (sc_bytes ?sc body) src pub net t1 p)"
        using pre Ok wb rd store by (simp add: publish_profile_def Let_def)
      show ?thesis
      proof (cases "md_root_hash (st_metadata store) = sc_root ?sc body")
        case True
        with eq rd store show ?thesis by (simp add: settled_edit_def)
      next
        case False
        with eq have "publish_profile ed live ix anchor q src pub net t p =
          push_update ed anchor (ed_keys ed ix) (sc_root ?sc body) (sc_bytes ?sc body) src pub net t1 p"
          by simp
        with key resolve_store_tip_later [OF rd] show ?thesis by blast
      qed
    qed
  qed
qed

lemma edit_call_cases:
  "(\<exists>res t'. edit_call ed live ix anchor src (recording answer) net t bs call = (res, t', bs) \<and>
      settled_edit ed anchor src t res) \<or>
   (\<exists>root body store t1 t2 b. live_at_check live 0 \<and> t < t1 \<and>
      resolve_store_tip (ed_merkle ed) anchor src t1 = (Ok store, t2) \<and>
      recreates ed anchor (ed_keys ed ix) net store root b \<and>
      edit_call ed live ix anchor src (recording answer) net t bs call =
        (edit_answered root body (answer b), t2, bs @ [b]))"
proof -
  have pushing: ?thesis
    if "edit_call ed live ix anchor src (recording answer) net t bs call =
        push_update ed anchor (ed_keys ed ix) root body src (recording answer) net t1 bs"
      and "live_at_check live 0" and "t < t1" for root body t1
    using push_update_cases [of ed anchor "ed_keys ed ix" root body src answer net t1 bs]
  proof (elim disjE exE conjE)
    fix e t'
    assume "push_update ed anchor (ed_keys ed ix) root body src (recording answer) net t1 bs = (Err e, t', bs)"
    then show ?thesis using that(1) by (simp add: settled_edit_def)
  next
    fix store t2 b
    assume "resolve_store_tip (ed_merkle ed) anchor src t1 = (Ok store, t2)"
      "recreates ed anchor (ed_keys ed ix) net store root b"
      "push_update ed anchor (ed_keys ed ix) root body src (recording answer) net t1 bs =
        (edit_answered root body (answer b), t2, bs @ [b])"
    then show ?thesis using that by (intro disjI2 exI conjI) (assumption | simp)+
  qed
  show ?thesis
  proof (cases call)
    case (Commit edit content)
    then show ?thesis
      using commit_edit_cases [of ed live ix anchor edit src content "recording answer" net t bs] pushing
      by (elim disjE exE conjE) auto
  next
    case (Publish q)
    then show ?thesis
      using publish_profile_cases [of ed live ix anchor q src "recording answer" net t bs] pushing
      by (elim disjE exE conjE) auto
  qed
qed

text \<open>C15: Whatever an edit pushes recreates exactly this profile's store. A call hands the publisher at
  most one bundle, and only while unlocked when it began; that bundle spends one coin, the tip of the
  store the anchor names, owned by the profile's own wallet and without delegated puzzles, as the chain
  resolved it when the bundle was built; it is the driver's update with every metadata field kept but
  the root, and its signature covers only AGG_SIG_ME messages under the wallet's own key.\<close>

theorem edit_signs_only_the_owned_store:
  "\<exists>bundles. snd (snd (edit_call ed live ix anchor src (recording answer) net t bs call)) = bs @ bundles \<and>
     length bundles \<le> 1 \<and>
     (\<forall>b. b \<notin> set bundles \<or> live_at_check live 0 \<and>
        (\<exists>store root t1 t2. t < t1 \<and> resolve_store_tip (ed_merkle ed) anchor src t1 = (Ok store, t2) \<and>
           recreates ed anchor (ed_keys ed ix) net store root b))"
  using edit_call_cases [of ed live ix anchor src answer net t bs call]
proof (elim disjE exE conjE)
  fix res t'
  assume "edit_call ed live ix anchor src (recording answer) net t bs call = (res, t', bs)"
  then show ?thesis by (intro exI [of _ "[]"]) simp
next
  fix root body store t1 t2 b
  assume "live_at_check live 0" "t < t1" "resolve_store_tip (ed_merkle ed) anchor src t1 = (Ok store, t2)"
    "recreates ed anchor (ed_keys ed ix) net store root b"
    "edit_call ed live ix anchor src (recording answer) net t bs call =
      (edit_answered root body (answer b), t2, bs @ [b])"
  then show ?thesis by (intro exI [of _ "[b]"]) auto
qed

text \<open>What an edit reports is what was established. It says confirmed only when the chain's tip
  already commits that very root, and then nothing was pushed, so a retry after a lost answer spends
  nothing once the edit landed; it says pushed only for a bundle the network accepted or already held;
  rejected only when the network said no; and a push whose answer was lost is an unknown outcome.\<close>

theorem edit_outcome_is_earned:
  assumes "edit_call ed live ix anchor src (recording answer) net t [] call = (res, t', bundles)"
  shows "(bundles = [] \<and>
      (case res of
         Ok ce \<Rightarrow> \<exists>store t0. resolve_store_tip (ed_merkle ed) anchor src t = (Ok store, t0) \<and>
           ce_status ce = EditConfirmed (md_root_hash (st_metadata store))
       | Err e \<Rightarrow> True)) \<or>
    (\<exists>b. bundles = [b] \<and>
      (case answer b of
         Ok (PushRejected reason) \<Rightarrow> res = Err (EditRejected reason)
       | Ok _ \<Rightarrow> \<exists>ce root. res = Ok ce \<and> ce_status ce = EditPushed root \<and> confirmed_root (ce_status ce) = None
       | Err e \<Rightarrow> res = Err (EditChainUnreachable e)))"
  using edit_call_cases [of ed live ix anchor src answer net t "[]" call]
proof (elim disjE exE conjE)
  fix r s
  assume "edit_call ed live ix anchor src (recording answer) net t [] call = (r, s, [])"
    "settled_edit ed anchor src t r"
  then show ?thesis using assms by (simp add: settled_edit_def)
next
  fix root body store t1 t2 b
  assume "edit_call ed live ix anchor src (recording answer) net t [] call =
      (edit_answered root body (answer b), t2, [] @ [b])"
  then have "bundles = [b]" "res = edit_answered root body (answer b)" using assms by simp_all
  then show ?thesis by (cases "answer b" rule: answered.cases) auto
qed

section \<open>Samples\<close>

text \<open>A profile with a display name, a bio, both or neither, told apart by its root.\<close>

definition sample_root :: "(u16 \<Rightarrow> unit slot_value option) \<Rightarrow> bytes32" where
  "sample_root q = (if q 1 = None then 0 else 1) + (if q 2 = None then 0 else 2)"

text \<open>Merkle's side of the sample: an update says in its solution the root it commits, and the coin it makes
  is the one the spent coin parents.\<close>

definition remade :: "coin_spend \<Rightarrow> coin" where
  "remade s = \<lparr>parent_coin_info = sample_mint_id (spent_coin s), puzzle_hash = 72, amount = 1\<rparr>"

definition root_spend :: "coin \<Rightarrow> bytes32 \<Rightarrow> coin_spend" where
  "root_spend c root = \<lparr>spent_coin = c, puzzle_reveal = [], solution = replicate (unat root) 0\<rparr>"

definition store_after :: "coin_spend \<Rightarrow> (unit, unit) datastore" where
  "store_after s =
     \<lparr>st_coin = remade s, st_launcher_id = 501, st_owner_puzzle_hash = 9, st_delegated_puzzles = [],
      st_metadata = \<lparr>md_root_hash = of_nat (length (solution s)), md_rest = ()\<rparr>\<rparr>"

definition sample_edit_tools ::
  "(u16 \<Rightarrow> unit slot_value option, u16 \<Rightarrow> unit slot_value option, unit, unit, unit, byte list list) edit_tools"
where
  "sample_edit_tools =
     \<lparr>ed_schema = sample_schema\<lparr>sc_root := sample_root\<rparr>,
      ed_merkle =
        \<lparr>mk_hydrate = (\<lambda>s. Ok (store_after s)),
         mk_update_root = (\<lambda>store pk m. Ok [root_spend (st_coin store) (md_root_hash m)]),
         mk_melt = (\<lambda>store pk. Ok [plain_spend (st_coin store)]),
         mk_required = (\<lambda>me spends. Ok [Bls \<lparr>br_public_key = [7],
            br_raw_message = concat (map solution spends), br_appended_info = [], br_domain_string = Some me\<rparr>])\<rparr>,
      ed_scheme = \<lparr>sig_default = [], sig_add = (@), sig_sign = (\<lambda>w m. [m]), sig_message = br_raw_message\<rparr>,
      ed_keys = (\<lambda>ix. sample_wallet)\<rparr>"

text \<open>A chain that at read \<open>t\<close> holds the store's spends \<open>h t\<close>, the launcher's first.\<close>

definition store_chain :: "(nat \<Rightarrow> coin_spend list) \<Rightarrow> singleton_source" where
  "store_chain h =
     \<lparr>ss_chain = sample_mint_chain 100,
      ask_lineage = (\<lambda>t i. Ok (if i = 501 then Some \<lparr>ln_tip = sample_mint_id (remade (last (h t))),
         ln_len = Suc (length (h t)),
         ln_contains = (\<lambda>c. c = 501 \<or> c \<in> set (map (sample_mint_id \<circ> remade) (h t)))\<rparr> else None)),
      ask_parent_spend = (\<lambda>t i. Ok (find (\<lambda>s. sample_mint_id (remade s) = i) (h t))),
      ask_coin_spend = (\<lambda>t i. Ok (find (\<lambda>s. sample_mint_id (spent_coin s) = i) (h t)))\<rparr>"

definition launch_spend :: coin_spend where
  "launch_spend = root_spend \<lparr>parent_coin_info = 401, puzzle_hash = 71, amount = 1\<rparr> 0"

text \<open>The bundle an edit to \<open>root\<close> signs over the tip that the spend \<open>s\<close> made.\<close>

definition update_after :: "coin_spend \<Rightarrow> bytes32 \<Rightarrow> byte list list spend_bundle" where
  "update_after s root =
     \<lparr>sb_coin_spends = [root_spend (remade s) root], sb_signature = [replicate (unat root) 0]\<rparr>"

text \<open>The store while one session works, and with the other session's update, which gives it a bio,
  confirmed from read 3 on.\<close>

definition bio_update :: "byte list list spend_bundle" where
  "bio_update = update_after launch_spend 2"

definition still_store :: singleton_source where
  "still_store = store_chain (\<lambda>t. [launch_spend])"

definition moving_store :: singleton_source where
  "moving_store =
     store_chain (\<lambda>t. if t < 3 then [launch_spend] else launch_spend # sb_coin_spends bio_update)"

definition sample_contents :: content_source where
  "sample_contents t store root = Ok (if root = 0 then [] else [(2, [])])"

definition name_edit :: profile_edit where
  "name_edit = [(DisplayName, Set ''ann'')]"

definition bio_edit :: profile_edit where
  "bio_edit = [(Bio, Set ''hi'')]"

abbreviation anchored :: profile_anchor where
  "anchored \<equiv> sample_anchor (\<lambda>i. ''did'') 301"

lemma sample_edit_laws:
  "schema_laws (ed_schema sample_edit_tools)" "body_laws (ed_schema sample_edit_tools)"
  "btree_ordered (slot_id (ed_schema sample_edit_tools)) name_edit"
  "btree_ordered (slot_id (ed_schema sample_edit_tools)) bio_edit"
  by (simp_all add: schema_laws_def body_laws_def sample_edit_tools_def sample_schema_def standard_id_inj
      btree_ordered_def name_edit_def bio_edit_def)

lemma store_chain_tip:
  assumes "h t = ss @ [s]" and "h (Suc t) = ss @ [s]" and "\<forall>s' \<in> set ss. sample_mint_id (remade s') \<noteq> sample_mint_id (remade s)"
  shows "resolve_store_tip (ed_merkle sample_edit_tools) anchored (store_chain h) t = (Ok (store_after s), Suc (Suc t))"
proof -
  have "find (\<lambda>s'. sample_mint_id (remade s') = sample_mint_id (remade s)) (ss @ [s]) = Some s"
    using assms(3) by (induction ss) auto
  then show ?thesis
    using assms(1,2) by (simp add: resolve_store_tip_def store_chain_def sample_edit_tools_def sample_anchor_def)
qed

lemma store_tips:
  "resolve_store_tip (ed_merkle sample_edit_tools) anchored still_store t = (Ok (store_after launch_spend), Suc (Suc t))"
  "resolve_store_tip (ed_merkle sample_edit_tools) anchored moving_store 0 = (Ok (store_after launch_spend), 2)"
  "resolve_store_tip (ed_merkle sample_edit_tools) anchored moving_store 3 =
     (Ok (store_after (root_spend (remade launch_spend) 2)), 5)"
proof -
  have ids: "sample_mint_id (remade launch_spend) \<noteq> sample_mint_id (remade (root_spend (remade launch_spend) 2))"
    by (simp add: remade_def launch_spend_def root_spend_def sample_mint_id_def)
  show "resolve_store_tip (ed_merkle sample_edit_tools) anchored still_store t =
      (Ok (store_after launch_spend), Suc (Suc t))"
    unfolding still_store_def by (rule store_chain_tip [where ss = "[]"]) simp_all
  show "resolve_store_tip (ed_merkle sample_edit_tools) anchored moving_store 0 = (Ok (store_after launch_spend), 2)"
    unfolding moving_store_def
    by (subst store_chain_tip [where ss = "[]" and s = launch_spend]) simp_all
  show "resolve_store_tip (ed_merkle sample_edit_tools) anchored moving_store 3 =
      (Ok (store_after (root_spend (remade launch_spend) 2)), 5)"
    unfolding moving_store_def
    by (subst store_chain_tip [where ss = "[launch_spend]" and s = "root_spend (remade launch_spend) 2"])
       (use ids in \<open>simp_all add: bio_update_def update_after_def\<close>)
qed

lemma launched_root: "md_root_hash (st_metadata (store_after launch_spend)) = 0"
  by (simp add: store_after_def launch_spend_def root_spend_def)

abbreviation empty_snapshot :: "(u16 \<Rightarrow> unit slot_value option) profile_snapshot" where
  "empty_snapshot \<equiv> \<lparr>sn_root = 0, sn_body = Map.empty, sn_fields = []\<rparr>"

lemma sample_reads:
  "read_profile (ed_schema sample_edit_tools) (ed_merkle sample_edit_tools) anchored still_store sample_contents 0 =
     (Ok empty_snapshot, 3)"
  "read_profile (ed_schema sample_edit_tools) (ed_merkle sample_edit_tools) anchored moving_store sample_contents 0 =
     (Ok empty_snapshot, 3)"
  by (simp_all add: read_profile_def store_tips launched_root sample_contents_def assemble_body_def)
     (simp_all add: sample_edit_tools_def sample_schema_def sample_root_def project_standard_slots_def
       project_step_def ALL_SLOTS_def fields_new_def)

lemma sample_signed:
  "sign_update sample_edit_tools anchored sample_wallet root sample_network (store_after s) = Ok (update_after s root)"
  by (simp add: sign_update_def gate_store_identity_def sample_wallet_def sample_anchor_def store_after_def)
     (simp add: sample_edit_tools_def gate_edit_def sample_wallet_def update_after_def sample_network_def
       network_from_constants_def root_spend_def)

abbreviation sample_commit where
  "sample_commit edit src answer \<equiv> commit_edit sample_edit_tools sample_live root_ix anchored edit src
     sample_contents (recording answer) sample_network 0 []"

lemma sample_commit_runs:
  assumes read: "read_profile (ed_schema sample_edit_tools) (ed_merkle sample_edit_tools) anchored src
      sample_contents 0 = (Ok empty_snapshot, 3)"
    and tip: "resolve_store_tip (ed_merkle sample_edit_tools) anchored src 3 = (Ok (store_after s), 5)"
    and edit: "edit = [(slot, Set text)]" and slot: "slot_id (ed_schema sample_edit_tools) slot = i" "i \<noteq> 0"
    and root: "sample_root [i \<mapsto> Utf8 text] = root" "root \<noteq> 0"
  shows "sample_commit edit src (\<lambda>b. Ok Accepted) =
    (Ok \<lparr>ce_status = EditPushed root, ce_body = []\<rparr>, 5, [update_after s root])"
proof -
  have sc: "sc_profile (ed_schema sample_edit_tools) b = b" "sc_version_slot (ed_schema sample_edit_tools) = 0"
    "sc_apply_all (ed_schema sample_edit_tools) es q = foldl apply_edit q es"
    "sc_from_profile (ed_schema sample_edit_tools) q = Ok q"
    "sc_root (ed_schema sample_edit_tools) = sample_root" "sc_bytes (ed_schema sample_edit_tools) q = []"
    for b es q
    by (simp_all add: sample_edit_tools_def sample_schema_def)
  have edits: "slot_edits (ed_schema sample_edit_tools) [(slot, Set text)] = [SetSlot i (Utf8 text)]"
    by (simp add: slot_edits_def slot(1))
  have key: "edit_wallet_key sample_edit_tools sample_live root_ix = Ok sample_wallet"
    by (simp add: edit_wallet_key_def sample_live_def live_at_check_def residency_is_live_def
        residency_new_def sample_edit_tools_def)
  have build: "build_and_sign_update sample_edit_tools anchored sample_wallet root src sample_network 3 =
      (Ok (update_after s root), 5)"
    unfolding build_and_sign_update_def tip by (simp add: sample_signed)
  show ?thesis
    unfolding commit_edit_def Let_def edit edits read
    by (simp add: edit_is_empty_def reject_protected_removals_def edits removes_slot_def slot(2) key sc root
        push_update_def build recording_def)
qed

lemma sample_committed:
  "sample_commit name_edit moving_store (\<lambda>b. Ok Accepted) =
     (Ok \<lparr>ce_status = EditPushed 1, ce_body = []\<rparr>, 5, [update_after (root_spend (remade launch_spend) 2) 1])"
  "sample_commit bio_edit still_store (\<lambda>b. Ok Accepted) =
     (Ok \<lparr>ce_status = EditPushed 2, ce_body = []\<rparr>, 5, [bio_update])"
proof -
  have id: "slot_id (ed_schema sample_edit_tools) DisplayName = 1" "slot_id (ed_schema sample_edit_tools) Bio = 2"
    by (simp_all add: slot_id_def sample_edit_tools_def sample_schema_def)
  show "sample_commit name_edit moving_store (\<lambda>b. Ok Accepted) =
     (Ok \<lparr>ce_status = EditPushed 1, ce_body = []\<rparr>, 5, [update_after (root_spend (remade launch_spend) 2) 1])"
    by (rule sample_commit_runs [OF sample_reads(2) store_tips(3) name_edit_def id(1)])
       (simp_all add: sample_root_def)
  show "sample_commit bio_edit still_store (\<lambda>b. Ok Accepted) =
     (Ok \<lparr>ce_status = EditPushed 2, ce_body = []\<rparr>, 5, [bio_update])"
    unfolding bio_update_def
    by (rule sample_commit_runs [OF sample_reads(1) _ bio_edit_def id(2)])
       (simp_all add: sample_root_def store_tips(1))
qed

lemma sample_edit_called:
  "edit_call sample_edit_tools sample_live root_ix anchored moving_store (recording (\<lambda>b. Ok Accepted))
     sample_network 0 [] (Commit name_edit sample_contents) =
   (Ok \<lparr>ce_status = EditPushed 1, ce_body = []\<rparr>, 5, [update_after (root_spend (remade launch_spend) 2) 1])"
  using sample_committed(1) by simp

theorem edit_commits_exactly_the_batch_witness:
  "(\<exists>body. sc_root (ed_schema sample_edit_tools) body = 1 \<and>
      sc_get (ed_schema sample_edit_tools) (sc_profile (ed_schema sample_edit_tools) body)
        (slot_id (ed_schema sample_edit_tools) DisplayName) = Some (Utf8 ''ann'')) \<and>
   (\<exists>store. recreates sample_edit_tools anchored sample_wallet sample_network store 1
      (update_after (root_spend (remade launch_spend) 2) 1))"
proof -
  have get: "btree_get (slot_id (ed_schema sample_edit_tools)) DisplayName name_edit = Some (Set ''ann'')"
    and key: "ed_keys sample_edit_tools root_ix = sample_wallet"
    by (simp_all add: name_edit_def sample_edit_tools_def)
  note run = edit_commits_exactly_the_batch [OF sample_edit_laws(1,2,3) sample_committed(1),
      unfolded Let_def changed_def committed_root_def sample_reads key]
  show ?thesis using run get by (fastforce simp: published_def)
qed

theorem edit_signs_only_the_owned_store_witness:
  "live_at_check sample_live 0 \<and>
   (\<exists>store root. recreates sample_edit_tools anchored sample_wallet sample_network store root
      (update_after (root_spend (remade launch_spend) 2) 1))"
proof -
  have "ed_keys sample_edit_tools root_ix = sample_wallet" by (simp add: sample_edit_tools_def)
  then show ?thesis
    using edit_signs_only_the_owned_store [of sample_edit_tools sample_live root_ix anchored
        moving_store "\<lambda>b. Ok Accepted" sample_network 0 "[]" "Commit name_edit sample_contents"]
    unfolding sample_edit_called by auto
qed

theorem edit_outcome_is_earned_witness:
  "\<exists>ce b. edit_call sample_edit_tools sample_live root_ix anchored moving_store
      (recording (\<lambda>b. Ok Accepted)) sample_network 0 [] (Commit name_edit sample_contents) =
      (Ok ce, 5, [b]) \<and> confirmed_root (ce_status ce) = None"
  using edit_outcome_is_earned [OF sample_edit_called] sample_edit_called by auto

section \<open>Two sessions\<close>

text \<open>C32: The tip is resolved twice and the two answers are not compared, so of two sessions' edits of one
  profile the one that builds last undoes the other. When two sessions read the same published profile,
  both commits succeed, and the tip that this session's build finds carries the root the other committed,
  then the bundle this session pushes recreates that tip, the other's, with a root of its own body, in
  which every slot its own batch does not name is put back to what it was before the other's edit, while
  in the body the other published it is what the other's batch made of it.\<close>

theorem edit_overwrites_a_concurrent_change:
  assumes laws: "schema_laws (ed_schema ed)" "body_laws (ed_schema ed)"
    and batches: "btree_ordered (slot_id (ed_schema ed)) edit" "btree_ordered (slot_id (ed_schema ed)) edit'"
    and read: "read_profile (ed_schema ed) (ed_merkle ed) anchor src content t = (Ok snapshot, t1)"
      "read_profile (ed_schema ed) (ed_merkle ed) anchor src' content' s = (Ok snapshot, s1)"
    and theirs: "commit_edit ed live' ix anchor edit' src' content' (recording answer') net s [] = (Ok ce', s2, bs')"
    and ours: "commit_edit ed live ix anchor edit src content (recording answer) net t [] = (Ok ce, t', [b])"
    and landed: "resolve_store_tip (ed_merkle ed) anchor src t1 = (Ok store, t2)"
      "md_root_hash (st_metadata store) = committed_root ce'"
  shows "let sc = ed_schema ed; old = (\<lambda>slot. sc_get sc (sc_profile sc (sn_body snapshot)) (slot_id sc slot))
    in \<exists>body' body.
      committed_root ce' = sc_root sc body' \<and>
      (\<forall>slot. sc_get sc (sc_profile sc body') (slot_id sc slot) =
         changed (btree_get (slot_id sc) slot edit') (old slot)) \<and>
      committed_root ce = sc_root sc body \<and>
      (\<forall>slot. btree_get (slot_id sc) slot edit = None \<longrightarrow>
         sc_get sc (sc_profile sc body) (slot_id sc slot) = old slot) \<and>
      md_root_hash (st_metadata store) = sc_root sc body' \<and>
      recreates ed anchor (ed_keys ed ix) net store (sc_root sc body) b"
proof -
  obtain body' where body': "sc_from_profile (ed_schema ed) (sc_apply_all (ed_schema ed)
      (slot_edits (ed_schema ed) edit') (sc_profile (ed_schema ed) (sn_body snapshot))) = Ok body'"
    and ce': "committed_root ce' = sc_root (ed_schema ed) body'"
    using commit_edit_Ok [OF theirs] read(2) by auto
  obtain body where body: "sc_from_profile (ed_schema ed) (sc_apply_all (ed_schema ed)
      (slot_edits (ed_schema ed) edit) (sc_profile (ed_schema ed) (sn_body snapshot))) = Ok body"
    and ce: "committed_root ce = sc_root (ed_schema ed) body"
    and pushed: "published ed anchor (ed_keys ed ix) net src t1 (sn_root snapshot) (sc_root (ed_schema ed) body) [b]"
    using commit_edit_Ok [OF ours] read(1) by auto
  have "recreates ed anchor (ed_keys ed ix) net store (sc_root (ed_schema ed) body) b"
    using pushed landed(1) by (auto simp: published_def split: if_splits)
  then show ?thesis
    using ce ce' landed(2) committed_body(1) [OF laws batches(1) body] committed_body(1) [OF laws batches(2) body']
    unfolding Let_def by (intro exI [of _ body'] exI [of _ body]) (simp add: changed_def)
qed

text \<open>The other session sets the bio while this one sets the name: the bio's update spends the store's first
  coin, this session's spends the coin that update made, and the profile it publishes has no bio.\<close>

theorem edit_overwrites_a_concurrent_change_witness:
  "\<exists>body' body.
     sc_root (ed_schema sample_edit_tools) body' = 2 \<and>
     sc_get (ed_schema sample_edit_tools) (sc_profile (ed_schema sample_edit_tools) body') 2 = Some (Utf8 ''hi'') \<and>
     sc_root (ed_schema sample_edit_tools) body = 1 \<and>
     sc_get (ed_schema sample_edit_tools) (sc_profile (ed_schema sample_edit_tools) body) 2 = None \<and>
     recreates sample_edit_tools anchored sample_wallet sample_network
       (store_after (hd (sb_coin_spends bio_update))) 1 (update_after (hd (sb_coin_spends bio_update)) 1)"
proof -
  have spend: "hd (sb_coin_spends bio_update) = root_spend (remade launch_spend) 2"
    by (simp add: bio_update_def update_after_def)
  have root: "md_root_hash (st_metadata (store_after (root_spend (remade launch_spend) 2))) =
      committed_root \<lparr>ce_status = EditPushed 2, ce_body = []\<rparr>"
    by (simp add: store_after_def root_spend_def committed_root_def)
  have id: "slot_id (ed_schema sample_edit_tools) Bio = 2" and key: "ed_keys sample_edit_tools root_ix = sample_wallet"
    and bio: "btree_get (slot_id (ed_schema sample_edit_tools)) Bio bio_edit = Some (Set ''hi'')"
      "btree_get (slot_id (ed_schema sample_edit_tools)) Bio name_edit = None"
    and old: "sc_get (ed_schema sample_edit_tools) (sc_profile (ed_schema sample_edit_tools) Map.empty) 2 = None"
    by (simp_all add: slot_id_def sample_edit_tools_def sample_schema_def bio_edit_def name_edit_def)
  note over = edit_overwrites_a_concurrent_change [OF sample_edit_laws sample_reads(2,1) sample_committed(2,1)
      store_tips(3) root, unfolded Let_def key]
  then obtain body' body where "sc_root (ed_schema sample_edit_tools) body' = 2"
    "\<forall>slot. sc_get (ed_schema sample_edit_tools) (sc_profile (ed_schema sample_edit_tools) body')
       (slot_id (ed_schema sample_edit_tools) slot) =
       changed (btree_get (slot_id (ed_schema sample_edit_tools)) slot bio_edit)
         (sc_get (ed_schema sample_edit_tools) (sc_profile (ed_schema sample_edit_tools) Map.empty)
           (slot_id (ed_schema sample_edit_tools) slot))"
    "sc_root (ed_schema sample_edit_tools) body = 1"
    "\<forall>slot. btree_get (slot_id (ed_schema sample_edit_tools)) slot name_edit = None \<longrightarrow>
       sc_get (ed_schema sample_edit_tools) (sc_profile (ed_schema sample_edit_tools) body)
         (slot_id (ed_schema sample_edit_tools) slot) =
       sc_get (ed_schema sample_edit_tools) (sc_profile (ed_schema sample_edit_tools) Map.empty)
         (slot_id (ed_schema sample_edit_tools) slot)"
    "recreates sample_edit_tools anchored sample_wallet sample_network
       (store_after (root_spend (remade launch_spend) 2)) 1 (update_after (root_spend (remade launch_spend) 2) 1)"
    by (auto simp: committed_root_def)
  moreover from this(2) have "sc_get (ed_schema sample_edit_tools)
      (sc_profile (ed_schema sample_edit_tools) body') 2 = Some (Utf8 ''hi'')"
    using bio(1) id by (auto simp: changed_def dest: spec [of _ Bio])
  moreover from calculation(4) have "sc_get (ed_schema sample_edit_tools)
      (sc_profile (ed_schema sample_edit_tools) body) 2 = None"
    using bio(2) id old by (auto dest: spec [of _ Bio])
  ultimately show ?thesis unfolding spend by blast
qed

end
