(* ===== verification/Profile_Melting.thy ===== *)
theory Profile_Melting
  imports Profile_Editing
begin

text \<open>
  Deleting a profile (\<open>src/melt/melter.rs\<close>, with \<open>src/melt/error.rs\<close>,
  \<open>src/melt/status.rs\<close>, \<open>src/melt/preview.rs\<close>): both singletons, DID and store, are
  melted in one bundle. One plan serves the consent surface and the signing path.

  \<open>dig-did\<close> walks the DID's lineage, proves which launcher a tip descends from and builds the
  DID's melt; those functions are in the record \<open>melt_tools\<close> beside the store driver. A
  function that reads the chain itself is given the number of reads made and returns the number
  made after. An error that renders another carries that other.
\<close>

section \<open>Errors\<close>

datatype melt_refusal =
    TipNotGenuine bytes32 string
  | TipOfAnotherLauncher bytes32 bytes32 bytes32
  | StoreNotOurs edit_error
  | MeltSpendCount nat
  | MeltsAnotherCoin
  | MeltNonBls
  | MeltForeignKey
  | MeltUnbound
  | MeltNonBlsAfterGate

datatype melt_chain_reason =
    MeltSourceFailed string
  | DidWalkFailed string
  | DidProofFailed string
  | MeltStateUnknown unconfirmed_input
  | NoRecordOf bytes32
  | RecordOfAnother bytes32 bytes32
  | MeltPublisherFailed string

datatype melt_build_reason =
    DidMeltFailed string
  | StoreMeltFailed string
  | MeltRequirementsUnreadable string

datatype melt_error =
    MeltChainUnreachable melt_chain_reason
  | MeltNoDid
  | MeltNoStore
  | MeltRefused melt_refusal
  | MeltBuild melt_build_reason
  | MeltFormat edit_error
  | MeltRejected string
  | MeltLocked

section \<open>Drivers\<close>

datatype lineage_failure = LineageChainFailed string | LineageNotProven string

record ('d, 'm, 'p, 'g) melt_tools =
  ml_id :: "coin \<Rightarrow> bytes32"
  ml_walk :: "nat \<Rightarrow> bytes32 \<Rightarrow> ('d did_value option, string) result \<times> nat"
  ml_prove :: "nat \<Rightarrow> bytes32 \<Rightarrow> 'd did_value \<Rightarrow> (bytes32, lineage_failure) result \<times> nat"
  ml_did_melt :: "'d did_value \<Rightarrow> byte list \<Rightarrow> (coin_spend list, string) result"
  ml_merkle :: "('m, 'p) merkle_driver"
  ml_scheme :: "'g signature_scheme"
  ml_keys :: "profile_ix \<Rightarrow> wallet_key"

section \<open>Where a deletion stands\<close>

datatype melt_status = MeltPushed bytes32 bytes32 | MeltConfirmed u32

fun end_height :: "melt_status \<Rightarrow> u32 option" where
  "end_height (MeltConfirmed h) = Some h"
| "end_height (MeltPushed d s) = None"

definition spent_height_of ::
  "('d, 'm, 'p, 'g) melt_tools \<Rightarrow> bytes32 \<Rightarrow> chain_source \<Rightarrow> nat \<Rightarrow> (u32 option, melt_error) result \<times> nat"
where
  "spent_height_of ml i chain t =
     (case ask_coin_record chain t i of
        Err e \<Rightarrow> Err (MeltChainUnreachable (MeltSourceFailed e))
      | Ok None \<Rightarrow> Err (MeltChainUnreachable (NoRecordOf i))
      | Ok (Some r) \<Rightarrow>
          (if ml_id ml (rec_coin r) \<noteq> i
           then Err (MeltChainUnreachable (RecordOfAnother i (ml_id ml (rec_coin r))))
           else Ok (spent_height r)), Suc t)"

definition melt_status_of ::
  "('d, 'm, 'p, 'g) melt_tools \<Rightarrow> bytes32 \<Rightarrow> bytes32 \<Rightarrow> chain_source \<Rightarrow> nat \<Rightarrow>
     (melt_status, melt_error) result \<times> nat"
where
  "melt_status_of ml did_coin_id store_coin_id chain t =
     (case spent_height_of ml did_coin_id chain t of
        (Err e, t1) \<Rightarrow> (Err e, t1)
      | (Ok did_spent, t1) \<Rightarrow>
          (case spent_height_of ml store_coin_id chain t1 of
             (Err e, t2) \<Rightarrow> (Err e, t2)
           | (Ok store_spent, t2) \<Rightarrow>
               (Ok (case (did_spent, store_spent) of
                      (Some did_height, Some store_height) \<Rightarrow> MeltConfirmed (max did_height store_height)
                    | _ \<Rightarrow> MeltPushed did_coin_id store_coin_id), t2)))"

section \<open>Establishing what is deleted\<close>

definition require_still_alive ::
  "(coin \<Rightarrow> bytes32) \<Rightarrow> coin \<Rightarrow> chain_source \<Rightarrow> melt_error \<Rightarrow> nat \<Rightarrow> (unit, melt_error) result \<times> nat"
where
  "require_still_alive cid c chain gone t =
     (case confirm_spendable_by_name cid chain t c of
        (Ok _, t') \<Rightarrow> (Ok (), t')
      | (Err (Contradicted i confirmed (Some h)), t') \<Rightarrow> (Err gone, t')
      | (Err other, t') \<Rightarrow> (Err (MeltChainUnreachable (MeltStateUnknown other)), t'))"

definition pin_did_tip_to_anchor ::
  "('d, 'm, 'p, 'g) melt_tools \<Rightarrow> 'd did_value \<Rightarrow> profile_anchor \<Rightarrow> nat \<Rightarrow> (unit, melt_error) result \<times> nat"
where
  "pin_did_tip_to_anchor ml tip anchor t =
     (let tip_id = ml_id ml (dv_coin tip) in
      case ml_prove ml t tip_id tip of
        (Err (LineageChainFailed e), t') \<Rightarrow> (Err (MeltChainUnreachable (DidProofFailed e)), t')
      | (Err (LineageNotProven e), t') \<Rightarrow> (Err (MeltRefused (TipNotGenuine tip_id e)), t')
      | (Ok launcher, t') \<Rightarrow>
          (if launcher \<noteq> an_launcher_id anchor
           then Err (MeltRefused (TipOfAnotherLauncher tip_id launcher (an_launcher_id anchor)))
           else Ok (), t'))"

fun map_store_read_error :: "edit_error \<Rightarrow> melt_error" where
  "map_store_read_error NoStore = MeltNoStore"
| "map_store_read_error (EditChainUnreachable reason) = MeltChainUnreachable (MeltSourceFailed reason)"
| "map_store_read_error other = MeltFormat other"

record melt_plan =
  pl_spends :: "coin_spend list"
  pl_did_coin :: coin
  pl_store_coin :: coin

definition plan_did_melt ::
  "('d, 'm, 'p, 'g) melt_tools \<Rightarrow> profile_anchor \<Rightarrow> wallet_key \<Rightarrow> chain_source \<Rightarrow> nat \<Rightarrow>
     (coin \<times> coin_spend list, melt_error) result \<times> nat"
where
  "plan_did_melt ml anchor w chain t =
     (case ml_walk ml t (an_launcher_id anchor) of
        (Err e, t1) \<Rightarrow> (Err (MeltChainUnreachable (DidWalkFailed e)), t1)
      | (Ok None, t1) \<Rightarrow> (Err MeltNoDid, t1)
      | (Ok (Some tip), t1) \<Rightarrow>
          (case pin_did_tip_to_anchor ml tip anchor t1 of
             (Err e, t2) \<Rightarrow> (Err e, t2)
           | (Ok _, t2) \<Rightarrow>
               (case require_still_alive (ml_id ml) (dv_coin tip) chain MeltNoDid t2 of
                  (Err e, t3) \<Rightarrow> (Err e, t3)
                | (Ok _, t3) \<Rightarrow>
                    (and_then (map_err (MeltBuild \<circ> DidMeltFailed) (ml_did_melt ml tip (wk_public_key w)))
                       (\<lambda>spends. Ok (dv_coin tip, spends)), t3))))"

definition plan_melt ::
  "('d, 'm, 'p, 'g) melt_tools \<Rightarrow> profile_anchor \<Rightarrow> wallet_key \<Rightarrow> singleton_source \<Rightarrow> nat \<Rightarrow>
     (melt_plan, melt_error) result \<times> nat"
where
  "plan_melt ml anchor w src t =
     (case plan_did_melt ml anchor w (ss_chain src) t of
        (Err e, t1) \<Rightarrow> (Err e, t1)
      | (Ok (did_coin, did_spends), t1) \<Rightarrow>
          (case resolve_store_tip (ml_merkle ml) anchor src t1 of
             (Err e, t2) \<Rightarrow> (Err (map_store_read_error e), t2)
           | (Ok store, t2) \<Rightarrow>
               (case gate_store_identity w (an_store_launcher_id anchor) store of
                  Err e \<Rightarrow> (Err (MeltRefused (StoreNotOurs e)), t2)
                | Ok _ \<Rightarrow>
                    (case require_still_alive (ml_id ml) (st_coin store) (ss_chain src) MeltNoStore t2 of
                       (Err e, t3) \<Rightarrow> (Err e, t3)
                     | (Ok _, t3) \<Rightarrow>
                         (and_then (map_err (MeltBuild \<circ> StoreMeltFailed)
                                      (mk_melt (ml_merkle ml) store (wk_public_key w)))
                            (\<lambda>store_spends. Ok \<lparr>pl_spends = did_spends @ store_spends,
                               pl_did_coin = did_coin, pl_store_coin = st_coin store\<rparr>), t3)))))"

section \<open>Naming the destruction\<close>

record deletion_preview =
  dp_did :: string
  dp_did_launcher_id :: bytes32
  dp_store_launcher_id :: bytes32
  dp_did_coin_id :: bytes32
  dp_store_coin_id :: bytes32
  dp_destroyed_mojos :: u64

text \<open>The sum is a plain \<open>u64\<close> addition: it wraps where overflow checks are off.\<close>

definition plan_preview ::
  "('d, 'm, 'p, 'g) melt_tools \<Rightarrow> melt_plan \<Rightarrow> profile_anchor \<Rightarrow> deletion_preview" where
  "plan_preview ml plan anchor =
     \<lparr>dp_did = an_did anchor, dp_did_launcher_id = an_launcher_id anchor,
      dp_store_launcher_id = an_store_launcher_id anchor,
      dp_did_coin_id = ml_id ml (pl_did_coin plan), dp_store_coin_id = ml_id ml (pl_store_coin plan),
      dp_destroyed_mojos = amount (pl_did_coin plan) + amount (pl_store_coin plan)\<rparr>"

definition melt_wallet_key ::
  "('d, 'm, 'p, 'g) melt_tools \<Rightarrow> liveness \<Rightarrow> profile_ix \<Rightarrow> (wallet_key, melt_error) result" where
  "melt_wallet_key ml live ix = (if live_at_check live 0 then Ok (ml_keys ml ix) else Err MeltLocked)"

definition preview_deletion ::
  "('d, 'm, 'p, 'g) melt_tools \<Rightarrow> liveness \<Rightarrow> profile_ix \<Rightarrow> profile_anchor \<Rightarrow> singleton_source \<Rightarrow> nat \<Rightarrow>
     (deletion_preview, melt_error) result \<times> nat"
where
  "preview_deletion ml live ix anchor src t =
     (case melt_wallet_key ml live ix of
        Err e \<Rightarrow> (Err e, t)
      | Ok w \<Rightarrow>
          (case plan_melt ml anchor w src t of
             (res, t1) \<Rightarrow> (and_then res (\<lambda>plan. Ok (plan_preview ml plan anchor)), t1)))"

section \<open>Gating, signing, pushing\<close>

text \<open>The gate is told the coin-id function and the ids of the two coins.\<close>

definition gate_profile_melt ::
  "(coin \<Rightarrow> bytes32) \<times> bytes32 \<times> bytes32 \<Rightarrow> wallet_key \<Rightarrow> mint_network \<Rightarrow> coin_spend list \<Rightarrow>
     required_signature list \<Rightarrow> (unit, melt_error) result"
where
  "gate_profile_melt ctx w net spends required =
     (let (cid, did_coin_id, store_coin_id) = ctx in
      if length spends \<noteq> 2 then Err (MeltRefused (MeltSpendCount (length spends)))
      else if sort (map (\<lambda>s. cid (spent_coin s)) spends) \<noteq> sort [did_coin_id, store_coin_id]
      then Err (MeltRefused MeltsAnotherCoin)
      else admit_requirements (MeltRefused MeltForeignKey) (MeltRefused MeltUnbound)
             (MeltRefused MeltNonBls) w net required)"

interpretation melting: signing_gate gate_profile_melt
  by unfold_locales (auto simp: gate_profile_melt_def admit_requirements_Ok split: if_splits prod.splits)

definition sign_melt ::
  "('d, 'm, 'p, 'g) melt_tools \<Rightarrow> wallet_key \<Rightarrow> mint_network \<Rightarrow> melt_plan \<Rightarrow>
     ('g spend_bundle \<times> bytes32 \<times> bytes32, melt_error) result"
where
  "sign_melt ml w net plan =
     (let did_coin_id = ml_id ml (pl_did_coin plan); store_coin_id = ml_id ml (pl_store_coin plan) in
      and_then (map_err (MeltBuild \<circ> MeltRequirementsUnreadable)
                  (mk_required (ml_merkle ml) (mn_me net) (pl_spends plan))) (\<lambda>required.
      and_then (gate_profile_melt (ml_id ml, did_coin_id, store_coin_id) w net (pl_spends plan) required)
        (\<lambda>_.
      and_then (sign_requirements (ml_scheme ml) (MeltRefused MeltNonBlsAfterGate) w
                  (sig_default (ml_scheme ml)) required) (\<lambda>signature.
      Ok (\<lparr>sb_coin_spends = pl_spends plan, sb_signature = signature\<rparr>, did_coin_id, store_coin_id)))))"

definition build_and_sign_melt ::
  "('d, 'm, 'p, 'g) melt_tools \<Rightarrow> profile_anchor \<Rightarrow> wallet_key \<Rightarrow> singleton_source \<Rightarrow> mint_network \<Rightarrow> nat \<Rightarrow>
     ('g spend_bundle \<times> bytes32 \<times> bytes32, melt_error) result \<times> nat"
where
  "build_and_sign_melt ml anchor w src net t =
     (case plan_melt ml anchor w src t of (res, t1) \<Rightarrow> (and_then res (sign_melt ml w net), t1))"

definition melt_profile ::
  "('d, 'm, 'p, 'g) melt_tools \<Rightarrow> liveness \<Rightarrow> profile_ix \<Rightarrow> profile_anchor \<Rightarrow> singleton_source \<Rightarrow>
     ('g, 'w, 'w) publisher \<Rightarrow> mint_network \<Rightarrow> nat \<Rightarrow> 'w \<Rightarrow> (melt_status, melt_error) result \<times> nat \<times> 'w"
where
  "melt_profile ml live ix anchor src pub net t p =
     (case melt_wallet_key ml live ix of
        Err e \<Rightarrow> (Err e, t, p)
      | Ok w \<Rightarrow>
          (case build_and_sign_melt ml anchor w src net t of
             (Err e, t1) \<Rightarrow> (Err e, t1, p)
           | (Ok (bun, did_coin_id, store_coin_id), t1) \<Rightarrow>
               (case pub bun p of
                  (Err e, p1) \<Rightarrow> (Err (MeltChainUnreachable (MeltPublisherFailed e)), t1, p1)
                | (Ok (PushRejected reason), p1) \<Rightarrow> (Err (MeltRejected reason), t1, p1)
                | (Ok _, p1) \<Rightarrow> (Ok (MeltPushed did_coin_id store_coin_id), t1, p1))))"

end
