(* ===== verification/Melting_Properties.thy ===== *)
theory Melting_Properties
  imports Profile_Melting Editing_Properties
begin

text \<open>
  What a deletion promises: the bundle it pushes melts exactly the two live singletons the anchor names,
  it is the one the preview described, a confirmation is earned from both coins, and a confirmed
  deletion can be recorded.
\<close>

section \<open>The plan\<close>

lemma pin_Ok:
  "pin_did_tip_to_anchor ml tip anchor t = (Ok (), t') \<longleftrightarrow>
     ml_prove ml t (ml_id ml (dv_coin tip)) tip = (Ok (an_launcher_id anchor), t')"
  by (auto simp: pin_did_tip_to_anchor_def Let_def split: prod.splits result.splits lineage_failure.splits
      if_splits)

lemma require_still_alive_Ok:
  "require_still_alive cid c chain gone t = (Ok (), t') \<longleftrightarrow>
     t' = Suc t \<and> confirmed_spendable_at cid chain t (cid c)"
proof (cases "confirm_spendable_by_name cid chain t c")
  case (Pair r s)
  show ?thesis
  proof (cases r)
    case (Ok u)
    with Pair confirm_one_iff [of cid chain t c s] show ?thesis
      by (auto simp: require_still_alive_def)
  next
    case (Err e)
    with Pair confirm_one_iff [of cid chain t c "Suc t"] confirm_one_time [of cid chain t c] show ?thesis
      by (auto simp: require_still_alive_def split: unconfirmed_input.splits option.splits)
  qed
qed

text \<open>
  What a plan established, for the anchor it was made for: the tip the walk found is proven to descend
  from the anchor's launcher, the store is the anchored one, this wallet's and without delegates, and
  both coins were read by name as confirmed and unspent.
\<close>

definition established ::
  "('d, 'm, 'p, 'g) melt_tools \<Rightarrow> profile_anchor \<Rightarrow> wallet_key \<Rightarrow> singleton_source \<Rightarrow> nat \<Rightarrow> melt_plan \<Rightarrow> bool"
where
  "established ml anchor w src t plan \<longleftrightarrow>
     (\<exists>tip store t1 t2 t3 ds ss.
        ml_walk ml t (an_launcher_id anchor) = (Ok (Some tip), t1) \<and>
        ml_prove ml t1 (ml_id ml (dv_coin tip)) tip = (Ok (an_launcher_id anchor), t2) \<and>
        confirmed_spendable_at (ml_id ml) (ss_chain src) t2 (ml_id ml (dv_coin tip)) \<and>
        resolve_store_tip (ml_merkle ml) anchor src (Suc t2) = (Ok store, t3) \<and>
        st_owner_puzzle_hash store = wk_puzzle_hash w \<and>
        st_launcher_id store = an_store_launcher_id anchor \<and> st_delegated_puzzles store = [] \<and>
        confirmed_spendable_at (ml_id ml) (ss_chain src) t3 (ml_id ml (st_coin store)) \<and>
        ml_did_melt ml tip (wk_public_key w) = Ok ds \<and>
        mk_melt (ml_merkle ml) store (wk_public_key w) = Ok ss \<and>
        plan = \<lparr>pl_spends = ds @ ss, pl_did_coin = dv_coin tip, pl_store_coin = st_coin store\<rparr>)"

lemma plan_did_melt_Ok:
  assumes "plan_did_melt ml anchor w chain t = (Ok (c, ds), t')"
  shows "\<exists>tip t1 t2. ml_walk ml t (an_launcher_id anchor) = (Ok (Some tip), t1) \<and>
    ml_prove ml t1 (ml_id ml (dv_coin tip)) tip = (Ok (an_launcher_id anchor), t2) \<and>
    confirmed_spendable_at (ml_id ml) chain t2 (ml_id ml (dv_coin tip)) \<and> t' = Suc t2 \<and>
    ml_did_melt ml tip (wk_public_key w) = Ok ds \<and> c = dv_coin tip"
  using assms
  by (auto simp: plan_did_melt_def pin_Ok require_still_alive_Ok result_simps
      split: prod.splits result.splits option.splits)

lemma plan_melt_Ok:
  assumes "plan_melt ml anchor w src t = (Ok plan, t')"
  shows "established ml anchor w src t plan"
proof -
  obtain c ds t1 where did: "plan_did_melt ml anchor w (ss_chain src) t = (Ok (c, ds), t1)"
    using assms by (auto simp: plan_melt_def split: prod.splits result.splits)
  then obtain store t2 where store: "resolve_store_tip (ml_merkle ml) anchor src t1 = (Ok store, t2)"
    and gate: "gate_store_identity w (an_store_launcher_id anchor) store = Ok ()"
    and alive: "require_still_alive (ml_id ml) (st_coin store) (ss_chain src) MeltNoStore t2 = (Ok (), Suc t2)"
    and rest: "and_then (map_err (MeltBuild \<circ> StoreMeltFailed) (mk_melt (ml_merkle ml) store (wk_public_key w)))
      (\<lambda>ss. Ok \<lparr>pl_spends = ds @ ss, pl_did_coin = c, pl_store_coin = st_coin store\<rparr>) = Ok plan"
    using assms
    by (auto simp: plan_melt_def require_still_alive_Ok split: prod.splits result.splits)
  note d = plan_did_melt_Ok [OF did]
  have "confirmed_spendable_at (ml_id ml) (ss_chain src) t2 (ml_id ml (st_coin store))"
    using alive by (simp add: require_still_alive_Ok)
  then show ?thesis
    using d store gate rest unfolding established_def gate_store_identity_Ok
    by (fastforce simp: result_simps)
qed

section \<open>What is signed and pushed\<close>

text \<open>A bundle that melts exactly the plan's two coins, signed for them alone.\<close>

definition melts ::
  "('d, 'm, 'p, 'g) melt_tools \<Rightarrow> wallet_key \<Rightarrow> mint_network \<Rightarrow> melt_plan \<Rightarrow> 'g spend_bundle \<Rightarrow> bool"
where
  "melts ml w net plan b \<longleftrightarrow>
     sb_coin_spends b = pl_spends plan \<and>
     mset (map (ml_id ml \<circ> spent_coin) (sb_coin_spends b)) =
       {#ml_id ml (pl_did_coin plan), ml_id ml (pl_store_coin plan)#} \<and>
     (\<exists>required. mk_required (ml_merkle ml) (mn_me net) (sb_coin_spends b) = Ok required \<and>
        list_all (own_bound_signature w net) required \<and>
        sb_signature b = aggregate (ml_scheme ml) w (bls_messages (ml_scheme ml) required))"

lemma sort_two: "sort xs = sort ys \<longleftrightarrow> mset xs = mset ys"
  by (metis mset_sort properties_for_sort sorted_sort)

lemma gate_profile_melt_Ok:
  assumes "gate_profile_melt (cid, d, s) w net spends required = Ok ()"
  shows "mset (map (cid \<circ> spent_coin) spends) = {#d, s#}"
proof -
  have "sort (map (\<lambda>s. cid (spent_coin s)) spends) = sort [d, s]"
    using assms by (simp add: gate_profile_melt_def split: if_splits)
  then have "mset (map (\<lambda>s. cid (spent_coin s)) spends) = mset [d, s]"
    by (simp only: sort_two)
  then show ?thesis by (simp add: comp_def)
qed

lemma sign_melt_Ok:
  assumes "sign_melt ml w net plan = Ok (b, d, s)"
  shows "melts ml w net plan b \<and> d = ml_id ml (pl_did_coin plan) \<and> s = ml_id ml (pl_store_coin plan)"
proof -
  obtain required where req: "mk_required (ml_merkle ml) (mn_me net) (pl_spends plan) = Ok required"
    and gate: "gate_profile_melt (ml_id ml, ml_id ml (pl_did_coin plan), ml_id ml (pl_store_coin plan)) w net
        (pl_spends plan) required = Ok ()"
    and sig: "sign_requirements (ml_scheme ml) (MeltRefused MeltNonBlsAfterGate) w
        (sig_default (ml_scheme ml)) required = Ok (sb_signature b)"
    and b: "sb_coin_spends b = pl_spends plan" "d = ml_id ml (pl_did_coin plan)"
      "s = ml_id ml (pl_store_coin plan)"
    using assms by (auto simp: sign_melt_def Let_def result_simps)
  have "sb_signature b = aggregate (ml_scheme ml) w (bls_messages (ml_scheme ml) required)"
    using sig unfolding melting.gated_signature [OF gate] by simp
  then show ?thesis
    using req b gate_profile_melt_Ok [OF gate] melting.gate_own [OF gate] by (simp add: melts_def comp_def)
qed

text \<open>The status a push means.\<close>

fun melt_answered :: "bytes32 \<Rightarrow> bytes32 \<Rightarrow> (push_outcome, string) result \<Rightarrow> (melt_status, melt_error) result"
where
  "melt_answered d s (Ok (PushRejected reason)) = Err (MeltRejected reason)"
| "melt_answered d s (Ok _) = Ok (MeltPushed d s)"
| "melt_answered d s (Err e) = Err (MeltChainUnreachable (MeltPublisherFailed e))"

lemma melt_profile_cases:
  "(\<exists>e t'. melt_profile ml live ix anchor src (recording answer) net t bs = (Err e, t', bs)) \<or>
   (\<exists>plan t' b. live_at_check live 0 \<and> plan_melt ml anchor (ml_keys ml ix) src t = (Ok plan, t') \<and>
      melts ml (ml_keys ml ix) net plan b \<and>
      melt_profile ml live ix anchor src (recording answer) net t bs =
        (melt_answered (ml_id ml (pl_did_coin plan)) (ml_id ml (pl_store_coin plan)) (answer b), t', bs @ [b]))"
proof (cases "live_at_check live 0")
  case False
  then show ?thesis by (simp add: melt_profile_def melt_wallet_key_def)
next
  case live: True
  let ?w = "ml_keys ml ix"
  obtain res t' where p: "build_and_sign_melt ml anchor ?w src net t = (res, t')" by fastforce
  show ?thesis
  proof (cases res)
    case (Err e)
    then show ?thesis using live p by (simp add: melt_profile_def melt_wallet_key_def)
  next
    case (Ok bds)
    obtain b d s where bds: "bds = (b, d, s)" by (cases bds)
    then obtain plan where plan: "plan_melt ml anchor ?w src t = (Ok plan, t')"
      and signed: "sign_melt ml ?w net plan = Ok (b, d, s)"
      using p Ok by (auto simp: build_and_sign_melt_def result_simps split: prod.splits)
    have "melt_profile ml live ix anchor src (recording answer) net t bs =
        (melt_answered d s (answer b), t', bs @ [b])"
      using live p Ok bds
      by (cases "answer b" rule: answered.cases) (simp_all add: melt_profile_def melt_wallet_key_def recording_def)
    then show ?thesis using live plan sign_melt_Ok [OF signed] by blast
  qed
qed


text \<open>C14: A deletion pushes at most one bundle, only while unlocked when it began, and that bundle melts
  exactly the profile the anchor names: its two spends are the DID's tip, proven to descend from the
  anchor's own launcher, and the store's tip, the anchored store owned by this wallet without
  delegates; both were read by name as confirmed and unspent in this very call, and the signature
  covers only AGG_SIG_ME messages under the wallet's own key.\<close>

theorem deletion_melts_exactly_the_anchored_profile:
  "\<exists>bundles. snd (snd (melt_profile ml live ix anchor src (recording answer) net t bs)) = bs @ bundles \<and>
     length bundles \<le> 1 \<and>
     (\<forall>b. b \<notin> set bundles \<or> live_at_check live 0 \<and>
        (\<exists>plan. established ml anchor (ml_keys ml ix) src t plan \<and> melts ml (ml_keys ml ix) net plan b))"
  using melt_profile_cases [of ml live ix anchor src answer net t bs]
proof (elim disjE exE conjE)
  fix e t'
  assume "melt_profile ml live ix anchor src (recording answer) net t bs = (Err e, t', bs)"
  then show ?thesis by (intro exI [of _ "[]"]) simp
next
  fix plan t' b
  assume "live_at_check live 0" "plan_melt ml anchor (ml_keys ml ix) src t = (Ok plan, t')"
    "melts ml (ml_keys ml ix) net plan b"
    "melt_profile ml live ix anchor src (recording answer) net t bs =
      (melt_answered (ml_id ml (pl_did_coin plan)) (ml_id ml (pl_store_coin plan)) (answer b), t', bs @ [b])"
  then show ?thesis by (intro exI [of _ "[b]"]) (auto dest: plan_melt_Ok)
qed

text \<open>C36: The consent surface and the signing path are one build. Against the same answers, a deletion
  that pushes a bundle is one whose preview succeeded after the same reads, naming the anchor's own DID
  and launchers, exactly the two coins the bundle spends, and the mojos they hold, which are exact
  unless the two amounts together exceed 64 bits; and a preview that refuses means the deletion refuses
  with the same error, after the same reads, and pushes nothing.\<close>

theorem deletion_is_what_was_previewed:
  assumes run: "melt_profile ml live ix anchor src (recording answer) net t [] = (res, t', bundles)"
  shows "(\<forall>b. b \<notin> set bundles \<or>
      (\<exists>pv. preview_deletion ml live ix anchor src t = (Ok pv, t') \<and> dp_did pv = an_did anchor \<and>
         dp_did_launcher_id pv = an_launcher_id anchor \<and>
         dp_store_launcher_id pv = an_store_launcher_id anchor \<and>
         mset (map (ml_id ml \<circ> spent_coin) (sb_coin_spends b)) =
           {#dp_did_coin_id pv, dp_store_coin_id pv#} \<and>
         (\<exists>plan. established ml anchor (ml_keys ml ix) src t plan \<and>
            unat (dp_destroyed_mojos pv) =
              (unat (amount (pl_did_coin plan)) + unat (amount (pl_store_coin plan))) mod 2 ^ 64))) \<and>
    (\<forall>e s. preview_deletion ml live ix anchor src t \<noteq> (Err e, s) \<or>
      res = Err e \<and> t' = s \<and> bundles = [])"
proof (intro conjI allI)
  fix b
  show "b \<notin> set bundles \<or>
      (\<exists>pv. preview_deletion ml live ix anchor src t = (Ok pv, t') \<and> dp_did pv = an_did anchor \<and>
         dp_did_launcher_id pv = an_launcher_id anchor \<and>
         dp_store_launcher_id pv = an_store_launcher_id anchor \<and>
         mset (map (ml_id ml \<circ> spent_coin) (sb_coin_spends b)) =
           {#dp_did_coin_id pv, dp_store_coin_id pv#} \<and>
         (\<exists>plan. established ml anchor (ml_keys ml ix) src t plan \<and>
            unat (dp_destroyed_mojos pv) =
              (unat (amount (pl_did_coin plan)) + unat (amount (pl_store_coin plan))) mod 2 ^ 64))"
    using melt_profile_cases [of ml live ix anchor src answer net t "[]"]
  proof (elim disjE exE conjE)
    fix e s
    assume "melt_profile ml live ix anchor src (recording answer) net t [] = (Err e, s, [])"
    then show ?thesis using run by simp
  next
    fix plan s b'
    assume live: "live_at_check live 0" and plan: "plan_melt ml anchor (ml_keys ml ix) src t = (Ok plan, s)"
      and melts: "melts ml (ml_keys ml ix) net plan b'"
      and eq: "melt_profile ml live ix anchor src (recording answer) net t [] =
        (melt_answered (ml_id ml (pl_did_coin plan)) (ml_id ml (pl_store_coin plan)) (answer b'), s, [] @ [b'])"
    have "preview_deletion ml live ix anchor src t = (Ok (plan_preview ml plan anchor), s)"
      using live plan by (simp add: preview_deletion_def melt_wallet_key_def)
    then show ?thesis
      using run eq melts plan_melt_Ok [OF plan]
      by (auto simp: plan_preview_def melts_def unat_word_ariths)
  qed
next
  fix e s
  show "preview_deletion ml live ix anchor src t \<noteq> (Err e, s) \<or> res = Err e \<and> t' = s \<and> bundles = []"
    using run
    by (cases "live_at_check live 0")
       (auto simp: preview_deletion_def melt_profile_def melt_wallet_key_def build_and_sign_melt_def
         result_simps split: prod.splits result.splits)
qed

text \<open>A deletion is reported confirmed exactly when both of its coins were read, each under its own
  id, as spent, and then at the later of the two heights: one melted half is never a finished
  deletion, a coin the source cannot find or answers for with another is an unknown, and nothing else
  is an end.\<close>

theorem melt_confirmation_is_earned:
  "melt_status_of ml d s chain t = (Ok (MeltConfirmed h), t') \<longleftrightarrow>
     t' = t + 2 \<and>
     (\<exists>a b x y. ask_coin_record chain t d = Ok (Some a) \<and> ml_id ml (rec_coin a) = d \<and> spent_height a = Some x \<and>
        ask_coin_record chain (Suc t) s = Ok (Some b) \<and> ml_id ml (rec_coin b) = s \<and> spent_height b = Some y \<and>
        h = max x y)"
  by (auto simp: melt_status_of_def spent_height_of_def split: result.splits option.splits if_splits)

text \<open>A confirmed deletion can be recorded. Once both coins are reported spent, recording the end
  of a profile the registry knows succeeds, keeps the registry well-formed and leaves that profile
  ended, at the confirmed height if it was live; the one exception is the state whose active profile's
  heir is hidden, where the recording panics.\<close>

theorem confirmed_deletion_is_recordable:
  assumes wf: "registry_wf did_of r" and known: "registry_get r ix = Some e"
    and status: "melt_status_of ml d s chain t = (Ok (MeltConfirmed h), t')" and h: "h \<noteq> 0"
  shows "(case record_melted did_of ix h r of
      Panics r' \<Rightarrow> active_ix r = Some ix \<and> (\<exists>x. heir_of r ix = Some x \<and> \<not> is_shown x)
    | Returns res r' \<Rightarrow> (\<exists>out. res = Ok out) \<and> registry_wf did_of r' \<and>
        registry_get r' ix = Some (if is_live e then entry_end \<lparr>end_at_height = h\<rparr> e else e))"
proof (cases "is_live e")
  case False
  then show ?thesis using known h wf by (simp add: record_melted_def profile_end_at_def)
next
  case True
  note run = record_melted_live [OF wf h known True]
  have get: "registry_get (after_end ix h r) ix = Some (entry_end \<lparr>end_at_height = h\<rparr> e)"
    using known by (auto simp: after_end_def Let_def get_write_entry [OF keeps_identity_writes(3)])
  show ?thesis
  proof (cases "registry_ok did_of (after_end ix h r)")
    case ok: True
    then show ?thesis
      using run True get after_end_static [OF wf h] by (simp add: expect_valid_eq registry_wf_def)
  next
    case bad: False
    then have "cmd_panics r (RecordMelted ix h)"
      using after_end_static [OF wf h] after_end_active [OF wf known True h]
      by (simp add: registry_ok_def)
    with run bad show ?thesis by (auto simp: expect_valid_eq split: option.splits)
  qed
qed

section \<open>Samples\<close>

definition sample_melt_tools ::
  "required_signature list \<Rightarrow> (unit, unit, unit, byte list list) melt_tools" where
  "sample_melt_tools required =
     \<lparr>ml_id = sample_mint_id, ml_walk = (\<lambda>t i. (Ok (Some sample_did_value), Suc t)),
      ml_prove = (\<lambda>t i d. (Ok 301, Suc t)),
      ml_did_melt = (\<lambda>d pk. Ok [plain_spend (dv_coin d)]),
      ml_merkle =
        \<lparr>mk_hydrate = (\<lambda>s. Ok (store_after s)),
         mk_update_root = (\<lambda>store pk m. Err []),
         mk_melt = (\<lambda>store pk. Ok [plain_spend (st_coin store)]), mk_required = (\<lambda>me spends. Ok required)\<rparr>,
      ml_scheme = \<lparr>sig_default = [], sig_add = (@), sig_sign = (\<lambda>w m. [m]), sig_message = br_raw_message\<rparr>,
      ml_keys = (\<lambda>ix. sample_wallet)\<rparr>"

abbreviation own_requirement :: required_signature where
  "own_requirement \<equiv>
     Bls \<lparr>br_public_key = [7], br_raw_message = [4], br_appended_info = [], br_domain_string = Some 6\<rparr>"

definition sample_plan :: melt_plan where
  "sample_plan =
     \<lparr>pl_spends = [plain_spend (dv_coin sample_did_value),
                   plain_spend \<lparr>parent_coin_info = 501, puzzle_hash = 72, amount = 1\<rparr>],
      pl_did_coin = dv_coin sample_did_value,
      pl_store_coin = \<lparr>parent_coin_info = 501, puzzle_hash = 72, amount = 1\<rparr>\<rparr>"

lemma sample_alive:
  "require_still_alive sample_mint_id (dv_coin sample_did_value) (sample_mint_chain 100) gone t = (Ok (), Suc t)"
  "require_still_alive sample_mint_id \<lparr>parent_coin_info = 501, puzzle_hash = 72, amount = 1\<rparr>
     (sample_mint_chain 100) gone t = (Ok (), Suc t)"
  by (simp_all add: require_still_alive_Ok confirmed_spendable_at_def sample_mint_simps)

lemma sample_planned:
  "plan_melt (sample_melt_tools required) anchored sample_wallet still_store 0 = (Ok sample_plan, 6)"
proof -
  have "pin_did_tip_to_anchor (sample_melt_tools required) sample_did_value anchored 1 = (Ok (), 2)"
    by (simp add: pin_Ok sample_melt_tools_def sample_anchor_def)
  then have did: "plan_did_melt (sample_melt_tools required) anchored sample_wallet (sample_mint_chain 100) 0 =
      (Ok (dv_coin sample_did_value, [plain_spend (dv_coin sample_did_value)]), 3)"
    by (simp add: plan_did_melt_def sample_melt_tools_def sample_alive)
  have tip: "resolve_store_tip (ml_merkle (sample_melt_tools required)) anchored still_store 3 =
      (Ok (store_after launch_spend), 5)"
    by (simp add: resolve_store_tip_def still_store_def store_chain_def sample_melt_tools_def sample_anchor_def)
  have src: "ss_chain still_store = sample_mint_chain 100"
    by (simp add: still_store_def store_chain_def)
  have coin: "st_coin (store_after launch_spend) = \<lparr>parent_coin_info = 501, puzzle_hash = 72, amount = 1\<rparr>"
    "st_owner_puzzle_hash (store_after launch_spend) = 9" "st_launcher_id (store_after launch_spend) = 501"
    "st_delegated_puzzles (store_after launch_spend) = []"
    by (simp_all add: store_after_def remade_def launch_spend_def root_spend_def sample_mint_id_def)
  show ?thesis
    unfolding plan_melt_def src did
    by (simp only: tip prod.case result.case)
       (simp add: gate_store_identity_def coin sample_wallet_def sample_anchor_def sample_alive
        sample_melt_tools_def sample_plan_def)
qed

abbreviation sample_melt where
  "sample_melt required \<equiv> melt_profile (sample_melt_tools required) sample_live root_ix anchored
     still_store (recording (\<lambda>b. Ok Accepted)) sample_network 0 []"

definition sample_melt_bundle :: "byte list list spend_bundle" where
  "sample_melt_bundle = \<lparr>sb_coin_spends = pl_spends sample_plan, sb_signature = [[4]]\<rparr>"

lemma sample_melted:
  "sample_melt [own_requirement] = (Ok (MeltPushed 301 601), 6, [sample_melt_bundle])"
  "sample_melt [Secp] = (Err (MeltRefused MeltNonBls), 6, [])"
proof -
  have key: "melt_wallet_key (sample_melt_tools required) sample_live root_ix = Ok sample_wallet" for required
    by (simp add: melt_wallet_key_def sample_live_def live_at_check_def residency_is_live_def
        residency_new_def sample_melt_tools_def)
  have tools: "mk_required (ml_merkle (sample_melt_tools required)) me spends = Ok required"
    "ml_id (sample_melt_tools required) = sample_mint_id" for required me spends
    by (simp_all add: sample_melt_tools_def)
  have "sign_melt (sample_melt_tools [own_requirement]) sample_wallet sample_network sample_plan =
      Ok (sample_melt_bundle, 301, 601)"
    by (simp add: sign_melt_def tools gate_profile_melt_def)
       (simp add: sample_plan_def sample_mint_simps sample_wallet_def sample_melt_tools_def sample_melt_bundle_def)
  moreover have "sign_melt (sample_melt_tools [Secp]) sample_wallet sample_network sample_plan =
      Err (MeltRefused MeltNonBls)"
    by (simp add: sign_melt_def tools gate_profile_melt_def)
       (simp add: sample_plan_def sample_mint_simps)
  ultimately show "sample_melt [own_requirement] = (Ok (MeltPushed 301 601), 6, [sample_melt_bundle])"
    "sample_melt [Secp] = (Err (MeltRefused MeltNonBls), 6, [])"
    by (simp_all add: melt_profile_def key build_and_sign_melt_def sample_planned recording_def)
qed

theorem deletion_melts_exactly_the_anchored_profile_witness:
  "\<exists>plan. established (sample_melt_tools [own_requirement]) anchored sample_wallet still_store 0 plan \<and>
     melts (sample_melt_tools [own_requirement]) sample_wallet sample_network plan sample_melt_bundle"
proof -
  have "ml_keys (sample_melt_tools [own_requirement]) root_ix = sample_wallet"
    by (simp add: sample_melt_tools_def)
  then show ?thesis
    using deletion_melts_exactly_the_anchored_profile [of "sample_melt_tools [own_requirement]" sample_live root_ix
        anchored still_store "\<lambda>b. Ok Accepted" sample_network 0 "[]"]
    unfolding sample_melted by auto
qed

theorem deletion_is_what_was_previewed_witness:
  "\<exists>pv. preview_deletion (sample_melt_tools [own_requirement]) sample_live root_ix anchored
      still_store 0 = (Ok pv, 6) \<and> dp_did pv = ''did''"
proof -
  have "an_did anchored = ''did''" by (simp add: sample_anchor_def)
  then show ?thesis using deletion_is_what_was_previewed [OF sample_melted(1)] by auto
qed

text \<open>The preview promises every refusal of the deletion, but it stops before the gate over the built
  spends: here it succeeds and the deletion is refused.\<close>

lemma preview_skips_the_gate:
  "(\<exists>pv. preview_deletion (sample_melt_tools [Secp]) sample_live root_ix anchored still_store 0 =
      (Ok pv, 6)) \<and>
   sample_melt [Secp] = (Err (MeltRefused MeltNonBls), 6, [])"
proof -
  have "melt_wallet_key (sample_melt_tools [Secp]) sample_live root_ix = Ok sample_wallet"
    by (simp add: melt_wallet_key_def sample_live_def live_at_check_def residency_is_live_def
        residency_new_def sample_melt_tools_def)
  then show ?thesis by (simp add: preview_deletion_def sample_planned sample_melted)
qed

definition sample_melted_chain :: chain_source where
  "sample_melted_chain = (sample_mint_chain 100)\<lparr>ask_coin_record := (\<lambda>t i.
     Ok (Some \<lparr>rec_coin = \<lparr>parent_coin_info = i - 100, puzzle_hash = 9, amount = 1\<rparr>,
               confirmed_height = Some 45, spent_height = Some (if i = 301 then 90 else 80)\<rparr>))\<rparr>"

lemma sample_ended:
  "melt_status_of (sample_melt_tools [own_requirement]) 301 601 sample_melted_chain 0 = (Ok (MeltConfirmed 90), 2)"
  by (simp add: melt_status_of_def spent_height_of_def
      sample_melted_chain_def sample_melt_tools_def sample_mint_id_def)

theorem confirmed_deletion_is_recordable_witness:
  "case record_melted sample_did_of (ProfileIx 1) 90 (sample_registry sample_did_of) of
      Panics r' \<Rightarrow> False
    | Returns res r' \<Rightarrow>
        registry_get r' (ProfileIx 1) = Some (entry_end \<lparr>end_at_height = 90\<rparr>
          (profile_entry_new (ProfileIx 1) (sample_anchor sample_did_of 2) None))"
proof -
  have "(90 :: u32) \<noteq> 0" by simp
  from confirmed_deletion_is_recordable [where did_of = sample_did_of,
      OF sample_wf sample_get(2) sample_ended this]
  show ?thesis by (simp add: sample_active split: run.splits)
qed

end
