(* ===== verification/Profile_Resolution.thy ===== *)
theory Profile_Resolution
  imports Profile_Editing
begin

text \<open>
  Resolving a profile's store from its DID (\<open>src/profile_resolve.rs\<close>): the DID's lineage is
  stepped through spend by spend, each child coin recomputed from the parent's own spend; every
  intermediate launcher found on the way is followed to the store launcher it creates, and the
  launchers that still name a live singleton are the answer.

  CLVM decoding, tree hashing, evaluation under the cost bound and the reading of a condition list
  are \<open>clvmr\<close> and the Chia SDK: the record \<open>clvm\<close>, with the reveal bound and the
  singleton launcher's puzzle hash, which come from there too. A \<open>BTreeSet\<close> of visited ids is
  a list without repetitions.
\<close>

section \<open>Constants and verdicts\<close>

definition PROFILE_INTERMEDIATE_PUZZLE_HASH :: bytes32 where
  "PROFILE_INTERMEDIATE_PUZZLE_HASH =
     0x08300fbcd75af5895bdb4c2fbd6f326c97b8f62ef73bc0690a2e827feb61fbe3"

definition MAX_PROFILE_LAUNCHES_PER_DID :: nat where
  "MAX_PROFILE_LAUNCHES_PER_DID = 8"

datatype profile_store_resolution =
    ResolvedStore bytes32 bytes32
  | NoProfileStore
  | AmbiguousStores "bytes32 list"

datatype distrust =
    LauncherCoinUnknown
  | SpendOfAnother bytes32
  | RevealTooLong nat
  | RevealUndecodable string
  | RevealHashMismatch
  | SolutionUndecodable string
  | NotEvaluable string
  | NotConditions string
  | ManySuccessors nat
  | LineageCycle
  | PartialLineage nat nat
  | ManyLaunchers nat

datatype profile_resolve_error =
    NoIdentitySingleton
  | ResolveChainUnreachable string
  | Unparseable bytes32 distrust
  | TooManyLaunches nat

section \<open>Reading a spend\<close>

datatype evaluated_condition = CreatesCoin bytes32 u64 | OtherCondition

record 'n clvm =
  cl_max_reveal :: nat
  cl_launcher_hash :: bytes32
  cl_decode :: "byte list \<Rightarrow> ('n, string) result"
  cl_tree_hash :: "'n \<Rightarrow> bytes32"
  cl_run :: "'n \<Rightarrow> 'n \<Rightarrow> ('n, string) result"
  cl_conditions :: "'n \<Rightarrow> (evaluated_condition list, string) result"

definition into_create_coin :: "evaluated_condition \<Rightarrow> (bytes32 \<times> u64) option" where
  "into_create_coin c = (case c of CreatesCoin ph a \<Rightarrow> Some (ph, a) | OtherCondition \<Rightarrow> None)"

definition read_spend_of ::
  "(coin \<Rightarrow> bytes32) \<Rightarrow> singleton_source \<Rightarrow> coin \<Rightarrow> nat \<Rightarrow>
     (coin_spend option, profile_resolve_error) result \<times> nat"
where
  "read_spend_of cid src c t =
     (case ask_coin_spend src t (cid c) of
        Err e \<Rightarrow> Err (ResolveChainUnreachable e)
      | Ok None \<Rightarrow> Ok None
      | Ok (Some s) \<Rightarrow>
          (if spent_coin s \<noteq> c then Err (Unparseable (cid c) (SpendOfAnother (cid (spent_coin s))))
           else Ok (Some s)), Suc t)"

definition created_coins ::
  "(coin \<Rightarrow> bytes32) \<Rightarrow> 'n clvm \<Rightarrow> coin_spend \<Rightarrow> ((bytes32 \<times> u64) list, profile_resolve_error) result"
where
  "created_coins cid cl s =
     (let refuse = Unparseable (cid (spent_coin s)) in
      and_then (if cl_max_reveal cl < length (puzzle_reveal s)
                then Err (refuse (RevealTooLong (length (puzzle_reveal s)))) else Ok ()) (\<lambda>_.
      and_then (map_err (refuse \<circ> RevealUndecodable) (cl_decode cl (puzzle_reveal s))) (\<lambda>puzzle.
      and_then (if cl_tree_hash cl puzzle \<noteq> puzzle_hash (spent_coin s)
                then Err (refuse RevealHashMismatch) else Ok ()) (\<lambda>_.
      and_then (map_err (refuse \<circ> SolutionUndecodable) (cl_decode cl (solution s))) (\<lambda>sol.
      and_then (map_err (refuse \<circ> NotEvaluable) (cl_run cl puzzle sol)) (\<lambda>out.
      and_then (map_err (refuse \<circ> NotConditions) (cl_conditions cl out)) (\<lambda>conditions.
      Ok (List.map_filter into_create_coin conditions))))))))"

section \<open>The launches of a DID\<close>

definition child_of :: "(coin \<Rightarrow> bytes32) \<Rightarrow> coin \<Rightarrow> bytes32 \<times> u64 \<Rightarrow> coin" where
  "child_of cid c created =
     \<lparr>parent_coin_info = cid c, puzzle_hash = fst created, amount = snd created\<rparr>"

definition profile_intermediate :: "coin \<Rightarrow> bool" where
  "profile_intermediate c \<longleftrightarrow>
     puzzle_hash c = PROFILE_INTERMEDIATE_PUZZLE_HASH \<and> amount c = INTERMEDIATE_AMOUNT"

text \<open>The loop over what one spend creates: the launches so far, and the authenticated successors.\<close>

fun sort_children ::
  "(coin \<Rightarrow> bytes32) \<Rightarrow> lineage \<Rightarrow> coin \<Rightarrow> (bytes32 \<times> u64) list \<Rightarrow> (bytes32 \<times> coin) list \<Rightarrow> coin list \<Rightarrow>
     ((bytes32 \<times> coin) list \<times> coin list, profile_resolve_error) result"
where
  "sort_children cid lin c [] launches successors = Ok (launches, successors)"
| "sort_children cid lin c (x # xs) launches successors =
     (let child = child_of cid c x in
      if profile_intermediate child \<and> length launches = MAX_PROFILE_LAUNCHES_PER_DID
      then Err (TooManyLaunches MAX_PROFILE_LAUNCHES_PER_DID)
      else sort_children cid lin c xs
             (if profile_intermediate child then launches @ [(cid c, child)] else launches)
             (if ln_contains lin (cid child) then successors @ [child] else successors))"

text \<open>The steps of the enumeration, at most one per lineage member.\<close>

fun step_lineage ::
  "(coin \<Rightarrow> bytes32) \<Rightarrow> 'n clvm \<Rightarrow> singleton_source \<Rightarrow> lineage \<Rightarrow> nat \<Rightarrow> coin \<Rightarrow> bytes32 list \<Rightarrow>
     (bytes32 \<times> coin) list \<Rightarrow> nat \<Rightarrow>
     (coin \<times> bytes32 list \<times> (bytes32 \<times> coin) list, profile_resolve_error) result \<times> nat"
where
  "step_lineage cid cl src lin 0 c visited launches t = (Ok (c, visited, launches), t)"
| "step_lineage cid cl src lin (Suc n) c visited launches t =
     (case read_spend_of cid src c t of
        (Err e, t1) \<Rightarrow> (Err e, t1)
      | (Ok None, t1) \<Rightarrow> (Ok (c, visited, launches), t1)
      | (Ok (Some s), t1) \<Rightarrow>
          (case and_then (created_coins cid cl s) (\<lambda>outs.
                  sort_children cid lin c outs launches []) of
             Err e \<Rightarrow> (Err e, t1)
           | Ok (launches1, []) \<Rightarrow> (Ok (c, visited, launches1), t1)
           | Ok (launches1, [next]) \<Rightarrow>
               (if cid next \<in> set visited then (Err (Unparseable (cid next) LineageCycle), t1)
                else step_lineage cid cl src lin n next (visited @ [cid next]) launches1 t1)
           | Ok (launches1, successors) \<Rightarrow>
               (Err (Unparseable (cid c) (ManySuccessors (length successors))), t1)))"

definition profile_intermediates ::
  "(coin \<Rightarrow> bytes32) \<Rightarrow> 'n clvm \<Rightarrow> singleton_source \<Rightarrow> coin \<Rightarrow> lineage \<Rightarrow> nat \<Rightarrow>
     ((bytes32 \<times> coin) list, profile_resolve_error) result \<times> nat"
where
  "profile_intermediates cid cl src launcher lin t =
     (case step_lineage cid cl src lin (ln_len lin) launcher [cid launcher] [] t of
        (Err e, t1) \<Rightarrow> (Err e, t1)
      | (Ok (c, visited, launches), t1) \<Rightarrow>
          (if length visited \<noteq> ln_len lin
           then (Err (Unparseable (cid c) (PartialLineage (ln_len lin) (length visited))), t1)
           else (Ok launches, t1)))"

section \<open>From a launch to its store\<close>

definition store_launcher :: "'n clvm \<Rightarrow> coin \<Rightarrow> bool" where
  "store_launcher cl c \<longleftrightarrow> puzzle_hash c = cl_launcher_hash cl \<and> amount c = LAUNCHER_AMOUNT"

definition launcher_created_by ::
  "(coin \<Rightarrow> bytes32) \<Rightarrow> 'n clvm \<Rightarrow> singleton_source \<Rightarrow> coin \<Rightarrow> nat \<Rightarrow>
     (bytes32 option, profile_resolve_error) result \<times> nat"
where
  "launcher_created_by cid cl src intermediate t =
     (case read_spend_of cid src intermediate t of
        (Err e, t1) \<Rightarrow> (Err e, t1)
      | (Ok None, t1) \<Rightarrow> (Ok None, t1)
      | (Ok (Some s), t1) \<Rightarrow>
          (and_then (created_coins cid cl s) (\<lambda>outs.
             case filter (store_launcher cl) (map (child_of cid intermediate) outs) of
               [] \<Rightarrow> Ok None
             | [only] \<Rightarrow> Ok (Some (cid only))
             | launchers \<Rightarrow> Err (Unparseable (cid intermediate) (ManyLaunchers (length launchers)))), t1))"

fun live_stores ::
  "(coin \<Rightarrow> bytes32) \<Rightarrow> 'n clvm \<Rightarrow> singleton_source \<Rightarrow> (bytes32 \<times> coin) list \<Rightarrow> (bytes32 \<times> bytes32) list \<Rightarrow>
     nat \<Rightarrow> ((bytes32 \<times> bytes32) list, profile_resolve_error) result \<times> nat"
where
  "live_stores cid cl src [] live t = (Ok live, t)"
| "live_stores cid cl src ((did_coin_id, intermediate) # launches) live t =
     (case launcher_created_by cid cl src intermediate t of
        (Err e, t1) \<Rightarrow> (Err e, t1)
      | (Ok None, t1) \<Rightarrow> live_stores cid cl src launches live t1
      | (Ok (Some store), t1) \<Rightarrow>
          (case ask_lineage src t1 store of
             Err e \<Rightarrow> (Err (ResolveChainUnreachable e), Suc t1)
           | Ok None \<Rightarrow> live_stores cid cl src launches live (Suc t1)
           | Ok (Some l) \<Rightarrow>
               live_stores cid cl src launches (btree_insert id store did_coin_id live) (Suc t1)))"

definition resolve_profile_store ::
  "(coin \<Rightarrow> bytes32) \<Rightarrow> 'n clvm \<Rightarrow> singleton_source \<Rightarrow> bytes32 \<Rightarrow> nat \<Rightarrow>
     (profile_store_resolution, profile_resolve_error) result \<times> nat"
where
  "resolve_profile_store cid cl src did_launcher_id t =
     (case ask_lineage src t did_launcher_id of
        Err e \<Rightarrow> (Err (ResolveChainUnreachable e), Suc t)
      | Ok None \<Rightarrow> (Err NoIdentitySingleton, Suc t)
      | Ok (Some lin) \<Rightarrow>
          (case ask_coin_record (ss_chain src) (Suc t) did_launcher_id of
             Err e \<Rightarrow> (Err (ResolveChainUnreachable e), Suc (Suc t))
           | Ok None \<Rightarrow> (Err (Unparseable did_launcher_id LauncherCoinUnknown), Suc (Suc t))
           | Ok (Some r) \<Rightarrow>
               (if cid (rec_coin r) \<noteq> did_launcher_id
                then (Err (Unparseable did_launcher_id LauncherCoinUnknown), Suc (Suc t))
                else
                  (case profile_intermediates cid cl src (rec_coin r) lin (Suc (Suc t)) of
                     (Err e, t1) \<Rightarrow> (Err e, t1)
                   | (Ok launches, t1) \<Rightarrow>
                       (case live_stores cid cl src launches [] t1 of
                          (res, t2) \<Rightarrow>
                            (and_then res (\<lambda>live. Ok (case live of
                               [] \<Rightarrow> NoProfileStore
                             | [(store, did_coin_id)] \<Rightarrow> ResolvedStore store did_coin_id
                             | found \<Rightarrow> AmbiguousStores (map fst found))), t2))))))"

end
