(* ===== verification/Resolution_Properties.thy ===== *)
theory Resolution_Properties
  imports Profile_Resolution Mint_Ceremony
begin

text \<open>
  What resolving a DID answers: exactly the live profile stores launched from the DID's own lineage,
  counted, when the source's answers hold still; and an answer at all within a bounded number of
  reads, whatever the source does.
\<close>

section \<open>Reads are bounded\<close>

lemma read_spend_of_reads: "snd (read_spend_of cid src c t) = Suc t"
  by (simp add: read_spend_of_def)

lemma sort_children_bound:
  "sort_children cid lin c xs launches succs = Ok (launches', succs') \<Longrightarrow>
     length launches \<le> MAX_PROFILE_LAUNCHES_PER_DID \<Longrightarrow> length launches' \<le> MAX_PROFILE_LAUNCHES_PER_DID"
proof (induction xs arbitrary: launches succs)
  case Nil
  then show ?case by simp
next
  case (Cons x xs)
  let ?child = "child_of cid c x"
  have "\<not> (profile_intermediate ?child \<and> length launches = MAX_PROFILE_LAUNCHES_PER_DID)"
    using Cons.prems(1) by (auto simp: Let_def split: if_splits)
  with Cons.prems Cons.IH show ?case by (auto simp: Let_def split: if_splits)
qed

lemma step_lineage_bound:
  "snd (step_lineage cid cl src lin n c visited launches t) \<le> t + n \<and>
   (\<forall>c' v l. fst (step_lineage cid cl src lin n c visited launches t) = Ok (c', v, l) \<longrightarrow>
      length launches \<le> MAX_PROFILE_LAUNCHES_PER_DID \<longrightarrow> length l \<le> MAX_PROFILE_LAUNCHES_PER_DID)"
proof (induction n arbitrary: c visited launches t)
  case 0
  then show ?case by simp
next
  case (Suc n)
  obtain r t1 where r: "read_spend_of cid src c t = (r, t1)" by fastforce
  then have t1: "t1 = Suc t" using read_spend_of_reads [of cid src c t] by simp
  show ?case
  proof (cases r)
    case (Err e)
    then show ?thesis using r t1 by simp
  next
    case (Ok so)
    show ?thesis
    proof (cases so)
      case None
      then show ?thesis using r t1 Ok by simp
    next
      case (Some s)
      obtain x where x: "and_then (created_coins cid cl s) (\<lambda>outs.
          sort_children cid lin c outs launches []) = x" by blast
      show ?thesis
      proof (cases x)
        case (Err e)
        then show ?thesis using r t1 Ok Some x by simp
      next
        case okx: (Ok ls)
        obtain launches1 succs where ls: "ls = (launches1, succs)" by fastforce
        have b: "length launches \<le> MAX_PROFILE_LAUNCHES_PER_DID \<longrightarrow>
            length launches1 \<le> MAX_PROFILE_LAUNCHES_PER_DID"
          using x okx ls by (auto simp: result_simps dest: sort_children_bound)
        show ?thesis
          using Suc.IH [where c = "hd succs" and visited = "visited @ [cid (hd succs)]" and
              launches = launches1 and t = t1] r t1 Ok Some x okx ls b
          by (cases succs rule: remdups_adj.cases) (auto split: if_splits)
      qed
    qed
  qed
qed

lemma live_stores_bound: "snd (live_stores cid cl src launches live t) \<le> t + 2 * length launches"
proof (induction launches arbitrary: live t)
  case Nil
  then show ?case by simp
next
  case (Cons x launches)
  obtain d i where x: "x = (d, i)" by fastforce
  obtain r t1 where r: "launcher_created_by cid cl src i t = (r, t1)" by fastforce
  have "t1 = Suc t"
    using r read_spend_of_reads [of cid src i t]
    by (auto simp: launcher_created_by_def split: prod.splits result.splits option.splits)
  then show ?case
    using r Cons.IH [where t = "Suc t"] Cons.IH [where t = "Suc (Suc t)"]
    by (fastforce simp: x split: result.splits option.splits intro: order_trans [OF Cons.IH])
qed

text \<open>C37: Resolution ends, and within a bounded number of reads, whatever the source answers: the
  lineage, the launcher, at most one spend per lineage member and, for each of at most eight launches,
  one spend and one lineage.\<close>

theorem resolution_reads_are_bounded:
  "snd (resolve_profile_store cid cl src did t) \<le>
     t + 18 + (case ask_lineage src t did of Ok (Some lin) \<Rightarrow> ln_len lin | _ \<Rightarrow> 0)"
proof (cases "ask_lineage src t did")
  case (Err e)
  then show ?thesis by (simp add: resolve_profile_store_def)
next
  case (Ok lo)
  show ?thesis
  proof (cases lo)
    case None
    then show ?thesis using Ok by (simp add: resolve_profile_store_def)
  next
    case (Some lin)
    have "snd (case profile_intermediates cid cl src c lin (Suc (Suc t)) of
        (Err e, t1) \<Rightarrow> (Err e, t1)
      | (Ok launches, t1) \<Rightarrow>
          (case live_stores cid cl src launches [] t1 of
             (res, t2) \<Rightarrow> (and_then res f, t2))) \<le> t + 18 + ln_len lin"
      for c and f :: "(bytes32 \<times> bytes32) list \<Rightarrow> (profile_store_resolution, profile_resolve_error) result"
    proof -
      obtain r t1 where r: "profile_intermediates cid cl src c lin (Suc (Suc t)) = (r, t1)" by fastforce
      obtain q where q: "step_lineage cid cl src lin (ln_len lin) c [cid c] [] (Suc (Suc t)) = (q, t1)"
        and qr: "\<forall>launches. r = Ok launches \<longrightarrow> (\<exists>c' v. q = Ok (c', v, launches))"
        using r by (auto simp: profile_intermediates_def split: prod.splits result.splits if_splits)
      note b = step_lineage_bound [where cid = cid and cl = cl and src = src and lin = lin and n = "ln_len lin"
          and c = c and visited = "[cid c]" and launches = "[]" and t = "Suc (Suc t)", unfolded q]
      show ?thesis
      proof (cases r)
        case (Err e)
        then show ?thesis using r b by simp
      next
        case (Ok launches)
        then have "length launches \<le> 8" using qr b by (auto simp: MAX_PROFILE_LAUNCHES_PER_DID_def)
        then show ?thesis
          using r Ok b live_stores_bound [of cid cl src launches "[]" t1]
          by (auto split: prod.splits)
      qed
    qed
    then show ?thesis using Ok Some by (auto simp: resolve_profile_store_def split: result.splits option.splits)
  qed
qed

section \<open>The launches of a DID, as the chain has them\<close>

text \<open>A source whose answers hold still while a resolution reads it.\<close>

definition stable :: "singleton_source \<Rightarrow> bool" where
  "stable src \<longleftrightarrow>
     (\<forall>t i. ask_lineage src t i = ask_lineage src 0 i \<and> ask_coin_spend src t i = ask_coin_spend src 0 i)"

text \<open>The children of a coin: what its own spend, run, creates.\<close>

definition children :: "(coin \<Rightarrow> bytes32) \<Rightarrow> 'n clvm \<Rightarrow> singleton_source \<Rightarrow> coin \<Rightarrow> coin list" where
  "children cid cl src c =
     (case ask_coin_spend src 0 (cid c) of
        Ok (Some s) \<Rightarrow>
          (if spent_coin s = c then
             (case created_coins cid cl s of Ok outs \<Rightarrow> map (child_of cid c) outs | Err e \<Rightarrow> [])
           else [])
      | _ \<Rightarrow> [])"

text \<open>The DID's coins: from the launcher, child by child, within the authenticated lineage.\<close>

inductive did_coin ::
  "(coin \<Rightarrow> bytes32) \<Rightarrow> 'n clvm \<Rightarrow> singleton_source \<Rightarrow> lineage \<Rightarrow> coin \<Rightarrow> coin \<Rightarrow> bool"
  for cid cl src lin launcher
where
  Did_launcher: "did_coin cid cl src lin launcher launcher"
| Did_child: "did_coin cid cl src lin launcher c \<Longrightarrow> d \<in> set (children cid cl src c) \<Longrightarrow>
    ln_contains lin (cid d) \<Longrightarrow> did_coin cid cl src lin launcher d"

text \<open>A live store launched from a DID coin through the profile intermediate.\<close>

definition launched_store_of ::
  "(coin \<Rightarrow> bytes32) \<Rightarrow> 'n clvm \<Rightarrow> singleton_source \<Rightarrow> lineage \<Rightarrow> coin \<Rightarrow> bytes32 \<Rightarrow> bytes32 \<Rightarrow> bool"
where
  "launched_store_of cid cl src lin launcher store did_coin_id \<longleftrightarrow>
     (\<exists>c i l. did_coin cid cl src lin launcher c \<and> did_coin_id = cid c \<and>
        i \<in> set (children cid cl src c) \<and> profile_intermediate i \<and>
        l \<in> set (children cid cl src i) \<and> store_launcher cl l \<and> store = cid l \<and>
        (\<exists>ln. ask_lineage src 0 store = Ok (Some ln)))"

definition launches_of ::
  "(coin \<Rightarrow> bytes32) \<Rightarrow> 'n clvm \<Rightarrow> singleton_source \<Rightarrow> coin \<Rightarrow> (bytes32 \<times> coin) list" where
  "launches_of cid cl src c = map (Pair (cid c)) (filter profile_intermediate (children cid cl src c))"

definition successors_of ::
  "(coin \<Rightarrow> bytes32) \<Rightarrow> 'n clvm \<Rightarrow> singleton_source \<Rightarrow> lineage \<Rightarrow> coin \<Rightarrow> coin list" where
  "successors_of cid cl src lin c = filter (ln_contains lin \<circ> cid) (children cid cl src c)"

lemma sort_children_Ok:
  "sort_children cid lin c xs launches succs = Ok (launches', succs') \<Longrightarrow>
     launches' = launches @ map (Pair (cid c)) (filter profile_intermediate (map (child_of cid c) xs)) \<and>
     succs' = succs @ filter (ln_contains lin \<circ> cid) (map (child_of cid c) xs)"
proof (induction xs arbitrary: launches succs)
  case Nil
  then show ?case by simp
next
  case (Cons x xs)
  let ?child = "child_of cid c x"
  have "sort_children cid lin c xs
      (if profile_intermediate ?child then launches @ [(cid c, ?child)] else launches)
      (if ln_contains lin (cid ?child) then succs @ [?child] else succs) = Ok (launches', succs')"
    using Cons.prems by (simp add: Let_def split: if_split_asm)
  from Cons.IH [OF this] show ?case by (simp split: if_split_asm)
qed

lemma read_spend_of_stable:
  assumes "stable src" and "read_spend_of cid src c t = (Ok so, t1)"
  shows "case so of
      None \<Rightarrow> children cid cl src c = []
    | Some s \<Rightarrow> (\<forall>outs. created_coins cid cl s = Ok outs \<longrightarrow>
        children cid cl src c = map (child_of cid c) outs)"
proof -
  have "ask_coin_spend src t (cid c) = ask_coin_spend src 0 (cid c)"
    using assms(1) by (simp add: stable_def)
  then show ?thesis using assms(2)
    by (auto simp: read_spend_of_def children_def split: result.splits option.splits if_splits)
qed

text \<open>The coins stepped through, each the only authenticated child of the one before.\<close>

fun lineage_path ::
  "(coin \<Rightarrow> bytes32) \<Rightarrow> 'n clvm \<Rightarrow> singleton_source \<Rightarrow> lineage \<Rightarrow> coin list \<Rightarrow> bool" where
  "lineage_path cid cl src lin [] \<longleftrightarrow> False"
| "lineage_path cid cl src lin [c] \<longleftrightarrow> successors_of cid cl src lin c = []"
| "lineage_path cid cl src lin (c # d # cs) \<longleftrightarrow>
     successors_of cid cl src lin c = [d] \<and> lineage_path cid cl src lin (d # cs)"

lemma step_lineage_path:
  assumes "stable src"
    and "step_lineage cid cl src lin n c visited launches t = (Ok (c', visited', launches'), t')"
  shows "length visited' = length visited + n \<or>
    (\<exists>cs. lineage_path cid cl src lin (c # cs) \<and> visited' = visited @ map cid cs \<and>
       launches' = launches @ concat (map (launches_of cid cl src) (c # cs)))"
  using assms(2)
proof (induction n arbitrary: c visited launches t)
  case 0
  then show ?case by simp
next
  case (Suc n)
  obtain so t1 where r: "read_spend_of cid src c t = (Ok so, t1)"
    using Suc.prems by (auto split: prod.splits result.splits)
  note st = read_spend_of_stable [OF assms(1) r, where cl = cl]
  show ?case
  proof (cases so)
    case None
    then have none: "children cid cl src c = []" using st by simp
    have "visited' = visited" "launches' = launches" using Suc.prems r None by auto
    then show ?thesis
      using none by (intro disjI2 exI [of _ "[]"]) (simp add: successors_of_def launches_of_def)
  next
    case (Some s)
    then obtain outs launches1 succs where created: "created_coins cid cl s = Ok outs"
      and sorted: "sort_children cid lin c outs launches [] = Ok (launches1, succs)"
      using Suc.prems r by (auto simp: result_simps split: result.splits list.splits)
    have kids: "children cid cl src c = map (child_of cid c) outs" using st Some created by simp
    have launches1: "launches1 = launches @ launches_of cid cl src c"
      and succs: "succs = successors_of cid cl src lin c"
      using sort_children_Ok [OF sorted] by (simp_all add: launches_of_def successors_of_def kids)
    consider (stop) "succs = []" | (one) d where "succs = [d]" | (many) d e ds where "succs = d # e # ds"
      by (cases succs rule: remdups_adj.cases) auto
    then show ?thesis
    proof cases
      case stop
      then have "visited' = visited" "launches' = launches1"
        using Suc.prems r Some created sorted by (auto simp: result_simps)
      then show ?thesis
        using stop succs launches1 by (intro disjI2 exI [of _ "[]"]) simp
    next
      case (one d)
      then have rest: "step_lineage cid cl src lin n d (visited @ [cid d]) launches1 t1 =
          (Ok (c', visited', launches'), t')"
        using Suc.prems r Some created sorted by (auto simp: result_simps split: if_splits)
      from Suc.IH [OF rest] show ?thesis
      proof (elim disjE exE conjE)
        fix cs
        assume "lineage_path cid cl src lin (d # cs)" "visited' = (visited @ [cid d]) @ map cid cs"
          "launches' = launches1 @ concat (map (launches_of cid cl src) (d # cs))"
        then show ?thesis
          using one succs launches1 by (intro disjI2 exI [of _ "d # cs"]) simp
      qed simp
    next
      case (many d e ds)
      then show ?thesis using Suc.prems r Some created sorted by (simp add: result_simps)
    qed
  qed
qed

lemma path_is_the_did:
  assumes "lineage_path cid cl src lin (launcher # cs)"
  shows "did_coin cid cl src lin launcher c \<longleftrightarrow> c \<in> set (launcher # cs)"
proof
  have closed: "d \<in> set path"
    if "lineage_path cid cl src lin path" "c \<in> set path" "d \<in> set (successors_of cid cl src lin c)"
    for path c d
    using that by (induction path rule: lineage_path.induct [of _ cid cl src lin]) auto
  show "did_coin cid cl src lin launcher c \<Longrightarrow> c \<in> set (launcher # cs)"
  proof (induction rule: did_coin.induct)
    case Did_launcher
    then show ?case by simp
  next
    case (Did_child c d)
    then have "d \<in> set (successors_of cid cl src lin c)" by (simp add: successors_of_def)
    from closed [OF assms Did_child.IH this] show ?case .
  qed
next
  have reach: "did_coin cid cl src lin launcher c \<Longrightarrow> lineage_path cid cl src lin (c # cs) \<Longrightarrow>
      \<forall>d\<in>set (c # cs). did_coin cid cl src lin launcher d" for c cs
  proof (induction cs arbitrary: c)
    case Nil
    then show ?case by simp
  next
    case (Cons d cs)
    then have "d \<in> set (successors_of cid cl src lin c)" and rest: "lineage_path cid cl src lin (d # cs)"
      by simp_all
    then have "did_coin cid cl src lin launcher d"
      using Cons.prems(1) by (auto simp: successors_of_def intro: Did_child)
    from Cons.IH [OF this rest] Cons.prems(1) show ?case by simp
  qed
  from reach [OF Did_launcher assms] show "c \<in> set (launcher # cs) \<Longrightarrow> did_coin cid cl src lin launcher c"
    by blast
qed

lemma profile_intermediates_exact:
  assumes "stable src" and "profile_intermediates cid cl src launcher lin t = (Ok launches, t')"
  shows "(d, i) \<in> set launches \<longleftrightarrow>
    (\<exists>c. did_coin cid cl src lin launcher c \<and> d = cid c \<and> i \<in> set (children cid cl src c) \<and>
       profile_intermediate i)"
proof -
  obtain c visited where run: "step_lineage cid cl src lin (ln_len lin) launcher [cid launcher] [] t =
      (Ok (c, visited, launches), t')" and len: "length visited = ln_len lin"
    using assms(2) by (auto simp: profile_intermediates_def split: prod.splits result.splits if_splits)
  obtain cs where path: "lineage_path cid cl src lin (launcher # cs)"
    and all: "launches = concat (map (launches_of cid cl src) (launcher # cs))"
    using step_lineage_path [OF assms(1) run] len by auto
  show ?thesis
    unfolding all path_is_the_did [OF path] by (auto simp: launches_of_def)
qed

section \<open>The stores those launches created\<close>

lemma btree_insert_id_in: "x \<in> set (btree_insert id k v m) \<Longrightarrow> x = (k, v) \<or> x \<in> set m"
  by (induction m) (auto split: if_splits)

lemma btree_insert_id_keys: "fst ` set (btree_insert id k v m) = insert k (fst ` set m)"
  using btree_insert_keys [of id k v m] by simp

definition created_store ::
  "(coin \<Rightarrow> bytes32) \<Rightarrow> 'n clvm \<Rightarrow> singleton_source \<Rightarrow> coin \<Rightarrow> bytes32 \<Rightarrow> bool" where
  "created_store cid cl src i store \<longleftrightarrow> (\<exists>l\<in>set (children cid cl src i). store_launcher cl l \<and> store = cid l)"

definition live_store :: "singleton_source \<Rightarrow> bytes32 \<Rightarrow> bool" where
  "live_store src store \<longleftrightarrow> (\<exists>ln. ask_lineage src 0 store = Ok (Some ln))"

lemma launched_store_iff:
  "launched_store_of cid cl src lin launcher store d \<longleftrightarrow>
     (\<exists>c i. did_coin cid cl src lin launcher c \<and> d = cid c \<and> i \<in> set (children cid cl src c) \<and>
        profile_intermediate i \<and> created_store cid cl src i store) \<and> live_store src store"
  unfolding launched_store_of_def created_store_def live_store_def by blast

lemma launcher_created_by_exact:
  assumes "stable src" and "launcher_created_by cid cl src i t = (Ok found, t')"
  shows "created_store cid cl src i store \<longleftrightarrow> found = Some store"
proof -
  obtain so t1 where r: "read_spend_of cid src i t = (Ok so, t1)"
    using assms(2) by (auto simp: launcher_created_by_def split: prod.splits result.splits)
  note st = read_spend_of_stable [OF assms(1) r, where cl = cl]
  show ?thesis
  proof (cases so)
    case None
    then show ?thesis using assms(2) r st by (auto simp: launcher_created_by_def created_store_def)
  next
    case (Some s)
    then obtain outs where outs: "created_coins cid cl s = Ok outs"
      using assms(2) r by (auto simp: launcher_created_by_def result_simps split: result.splits)
    have kids: "children cid cl src i = map (child_of cid i) outs" using st Some outs by simp
    let ?found = "filter (store_launcher cl) (map (child_of cid i) outs)"
    have sel: "created_store cid cl src i store \<longleftrightarrow> store \<in> cid ` set ?found"
      unfolding created_store_def kids by auto
    have "(case ?found of [] \<Rightarrow> found = None | [only] \<Rightarrow> found = Some (cid only) | _ \<Rightarrow> False)"
      using assms(2) r Some outs by (auto simp: launcher_created_by_def result_simps split: list.splits)
    then show ?thesis unfolding sel by (cases ?found rule: remdups_adj.cases) auto
  qed
qed

definition found_store ::
  "(coin \<Rightarrow> bytes32) \<Rightarrow> 'n clvm \<Rightarrow> singleton_source \<Rightarrow> (bytes32 \<times> coin) list \<Rightarrow> bytes32 \<Rightarrow> bytes32 \<Rightarrow> bool"
where
  "found_store cid cl src launches store d \<longleftrightarrow>
     (\<exists>i. (d, i) \<in> set launches \<and> created_store cid cl src i store \<and> live_store src store)"

lemma found_store_Nil [simp]: "\<not> found_store cid cl src [] store d"
  by (simp add: found_store_def)

lemma found_store_Cons [simp]:
  "found_store cid cl src ((d, i) # launches) store d' \<longleftrightarrow>
     d' = d \<and> created_store cid cl src i store \<and> live_store src store \<or>
     found_store cid cl src launches store d'"
  by (auto simp: found_store_def)

lemma live_stores_exact:
  assumes "stable src" and "live_stores cid cl src launches live t = (Ok live', t')" and "btree_ordered id live"
  shows "btree_ordered id live' \<and>
    (\<forall>store. store \<in> fst ` set live' \<longleftrightarrow>
       store \<in> fst ` set live \<or> (\<exists>d. found_store cid cl src launches store d)) \<and>
    (\<forall>store d. (store, d) \<in> set live' \<longrightarrow>
       (store, d) \<in> set live \<or> found_store cid cl src launches store d)"
  using assms(2,3)
proof (induction launches arbitrary: live t)
  case Nil
  then show ?case by simp
next
  case (Cons x launches)
  obtain d i where x: "x = (d, i)" by fastforce
  obtain found t1 where l: "launcher_created_by cid cl src i t = (Ok found, t1)"
    using Cons.prems by (auto simp: x split: prod.splits result.splits)
  note exact = launcher_created_by_exact [OF assms(1) l]
  show ?case
  proof (cases found)
    case None
    then have "live_stores cid cl src launches live t1 = (Ok live', t')"
      using Cons.prems(1) l by (simp add: x)
    from Cons.IH [OF this Cons.prems(2)] show ?thesis by (simp add: x exact None)
  next
    case (Some store)
    have at: "ask_lineage src t1 store = ask_lineage src 0 store"
      using assms(1) unfolding stable_def by blast
    show ?thesis
    proof (cases "live_store src store")
      case False
      then have "live_stores cid cl src launches live (Suc t1) = (Ok live', t')"
        using Cons.prems(1) l Some at
        by (auto simp: x live_store_def split: result.splits option.splits)
      from Cons.IH [OF this Cons.prems(2)] show ?thesis using False by (auto simp: x exact Some)
    next
      case True
      then have "live_stores cid cl src launches (btree_insert id store d live) (Suc t1) = (Ok live', t')"
        using Cons.prems(1) l Some at by (auto simp: x live_store_def)
      note ih = Cons.IH [OF this btree_ordered_insert [OF Cons.prems(2)], unfolded btree_insert_id_keys]
      have "(s, e) = (store, d) \<or> (s, e) \<in> set live" if "(s, e) \<in> set (btree_insert id store d live)" for s e
        using btree_insert_id_in [OF that] .
      then have "(s, e) \<in> set live' \<Longrightarrow> (s, e) = (store, d) \<or> (s, e) \<in> set live \<or>
          found_store cid cl src launches s e" for s e
        using ih by blast
      then show ?thesis using ih True unfolding x found_store_Cons exact Some by auto
    qed
  qed
qed

definition resolution_of :: "(bytes32 \<times> bytes32) list \<Rightarrow> profile_store_resolution" where
  "resolution_of live = (case live of
      [] \<Rightarrow> NoProfileStore
    | [(store, did_coin_id)] \<Rightarrow> ResolvedStore store did_coin_id
    | found \<Rightarrow> AmbiguousStores (map fst found))"

lemma resolve_profile_store_Ok:
  assumes "stable src" and "fst (resolve_profile_store cid cl src did t) = Ok res"
  obtains lin r live where "ask_lineage src 0 did = Ok (Some lin)"
    and "ask_coin_record (ss_chain src) (Suc t) did = Ok (Some r)" and "cid (rec_coin r) = did"
    and "res = resolution_of live" and "btree_ordered id live"
    and "\<And>store. store \<in> fst ` set live \<longleftrightarrow> (\<exists>d. launched_store_of cid cl src lin (rec_coin r) store d)"
    and "\<And>store d. (store, d) \<in> set live \<Longrightarrow> launched_store_of cid cl src lin (rec_coin r) store d"
proof -
  obtain lin where lin: "ask_lineage src t did = Ok (Some lin)"
    using assms(2) by (auto simp: resolve_profile_store_def split: result.splits option.splits)
  then have lin0: "ask_lineage src 0 did = Ok (Some lin)" using assms(1) unfolding stable_def by metis
  obtain r where r: "ask_coin_record (ss_chain src) (Suc t) did = Ok (Some r)" "cid (rec_coin r) = did"
    using assms(2) lin by (auto simp: resolve_profile_store_def split: result.splits option.splits if_splits)
  obtain launches t1 where p: "profile_intermediates cid cl src (rec_coin r) lin (Suc (Suc t)) = (Ok launches, t1)"
    using assms(2) lin r by (auto simp: resolve_profile_store_def split: prod.splits result.splits)
  obtain live t2 where l: "live_stores cid cl src launches [] t1 = (Ok live, t2)"
    using assms(2) lin r p by (auto simp: resolve_profile_store_def result_simps split: prod.splits result.splits)
  have res: "res = resolution_of live"
    using assms(2) lin r p l by (simp add: resolve_profile_store_def resolution_of_def)
  note at = profile_intermediates_exact [OF assms(1) p]
  have ord: "btree_ordered id ([] :: (bytes32 \<times> bytes32) list)" by (simp add: btree_ordered_def)
  note live = live_stores_exact [OF assms(1) l ord]
  have found: "found_store cid cl src launches store d \<longleftrightarrow>
      launched_store_of cid cl src lin (rec_coin r) store d" for store d
    unfolding launched_store_iff found_store_def at by blast
  have keys: "store \<in> fst ` set live \<longleftrightarrow> (\<exists>d. launched_store_of cid cl src lin (rec_coin r) store d)" for store
    using live by (simp add: found)
  have sound: "launched_store_of cid cl src lin (rec_coin r) store d" if "(store, d) \<in> set live" for store d
    using live that by (simp add: found)
  from that [OF lin0 r res _ keys sound] live show thesis by blast
qed

text \<open>C21: When the source's answers hold still, a resolution is the truth about the chain: with
  \<open>NoProfileStore\<close> no live store was launched from any coin of the DID's lineage; with a
  resolved store, that store was, from the coin named, and no other was; with an ambiguous answer the
  stores listed, ascending and at least two, are all of them.\<close>

theorem resolution_is_exact:
  assumes "stable src" and "fst (resolve_profile_store cid cl src did t) = Ok res"
  shows "\<exists>lin r. ask_lineage src 0 did = Ok (Some lin) \<and>
    ask_coin_record (ss_chain src) (Suc t) did = Ok (Some r) \<and> cid (rec_coin r) = did \<and>
    (case res of
       NoProfileStore \<Rightarrow> \<forall>store d. \<not> launched_store_of cid cl src lin (rec_coin r) store d
     | ResolvedStore store d \<Rightarrow> launched_store_of cid cl src lin (rec_coin r) store d \<and>
         (\<forall>store' d'. launched_store_of cid cl src lin (rec_coin r) store' d' \<longrightarrow> store' = store)
     | AmbiguousStores stores \<Rightarrow> sorted_wrt (<) stores \<and> 2 \<le> length stores \<and>
         set stores = {store. \<exists>d. launched_store_of cid cl src lin (rec_coin r) store d})"
proof (rule resolve_profile_store_Ok [OF assms])
  fix lin r live
  assume found: "ask_lineage src 0 did = Ok (Some lin)"
      "ask_coin_record (ss_chain src) (Suc t) did = Ok (Some r)" "cid (rec_coin r) = did"
    and res: "res = resolution_of live" and ord: "btree_ordered id live"
    and keys: "\<And>store. store \<in> fst ` set live \<longleftrightarrow> (\<exists>d. launched_store_of cid cl src lin (rec_coin r) store d)"
    and sound: "\<And>store d. (store, d) \<in> set live \<Longrightarrow> launched_store_of cid cl src lin (rec_coin r) store d"
  have "case res of
       NoProfileStore \<Rightarrow> \<forall>store d. \<not> launched_store_of cid cl src lin (rec_coin r) store d
     | ResolvedStore store d \<Rightarrow> launched_store_of cid cl src lin (rec_coin r) store d \<and>
         (\<forall>store' d'. launched_store_of cid cl src lin (rec_coin r) store' d' \<longrightarrow> store' = store)
     | AmbiguousStores stores \<Rightarrow> sorted_wrt (<) stores \<and> 2 \<le> length stores \<and>
         set stores = {store. \<exists>d. launched_store_of cid cl src lin (rec_coin r) store d}"
  proof (cases live rule: remdups_adj.cases)
    case 1
    then show ?thesis using keys by (simp add: res resolution_of_def)
  next
    case (2 x)
    obtain store d where "x = (store, d)" by fastforce
    with 2 have live: "live = [(store, d)]" by simp
    have at: "launched_store_of cid cl src lin (rec_coin r) store d" using sound live by simp
    have only: "\<forall>store' d'. launched_store_of cid cl src lin (rec_coin r) store' d' \<longrightarrow> store' = store"
    proof (intro allI impI)
      fix store' d'
      assume "launched_store_of cid cl src lin (rec_coin r) store' d'"
      then show "store' = store" using keys [of store'] live by auto
    qed
    have "res = ResolvedStore store d" by (simp add: res live resolution_of_def)
    with at only show ?thesis by simp
  next
    case (3 x y xs)
    then have "res = AmbiguousStores (map fst live)" by (simp add: res resolution_of_def split: prod.splits)
    moreover have "sorted_wrt (<) (map fst live)" using ord by (simp add: btree_ordered_def sorted_wrt_map)
    moreover have "set (map fst live) = {store. \<exists>d. launched_store_of cid cl src lin (rec_coin r) store d}"
      using keys by auto
    ultimately show ?thesis using 3 by simp
  qed
  with found show ?thesis by blast
qed

text \<open>A sample DID of three coins, the middle one having launched one store; ids are puzzle hashes,
  a node is its bytes, and a reveal of one byte is its own puzzle.\<close>

definition sample_node_hash :: "byte list \<Rightarrow> bytes32" where
  "sample_node_hash n = (if n = [9] then PROFILE_INTERMEDIATE_PUZZLE_HASH else case n of [b] \<Rightarrow> ucast b | _ \<Rightarrow> 0)"

definition sample_clvm :: "byte list clvm" where
  "sample_clvm =
     \<lparr>cl_max_reveal = 1, cl_launcher_hash = 7, cl_decode = Ok, cl_tree_hash = sample_node_hash,
      cl_run = (\<lambda>p s. Ok p),
      cl_conditions = (\<lambda>n. Ok (if n = [1] then [CreatesCoin 2 1]
         else if n = [2] then [OtherCondition, CreatesCoin PROFILE_INTERMEDIATE_PUZZLE_HASH 0, CreatesCoin 3 1]
         else [CreatesCoin 7 1]))\<rparr>"

definition sample_did_coin :: "bytes32 \<Rightarrow> bytes32 \<Rightarrow> u64 \<Rightarrow> coin" where
  "sample_did_coin parent ph a = \<lparr>parent_coin_info = parent, puzzle_hash = ph, amount = a\<rparr>"

definition sample_did_spend :: "bytes32 \<Rightarrow> coin_spend option" where
  "sample_did_spend i =
     (if i = 1 then Some \<lparr>spent_coin = sample_did_coin 0 1 1, puzzle_reveal = [1], solution = []\<rparr>
      else if i = 2 then Some \<lparr>spent_coin = sample_did_coin 1 2 1, puzzle_reveal = [2], solution = []\<rparr>
      else if i = PROFILE_INTERMEDIATE_PUZZLE_HASH
      then Some \<lparr>spent_coin = sample_did_coin 2 PROFILE_INTERMEDIATE_PUZZLE_HASH 0, puzzle_reveal = [9],
                 solution = []\<rparr>
      else None)"

definition sample_lineage :: lineage where
  "sample_lineage = \<lparr>ln_tip = 3, ln_len = 3, ln_contains = (\<lambda>i. i \<in> {1, 2, 3})\<rparr>"

definition sample_did_source :: singleton_source where
  "sample_did_source =
     \<lparr>ss_chain = (sample_mint_chain 100)\<lparr>ask_coin_record :=
        (\<lambda>t i. Ok (Some \<lparr>rec_coin = sample_did_coin 0 1 1, confirmed_height = Some 5, spent_height = None\<rparr>))\<rparr>,
      ask_lineage = (\<lambda>t i. Ok (if i = 1 \<or> i = 7 then Some sample_lineage else None)),
      ask_parent_spend = (\<lambda>t i. Ok None), ask_coin_spend = (\<lambda>t i. Ok (sample_did_spend i))\<rparr>"

lemma sample_children_read:
  "created_coins puzzle_hash sample_clvm \<lparr>spent_coin = sample_did_coin 0 1 1, puzzle_reveal = [1], solution = []\<rparr>
     = Ok [(2, 1)]"
  "created_coins puzzle_hash sample_clvm \<lparr>spent_coin = sample_did_coin 1 2 1, puzzle_reveal = [2], solution = []\<rparr>
     = Ok [(PROFILE_INTERMEDIATE_PUZZLE_HASH, 0), (3, 1)]"
  "created_coins puzzle_hash sample_clvm
     \<lparr>spent_coin = sample_did_coin 2 PROFILE_INTERMEDIATE_PUZZLE_HASH 0, puzzle_reveal = [9], solution = []\<rparr>
     = Ok [(7, 1)]"
  by (simp_all add: created_coins_def sample_clvm_def sample_node_hash_def sample_did_coin_def
      into_create_coin_def map_filter_simps)

lemma sample_spends_read:
  "read_spend_of puzzle_hash sample_did_source (sample_did_coin 0 1 1) t =
     (Ok (Some \<lparr>spent_coin = sample_did_coin 0 1 1, puzzle_reveal = [1], solution = []\<rparr>), Suc t)"
  "read_spend_of puzzle_hash sample_did_source (sample_did_coin 1 2 1) t =
     (Ok (Some \<lparr>spent_coin = sample_did_coin 1 2 1, puzzle_reveal = [2], solution = []\<rparr>), Suc t)"
  "read_spend_of puzzle_hash sample_did_source (sample_did_coin 2 3 1) t = (Ok None, Suc t)"
  "read_spend_of puzzle_hash sample_did_source (sample_did_coin 2 PROFILE_INTERMEDIATE_PUZZLE_HASH 0) t =
     (Ok (Some \<lparr>spent_coin = sample_did_coin 2 PROFILE_INTERMEDIATE_PUZZLE_HASH 0, puzzle_reveal = [9],
        solution = []\<rparr>), Suc t)"
  by (simp_all add: read_spend_of_def sample_did_source_def sample_did_spend_def sample_did_coin_def
      PROFILE_INTERMEDIATE_PUZZLE_HASH_def)

lemma sample_intermediates:
  "profile_intermediates puzzle_hash sample_clvm sample_did_source (sample_did_coin 0 1 1) sample_lineage t =
     (Ok [(2, sample_did_coin 2 PROFILE_INTERMEDIATE_PUZZLE_HASH 0)], t + 3)"
proof -
  have kids: "child_of puzzle_hash (sample_did_coin a b c) (p, q) = sample_did_coin b p q" for a b c p q
    by (simp add: child_of_def sample_did_coin_def)
  have hash: "puzzle_hash (sample_did_coin a b c) = b" for a b c by (simp add: sample_did_coin_def)
  have inter: "profile_intermediate (sample_did_coin a b c) \<longleftrightarrow> b = PROFILE_INTERMEDIATE_PUZZLE_HASH \<and> c = 0"
    for a b c by (simp add: profile_intermediate_def sample_did_coin_def INTERMEDIATE_AMOUNT_def)
  have mem: "ln_contains sample_lineage i \<longleftrightarrow> i = 1 \<or> i = 2 \<or> i = 3" for i by (simp add: sample_lineage_def)
  have len: "ln_len sample_lineage = Suc (Suc (Suc 0))" by (simp add: sample_lineage_def)
  have far: "PROFILE_INTERMEDIATE_PUZZLE_HASH \<notin> {1, 2, 3}" "2 \<noteq> PROFILE_INTERMEDIATE_PUZZLE_HASH"
      "3 \<noteq> PROFILE_INTERMEDIATE_PUZZLE_HASH"
    by (simp_all add: PROFILE_INTERMEDIATE_PUZZLE_HASH_def)
  show ?thesis
    using far by (simp add: profile_intermediates_def len sample_spends_read sample_children_read kids hash
        inter mem Let_def MAX_PROFILE_LAUNCHES_PER_DID_def)
qed

lemma sample_resolution:
  "fst (resolve_profile_store puzzle_hash sample_clvm sample_did_source 1 0) = Ok (ResolvedStore 7 2)"
proof -
  have lin: "ask_lineage sample_did_source t i = Ok (if i = 1 \<or> i = 7 then Some sample_lineage else None)" for t i
    by (simp add: sample_did_source_def)
  have launcher: "ask_coin_record (ss_chain sample_did_source) t i = Ok (Some
      \<lparr>rec_coin = sample_did_coin 0 1 1, confirmed_height = Some 5, spent_height = None\<rparr>)" for t i
    by (simp add: sample_did_source_def)
  have hash: "puzzle_hash (sample_did_coin a b c) = b" for a b c by (simp add: sample_did_coin_def)
  have cl_launcher_hash: "cl_launcher_hash sample_clvm = 7" by (simp add: sample_clvm_def)
  have store: "launcher_created_by puzzle_hash sample_clvm sample_did_source
      (sample_did_coin 2 PROFILE_INTERMEDIATE_PUZZLE_HASH 0) t = (Ok (Some 7), Suc t)" for t
    using cl_launcher_hash by (simp add: launcher_created_by_def sample_spends_read sample_children_read child_of_def
        store_launcher_def LAUNCHER_AMOUNT_def)
  show ?thesis
    by (simp add: resolve_profile_store_def lin launcher hash sample_intermediates store)
qed

theorem resolution_is_exact_witness:
  "\<exists>launcher. puzzle_hash launcher = 1 \<and>
     launched_store_of puzzle_hash sample_clvm sample_did_source sample_lineage launcher 7 2 \<and>
     (\<forall>store d. launched_store_of puzzle_hash sample_clvm sample_did_source sample_lineage launcher store d \<longrightarrow>
        store = 7)"
proof -
  have "stable sample_did_source" by (simp add: stable_def sample_did_source_def)
  from resolution_is_exact [OF this sample_resolution] obtain lin and r :: coin_record
    where lin: "ask_lineage sample_did_source 0 1 = Ok (Some lin)" and r: "puzzle_hash (rec_coin r) = 1"
      and store: "launched_store_of puzzle_hash sample_clvm sample_did_source lin (rec_coin r) 7 2"
      and only: "\<forall>store d. launched_store_of puzzle_hash sample_clvm sample_did_source lin (rec_coin r) store d \<longrightarrow>
        store = 7"
    by (simp only: profile_store_resolution.case) blast
  have "lin = sample_lineage" using lin by (simp add: sample_did_source_def)
  then show ?thesis using r store only by blast
qed

end
