(* ===== verification/Push_Answer.thy ===== *)
theory Push_Answer
  imports Spend_Signing "HOL-Library.Sublist"
begin

text \<open>
  The mainnet publisher (\<open>src/mint/coinset_push.rs\<close>): the request body a bundle is posted as,
  and the reading of the node's answer, where only a recognisable decision of the mempool is a
  verdict and everything else is an unknown outcome.

  A string is its UTF-8 bytes. JSON parsing and printing and a bundle's JSON form are
  \<open>serde_json\<close> and \<open>chia-protocol\<close>: the record \<open>json_codec\<close>, with the
  \<open>Debug\<close> form of a string, which only reaches a diagnostic.
\<close>

section \<open>Strings\<close>

definition contains :: "string \<Rightarrow> string \<Rightarrow> bool" where
  "contains text part = sublist part text"

definition ascii_lower :: "char \<Rightarrow> char" where
  "ascii_lower c =
     (let n = of_char c :: nat in if 65 \<le> n \<and> n \<le> 90 then char_of (n + 32) else c)"

definition to_ascii_lowercase :: "string \<Rightarrow> string" where
  "to_ascii_lowercase = map ascii_lower"

definition utf8 :: "nat list \<Rightarrow> string" where
  "utf8 = map char_of"

text \<open>The characters \<open>str::trim\<close> removes, in UTF-8.\<close>

definition whitespace :: "string list" where
  "whitespace =
     map (\<lambda>b. utf8 [b]) [0x09, 0x0A, 0x0B, 0x0C, 0x0D, 0x20] @ map utf8 [[0xC2, 0x85], [0xC2, 0xA0], [0xE1, 0x9A, 0x80]]
     @ map (\<lambda>b. utf8 [0xE2, 0x80, b]) [0x80, 0x81, 0x82, 0x83, 0x84, 0x85, 0x86, 0x87, 0x88, 0x89, 0x8A, 0xA8, 0xA9, 0xAF]
     @ map utf8 [[0xE2, 0x81, 0x9F], [0xE3, 0x80, 0x80]]"

function strip_front :: "string list \<Rightarrow> string \<Rightarrow> string" where
  "strip_front ws s =
     (case find (\<lambda>w. w \<noteq> [] \<and> prefix w s) ws of
        None \<Rightarrow> s
      | Some w \<Rightarrow> strip_front ws (drop (length w) s))"
  by pat_completeness auto
termination
  by (relation "measure (\<lambda>(ws, s). length s)") (auto simp: find_Some_iff prefix_def)

definition trim :: "string \<Rightarrow> string" where
  "trim s = rev (strip_front (map rev whitespace) (rev (strip_front whitespace s)))"

text \<open>\<open>char_indices().nth(n)\<close>: where the \<open>n\<close>-th character starts, a byte that is no
  continuation byte.\<close>

definition char_starts :: "string \<Rightarrow> nat list" where
  "char_starts s = filter (\<lambda>i. (of_char (s ! i) :: nat) div 64 \<noteq> 2) [0..<length s]"

definition MAX_QUOTED_BODY :: nat where
  "MAX_QUOTED_BODY = 400"

definition quote :: "string \<Rightarrow> string" where
  "quote text =
     (let trimmed = trim text in
      if MAX_QUOTED_BODY < length (char_starts trimmed)
      then take (char_starts trimmed ! MAX_QUOTED_BODY) trimmed @ utf8 [0xE2, 0x80, 0xA6]
      else trimmed)"

declare strip_front.simps [simp del]

section \<open>JSON\<close>

datatype json =
    JNull
  | JBool bool
  | JNumber string
  | JString string
  | JArray "json list"
  | JObject "(string \<times> json) list"

record 'b json_codec =
  js_from_str :: "string \<Rightarrow> (json, string) result"
  js_to_string :: "json \<Rightarrow> (string, string) result"
  js_bundle :: "'b \<Rightarrow> json"
  js_debug :: "string \<Rightarrow> string"

text \<open>\<open>Value::get\<close> of a key, and \<open>as_str\<close> of what is there.\<close>

definition get_str :: "string \<Rightarrow> json \<Rightarrow> string option" where
  "get_str key v =
     (case v of
        JObject members \<Rightarrow> (case map_of members key of Some (JString s) \<Rightarrow> Some s | _ \<Rightarrow> None)
      | _ \<Rightarrow> None)"

section \<open>The request\<close>

definition COINSET_MAINNET_PUSH_URL :: string where
  "COINSET_MAINNET_PUSH_URL = ''https://api.coinset.org/push_tx''"

fun prefix_every_byte_string :: "json \<Rightarrow> json" where
  "prefix_every_byte_string (JString str) = JString (if prefix ''0x'' str then str else ''0x'' @ str)"
| "prefix_every_byte_string (JArray items) = JArray (map prefix_every_byte_string items)"
| "prefix_every_byte_string (JObject members) =
     JObject (map (\<lambda>(k, field). (k, prefix_every_byte_string field)) members)"
| "prefix_every_byte_string v = v"

definition push_tx_request_json :: "'b json_codec \<Rightarrow> 'b \<Rightarrow> (string, string) result" where
  "push_tx_request_json js b =
     js_to_string js (prefix_every_byte_string (JObject [(''spend_bundle'', js_bundle js b)]))"

section \<open>The answer\<close>

record http_answer =
  ha_status :: u16
  ha_body :: string

definition PENDING_ASSERTIONS :: "string list" where
  "PENDING_ASSERTIONS =
     [''ASSERT_HEIGHT_ABSOLUTE_FAILED'', ''ASSERT_HEIGHT_RELATIVE_FAILED'',
      ''ASSERT_SECONDS_ABSOLUTE_FAILED'', ''ASSERT_SECONDS_RELATIVE_FAILED'']"

definition MEMPOOL_REFUSAL_MARKER :: string where
  "MEMPOOL_REFUSAL_MARKER = ''failed to include transaction''"

definition ALREADY_INCLUDING :: string where
  "ALREADY_INCLUDING = ''already_including_transaction''"

definition unsettled :: "http_answer \<Rightarrow> string \<Rightarrow> string" where
  "unsettled answer why =
     ''the push outcome is unknown ('' @ why @ ''); HTTP '' @ decimal (unat (ha_status answer)) @
     '' said: '' @ quote (ha_body answer)"

definition classify_error :: "http_answer \<Rightarrow> string \<Rightarrow> (push_outcome, string) result" where
  "classify_error answer reason =
     (let lowered = to_ascii_lowercase reason in
      if contains lowered ALREADY_INCLUDING then Ok AlreadyInMempool
      else if list_ex (contains reason) PENDING_ASSERTIONS
      then Err (unsettled answer
                  ''the bundle failed a height/seconds assertion, so the node is holding it'')
      else if contains lowered MEMPOOL_REFUSAL_MARKER then Ok (PushRejected (quote reason))
      else Err (unsettled answer ''the error is not a recognisable mempool decision''))"

definition interpret_push_answer ::
  "'b json_codec \<Rightarrow> http_answer \<Rightarrow> (push_outcome, string) result" where
  "interpret_push_answer js answer =
     (case js_from_str js (ha_body answer) of
        Err e \<Rightarrow> Err (unsettled answer ''the body is not JSON'')
      | Ok json \<Rightarrow>
          (case get_str ''error'' json of
             Some reason \<Rightarrow> classify_error answer reason
           | None \<Rightarrow>
               (case get_str ''status'' json of
                  None \<Rightarrow> Err (unsettled answer ''the body states neither status nor error'')
                | Some status \<Rightarrow>
                    if status = ''SUCCESS'' then Ok Accepted
                    else if status = ''PENDING'' then Err (unsettled answer ''the mempool answered PENDING'')
                    else if status = ''FAILED'' then Ok (PushRejected (quote (ha_body answer)))
                    else Err (unsettled answer (''unrecognised mempool status '' @ js_debug js status)))))"

section \<open>The publisher\<close>

text \<open>A transport posts a body to an address in its own state \<open>'t\<close>.\<close>

type_synonym 't transport = "string \<Rightarrow> string \<Rightarrow> 't \<Rightarrow> (http_answer, string) result \<times> 't"

record 't coinset_publisher =
  cp_transport :: "'t transport"
  cp_url :: string

definition coinset_publisher_new :: "'t transport \<Rightarrow> string \<Rightarrow> 't coinset_publisher" where
  "coinset_publisher_new transport url = \<lparr>cp_transport = transport, cp_url = url\<rparr>"

definition coinset_mainnet :: "'t transport \<Rightarrow> 't coinset_publisher" where
  "coinset_mainnet transport = coinset_publisher_new transport COINSET_MAINNET_PUSH_URL"

definition coinset_push ::
  "'b json_codec \<Rightarrow> 't coinset_publisher \<Rightarrow> 'b \<Rightarrow> 't \<Rightarrow> (push_outcome, string) result \<times> 't" where
  "coinset_push js p b t =
     (case push_tx_request_json js b of
        Err why \<Rightarrow> (Err (''could not encode the bundle: '' @ why), t)
      | Ok request \<Rightarrow>
          (case cp_transport p (cp_url p) request t of
             (Err why, t1) \<Rightarrow> (Err (cp_url p @ '': '' @ why), t1)
           | (Ok answer, t1) \<Rightarrow> (interpret_push_answer js answer, t1)))"

section \<open>What the publisher promises\<close>

text \<open>An answer settles a push only by the mempool's own words, whatever its HTTP status: accepted
  exactly on the status \<open>SUCCESS\<close> with no error, already pending exactly on that error, and
  rejected exactly on the status \<open>FAILED\<close> or on an error that carries the node's refusal
  marker and none of the assertions it may still satisfy later.\<close>

theorem only_the_mempool_settles_a_push:
  "(interpret_push_answer js answer = Ok Accepted \<longleftrightarrow>
     (\<exists>body. js_from_str js (ha_body answer) = Ok body \<and>
        get_str ''error'' body = None \<and> get_str ''status'' body = Some ''SUCCESS'')) \<and>
   (interpret_push_answer js answer = Ok AlreadyInMempool \<longleftrightarrow>
     (\<exists>body reason. js_from_str js (ha_body answer) = Ok body \<and>
        get_str ''error'' body = Some reason \<and> contains (to_ascii_lowercase reason) ALREADY_INCLUDING)) \<and>
   (interpret_push_answer js answer = Ok (PushRejected why) \<longleftrightarrow>
     (\<exists>body. js_from_str js (ha_body answer) = Ok body \<and>
        (case get_str ''error'' body of
           None \<Rightarrow> get_str ''status'' body = Some ''FAILED'' \<and> why = quote (ha_body answer)
         | Some reason \<Rightarrow>
             contains (to_ascii_lowercase reason) MEMPOOL_REFUSAL_MARKER \<and>
             \<not> contains (to_ascii_lowercase reason) ALREADY_INCLUDING \<and>
             (\<nexists>a. a \<in> set PENDING_ASSERTIONS \<and> contains reason a) \<and> why = quote reason)))"
proof (cases "js_from_str js (ha_body answer)")
  case (Err e)
  then show ?thesis by (simp add: interpret_push_answer_def)
next
  case (Ok body)
  show ?thesis
  proof (cases "get_str ''error'' body")
    case None
    then show ?thesis
      using Ok by (cases "get_str ''status'' body")
        (simp_all add: interpret_push_answer_def eq_commute [of why])
  next
    case (Some reason)
    then have "interpret_push_answer js answer = classify_error answer reason"
      using Ok by (simp add: interpret_push_answer_def)
    moreover have "list_ex (contains reason) PENDING_ASSERTIONS \<longleftrightarrow>
        (\<exists>a. a \<in> set PENDING_ASSERTIONS \<and> contains reason a)"
      by (auto simp: list_ex_iff)
    ultimately show ?thesis
      using Ok Some by (simp add: classify_error_def Let_def eq_commute [of why])
  qed
qed

lemma char_starts_less: "i \<in> set (char_starts s) \<Longrightarrow> i < length s"
  by (simp add: char_starts_def)

lemma char_starts_append:
  "char_starts (s @ s') = char_starts s @ map (\<lambda>i. i + length s) (char_starts s')"
proof -
  have "[0..<length s + length s'] = [0..<length s] @ map (\<lambda>i. i + length s) [0..<length s']"
    using upt_add_eq_append [of 0 "length s" "length s'"] map_add_upt [of "length s" "length s'"]
    by (simp add: add.commute [of "length s'"])
  then show ?thesis
    by (simp add: char_starts_def filter_map comp_def nth_append)
       (rule filter_cong, simp_all)
qed

lemma char_starts_take_nth:
  assumes "n < length (char_starts s)"
  shows "length (char_starts (take (char_starts s ! n) s)) = n"
proof -
  obtain k where k: "k = char_starts s ! n" by blast
  then have "k < length s" using assms nth_mem char_starts_less by blast
  then have split: "char_starts s = char_starts (take k s) @ map (\<lambda>i. i + k) (char_starts (drop k s))"
    using char_starts_append [of "take k s" "drop k s"] by simp
  let ?m = "length (char_starts (take k s))"
  have lo: "char_starts s ! j < k" if "j < ?m" for j
    using char_starts_less [OF nth_mem [OF that]] that by (subst split) (simp add: nth_append)
  have hi: "k \<le> char_starts s ! j" if "?m \<le> j" "j < length (char_starts s)" for j
  proof -
    have "j - ?m < length (char_starts (drop k s))"
      using that arg_cong [OF split, of length] by simp
    then show ?thesis using that by (subst split) (simp add: nth_append)
  qed
  have "sorted_wrt (<) (char_starts s)" by (simp add: char_starts_def sorted_wrt_filter)
  then have mono: "char_starts s ! i < char_starts s ! j" if "i < j" "j < length (char_starts s)" for i j
    using that by (simp add: sorted_wrt_nth_less)
  have "\<not> n < ?m" using lo [of n] k by auto
  moreover have "\<not> ?m < n" using hi [of ?m] mono [of ?m n] assms k by auto
  ultimately show ?thesis by (simp add: k)
qed

text \<open>A diagnostic quotes at most 400 characters of what the server sent, and the mark of the
  cut.\<close>

theorem quoted_text_is_bounded: "length (char_starts (quote text)) \<le> MAX_QUOTED_BODY + 1"
proof -
  have "char_starts (utf8 [0xE2, 0x80, 0xA6]) = [0]" by code_simp
  then show ?thesis
    by (simp add: quote_def Let_def char_starts_append char_starts_take_nth)
qed

text \<open>The strings at the leaves of a value.\<close>

fun leaves :: "json \<Rightarrow> string list" where
  "leaves (JString s) = [s]"
| "leaves (JArray items) = concat (map leaves items)"
| "leaves (JObject members) = concat (map (\<lambda>(k, v). leaves v) members)"
| "leaves v = []"

definition prefixed :: "string \<Rightarrow> string" where
  "prefixed s = (if prefix ''0x'' s then s else ''0x'' @ s)"

lemma leaves_of_request: "leaves (prefix_every_byte_string v) = map prefixed (leaves v)"
  by (induction v rule: prefix_every_byte_string.induct)
     (auto simp: prefixed_def map_concat comp_def intro!: arg_cong [where f = concat])

text \<open>The transport that records every post.\<close>

definition posting :: "(http_answer, string) result \<Rightarrow> (string \<times> string) list transport" where
  "posting answer url body posts = (answer, posts @ [(url, body)])"

text \<open>A push asks at most once, at the publisher's own address, for the bundle alone, with every
  byte string carrying the prefix the node demands and prefixed once; and without that one post
  there is no verdict.\<close>

theorem push_posts_once_in_wire_form:
  "case coinset_push js \<lparr>cp_transport = posting answer, cp_url = url\<rparr> b posts of (res, posts') \<Rightarrow>
     (\<exists>v body. v = prefix_every_byte_string (JObject [(''spend_bundle'', js_bundle js b)]) \<and>
        js_to_string js v = Ok body \<and> posts' = posts @ [(url, body)] \<and>
        leaves v = map prefixed (leaves (js_bundle js b)) \<and> prefix_every_byte_string v = v) \<or>
     posts' = posts \<and> (\<exists>why. res = Err why)"
proof -
  have once: "prefix_every_byte_string (prefix_every_byte_string v) = prefix_every_byte_string v" for v
    by (induction v rule: prefix_every_byte_string.induct) auto
  let ?v = "prefix_every_byte_string (JObject [(''spend_bundle'', js_bundle js b)])"
  have leaves: "leaves ?v = map prefixed (leaves (js_bundle js b))" by (simp add: leaves_of_request)
  show ?thesis
    unfolding coinset_push_def push_tx_request_json_def
    using leaves once by (auto simp: posting_def simp del: prefix_every_byte_string.simps split: result.splits)
qed

end
