(* ===== verification/Account_Store.thy ===== *)
theory Account_Store
  imports Account_Types "HOL-Library.List_Lexorder" "HOL-Library.Char_ord" "HOL-Library.Sublist"
begin

text \<open>
  The multi-account store of master seeds (\<open>src/store.rs\<close>): one keystore blob per account,
  enrolment that refuses to overwrite one, enumeration and deletion.

  The backend and the sealing of a seed are \<open>dig-keystore\<close> and \<open>dig-session\<close>: the
  record \<open>keychain\<close> of their calls over a backend state \<open>'b\<close>, with unlocked seeds of a
  type \<open>'s\<close>. \<open>keychain_laws\<close> states what they document, over the blobs a state
  holds: a call on one key leaves the others alone, an existence check and a listing tell the truth,
  and a sealed blob opens with the password that sealed it.
\<close>

section \<open>Accounts and keys\<close>

text \<open>\<open>AccountId\<close> derives its order from its string, which Rust orders by bytes.\<close>

instantiation account_id :: linorder
begin

definition less_eq_account_id :: "account_id \<Rightarrow> account_id \<Rightarrow> bool" where
  "less_eq_account_id a b \<longleftrightarrow> id_str a \<le> id_str b"

definition less_account_id :: "account_id \<Rightarrow> account_id \<Rightarrow> bool" where
  "less_account_id a b \<longleftrightarrow> id_str a < id_str b"

instance
  by standard (auto simp: less_eq_account_id_def less_account_id_def intro: account_id.expand)

end

definition ACCOUNT_KEY_PREFIX :: string where
  "ACCOUNT_KEY_PREFIX = ''account.''"

definition blob_key :: "account_id \<Rightarrow> string" where
  "blob_key i = ACCOUNT_KEY_PREFIX @ id_str i"

definition strip_prefix :: "string \<Rightarrow> string \<Rightarrow> string option" where
  "strip_prefix p s = (if prefix p s then Some (drop (length p) s) else None)"

datatype account_store_error =
    AlreadyExists account_id
  | StoreNotFound account_id
  | StoreSession string
  | StoreBackend string

record ('b, 's) keychain =
  kc_exists :: "'b \<Rightarrow> string \<Rightarrow> (bool, string) result"
  kc_list :: "'b \<Rightarrow> string \<Rightarrow> (string list, string) result"
  kc_delete :: "'b \<Rightarrow> string \<Rightarrow> (unit, string) result \<times> 'b"
  kc_enroll :: "'b \<Rightarrow> string \<Rightarrow> string \<Rightarrow> 8 word list \<Rightarrow> ('s, string) result \<times> 'b"
  kc_restore :: "'b \<Rightarrow> string \<Rightarrow> string \<Rightarrow> string \<Rightarrow> ('s, string) result \<times> 'b"
  kc_unlock :: "'b \<Rightarrow> string \<Rightarrow> string \<Rightarrow> ('s, string) result"

section \<open>Operations\<close>

definition store_exists :: "('b, 's) keychain \<Rightarrow> 'b \<Rightarrow> account_id \<Rightarrow> (bool, account_store_error) result" where
  "store_exists kc b i = map_err StoreBackend (kc_exists kc b (blob_key i))"

definition store_enroll ::
  "('b, 's) keychain \<Rightarrow> 'b \<Rightarrow> account_id \<Rightarrow> string \<Rightarrow> 8 word list \<Rightarrow>
     ('s, account_store_error) result \<times> 'b"
where
  "store_enroll kc b i password entropy =
     (case store_exists kc b i of
        Err e \<Rightarrow> (Err e, b)
      | Ok True \<Rightarrow> (Err (AlreadyExists i), b)
      | Ok False \<Rightarrow>
          (case kc_enroll kc b (blob_key i) password entropy of
             (res, b') \<Rightarrow> (map_err StoreSession res, b')))"

definition store_enroll_from_recovery_phrase ::
  "('b, 's) keychain \<Rightarrow> 'b \<Rightarrow> account_id \<Rightarrow> string \<Rightarrow> string \<Rightarrow>
     ('s, account_store_error) result \<times> 'b"
where
  "store_enroll_from_recovery_phrase kc b i password phrase =
     (case store_exists kc b i of
        Err e \<Rightarrow> (Err e, b)
      | Ok True \<Rightarrow> (Err (AlreadyExists i), b)
      | Ok False \<Rightarrow>
          (case kc_restore kc b (blob_key i) password phrase of
             (res, b') \<Rightarrow> (map_err StoreSession res, b')))"

definition store_unlock ::
  "('b, 's) keychain \<Rightarrow> 'b \<Rightarrow> account_id \<Rightarrow> string \<Rightarrow> ('s, account_store_error) result" where
  "store_unlock kc b i password =
     and_then (store_exists kc b i) (\<lambda>found.
       if \<not> found then Err (StoreNotFound i)
       else map_err StoreSession (kc_unlock kc b (blob_key i) password))"

definition store_list :: "('b, 's) keychain \<Rightarrow> 'b \<Rightarrow> (account_id list, account_store_error) result" where
  "store_list kc b =
     and_then (map_err StoreBackend (kc_list kc b ACCOUNT_KEY_PREFIX)) (\<lambda>keys.
       Ok (sort (map AccountId (List.map_filter (strip_prefix ACCOUNT_KEY_PREFIX) keys))))"

definition store_delete ::
  "('b, 's) keychain \<Rightarrow> 'b \<Rightarrow> account_id \<Rightarrow> (unit, account_store_error) result \<times> 'b" where
  "store_delete kc b i =
     (case store_exists kc b i of
        Err e \<Rightarrow> (Err e, b)
      | Ok False \<Rightarrow> (Err (StoreNotFound i), b)
      | Ok True \<Rightarrow>
          (case kc_delete kc b (blob_key i) of (res, b') \<Rightarrow> (map_err StoreBackend res, b')))"

section \<open>What the backend documents\<close>

text \<open>\<open>blobs b\<close> is what a backend state holds, by key.\<close>

definition keychain_laws :: "('b, 's) keychain \<Rightarrow> ('b \<Rightarrow> string \<Rightarrow> 'c option) \<Rightarrow> bool" where
  "keychain_laws kc blobs \<longleftrightarrow>
     (\<forall>b k e. kc_exists kc b k = Ok e \<longrightarrow> (e \<longleftrightarrow> blobs b k \<noteq> None)) \<and>
     (\<forall>b p ks. kc_list kc b p = Ok ks \<longrightarrow>
        distinct ks \<and> set ks = {k. prefix p k \<and> blobs b k \<noteq> None}) \<and>
     (\<forall>b k k'. k' \<noteq> k \<longrightarrow> blobs (snd (kc_delete kc b k)) k' = blobs b k') \<and>
     (\<forall>b k pw x k'. k' \<noteq> k \<longrightarrow> blobs (snd (kc_enroll kc b k pw x)) k' = blobs b k') \<and>
     (\<forall>b k pw x k'. k' \<noteq> k \<longrightarrow> blobs (snd (kc_restore kc b k pw x)) k' = blobs b k') \<and>
     (\<forall>b k pw x s b'. kc_enroll kc b k pw x = (Ok s, b') \<longrightarrow>
        blobs b' k \<noteq> None \<and> kc_unlock kc b' k pw = Ok s) \<and>
     (\<forall>b k pw x s b'. kc_restore kc b k pw x = (Ok s, b') \<longrightarrow>
        blobs b' k \<noteq> None \<and> kc_unlock kc b' k pw = Ok s) \<and>
     (\<forall>b b' k pw. blobs b k = blobs b' k \<longrightarrow> kc_unlock kc b k pw = kc_unlock kc b' k pw)"

lemma blob_key_inj [simp]: "blob_key i = blob_key j \<longleftrightarrow> i = j"
  by (cases i; cases j) (simp add: blob_key_def)

section \<open>Histories\<close>

datatype store_op =
    Enrol account_id string "8 word list"
  | Restore account_id string string
  | Delete account_id

fun store_step :: "('b, 's) keychain \<Rightarrow> store_op \<Rightarrow> 'b \<Rightarrow> 'b" where
  "store_step kc (Enrol i password entropy) b = snd (store_enroll kc b i password entropy)"
| "store_step kc (Restore i password phrase) b = snd (store_enroll_from_recovery_phrase kc b i password phrase)"
| "store_step kc (Delete i) b = snd (store_delete kc b i)"

lemma store_step_keeps:
  assumes laws: "keychain_laws kc blobs" and blob: "blobs b (blob_key i) \<noteq> None" and "oper \<noteq> Delete i"
  shows "blobs (store_step kc oper b) (blob_key i) = blobs b (blob_key i)"
proof -
  have there: "kc_exists kc b (blob_key i) \<noteq> Ok False" using laws blob by (auto simp: keychain_laws_def)
  have same: "blobs (snd (kc_enroll kc b (blob_key j) pw x)) (blob_key i) = blobs b (blob_key i)"
      "blobs (snd (kc_restore kc b (blob_key j) pw y)) (blob_key i) = blobs b (blob_key i)"
      "blobs (snd (kc_delete kc b (blob_key j))) (blob_key i) = blobs b (blob_key i)"
    if "j \<noteq> i" for j pw x y
    using laws that by (simp_all add: keychain_laws_def)
  show ?thesis
  proof (cases oper)
    case (Enrol j pw x)
    then show ?thesis
      using there same(1) [of j pw x]
      by (cases "j = i") (auto simp: store_enroll_def store_exists_def result_simps
          split: result.splits bool.splits prod.splits)
  next
    case (Restore j pw x)
    then show ?thesis
      using there same(2) [of j pw x]
      by (cases "j = i") (auto simp: store_enroll_from_recovery_phrase_def store_exists_def result_simps
          split: result.splits bool.splits prod.splits)
  next
    case (Delete j)
    then show ?thesis
      using same(3) [of j] assms(3)
      by (auto simp: store_delete_def store_exists_def result_simps
          split: result.splits bool.splits prod.splits)
  qed
qed

lemma store_history_keeps:
  assumes "keychain_laws kc blobs" and "Delete i \<notin> set opers" and "blobs b (blob_key i) \<noteq> None"
  shows "blobs (fold (store_step kc) opers b) (blob_key i) = blobs b (blob_key i)"
  using assms(2,3)
proof (induction opers arbitrary: b)
  case Nil
  then show ?case by simp
next
  case (Cons oper opers)
  then have step: "blobs (store_step kc oper b) (blob_key i) = blobs b (blob_key i)"
    using store_step_keeps [OF assms(1)] by auto
  show ?case using Cons.IH [of "store_step kc oper b"] Cons.prems step by simp
qed

text \<open>C29: An enrolled account is never lost or replaced by what is done to the store: whatever
  enrolments, restores and deletions follow, of any accounts and even of its own id, short of its own
  deletion, its password still opens the very seed that was sealed.\<close>

theorem enrolled_seed_survives:
  assumes "keychain_laws kc blobs"
    and "store_enroll kc b i password entropy = (Ok seed, b')"
    and "Delete i \<notin> set opers"
    and "kc_exists kc (fold (store_step kc) opers b') (blob_key i) = Ok found"
  shows "store_unlock kc (fold (store_step kc) opers b') i password = Ok seed"
proof -
  obtain res where e: "kc_enroll kc b (blob_key i) password entropy = (Ok seed, b')"
    using assms(2) by (auto simp: store_enroll_def result_simps split: result.splits bool.splits prod.splits)
  then have here: "blobs b' (blob_key i) \<noteq> None" and opens: "kc_unlock kc b' (blob_key i) password = Ok seed"
    using assms(1) unfolding keychain_laws_def by blast+
  let ?b = "fold (store_step kc) opers b'"
  have kept: "blobs ?b (blob_key i) = blobs b' (blob_key i)"
    using store_history_keeps [OF assms(1,3) here] .
  then have "kc_unlock kc ?b (blob_key i) password = Ok seed"
    using assms(1) opens unfolding keychain_laws_def by metis
  moreover have "found" using assms(1,4) here kept unfolding keychain_laws_def by metis
  ultimately show ?thesis using assms(4) by (simp add: store_unlock_def store_exists_def )
qed

text \<open>A listing is the enrolled accounts, each once, in order.\<close>

theorem listing_is_the_enrolled_accounts:
  assumes "keychain_laws kc blobs" and "store_list kc b = Ok ids"
  shows "sorted_wrt (<) ids \<and> set ids = {i. blobs b (blob_key i) \<noteq> None}"
proof -
  obtain keys where keys: "kc_list kc b ACCOUNT_KEY_PREFIX = Ok keys"
    and ids: "ids = sort (map AccountId (List.map_filter (strip_prefix ACCOUNT_KEY_PREFIX) keys))"
    using assms(2) by (auto simp: store_list_def result_simps)
  have d: "distinct keys" and s: "set keys = {k. prefix ACCOUNT_KEY_PREFIX k \<and> blobs b k \<noteq> None}"
    using assms(1) keys unfolding keychain_laws_def by metis+
  have all: "\<forall>k\<in>set keys. prefix ACCOUNT_KEY_PREFIX k" using s by blast
  then have strip: "List.map_filter (strip_prefix ACCOUNT_KEY_PREFIX) keys = map (drop (length ACCOUNT_KEY_PREFIX)) keys"
    by (induction keys) (auto simp: strip_prefix_def map_filter_simps)
  have "\<forall>k\<in>set keys. k = ACCOUNT_KEY_PREFIX @ drop (length ACCOUNT_KEY_PREFIX) k"
    using all by (auto simp: prefix_def)
  then have "inj_on (drop (length ACCOUNT_KEY_PREFIX)) (set keys)"
    by (metis inj_onI)
  then have "distinct ids" using d by (simp add: ids strip distinct_map inj_on_def)
  moreover have "sorted ids" by (simp add: ids)
  moreover have "set ids = {i. blobs b (blob_key i) \<noteq> None}"
  proof -
    have "set ids = (AccountId \<circ> drop (length ACCOUNT_KEY_PREFIX)) ` set keys" by (simp add: ids strip image_comp)
    also have "\<dots> = {i. blobs b (blob_key i) \<noteq> None}"
    proof (intro set_eqI iffI)
      fix i
      assume "i \<in> {i. blobs b (blob_key i) \<noteq> None}"
      then have "blob_key i \<in> set keys" by (simp add: s blob_key_def)
      then show "i \<in> (AccountId \<circ> drop (length ACCOUNT_KEY_PREFIX)) ` set keys"
        by (rule rev_image_eqI) (simp add: blob_key_def)
    qed (auto simp: s blob_key_def prefix_def)
    finally show ?thesis .
  qed
  ultimately show ?thesis by (simp add: strict_sorted_iff)
qed

section \<open>A sample backend\<close>

text \<open>Blobs in memory: the password and what it seals, by key, the newest first.\<close>

type_synonym sample_blobs = "(string \<times> string \<times> 8 word list) list"

definition sample_keychain :: "(sample_blobs, 8 word list) keychain" where
  "sample_keychain =
     \<lparr>kc_exists = (\<lambda>b k. Ok (map_of b k \<noteq> None)),
      kc_list = (\<lambda>b p. Ok (filter (prefix p) (remdups (map fst b)))),
      kc_delete = (\<lambda>b k. (Ok (), filter (\<lambda>e. fst e \<noteq> k) b)),
      kc_enroll = (\<lambda>b k pw x. (Ok x, (k, pw, x) # b)),
      kc_restore = (\<lambda>b k pw x. (Ok (map of_char x), (k, pw, map of_char x) # b)),
      kc_unlock = (\<lambda>b k pw. case map_of b k of
         None \<Rightarrow> Err ''no blob''
       | Some (pw', x) \<Rightarrow> if pw = pw' then Ok x else Err ''wrong password'')\<rparr>"

lemma sample_keychain_laws: "keychain_laws sample_keychain map_of"
proof -
  have "map_of (filter (\<lambda>e. fst e \<noteq> k) b) k' = map_of b k'" if "k' \<noteq> k" for b :: sample_blobs and k k'
    using that by (induction b) auto
  then show ?thesis
    by (simp add: keychain_laws_def sample_keychain_def map_of_eq_None_iff del: not_None_eq) auto
qed

lemma sample_enrolled:
  "store_enroll sample_keychain [] (AccountId ''a'') ''pw'' [7] = (Ok [7], [(''account.a'', ''pw'', [7])])"
  by (simp add: store_enroll_def store_exists_def sample_keychain_def blob_key_def ACCOUNT_KEY_PREFIX_def)

theorem enrolled_seed_survives_witness:
  "store_unlock sample_keychain
     (fold (store_step sample_keychain)
        [Enrol (AccountId ''a'') ''thief'' [8], Restore (AccountId ''b'') ''pw'' ''x'', Delete (AccountId ''b'')]
        [(''account.a'', ''pw'', [7])]) (AccountId ''a'') ''pw'' = Ok [7]"
proof (rule enrolled_seed_survives [OF sample_keychain_laws sample_enrolled])
  show "Delete (AccountId ''a'') \<notin> set [Enrol (AccountId ''a'') ''thief'' [8],
      Restore (AccountId ''b'') ''pw'' ''x'', Delete (AccountId ''b'')]" by simp
qed (simp add: sample_keychain_def)

theorem listing_is_the_enrolled_accounts_witness:
  "sorted_wrt (<) [AccountId ''a'', AccountId ''b''] \<and>
   set [AccountId ''a'', AccountId ''b''] =
     {i. map_of [(''account.b'', ''pw'', [7 :: 8 word]), (''account.a'', ''pw'', [])] (blob_key i) \<noteq> None}"
  by (rule listing_is_the_enrolled_accounts [OF sample_keychain_laws]) code_simp

end
