(* ===== verification/Second_Factors.thy ===== *)
theory Second_Factors
  imports Spend_Summary Session_Residency
begin

text \<open>
  The second factors of an unlock: RFC 6238 codes with their replay guard
  (\<open>src/auth/second_factors/totp.rs\<close>), WebAuthn assertions with their challenge and signature
  counter (\<open>src/auth/second_factors/passkey.rs\<close>), and the policy that requires all of a list
  (\<open>AllOf\<close> of \<open>src/auth/policy.rs\<close>).

  The HOTP primitive is \<open>totp_lite\<close>, an argument; JSON, base64url, SHA-256 and P-256 are
  libraries, the record \<open>webauthn\<close>. A clock reading is an argument of the call that makes it,
  and a mutex is its contents, or poisoned.
\<close>

section \<open>Factors\<close>

record auth_factors =
  af_password :: string
  af_totp :: "string option"
  af_passkey :: "byte list option"

definition password_only :: "string \<Rightarrow> auth_factors" where
  "password_only password = \<lparr>af_password = password, af_totp = None, af_passkey = None\<rparr>"

datatype 'a mutex = Poisoned | Guarding 'a

section \<open>TOTP\<close>

datatype totp_algorithm = Sha1 | Sha256 | Sha512

datatype totp_error =
    TotpNotPresented
  | TotpMalformed u32
  | UndecodableSecret
  | NoMatch
  | Replayed
  | TotpClockUnreadable
  | TotpGuardPoisoned

fun totp_error_str :: "totp_error \<Rightarrow> string" where
  "totp_error_str TotpNotPresented = ''a TOTP code is required''"
| "totp_error_str (TotpMalformed expected) =
     ''the presented code is not '' @ decimal (unat expected) @ '' decimal digits''"
| "totp_error_str UndecodableSecret = ''the enrolled TOTP secret is not valid base32''"
| "totp_error_str NoMatch = ''the presented code is not valid now''"
| "totp_error_str Replayed = ''this code has already been used''"
| "totp_error_str TotpClockUnreadable = ''the system clock is unreadable, so no TOTP code can be verified''"
| "totp_error_str TotpGuardPoisoned = ''the TOTP replay guard is unusable''"

fun uri_name :: "totp_algorithm \<Rightarrow> string" where
  "uri_name Sha1 = ''SHA1''"
| "uri_name Sha256 = ''SHA256''"
| "uri_name Sha512 = ''SHA512''"

record totp_params =
  tp_algorithm :: totp_algorithm
  tp_digits :: u32
  tp_step_secs :: u64
  tp_skew_steps :: u64

definition totp_params_default :: totp_params where
  "totp_params_default =
     \<lparr>tp_algorithm = Sha1, tp_digits = 6, tp_step_secs = 30, tp_skew_steps = 1\<rparr>"

type_synonym hotp = "totp_algorithm \<Rightarrow> u64 \<Rightarrow> u32 \<Rightarrow> byte list \<Rightarrow> u64 \<Rightarrow> string"

definition saturating_mul :: "'a::len word \<Rightarrow> 'a word \<Rightarrow> 'a word" where
  "saturating_mul a b = (if unat a * unat b < 2 ^ LENGTH('a) then a * b else - 1)"

definition code_at_counter :: "hotp \<Rightarrow> byte list \<Rightarrow> totp_params \<Rightarrow> u64 \<Rightarrow> string" where
  "code_at_counter hotp secret p counter =
     hotp (tp_algorithm p) (tp_step_secs p) (tp_digits p) secret (saturating_mul counter (tp_step_secs p))"

record totp_factor =
  tf_secret :: "byte list"
  tf_params :: totp_params
  tf_last_consumed :: "u64 option mutex"

definition totp_new :: "byte list \<Rightarrow> totp_params \<Rightarrow> totp_factor" where
  "totp_new secret p = \<lparr>tf_secret = secret, tf_params = p, tf_last_consumed = Guarding None\<rparr>"

definition totp_with_defaults :: "byte list \<Rightarrow> totp_factor" where
  "totp_with_defaults secret = totp_new secret totp_params_default"

definition is_ascii_digit :: "char \<Rightarrow> bool" where
  "is_ascii_digit c = (let n = of_char c :: nat in 48 \<le> n \<and> n \<le> 57)"

text \<open>The candidate counters, in the order of the loop; a later match replaces an earlier one.\<close>

definition totp_counters :: "u64 \<Rightarrow> u64 \<Rightarrow> u64 list" where
  "totp_counters current skew =
     map of_nat [unat (saturating_sub current skew)..<Suc (unat (saturating_add current skew))]"

definition totp_match :: "hotp \<Rightarrow> totp_factor \<Rightarrow> u64 \<Rightarrow> string \<Rightarrow> u64 option" where
  "totp_match hotp f current presented =
     fold (\<lambda>c matched. if code_at_counter hotp (tf_secret f) (tf_params f) c = presented then Some c else matched)
       (totp_counters current (tp_skew_steps (tf_params f))) None"

definition totp_check ::
  "hotp \<Rightarrow> (u64, totp_error) result \<Rightarrow> totp_factor \<Rightarrow> string \<Rightarrow> ((unit, totp_error) result, totp_factor) run"
where
  "totp_check hotp now f presented =
     (let p = tf_params f in
      if length presented \<noteq> unat (tp_digits p) \<or> \<not> list_all is_ascii_digit presented
      then Returns (Err (TotpMalformed (tp_digits p))) f
      else case now of
        Err e \<Rightarrow> Returns (Err e) f
      | Ok secs \<Rightarrow>
          if tp_step_secs p = 0 then Panics f
          else (case totp_match hotp f (secs div tp_step_secs p) presented of
            None \<Rightarrow> Returns (Err NoMatch) f
          | Some counter \<Rightarrow>
              (case tf_last_consumed f of
                 Poisoned \<Rightarrow> Returns (Err TotpGuardPoisoned) f
               | Guarding spent \<Rightarrow>
                   if (case spent of None \<Rightarrow> False | Some s \<Rightarrow> counter \<le> s) then Returns (Err Replayed) f
                   else Returns (Ok ()) (f\<lparr>tf_last_consumed := Guarding (Some counter)\<rparr>))))"

definition totp_verify ::
  "hotp \<Rightarrow> (u64, totp_error) result \<Rightarrow> totp_factor \<Rightarrow> auth_factors \<Rightarrow> ((unit, string) result, totp_factor) run"
where
  "totp_verify hotp now f factors =
     (case af_totp factors of
        None \<Rightarrow> Returns (Err (totp_error_str TotpNotPresented)) f
      | Some presented \<Rightarrow> map_run (map_err totp_error_str) (totp_check hotp now f presented))"

definition unreserved :: "char \<Rightarrow> bool" where
  "unreserved c =
     (let n = of_char c :: nat in
      48 \<le> n \<and> n \<le> 57 \<or> 65 \<le> n \<and> n \<le> 90 \<or> 97 \<le> n \<and> n \<le> 122 \<or> c \<in> set ''-._~'')"

definition hex_digit :: "nat \<Rightarrow> char" where
  "hex_digit n = char_of (if n < 10 then 48 + n else 55 + n)"

fun urlencode :: "string \<Rightarrow> string" where
  "urlencode [] = []"
| "urlencode (b # s) =
     (if unreserved b then [b]
      else [CHR ''%'', hex_digit (of_char b div 16), hex_digit (of_char b mod 16)]) @ urlencode s"

definition enrollment_uri :: "(byte list \<Rightarrow> string) \<Rightarrow> totp_factor \<Rightarrow> string \<Rightarrow> string \<Rightarrow> string" where
  "enrollment_uri base32 f issuer account_label =
     ''otpauth://totp/'' @ urlencode issuer @ '':'' @ urlencode account_label @
     ''?secret='' @ base32 (tf_secret f) @ ''&issuer='' @ urlencode issuer @
     ''&algorithm='' @ uri_name (tp_algorithm (tf_params f)) @
     ''&digits='' @ decimal (unat (tp_digits (tf_params f))) @
     ''&period='' @ decimal (unat (tp_step_secs (tf_params f)))"

section \<open>Passkeys\<close>

datatype user_verification = Required | Preferred

datatype passkey_error =
    PasskeyNotPresented
  | PasskeyMalformed
  | UnknownCredential
  | WrongCeremonyType
  | ChallengeNotOutstanding
  | UntrustedOrigin
  | WrongRelyingParty
  | UserNotPresent
  | UserNotVerified
  | ClonedCredential
  | BadSignature
  | BadPublicKey
  | PasskeyClockUnreadable
  | PasskeyGuardPoisoned

fun passkey_error_str :: "passkey_error \<Rightarrow> string" where
  "passkey_error_str PasskeyNotPresented = ''a passkey assertion is required''"
| "passkey_error_str PasskeyMalformed = ''the passkey assertion is malformed''"
| "passkey_error_str UnknownCredential = ''the assertion names an unknown credential''"
| "passkey_error_str WrongCeremonyType = ''the assertion is not a webauthn.get ceremony''"
| "passkey_error_str ChallengeNotOutstanding = ''the assertion answers no outstanding challenge''"
| "passkey_error_str UntrustedOrigin = ''the assertion came from an origin this account does not accept''"
| "passkey_error_str WrongRelyingParty = ''the assertion was made for a different relying party''"
| "passkey_error_str UserNotPresent = ''the authenticator did not report user presence''"
| "passkey_error_str UserNotVerified = ''the authenticator did not verify the user''"
| "passkey_error_str ClonedCredential =
     ''the signature counter did not advance; the credential may be cloned''"
| "passkey_error_str BadSignature = ''the assertion signature is invalid''"
| "passkey_error_str BadPublicKey = ''the enrolled credential public key is not a valid P-256 point''"
| "passkey_error_str PasskeyClockUnreadable =
     ''the system clock is unreadable, so no challenge expiry can be judged''"
| "passkey_error_str PasskeyGuardPoisoned = ''the passkey factor state is unusable''"

definition AUTHENTICATOR_DATA_MIN_LEN :: nat where
  "AUTHENTICATOR_DATA_MIN_LEN = 37"

record assertion_envelope =
  ae_credential_id :: string
  ae_authenticator_data :: string
  ae_client_data_json :: string
  ae_signature :: string

record client_data =
  cd_ceremony_type :: string
  cd_challenge :: string
  cd_origin :: string

record ('k, 'g) webauthn =
  wa_envelope :: "byte list \<Rightarrow> assertion_envelope option"
  wa_client_data :: "byte list \<Rightarrow> client_data option"
  wa_base64url :: "string \<Rightarrow> byte list option"
  wa_sha256 :: "byte list \<Rightarrow> byte list"
  wa_sec1 :: "byte list \<Rightarrow> 'k option"
  wa_der :: "byte list \<Rightarrow> 'g option"
  wa_verify :: "'k \<Rightarrow> byte list \<Rightarrow> 'g \<Rightarrow> bool"

record challenge_issuer =
  ci_ttl_secs :: u64
  ci_outstanding :: "(byte list \<times> u64) option mutex"

definition challenge_issuer_new :: "u64 \<Rightarrow> challenge_issuer" where
  "challenge_issuer_new ttl = \<lparr>ci_ttl_secs = ttl, ci_outstanding = Guarding None\<rparr>"

text \<open>\<open>fresh\<close> is what the operating system's generator fills in.\<close>

definition issue_challenge_at ::
  "byte list \<Rightarrow> challenge_issuer \<Rightarrow> u64 \<Rightarrow> (byte list, passkey_error) result \<times> challenge_issuer" where
  "issue_challenge_at fresh ci now =
     (case ci_outstanding ci of
        Poisoned \<Rightarrow> (Err PasskeyGuardPoisoned, ci)
      | Guarding _ \<Rightarrow>
          (Ok fresh, ci\<lparr>ci_outstanding := Guarding (Some (fresh, saturating_add now (ci_ttl_secs ci)))\<rparr>))"

definition consume_challenge ::
  "challenge_issuer \<Rightarrow> byte list \<Rightarrow> u64 \<Rightarrow> (unit, passkey_error) result \<times> challenge_issuer" where
  "consume_challenge ci presented now =
     (case ci_outstanding ci of
        Poisoned \<Rightarrow> (Err PasskeyGuardPoisoned, ci)
      | Guarding None \<Rightarrow> (Err ChallengeNotOutstanding, ci)
      | Guarding (Some (challenge, expires_at)) \<Rightarrow>
          if expires_at \<le> now then (Err ChallengeNotOutstanding, ci)
          else if challenge \<noteq> presented then (Err ChallengeNotOutstanding, ci)
          else (Ok (), ci\<lparr>ci_outstanding := Guarding None\<rparr>))"

record 'k passkey_credential =
  pc_id :: "byte list"
  pc_public_key :: 'k
  pc_rp_id :: string
  pc_sign_count :: "u32 mutex"

definition credential_new ::
  "('k, 'g) webauthn \<Rightarrow> byte list \<Rightarrow> byte list \<Rightarrow> string \<Rightarrow> u32 \<Rightarrow>
     ('k passkey_credential, passkey_error) result"
where
  "credential_new wa i public_key_sec1 rp_id initial_sign_count =
     and_then (ok_or BadPublicKey (wa_sec1 wa public_key_sec1)) (\<lambda>key.
       Ok \<lparr>pc_id = i, pc_public_key = key, pc_rp_id = rp_id, pc_sign_count = Guarding initial_sign_count\<rparr>)"

record 'k passkey_factor =
  pf_credential :: "'k passkey_credential"
  pf_challenges :: challenge_issuer
  pf_accepted_origins :: "string list"
  pf_user_verification :: user_verification

definition passkey_factor_new ::
  "'k passkey_credential \<Rightarrow> challenge_issuer \<Rightarrow> string list \<Rightarrow> user_verification \<Rightarrow> 'k passkey_factor" where
  "passkey_factor_new credential challenges accepted_origins user_verification =
     \<lparr>pf_credential = credential, pf_challenges = challenges, pf_accepted_origins = accepted_origins,
      pf_user_verification = user_verification\<rparr>"

definition trim_end_equals :: "string \<Rightarrow> string" where
  "trim_end_equals s = rev (dropWhile (\<lambda>c. c = CHR ''='') (rev s))"

definition b64url :: "('k, 'g) webauthn \<Rightarrow> string \<Rightarrow> (byte list, passkey_error) result" where
  "b64url wa s = ok_or PasskeyMalformed (wa_base64url wa (trim_end_equals s))"

definition u32_from_be_bytes :: "byte list \<Rightarrow> u32" where
  "u32_from_be_bytes bs = foldl (\<lambda>acc b. acc * 256 + ucast b) 0 bs"

text \<open>
  The checks that move no state, in order, and what they leave for the rest: the challenge answered
  and the counter presented.
\<close>

definition passkey_envelope_checks ::
  "('k, 'g) webauthn \<Rightarrow> 'k passkey_factor \<Rightarrow> byte list \<Rightarrow> (byte list \<times> u32, passkey_error) result"
where
  "passkey_envelope_checks wa f envelope_json =
     and_then (ok_or PasskeyMalformed (wa_envelope wa envelope_json)) (\<lambda>envelope.
     and_then (b64url wa (ae_credential_id envelope)) (\<lambda>credential_id.
     and_then (b64url wa (ae_authenticator_data envelope)) (\<lambda>authenticator_data.
     and_then (b64url wa (ae_client_data_json envelope)) (\<lambda>client_data_json.
     and_then (b64url wa (ae_signature envelope)) (\<lambda>signature_der.
     if pc_id (pf_credential f) \<noteq> credential_id then Err UnknownCredential
     else and_then (ok_or PasskeyMalformed (wa_client_data wa client_data_json)) (\<lambda>client.
     if cd_ceremony_type client \<noteq> ''webauthn.get'' then Err WrongCeremonyType
     else if cd_origin client \<notin> set (pf_accepted_origins f) then Err UntrustedOrigin
     else and_then (b64url wa (cd_challenge client)) (\<lambda>presented_challenge.
     if length authenticator_data < AUTHENTICATOR_DATA_MIN_LEN then Err PasskeyMalformed
     else if take 32 authenticator_data \<noteq> wa_sha256 wa (map of_char (pc_rp_id (pf_credential f)))
     then Err WrongRelyingParty
     else (let flags = authenticator_data ! 32 in
       if \<not> bit flags 0 then Err UserNotPresent
       else if pf_user_verification f = Required \<and> \<not> bit flags 2 then Err UserNotVerified
       else and_then (ok_or BadSignature (wa_der wa signature_der)) (\<lambda>signature.
         if \<not> wa_verify wa (pc_public_key (pf_credential f))
                (authenticator_data @ wa_sha256 wa client_data_json) signature
         then Err BadSignature
         else Ok (presented_challenge, u32_from_be_bytes (take 4 (drop 33 authenticator_data))))))))))))"

definition passkey_check ::
  "('k, 'g) webauthn \<Rightarrow> (u64, passkey_error) result \<Rightarrow> 'k passkey_factor \<Rightarrow> byte list \<Rightarrow>
     (unit, passkey_error) result \<times> 'k passkey_factor"
where
  "passkey_check wa now f envelope_json =
     (case passkey_envelope_checks wa f envelope_json of
        Err e \<Rightarrow> (Err e, f)
      | Ok (presented_challenge, presented_count) \<Rightarrow>
          (case now of
             Err e \<Rightarrow> (Err e, f)
           | Ok secs \<Rightarrow>
               (case consume_challenge (pf_challenges f) presented_challenge secs of
                  (Err e, ci) \<Rightarrow> (Err e, f\<lparr>pf_challenges := ci\<rparr>)
                | (Ok _, ci) \<Rightarrow>
                    (let f1 = f\<lparr>pf_challenges := ci\<rparr> in
                     case pc_sign_count (pf_credential f1) of
                       Poisoned \<Rightarrow> (Err PasskeyGuardPoisoned, f1)
                     | Guarding stored \<Rightarrow>
                         if \<not> (presented_count = 0 \<and> stored = 0) \<and> presented_count \<le> stored
                         then (Err ClonedCredential, f1)
                         else (Ok (), f1\<lparr>pf_credential :=
                                (pf_credential f1)\<lparr>pc_sign_count := Guarding presented_count\<rparr>\<rparr>)))))"

definition issue_challenge ::
  "byte list \<Rightarrow> (u64, passkey_error) result \<Rightarrow> 'k passkey_factor \<Rightarrow>
     (byte list, passkey_error) result \<times> 'k passkey_factor"
where
  "issue_challenge fresh now f =
     (case now of
        Err e \<Rightarrow> (Err e, f)
      | Ok secs \<Rightarrow>
          (case issue_challenge_at fresh (pf_challenges f) secs of
             (res, ci) \<Rightarrow> (res, f\<lparr>pf_challenges := ci\<rparr>)))"

definition passkey_verify ::
  "('k, 'g) webauthn \<Rightarrow> (u64, passkey_error) result \<Rightarrow> 'k passkey_factor \<Rightarrow> auth_factors \<Rightarrow>
     (unit, string) result \<times> 'k passkey_factor"
where
  "passkey_verify wa now f factors =
     (case af_passkey factors of
        None \<Rightarrow> (Err (passkey_error_str PasskeyNotPresented), f)
      | Some envelope \<Rightarrow>
          (case passkey_check wa now f envelope of
             (res, f') \<Rightarrow> (map_err passkey_error_str res, f')))"

end
