(* ===== verification/Unlock_Gate.thy ===== *)
theory Unlock_Gate
  imports Account_Store Second_Factors
begin

text \<open>
  The unlock of an account: the policy that requires every enrolled factor and the gate that holds
  one live unlock and ends it (\<open>src/auth/policy.rs\<close>), the locked session handle
  (\<open>src/session.rs\<close>) and the handle both give out (\<open>src/unlocked.rs\<close>).

  Residencies are shared by reference: they live in a list of tokens, and a handle holds the position
  of its own. A policy is a state \<open>'p\<close> with the call that rules on the factors presented.
\<close>

section \<open>Policies\<close>

datatype unlock_error = Unauthorized string | UnlockKeystore account_store_error

fun store_error_str :: "account_store_error \<Rightarrow> string" where
  "store_error_str (AlreadyExists i) = ''account '' @ id_str i @ '' already exists''"
| "store_error_str (StoreNotFound i) = ''account '' @ id_str i @ '' not found''"
| "store_error_str (StoreSession why) = ''session error: '' @ why"
| "store_error_str (StoreBackend why) = ''keystore backend error: '' @ why"

fun unlock_error_str :: "unlock_error \<Rightarrow> string" where
  "unlock_error_str (Unauthorized why) = ''authorization refused: '' @ why"
| "unlock_error_str (UnlockKeystore e) = store_error_str e"

type_synonym 'p authorize = "auth_factors \<Rightarrow> 'p \<Rightarrow> ((unit, unlock_error) result, 'p) run"

definition password_only_policy :: "'p authorize" where
  "password_only_policy factors p = Returns (Ok ()) p"

text \<open>The crate's factors behind the \<open>SecondFactor\<close> seam, with the clock readings they make.\<close>

datatype 'k second_factor = TotpFactor totp_factor | PasskeyFactor "'k passkey_factor"

record ('k, 'g) factor_env =
  fe_hotp :: hotp
  fe_webauthn :: "('k, 'g) webauthn"
  fe_totp_now :: "(u64, totp_error) result"
  fe_passkey_now :: "(u64, passkey_error) result"

fun second_factor_name :: "'k second_factor \<Rightarrow> string" where
  "second_factor_name (TotpFactor f) = ''TOTP''"
| "second_factor_name (PasskeyFactor f) = ''passkey''"

fun second_factor_verify ::
  "('k, 'g) factor_env \<Rightarrow> auth_factors \<Rightarrow> 'k second_factor \<Rightarrow> ((unit, string) result, 'k second_factor) run"
where
  "second_factor_verify env factors (TotpFactor f) =
     (case totp_verify (fe_hotp env) (fe_totp_now env) f factors of
        Returns res f' \<Rightarrow> Returns res (TotpFactor f')
      | Panics f' \<Rightarrow> Panics (TotpFactor f'))"
| "second_factor_verify env factors (PasskeyFactor f) =
     (case passkey_verify (fe_webauthn env) (fe_passkey_now env) f factors of
        (res, f') \<Rightarrow> Returns res (PasskeyFactor f'))"

fun all_of_authorize :: "('k, 'g) factor_env \<Rightarrow> 'k second_factor list authorize" where
  "all_of_authorize env factors [] = Returns (Ok ()) []"
| "all_of_authorize env factors (f # fs) =
     (case second_factor_verify env factors f of
        Panics f' \<Rightarrow> Panics (f' # fs)
      | Returns (Err why) f' \<Rightarrow>
          Returns (Err (Unauthorized (second_factor_name f @ '': '' @ why))) (f' # fs)
      | Returns (Ok _) f' \<Rightarrow>
          (case all_of_authorize env factors fs of
             Returns res fs' \<Rightarrow> Returns res (f' # fs')
           | Panics fs' \<Rightarrow> Panics (f' # fs')))"

section \<open>Handles and the gate\<close>

record 's unlocked_account =
  ua_account :: account_id
  ua_seed :: 's
  ua_default_ix :: profile_ix
  ua_token :: nat

record ('p, 'b, 's) unlock_gate =
  ug_account :: account_id
  ug_default_ix :: profile_ix
  ug_store :: 'b
  ug_policy :: 'p
  ug_idle_timeout :: nat
  ug_live :: "('s \<times> nat) option"
  ug_tokens :: "residency list"

definition gate_new ::
  "account_id \<Rightarrow> profile_ix \<Rightarrow> 'b \<Rightarrow> 'p \<Rightarrow> nat \<Rightarrow> ('p, 'b, 's) unlock_gate" where
  "gate_new account ix store policy timeout =
     \<lparr>ug_account = account, ug_default_ix = ix, ug_store = store, ug_policy = policy,
      ug_idle_timeout = timeout, ug_live = None, ug_tokens = []\<rparr>"

definition gate_is_unlocked :: "nat \<Rightarrow> ('p, 'b, 's) unlock_gate \<Rightarrow> bool" where
  "gate_is_unlocked now g =
     (case ug_live g of None \<Rightarrow> False | Some (seed, token) \<Rightarrow> residency_is_live now (ug_tokens g ! token))"

definition account_handle :: "('p, 'b, 's) unlock_gate \<Rightarrow> 's \<times> nat \<Rightarrow> 's unlocked_account" where
  "account_handle g live =
     \<lparr>ua_account = ug_account g, ua_seed = fst live, ua_default_ix = ug_default_ix g, ua_token = snd live\<rparr>"

definition revoke_token :: "nat \<Rightarrow> residency list \<Rightarrow> residency list" where
  "revoke_token i ts = ts[i := residency_revoke (ts ! i)]"

definition end_unlock :: "('p, 'b, 's) unlock_gate \<Rightarrow> ('p, 'b, 's) unlock_gate" where
  "end_unlock g =
     (case ug_live g of
        None \<Rightarrow> g
      | Some (seed, token) \<Rightarrow> g\<lparr>ug_live := None, ug_tokens := revoke_token token (ug_tokens g)\<rparr>)"

definition gate_unlock ::
  "('b, 's) keychain \<Rightarrow> 'p authorize \<Rightarrow> nat \<Rightarrow> auth_factors \<Rightarrow> ('p, 'b, 's) unlock_gate \<Rightarrow>
     (('s unlocked_account, unlock_error) result, ('p, 'b, 's) unlock_gate) run"
where
  "gate_unlock kc authorize now factors g =
     (case authorize factors (ug_policy g) of
        Panics p \<Rightarrow> Panics (g\<lparr>ug_policy := p\<rparr>)
      | Returns (Err e) p \<Rightarrow> Returns (Err e) (g\<lparr>ug_policy := p\<rparr>)
      | Returns (Ok _) p \<Rightarrow>
          (let g1 = g\<lparr>ug_policy := p\<rparr> in
           case store_unlock kc (ug_store g1) (ug_account g1) (af_password factors) of
             Err e \<Rightarrow> Returns (Err (UnlockKeystore e)) g1
           | Ok seed \<Rightarrow>
               (let g2 = end_unlock g1;
                    live = (seed, length (ug_tokens g2))
                in Returns (Ok (account_handle g2 live))
                     (g2\<lparr>ug_live := Some live,
                         ug_tokens := ug_tokens g2 @ [idle_bounded now (ug_idle_timeout g2)]\<rparr>))))"

text \<open>\<open>access\<close> reads the clock to ask whether it is unlocked, and twice more to touch the
  token.\<close>

definition gate_access ::
  "nat \<Rightarrow> nat \<Rightarrow> nat \<Rightarrow> ('p, 'b, 's) unlock_gate \<Rightarrow> 's unlocked_account option \<times> ('p, 'b, 's) unlock_gate"
where
  "gate_access now0 now1 now2 g =
     (if \<not> gate_is_unlocked now0 g then (None, end_unlock g)
      else case ug_live g of
        None \<Rightarrow> (None, g)
      | Some (seed, token) \<Rightarrow>
          (Some (account_handle g (seed, token)),
           g\<lparr>ug_tokens := (ug_tokens g)[token := residency_touch now1 now2 (ug_tokens g ! token)]\<rparr>))"

definition gate_lock :: "('p, 'b, 's) unlock_gate \<Rightarrow> ('p, 'b, 's) unlock_gate" where
  "gate_lock g = end_unlock g"

definition gate_drop :: "('p, 'b, 's) unlock_gate \<Rightarrow> ('p, 'b, 's) unlock_gate" where
  "gate_drop g = end_unlock g"

text \<open>\<open>UnlockedAccount::lock\<close> consumes the handle.\<close>

definition handle_lock :: "'s unlocked_account \<Rightarrow> residency list \<Rightarrow> residency list" where
  "handle_lock h ts = revoke_token (ua_token h) ts"

section \<open>Sessions\<close>

text \<open>A session's unlock is under a token of its own, which has no idle deadline.\<close>

record 'b account_session =
  as_store :: 'b
  as_account :: account_id
  as_default_ix :: profile_ix

definition unlocked_new ::
  "account_id \<Rightarrow> 's \<Rightarrow> profile_ix \<Rightarrow> residency list \<Rightarrow> 's unlocked_account \<times> residency list" where
  "unlocked_new account seed ix ts =
     (\<lparr>ua_account = account, ua_seed = seed, ua_default_ix = ix, ua_token = length ts\<rparr>, ts @ [residency_new])"

definition session_enroll ::
  "('b, 's) keychain \<Rightarrow> 'b \<Rightarrow> account_id \<Rightarrow> string \<Rightarrow> byte list \<Rightarrow> profile_ix \<Rightarrow> residency list \<Rightarrow>
     ('s unlocked_account, account_error) result \<times> 'b \<times> residency list"
where
  "session_enroll kc b account password entropy ix ts =
     (case store_enroll kc b account password entropy of
        (Err why, b') \<Rightarrow> (Err (Keystore (store_error_str why)), b', ts)
      | (Ok seed, b') \<Rightarrow> (case unlocked_new account seed ix ts of (h, ts') \<Rightarrow> (Ok h, b', ts')))"

definition session_enroll_from_recovery_phrase ::
  "('b, 's) keychain \<Rightarrow> 'b \<Rightarrow> account_id \<Rightarrow> string \<Rightarrow> string \<Rightarrow> profile_ix \<Rightarrow> residency list \<Rightarrow>
     ('s unlocked_account, account_error) result \<times> 'b \<times> residency list"
where
  "session_enroll_from_recovery_phrase kc b account password phrase ix ts =
     (case store_enroll_from_recovery_phrase kc b account password phrase of
        (Err why, b') \<Rightarrow> (Err (Keystore (store_error_str why)), b', ts)
      | (Ok seed, b') \<Rightarrow> (case unlocked_new account seed ix ts of (h, ts') \<Rightarrow> (Ok h, b', ts')))"

text \<open>\<open>provider\<close> is the answer of the host's ceremony.\<close>

definition session_unlock ::
  "('b, 's) keychain \<Rightarrow> 'p authorize \<Rightarrow> (auth_factors, account_error) result \<Rightarrow> 'b account_session \<Rightarrow>
     'p \<Rightarrow> residency list \<Rightarrow> (('s unlocked_account, account_error) result, 'p \<times> residency list) run"
where
  "session_unlock kc authorize provider s p ts =
     (case provider of
        Err e \<Rightarrow> Returns (Err e) (p, ts)
      | Ok factors \<Rightarrow>
          (case authorize factors p of
             Panics p' \<Rightarrow> Panics (p', ts)
           | Returns (Err why) p' \<Rightarrow> Returns (Err (Auth (unlock_error_str why))) (p', ts)
           | Returns (Ok _) p' \<Rightarrow>
               (case store_unlock kc (as_store s) (as_account s) (af_password factors) of
                  Err why \<Rightarrow> Returns (Err (Keystore (store_error_str why))) (p', ts)
                | Ok seed \<Rightarrow>
                    (case unlocked_new (as_account s) seed (as_default_ix s) ts of
                       (h, ts') \<Rightarrow> Returns (Ok h) (p', ts')))))"

section \<open>What can happen to a gate\<close>

text \<open>
  The gate's own calls, a handle locked by its holder, and whatever else shares the store. An attempt is
  ruled on by some member of \<open>auths\<close>: the policy's call, with whatever its clocks answer then.
\<close>

inductive gate_step ::
  "('b, 's) keychain \<Rightarrow> 'p authorize set \<Rightarrow> nat \<Rightarrow> ('p, 'b, 's) unlock_gate \<Rightarrow> nat \<Rightarrow>
     ('p, 'b, 's) unlock_gate \<Rightarrow> bool"
  for kc auths
where
  Unlock: "t \<le> now \<Longrightarrow> authorize \<in> auths \<Longrightarrow>
    gate_step kc auths t g now (run_state (gate_unlock kc authorize now factors g))"
| Access: "t \<le> now0 \<Longrightarrow> now0 \<le> now1 \<Longrightarrow> now1 \<le> now2 \<Longrightarrow>
    gate_step kc auths t g now2 (snd (gate_access now0 now1 now2 g))"
| Lock: "t \<le> now \<Longrightarrow> gate_step kc auths t g now (gate_lock g)"
| Handle: "t \<le> now \<Longrightarrow> ua_token (h :: 's unlocked_account) < length (ug_tokens g) \<Longrightarrow>
    gate_step kc auths t g now (g\<lparr>ug_tokens := handle_lock h (ug_tokens g)\<rparr>)"
| Elsewhere: "t \<le> now \<Longrightarrow> gate_step kc auths t g now (g\<lparr>ug_store := b\<rparr>)"

inductive gate_steps ::
  "('b, 's) keychain \<Rightarrow> 'p authorize set \<Rightarrow> nat \<Rightarrow> ('p, 'b, 's) unlock_gate \<Rightarrow> nat \<Rightarrow>
     ('p, 'b, 's) unlock_gate \<Rightarrow> bool"
  for kc auths t g
where
  Stay: "gate_steps kc auths t g t g"
| More: "gate_steps kc auths t g t1 g1 \<Longrightarrow> gate_step kc auths t1 g1 t2 g2 \<Longrightarrow>
    gate_steps kc auths t g t2 g2"

inductive_cases gate_stepE: "gate_step kc auths t g t' g'"

end
