(* ===== verification/Factor_Properties.thy ===== *)
theory Factor_Properties
  imports Second_Factors
begin

text \<open>
  What the second factors promise: a one-time code and a passkey assertion are each good once, an
  assertion nobody signed moves nothing, and a label cannot restructure the enrolment address.
\<close>

section \<open>One-time codes\<close>

lemma fold_match:
  "fold (\<lambda>c m. if P c then Some c else m) cs m0 = Some c \<Longrightarrow> m0 = Some c \<or> c \<in> set cs \<and> P c"
proof (induction cs arbitrary: m0)
  case Nil
  then show ?case by simp
next
  case (Cons x cs)
  from Cons.IH [of "if P x then Some x else m0"] Cons.prems show ?case by (auto split: if_splits)
qed

lemma totp_counters_range:
  "c \<in> set (totp_counters current skew) \<longleftrightarrow> saturating_sub current skew \<le> c \<and> c \<le> saturating_add current skew"
proof
  assume "c \<in> set (totp_counters current skew)"
  then obtain n where n: "unat (saturating_sub current skew) \<le> n" "n \<le> unat (saturating_add current skew)"
    and c: "c = of_nat n"
    by (auto simp: totp_counters_def)
  have "n < 2 ^ LENGTH(64)" using n(2) unat_less_pow [of "saturating_add current skew"] by linarith
  then have "unat c = n" by (simp add: c unat_of_nat)
  then show "saturating_sub current skew \<le> c \<and> c \<le> saturating_add current skew"
    using n by (simp add: word_le_nat_alt)
next
  assume "saturating_sub current skew \<le> c \<and> c \<le> saturating_add current skew"
  then have "unat c \<in> set [unat (saturating_sub current skew)..<Suc (unat (saturating_add current skew))]"
    by (auto simp: word_le_nat_alt less_Suc_eq_le)
  then have "of_nat (unat c) \<in> set (totp_counters current skew)"
    unfolding totp_counters_def by (simp only: set_map) (rule imageI)
  then show "c \<in> set (totp_counters current skew)" by simp
qed

text \<open>An attempt is a clock reading and the code presented; \<open>totp_accepted\<close> lists the accepted
  ones, with the counter each spent.\<close>

type_synonym totp_attempt = "(u64, totp_error) result \<times> string"

fun totp_accepted :: "hotp \<Rightarrow> totp_factor \<Rightarrow> totp_attempt list \<Rightarrow> (u64 \<times> totp_attempt) list" where
  "totp_accepted hotp f [] = []"
| "totp_accepted hotp f ((now, presented) # attempts) =
     (case totp_check hotp now f presented of
        Returns (Ok _) f' \<Rightarrow>
          (case tf_last_consumed f' of
             Guarding (Some c) \<Rightarrow> (c, now, presented) # totp_accepted hotp f' attempts
           | _ \<Rightarrow> totp_accepted hotp f' attempts)
      | Returns (Err _) f' \<Rightarrow> totp_accepted hotp f' attempts
      | Panics f' \<Rightarrow> totp_accepted hotp f' attempts)"

definition totp_valid :: "hotp \<Rightarrow> byte list \<Rightarrow> totp_params \<Rightarrow> u64 \<times> totp_attempt \<Rightarrow> bool" where
  "totp_valid hotp secret p = (\<lambda>(c, now, presented).
     code_at_counter hotp secret p c = presented \<and>
     (case now of
        Ok secs \<Rightarrow>
          saturating_sub (secs div tp_step_secs p) (tp_skew_steps p) \<le> c \<and>
          c \<le> saturating_add (secs div tp_step_secs p) (tp_skew_steps p)
      | Err _ \<Rightarrow> False))"

definition totp_unspent :: "totp_factor \<Rightarrow> u64 \<Rightarrow> bool" where
  "totp_unspent f c \<longleftrightarrow> (case tf_last_consumed f of Guarding (Some s) \<Rightarrow> s < c | _ \<Rightarrow> True)"

lemma totp_unspent_after: "totp_unspent (f\<lparr>tf_last_consumed := Guarding (Some c)\<rparr>) d \<longleftrightarrow> c < d"
  by (simp add: totp_unspent_def)

lemma totp_check_cases:
  obtains (refused) r where "totp_check hotp now f presented = r" "run_state r = f"
      "\<And>f'. r \<noteq> Returns (Ok ()) f'"
  | (accepted) c f' where "totp_check hotp now f presented = Returns (Ok ()) f'"
      "f' = f\<lparr>tf_last_consumed := Guarding (Some c)\<rparr>" "totp_unspent f c"
      "totp_valid hotp (tf_secret f) (tf_params f) (c, now, presented)"
proof (cases "\<exists>f'. totp_check hotp now f presented = Returns (Ok ()) f'")
  case False
  moreover have "run_state (totp_check hotp now f presented) = f"
    using False by (auto simp: totp_check_def Let_def split: result.splits option.splits mutex.splits if_splits)
  ultimately show thesis using refused by blast
next
  case True
  then obtain f' where f': "totp_check hotp now f presented = Returns (Ok ()) f'" by blast
  then obtain secs c where now: "now = Ok secs"
    and m: "totp_match hotp f (secs div tp_step_secs (tf_params f)) presented = Some c"
    and upd: "f' = f\<lparr>tf_last_consumed := Guarding (Some c)\<rparr>" and free: "totp_unspent f c"
    by (auto simp: totp_check_def Let_def totp_unspent_def split: result.splits option.splits mutex.splits if_splits)
  from fold_match [OF m [unfolded totp_match_def]]
  have "totp_valid hotp (tf_secret f) (tf_params f) (c, now, presented)"
    by (simp add: totp_valid_def now totp_counters_range)
  from accepted [OF f' upd free this] show thesis .
qed

lemma totp_accepted_spent:
  "sorted_wrt (<) (map fst (totp_accepted hotp f attempts)) \<and>
   list_all (totp_unspent f \<circ> fst) (totp_accepted hotp f attempts) \<and>
   list_all (totp_valid hotp (tf_secret f) (tf_params f)) (totp_accepted hotp f attempts)"
proof (induction attempts arbitrary: f)
  case Nil
  then show ?case by simp
next
  case (Cons a attempts)
  obtain now presented where a: "a = (now, presented)" by fastforce
  show ?case
  proof (rule totp_check_cases [of hotp now f presented])
    fix r
    assume "totp_check hotp now f presented = r" "run_state r = f" "\<And>f'. r \<noteq> Returns (Ok ()) f'"
    then have "totp_accepted hotp f (a # attempts) = totp_accepted hotp f attempts"
      by (cases r) (auto simp: a split: result.splits)
    then show ?thesis using Cons.IH by simp
  next
    fix c f'
    assume accepted: "totp_check hotp now f presented = Returns (Ok ()) f'"
      "f' = f\<lparr>tf_last_consumed := Guarding (Some c)\<rparr>" "totp_unspent f c"
      "totp_valid hotp (tf_secret f) (tf_params f) (c, now, presented)"
    then have run: "totp_accepted hotp f (a # attempts) = (c, now, presented) # totp_accepted hotp f' attempts"
      by (simp add: a)
    have "totp_unspent f d" if "c < d" for d
      using accepted(3) that by (auto simp: totp_unspent_def split: mutex.splits option.splits)
    then show ?thesis
      using Cons.IH [of f'] accepted(2-4) unfolding run
      by (auto simp: list_all_iff totp_unspent_after)
  qed
qed

text \<open>C30: A one-time code is spent once. Over any attempts, at any clock readings, the accepted ones
  spend strictly increasing counters, none at or below the guard it started from, so no code is good
  twice, not even within the skew; and each accepted code is the one its counter gives, within the
  skew of the reading.\<close>

theorem totp_code_is_spent_once:
  "sorted_wrt (<) (map fst (totp_accepted hotp f attempts)) \<and>
   list_all (totp_unspent f \<circ> fst) (totp_accepted hotp f attempts) \<and>
   list_all (totp_valid hotp (tf_secret f) (tf_params f)) (totp_accepted hotp f attempts)"
  by (rule totp_accepted_spent)

section \<open>The enrolment address\<close>

definition hex_value :: "char \<Rightarrow> nat" where
  "hex_value c = (let n = of_char c in if n < 58 then n - 48 else n - 55)"

fun urldecode :: "string \<Rightarrow> string" where
  "urldecode [] = []"
| "urldecode (c # s) =
     (if c = CHR ''%''
      then (case s of h # l # s' \<Rightarrow> char_of (16 * hex_value h + hex_value l) # urldecode s' | _ \<Rightarrow> [])
      else c # urldecode s)"

lemma hex_value_digit: "n < 16 \<Longrightarrow> hex_value (hex_digit n) = n"
  by (auto simp: hex_value_def hex_digit_def Let_def)

lemma urldecode_urlencode: "urldecode (urlencode s) = s"
proof (induction s)
  case Nil
  then show ?case by simp
next
  case (Cons b s)
  have "(of_char b :: nat) div 16 < 16" using nat_of_char_less_256 [of b] by linarith
  then have "hex_value (hex_digit (of_char b div 16)) = of_char b div 16"
      "hex_value (hex_digit (of_char b mod 16)) = of_char b mod 16"
    by (simp_all add: hex_value_digit)
  moreover have "char_of (16 * (of_char b div 16) + of_char b mod 16 :: nat) = b" by simp
  moreover have "unreserved b \<Longrightarrow> b \<noteq> CHR ''%''" by (auto simp: unreserved_def)
  ultimately show ?case using Cons.IH by simp
qed

lemma urlencode_safe: "list_all (\<lambda>c. unreserved c \<or> c = CHR ''%'') (urlencode s)"
proof (induction s)
  case Nil
  then show ?case by simp
next
  case (Cons b s)
  have "unreserved (hex_digit n)" if "n < 16" for n
    using that by (auto simp: unreserved_def hex_digit_def Let_def)
  moreover have "(of_char b :: nat) div 16 < 16" using nat_of_char_less_256 [of b] by linarith
  ultimately show ?case using Cons.IH by simp
qed

text \<open>A label in an enrolment address decodes to itself, whatever its bytes, and holds no
  character that could end it there or start another part of the address.\<close>

theorem enrolment_label_round_trips:
  "urldecode (urlencode label) = label \<and> list_all (\<lambda>c. c \<notin> set '':/?&=#'') (urlencode label)"
proof -
  have "c \<notin> set '':/?&=#''" if "unreserved c \<or> c = CHR ''%''" for c
    using that by (auto simp: unreserved_def Let_def)
  then show ?thesis using urldecode_urlencode [of label] urlencode_safe [of label]
    by (auto simp: list_all_iff)
qed

section \<open>Passkey assertions\<close>

text \<open>What the factor must have seen in an envelope: the enrolled credential, a login ceremony from
  an accepted origin answering the challenge \<open>ch\<close>, authenticator data for the enrolled relying
  party with the user present, and verified where that is required, carrying the counter \<open>n\<close>, and
  the credential's signature over that data and the hash of the client data.\<close>

definition genuine_assertion ::
  "('k, 'g) webauthn \<Rightarrow> 'k passkey_factor \<Rightarrow> byte list \<Rightarrow> byte list \<Rightarrow> u32 \<Rightarrow> bool" where
  "genuine_assertion wa f envelope_json ch n \<longleftrightarrow>
     (\<exists>e ad cdj client der signature.
        wa_envelope wa envelope_json = Some e \<and>
        b64url wa (ae_credential_id e) = Ok (pc_id (pf_credential f)) \<and>
        b64url wa (ae_authenticator_data e) = Ok ad \<and> b64url wa (ae_client_data_json e) = Ok cdj \<and>
        wa_client_data wa cdj = Some client \<and> cd_ceremony_type client = ''webauthn.get'' \<and>
        cd_origin client \<in> set (pf_accepted_origins f) \<and> b64url wa (cd_challenge client) = Ok ch \<and>
        37 \<le> length ad \<and> take 32 ad = wa_sha256 wa (map of_char (pc_rp_id (pf_credential f))) \<and>
        bit (ad ! 32) 0 \<and> (pf_user_verification f = Preferred \<or> bit (ad ! 32) 2) \<and>
        n = u32_from_be_bytes (take 4 (drop 33 ad)) \<and>
        b64url wa (ae_signature e) = Ok der \<and> wa_der wa der = Some signature \<and>
        wa_verify wa (pc_public_key (pf_credential f)) (ad @ wa_sha256 wa cdj) signature)"

lemma envelope_checks_genuine:
  "passkey_envelope_checks wa f envelope_json = Ok (ch, n) \<longleftrightarrow> genuine_assertion wa f envelope_json ch n"
proof
  have uv: "pf_user_verification f = Preferred \<longleftrightarrow> pf_user_verification f \<noteq> Required"
    by (cases "pf_user_verification f") simp_all
  show "passkey_envelope_checks wa f envelope_json = Ok (ch, n) \<Longrightarrow>
      genuine_assertion wa f envelope_json ch n"
    unfolding passkey_envelope_checks_def genuine_assertion_def Let_def uv
    by (auto simp: result_simps AUTHENTICATOR_DATA_MIN_LEN_def split: if_split_asm)
  assume "genuine_assertion wa f envelope_json ch n"
  then show "passkey_envelope_checks wa f envelope_json = Ok (ch, n)"
    unfolding genuine_assertion_def uv
    by (elim exE conjE) (auto simp: passkey_envelope_checks_def Let_def ok_or_def AUTHENTICATOR_DATA_MIN_LEN_def)
qed

text \<open>Only a genuine assertion moves anything: unless the enrolled credential signed it, for this
  relying party, from an accepted origin, presenting an envelope can neither be accepted nor spend the
  outstanding challenge nor move the signature counter.\<close>

theorem only_a_genuine_assertion_moves_state:
  "(\<exists>ch n. genuine_assertion wa f envelope ch n) \<or>
   (\<exists>e. passkey_check wa now f envelope = (Err e, f))"
proof (cases "passkey_envelope_checks wa f envelope")
  case (Ok x)
  then show ?thesis by (cases x) (auto simp: envelope_checks_genuine)
next
  case (Err e)
  then show ?thesis by (simp add: passkey_check_def)
qed

lemma no_challenge_no_acceptance:
  "ci_outstanding (pf_challenges f) = Guarding None \<Longrightarrow> fst (passkey_check wa now f envelope) \<noteq> Ok ()"
  by (auto simp: passkey_check_def consume_challenge_def split: result.splits)

text \<open>An assertion is spent once. One that is accepted was genuine, answered the outstanding
  challenge before its expiry and advanced the credential's counter, unless the authenticator keeps
  none; and after it nothing at all is accepted until a new challenge is issued.\<close>

theorem passkey_assertion_is_spent_once:
  assumes "passkey_check wa now f envelope = (Ok (), f')"
  shows "(\<exists>ch n secs expires stored. genuine_assertion wa f envelope ch n \<and> now = Ok secs \<and>
      ci_outstanding (pf_challenges f) = Guarding (Some (ch, expires)) \<and> secs < expires \<and>
      pc_sign_count (pf_credential f) = Guarding stored \<and> (stored < n \<or> stored = 0 \<and> n = 0) \<and>
      pc_sign_count (pf_credential f') = Guarding n) \<and>
    ci_outstanding (pf_challenges f') = Guarding None \<and>
    (\<forall>now' envelope'. fst (passkey_check wa now' f' envelope') \<noteq> Ok ())"
proof -
  obtain ch n where checks: "passkey_envelope_checks wa f envelope = Ok (ch, n)"
    using assms by (auto simp: passkey_check_def split: result.splits)
  then obtain secs expires where now: "now = Ok secs" and out: "ci_outstanding (pf_challenges f) = Guarding (Some (ch, expires))"
    and early: "secs < expires"
    using assms by (auto simp: passkey_check_def consume_challenge_def not_le
        split: result.splits mutex.splits option.splits if_splits)
  obtain stored where count: "pc_sign_count (pf_credential f) = Guarding stored" "stored < n \<or> stored = 0 \<and> n = 0"
    and f': "pc_sign_count (pf_credential f') = Guarding n" "ci_outstanding (pf_challenges f') = Guarding None"
    using assms checks now out early
    by (auto simp: passkey_check_def consume_challenge_def Let_def not_le split: mutex.splits if_splits)
  then show ?thesis
    using checks now out early no_challenge_no_acceptance [OF f'(2)] by (auto simp: envelope_checks_genuine)
qed

text \<open>A sample relying party, whose hash is all zeros and whose signatures all verify.\<close>

definition sample_authenticator_data :: "byte list" where
  "sample_authenticator_data = replicate 32 0 @ [5, 0, 0, 0, 3]"

definition sample_webauthn :: "(unit, unit) webauthn" where
  "sample_webauthn =
     \<lparr>wa_envelope = (\<lambda>_. Some \<lparr>ae_credential_id = ''c'', ae_authenticator_data = ''a'',
        ae_client_data_json = ''j'', ae_signature = ''s''\<rparr>),
      wa_client_data = (\<lambda>_. Some \<lparr>cd_ceremony_type = ''webauthn.get'', cd_challenge = ''h'', cd_origin = ''o''\<rparr>),
      wa_base64url = (\<lambda>s. Some (if s = ''a'' then sample_authenticator_data else map of_char s)),
      wa_sha256 = (\<lambda>_. replicate 32 0), wa_sec1 = (\<lambda>_. Some ()), wa_der = (\<lambda>_. Some ()),
      wa_verify = (\<lambda>_ _ _. True)\<rparr>"

definition sample_passkey :: "unit passkey_factor" where
  "sample_passkey =
     \<lparr>pf_credential = \<lparr>pc_id = map of_char ''c'', pc_public_key = (), pc_rp_id = ''rp'', pc_sign_count = Guarding 2\<rparr>,
      pf_challenges = \<lparr>ci_ttl_secs = 60, ci_outstanding = Guarding (Some (map of_char ''h'', 160))\<rparr>,
      pf_accepted_origins = [''o''], pf_user_verification = Required\<rparr>"

lemma sample_passkey_accepted:
  "passkey_check sample_webauthn (Ok 100) sample_passkey [] =
     (Ok (), sample_passkey\<lparr>pf_challenges := \<lparr>ci_ttl_secs = 60, ci_outstanding = Guarding None\<rparr>,
        pf_credential := (pf_credential sample_passkey)\<lparr>pc_sign_count := Guarding 3\<rparr>\<rparr>)"
proof -
  have "trim_end_equals ''c'' = ''c''" "trim_end_equals ''a'' = ''a''" "trim_end_equals ''j'' = ''j''"
      "trim_end_equals ''s'' = ''s''" "trim_end_equals ''h'' = ''h''"
    by (simp_all add: trim_end_equals_def)
  then have b64: "b64url sample_webauthn s = Ok (if s = ''a'' then sample_authenticator_data else map of_char s)"
      if "s \<in> {''c'', ''a'', ''j'', ''s'', ''h''}" for s
    using that by (auto simp: b64url_def sample_webauthn_def ok_or_def)
  have wa: "wa_envelope sample_webauthn x = Some \<lparr>ae_credential_id = ''c'', ae_authenticator_data = ''a'',
        ae_client_data_json = ''j'', ae_signature = ''s''\<rparr>"
      "wa_client_data sample_webauthn x =
         Some \<lparr>cd_ceremony_type = ''webauthn.get'', cd_challenge = ''h'', cd_origin = ''o''\<rparr>"
      "wa_sha256 sample_webauthn x = replicate 32 0" "wa_der sample_webauthn x = Some ()"
      "wa_verify sample_webauthn k x g" for x k g
    by (simp_all add: sample_webauthn_def)
  have ad: "length sample_authenticator_data = 37" "take 32 sample_authenticator_data = replicate 32 0"
      "sample_authenticator_data ! 32 = 5" "take 4 (drop 33 sample_authenticator_data) = [0, 0, 0, 3]"
    by (simp_all add: sample_authenticator_data_def nth_append numeral_eq_Suc)
  have flags: "bit (5 :: byte) 0" "bit (5 :: byte) 2" by (simp_all add: bit_numeral_rec numeral_eq_Suc)
  have "passkey_envelope_checks sample_webauthn sample_passkey [] = Ok (map of_char ''h'', 3)"
    using flags by (simp add: passkey_envelope_checks_def wa b64 ad ok_or_def Let_def sample_passkey_def
        AUTHENTICATOR_DATA_MIN_LEN_def u32_from_be_bytes_def)
  then show ?thesis
    by (simp add: passkey_check_def sample_passkey_def consume_challenge_def Let_def)
qed

theorem passkey_assertion_is_spent_once_witness:
  "fst (passkey_check sample_webauthn (Ok 101)
     (snd (passkey_check sample_webauthn (Ok 100) sample_passkey [])) []) \<noteq> Ok ()"
  using passkey_assertion_is_spent_once [OF sample_passkey_accepted]
  by (simp only: sample_passkey_accepted snd_conv) blast

end
