(* ===== verification/Gate_Properties.thy ===== *)
theory Gate_Properties
  imports Unlock_Gate Factor_Properties
begin

text \<open>
  What the unlock gate promises: one unlock is live at most, the one it holds; ending it, by a relock,
  by idling or by a newer unlock, ends every handle ever given out under it, for good; and an unlock
  takes every enrolled factor and the password.
\<close>

section \<open>Tokens only die\<close>

definition token_live :: "nat \<Rightarrow> ('p, 'b, 's) unlock_gate \<Rightarrow> nat \<Rightarrow> bool" where
  "token_live t g i \<longleftrightarrow> i < length (ug_tokens g) \<and> residency_is_live t (ug_tokens g ! i)"

definition gate_holds :: "('p, 'b, 's) unlock_gate \<Rightarrow> nat \<Rightarrow> bool" where
  "gate_holds g i \<longleftrightarrow> (\<exists>seed. ug_live g = Some (seed, i))"

definition gate_ok :: "nat \<Rightarrow> ('p, 'b, 's) unlock_gate \<Rightarrow> bool" where
  "gate_ok t g \<longleftrightarrow>
     (\<forall>i. token_live t g i \<longrightarrow> gate_holds g i) \<and> (\<forall>i. gate_holds g i \<longrightarrow> i < length (ug_tokens g))"

lemma revoked_not_live [simp]: "\<not> residency_is_live t (residency_revoke r)"
  by (simp add: residency_is_live_def residency_revoke_def)

lemma token_live_later: "token_live now g i \<Longrightarrow> t \<le> now \<Longrightarrow> token_live t g i"
  using not_live_later by (auto simp: token_live_def)

lemma touch_not_live:
  "\<not> residency_is_live t r \<Longrightarrow> t \<le> now \<Longrightarrow> now \<le> now' \<Longrightarrow> \<not> residency_is_live now' (residency_touch now now' r)"
  using residency_step_dead [OF residency_step.Touch] by blast

lemma end_unlock_frame [simp]:
  "ug_account (end_unlock g) = ug_account g" "ug_default_ix (end_unlock g) = ug_default_ix g"
  "ug_idle_timeout (end_unlock g) = ug_idle_timeout g"
  by (auto simp: end_unlock_def split: option.splits)

lemma nth_update: "i < length xs \<Longrightarrow> xs[j := y] ! i = (if j = i then y else xs ! i)"
  by (cases "j = i") simp_all

lemma end_unlock_length [simp]: "length (ug_tokens (end_unlock g)) = length (ug_tokens g)"
  by (auto simp: end_unlock_def revoke_token_def split: option.splits)

lemma end_unlock_holds [simp]: "\<not> gate_holds (end_unlock g) i"
  by (auto simp: end_unlock_def gate_holds_def split: option.splits)

lemma end_unlock_live: "token_live t (end_unlock g) i \<longleftrightarrow> token_live t g i \<and> \<not> gate_holds g i"
  by (auto simp: end_unlock_def gate_holds_def token_live_def revoke_token_def nth_update
      split: option.splits if_splits)

lemma end_unlock_dead: "gate_ok t g \<Longrightarrow> t \<le> now \<Longrightarrow> \<not> token_live now (end_unlock g) i"
  using token_live_later by (fastforce simp: end_unlock_live gate_ok_def)

lemma end_unlock_ok: "gate_ok t g \<Longrightarrow> t \<le> now \<Longrightarrow> gate_ok now (end_unlock g)"
  using end_unlock_dead by (auto simp: gate_ok_def)

lemma gate_ok_later: "gate_ok t g \<Longrightarrow> t \<le> now \<Longrightarrow> gate_ok now g"
  using token_live_later by (fastforce simp: gate_ok_def)

text \<open>What an unlock attempt leaves.\<close>

lemma gate_unlock_cases:
  obtains (refused) p where "run_state (gate_unlock kc authorize now factors g) = g\<lparr>ug_policy := p\<rparr>"
      "\<And>h g'. gate_unlock kc authorize now factors g \<noteq> Returns (Ok h) g'"
  | (opened) p seed where "authorize factors (ug_policy g) = Returns (Ok ()) p"
      "store_unlock kc (ug_store g) (ug_account g) (af_password factors) = Ok seed"
      "gate_unlock kc authorize now factors g =
         Returns (Ok \<lparr>ua_account = ug_account g, ua_seed = seed, ua_default_ix = ug_default_ix g,
             ua_token = length (ug_tokens g)\<rparr>)
           ((end_unlock (g\<lparr>ug_policy := p\<rparr>))\<lparr>ug_live := Some (seed, length (ug_tokens g)),
              ug_tokens := ug_tokens (end_unlock (g\<lparr>ug_policy := p\<rparr>)) @ [idle_bounded now (ug_idle_timeout g)]\<rparr>)"
proof -
  show thesis
  proof (cases "authorize factors (ug_policy g)")
    case (Panics p)
    then show thesis using refused [of p] by (simp add: gate_unlock_def)
  next
    case (Returns r p)
    show thesis
    proof (cases r)
      case (Err e)
      then show thesis using Returns refused [of p] by (simp add: gate_unlock_def)
    next
      case (Ok u)
      show thesis
      proof (cases "store_unlock kc (ug_store g) (ug_account g) (af_password factors)")
        case (Err e)
        then show thesis using Returns Ok refused [of p] by (simp add: gate_unlock_def Let_def)
      next
        case seed: (Ok seed)
        show thesis
          by (rule opened [of p seed])
             (use Returns Ok seed in \<open>simp_all add: gate_unlock_def Let_def account_handle_def\<close>)
      qed
    qed
  qed
qed

lemma policy_frame [simp]:
  "token_live t (g\<lparr>ug_policy := p\<rparr>) i = token_live t g i" "gate_holds (g\<lparr>ug_policy := p\<rparr>) i = gate_holds g i"
  "token_live t (g\<lparr>ug_store := b\<rparr>) i = token_live t g i" "gate_holds (g\<lparr>ug_store := b\<rparr>) i = gate_holds g i"
  by (simp_all add: token_live_def gate_holds_def)

lemma opened_token_live:
  "token_live t (x\<lparr>ug_live := Some (seed, n), ug_tokens := ug_tokens x @ [r]\<rparr>) i \<longleftrightarrow>
     token_live t x i \<or> i = length (ug_tokens x) \<and> residency_is_live t r"
  by (auto simp: token_live_def nth_append)

text \<open>No step brings a token back, and the gate's invariant is kept.\<close>

lemma gate_step_dead:
  assumes "gate_step kc auths t g t' g'" and "i < length (ug_tokens g)" and "\<not> token_live t g i"
  shows "\<not> token_live t' g' i \<and> i < length (ug_tokens g')"
  using assms
proof (cases rule: gate_step.cases)
  case (Unlock authorize factors)
  have now: "\<not> token_live t' g i" using Unlock assms(3) token_live_later by blast
  show ?thesis
  proof (cases rule: gate_unlock_cases [of kc authorize t' factors g])
    case (refused p)
    then show ?thesis using Unlock now assms(2) by simp
  next
    case (opened p seed)
    then show ?thesis using Unlock now assms(2)
      by (simp add: opened_token_live end_unlock_live)
  qed
next
  case (Access now0 now1)
  have now: "\<not> token_live t' g i" using Access assms(3) token_live_later by (meson order_trans)
  show ?thesis
  proof (cases "gate_is_unlocked now0 g")
    case False
    then show ?thesis using Access now assms(2) by (simp add: gate_access_def end_unlock_live)
  next
    case True
    then show ?thesis
      using Access now assms(2,3) touch_not_live [of t "ug_tokens g ! i" now1 t']
      by (auto simp: gate_access_def token_live_def nth_update split: option.splits)
  qed
next
  case Lock
  then show ?thesis using assms(2,3) token_live_later
    by (fastforce simp: gate_lock_def end_unlock_live)
next
  case (Handle h)
  then show ?thesis using assms(2,3) token_live_later [of t' g i t]
    by (auto simp: handle_lock_def revoke_token_def token_live_def nth_update)
next
  case (Elsewhere b)
  then show ?thesis using assms(2,3) token_live_later by fastforce
qed

lemma gate_step_ok:
  assumes "gate_step kc auths t g t' g'" and "gate_ok t g"
  shows "gate_ok t' g'"
  using assms(1)
proof (cases rule: gate_step.cases)
  case (Unlock authorize factors)
  show ?thesis
  proof (cases rule: gate_unlock_cases [of kc authorize t' factors g])
    case (refused p)
    then show ?thesis using Unlock gate_ok_later [OF assms(2)] by (simp add: gate_ok_def)
  next
    case (opened p seed)
    have dead: "\<not> token_live t' (end_unlock (g\<lparr>ug_policy := p\<rparr>)) i" for i
      using end_unlock_dead [OF assms(2), of t' i] Unlock by (simp add: end_unlock_live)
    then show ?thesis
      using Unlock opened(3) unfolding gate_ok_def
      by (auto simp: opened_token_live gate_holds_def)
  qed
next
  case (Access now0 now1)
  show ?thesis
  proof (cases "gate_is_unlocked now0 g")
    case False
    then show ?thesis using Access end_unlock_ok [OF assms(2)] by (simp add: gate_access_def)
  next
    case True
    then obtain seed i where live: "ug_live g = Some (seed, i)"
      by (auto simp: gate_is_unlocked_def split: option.splits)
    have "gate_ok t' g" using Access gate_ok_later [OF assms(2)] by simp
    then show ?thesis
      using Access True live
      by (auto simp: gate_access_def gate_ok_def token_live_def gate_holds_def nth_update split: if_splits)
  qed
next
  case Lock
  then show ?thesis using end_unlock_ok [OF assms(2)] by (simp add: gate_lock_def)
next
  case (Handle h)
  have "gate_ok t' g" using Handle gate_ok_later [OF assms(2)] by simp
  then show ?thesis using Handle
    by (auto simp: gate_ok_def token_live_def gate_holds_def handle_lock_def revoke_token_def nth_update
        split: if_splits)
next
  case (Elsewhere b)
  then show ?thesis using gate_ok_later [OF assms(2)] by (simp add: gate_ok_def)
qed

lemma gate_steps_ok: "gate_steps kc auths t g t' g' \<Longrightarrow> gate_ok t g \<Longrightarrow> gate_ok t' g'"
  by (induction rule: gate_steps.induct) (auto intro: gate_step_ok)

lemma gate_steps_dead:
  "gate_steps kc auths t g t' g' \<Longrightarrow> i < length (ug_tokens g) \<Longrightarrow> \<not> token_live t g i \<Longrightarrow>
     \<not> token_live t' g' i \<and> i < length (ug_tokens g')"
  by (induction rule: gate_steps.induct) (auto dest: gate_step_dead)

lemma gate_new_ok: "gate_ok t (gate_new account ix store policy timeout)"
  by (simp add: gate_ok_def gate_new_def token_live_def gate_holds_def)

section \<open>One unlock at a time\<close>

text \<open>Of all the unlocks a gate has ever made, at most the one it holds is live: whatever has
  happened to it, in any order, on a clock that does not run backwards, a live token is the held
  one.\<close>

theorem only_the_held_unlock_is_live:
  assumes "gate_steps kc auths t0 (gate_new account ix store policy timeout) t g"
  shows "\<not> (\<exists>i. token_live t g i \<and> \<not> gate_holds g i)"
  using gate_steps_ok [OF assms gate_new_ok] by (auto simp: gate_ok_def)

text \<open>C19: A relock is a revocation: once the gate is locked, or a newer unlock has succeeded, no
  handle given out before is live, then or after anything that can follow.\<close>

theorem relock_ends_every_earlier_handle:
  assumes "gate_steps kc auths t0 (gate_new account ix store policy timeout) t g"
    and "t \<le> now" and "i < length (ug_tokens g)"
    and "g1 = gate_lock g \<or> (\<exists>factors h. gate_unlock kc authorize now factors g = Returns (Ok h) g1)"
    and "gate_steps kc auths now g1 t' g'"
  shows "\<not> token_live t' g' i"
proof -
  have ok: "gate_ok t g" using gate_steps_ok [OF assms(1) gate_new_ok] .
  have "\<not> token_live now g1 i \<and> i < length (ug_tokens g1)"
  proof (cases "g1 = gate_lock g")
    case True
    then show ?thesis using end_unlock_dead [OF ok assms(2)] assms(3) by (simp add: gate_lock_def)
  next
    case False
    then obtain factors h where un: "gate_unlock kc authorize now factors g = Returns (Ok h) g1"
      using assms(4) by blast
    show ?thesis
    proof (cases rule: gate_unlock_cases [of kc authorize now factors g])
      case (refused p)
      then show ?thesis using un by blast
    next
      case (opened p seed)
      then show ?thesis
        using un assms(3) end_unlock_dead [OF ok assms(2), of i]
        by (auto simp: opened_token_live end_unlock_live)
    qed
  qed
  then show ?thesis using gate_steps_dead [OF assms(5)] by blast
qed

section \<open>What an unlock takes\<close>

definition factor_passes ::
  "('k, 'g) factor_env \<Rightarrow> auth_factors \<Rightarrow> 'k second_factor \<Rightarrow> 'k second_factor \<Rightarrow> bool" where
  "factor_passes env factors f f' \<longleftrightarrow> second_factor_verify env factors f = Returns (Ok ()) f'"

lemma all_of_passes:
  "all_of_authorize env factors fs = Returns (Ok ()) fs' \<longleftrightarrow> list_all2 (factor_passes env factors) fs fs'"
proof (induction fs arbitrary: fs')
  case Nil
  then show ?case by auto
next
  case (Cons f fs)
  have "all_of_authorize env factors (f # fs) = Returns (Ok ()) fs' \<longleftrightarrow>
      (\<exists>f1 fs1. second_factor_verify env factors f = Returns (Ok ()) f1 \<and>
         all_of_authorize env factors fs = Returns (Ok ()) fs1 \<and> fs' = f1 # fs1)"
    by (auto split: run.splits result.splits)
  then show ?case by (auto simp: Cons.IH factor_passes_def list_all2_Cons1)
qed

text \<open>
  What may rule on an attempt under \<open>AllOf\<close>: the enrolled factors, checked with the given HOTP and
  WebAuthn functions, at whatever readings of the two clocks.
\<close>

definition all_of_rulings :: "('k, 'g) factor_env \<Rightarrow> 'k second_factor list authorize set" where
  "all_of_rulings checks =
     {all_of_authorize env |env. fe_hotp env = fe_hotp checks \<and> fe_webauthn env = fe_webauthn checks}"

text \<open>A gate under \<open>AllOf\<close> opens exactly when every enrolled factor passes and the password
  opens the account's blob, and then it holds that seed for that account; refused, it keeps the unlock
  it had and every token as it was.\<close>

theorem unlock_takes_every_factor_and_the_password:
  assumes "attempt = gate_unlock kc (all_of_authorize env) now factors g"
  shows "((\<exists>h g'. attempt = Returns (Ok h) g') \<longleftrightarrow>
      (\<exists>fs' seed. list_all2 (factor_passes env factors) (ug_policy g) fs' \<and>
         store_unlock kc (ug_store g) (ug_account g) (af_password factors) = Ok seed)) \<and>
    (case attempt of
       Returns (Ok h) g' \<Rightarrow>
         store_unlock kc (ug_store g) (ug_account g) (af_password factors) = Ok (ua_seed h) \<and>
         ua_account h = ug_account g \<and> ug_live g' = Some (ua_seed h, ua_token h)
     | _ \<Rightarrow> ug_live (run_state attempt) = ug_live g \<and> ug_tokens (run_state attempt) = ug_tokens g)"
proof (cases rule: gate_unlock_cases [of kc "all_of_authorize env" now factors g])
  case (refused p)
  have "\<not> (\<exists>fs' seed. list_all2 (factor_passes env factors) (ug_policy g) fs' \<and>
      store_unlock kc (ug_store g) (ug_account g) (af_password factors) = Ok seed)"
  proof
    assume "\<exists>fs' seed. list_all2 (factor_passes env factors) (ug_policy g) fs' \<and>
      store_unlock kc (ug_store g) (ug_account g) (af_password factors) = Ok seed"
    then obtain fs' seed where "all_of_authorize env factors (ug_policy g) = Returns (Ok ()) fs'"
      and "store_unlock kc (ug_store g) (ug_account g) (af_password factors) = Ok seed"
      by (auto simp: all_of_passes)
    then show False using refused(2) by (auto simp: gate_unlock_def Let_def)
  qed
  then show ?thesis using refused by (auto simp: assms split: run.split result.split)
next
  case (opened p seed)
  then show ?thesis using all_of_passes [of env factors "ug_policy g" p] by (auto simp: assms)
qed

section \<open>A sample gate\<close>

definition sample_gate :: "(unit second_factor list, sample_blobs, 8 word list) unlock_gate" where
  "sample_gate = gate_new (AccountId ''a'') root_ix [(''account.a'', ''pw'', [7])] [] 60"

definition sample_env :: "(unit, unit) factor_env" where
  "sample_env =
     \<lparr>fe_hotp = (\<lambda>_ _ _ _ _. ''000000''), fe_webauthn = sample_webauthn, fe_totp_now = Ok 0, fe_passkey_now = Ok 0\<rparr>"

lemma sample_unlocked:
  "gate_unlock sample_keychain (all_of_authorize sample_env) 100 (password_only ''pw'') sample_gate =
     Returns (Ok \<lparr>ua_account = AccountId ''a'', ua_seed = [7], ua_default_ix = root_ix, ua_token = 0\<rparr>)
       (sample_gate\<lparr>ug_live := Some ([7], 0), ug_tokens := [idle_bounded 100 60]\<rparr>)"
  by (simp add: gate_unlock_def sample_gate_def gate_new_def store_unlock_def store_exists_def sample_keychain_def
      blob_key_def ACCOUNT_KEY_PREFIX_def password_only_def end_unlock_def account_handle_def Let_def)

lemma sample_gate_reached:
  "gate_steps sample_keychain (all_of_rulings sample_env) 0
     (gate_new (AccountId ''a'') root_ix [(''account.a'', ''pw'', [7])] [] 60) 100
     (sample_gate\<lparr>ug_live := Some ([7], 0), ug_tokens := [idle_bounded 100 60]\<rparr>)"
proof -
  have "gate_step sample_keychain (all_of_rulings sample_env) 0 sample_gate 100
      (run_state (gate_unlock sample_keychain (all_of_authorize sample_env) 100 (password_only ''pw'') sample_gate))"
    by (rule gate_step.Unlock) (auto simp: all_of_rulings_def)
  from gate_steps.More [OF gate_steps.Stay this] show ?thesis
    unfolding sample_unlocked run_state.simps by (simp only: sample_gate_def)
qed

theorem only_the_held_unlock_is_live_witness:
  "\<not> (\<exists>i. token_live 100 (sample_gate\<lparr>ug_live := Some ([7], 0), ug_tokens := [idle_bounded 100 60]\<rparr>) i \<and>
     \<not> gate_holds (sample_gate\<lparr>ug_live := Some ([7], 0), ug_tokens := [idle_bounded 100 60]\<rparr>) i)"
  by (rule only_the_held_unlock_is_live [OF sample_gate_reached])

theorem relock_ends_every_earlier_handle_witness:
  "\<not> token_live 120 (gate_lock (sample_gate\<lparr>ug_live := Some ([7], 0), ug_tokens := [idle_bounded 100 60]\<rparr>)) 0"
  by (rule relock_ends_every_earlier_handle
      [OF sample_gate_reached, where now = 120 and
        ?g1.0 = "gate_lock (sample_gate\<lparr>ug_live := Some ([7], 0), ug_tokens := [idle_bounded 100 60]\<rparr>)"])
     (simp_all add: gate_steps.Stay)

theorem unlock_takes_every_factor_and_the_password_witness:
  "\<exists>fs' seed. list_all2 (factor_passes sample_env (password_only ''pw'')) (ug_policy sample_gate) fs' \<and>
     store_unlock sample_keychain (ug_store sample_gate) (ug_account sample_gate) ''pw'' = Ok seed"
  using unlock_takes_every_factor_and_the_password [OF refl, of sample_keychain sample_env 100
      "password_only ''pw''" sample_gate]
  by (simp add: sample_unlocked) (simp add: password_only_def)

end
