(* ===== verification/Distributor_Evidence.thy ===== *)
theory Distributor_Evidence
  imports Did_Mint
begin

text \<open>
  A pushed reward-distributor mint and what counts as evidence that it exists
  (\<open>src/mint/reward_distributor_evidence.rs\<close>, and \<open>submit\<close> and \<open>status\<close> of
  \<open>src/mint/reward_distributor.rs\<close>).

  A launch comment (\<open>'l\<close>, a store and a root) with its parser and printer, and the read that
  decodes a launcher's parent spend into a discovered distributor, are \<open>dig-rewards-coin\<close>'s:
  they are arguments of the definitions that use them. The discovery reads the chain itself, so it is
  given the number of reads made and returns the number made after.
\<close>

section \<open>The pending mint and its record\<close>

record 'l pending_distributor =
  pr_distributor_launcher_id :: bytes32
  pr_manager_launcher_id :: bytes32
  pr_funding_coin_id :: bytes32
  pr_reward_cat_coin_id :: bytes32
  pr_generation :: 'l
  pr_pushed_at_height :: u32

definition pending_distributor_new ::
  "bytes32 \<Rightarrow> bytes32 \<Rightarrow> bytes32 \<Rightarrow> bytes32 \<Rightarrow> 'l \<Rightarrow> u32 \<Rightarrow> 'l pending_distributor" where
  "pending_distributor_new d m f c g h =
     \<lparr>pr_distributor_launcher_id = d, pr_manager_launcher_id = m, pr_funding_coin_id = f,
      pr_reward_cat_coin_id = c, pr_generation = g, pr_pushed_at_height = h\<rparr>"

record distributor_record =
  dr_distributor_launcher_id :: bytes32
  dr_manager_launcher_id :: bytes32
  dr_funding_coin_id :: bytes32
  dr_reward_cat_coin_id :: bytes32
  dr_generation :: string
  dr_pushed_at_height :: u32

text \<open>\<open>From<&PendingRewardDistributor>\<close>; \<open>print\<close> is the launch comment's \<open>Display\<close>.\<close>

definition distributor_record_from :: "('l \<Rightarrow> string) \<Rightarrow> 'l pending_distributor \<Rightarrow> distributor_record" where
  "distributor_record_from print p =
     \<lparr>dr_distributor_launcher_id = pr_distributor_launcher_id p,
      dr_manager_launcher_id = pr_manager_launcher_id p,
      dr_funding_coin_id = pr_funding_coin_id p,
      dr_reward_cat_coin_id = pr_reward_cat_coin_id p,
      dr_generation = print (pr_generation p),
      dr_pushed_at_height = pr_pushed_at_height p\<rparr>"

section \<open>Evidence\<close>

record 'l confirmed_distributor =
  cd_distributor_launcher_id :: bytes32
  cd_manager_launcher_id :: bytes32
  cd_confirmed_height :: u32
  cd_generation :: 'l

record 'l discovered =
  dd_launcher_id :: bytes32
  dd_generation :: 'l

datatype evidence_defect =
  WrongCoin | Unconfirmed | Genesis | PredatesPush | Shallow | WrongLauncher | WrongGeneration

definition check_evidence ::
  "(coin \<Rightarrow> bytes32) \<Rightarrow> 'l pending_distributor \<Rightarrow> coin_record \<Rightarrow> 'l discovered \<Rightarrow> u32 \<Rightarrow>
     (unit, evidence_defect) result"
where
  "check_evidence cid p r d peak =
     (if cid (rec_coin r) \<noteq> pr_distributor_launcher_id p then Err WrongCoin
      else case confirmed_height r of
        None \<Rightarrow> Err Unconfirmed
      | Some h \<Rightarrow>
          if h = 0 then Err Genesis
          else if h < pr_pushed_at_height p then Err PredatesPush
          else if saturating_add (saturating_sub peak h) 1 < MIN_CONFIRMATION_DEPTH then Err Shallow
          else if dd_launcher_id d \<noteq> pr_distributor_launcher_id p then Err WrongLauncher
          else if dd_generation d \<noteq> pr_generation p then Err WrongGeneration
          else Ok ())"

text \<open>The \<open>expect\<close> on the confirmed height is the panic of a missing one.\<close>

definition distributor_from_confirmed ::
  "(coin \<Rightarrow> bytes32) \<Rightarrow> 'l pending_distributor \<Rightarrow> coin_record \<Rightarrow> 'l discovered \<Rightarrow> u32 \<Rightarrow>
     'l confirmed_distributor option"
where
  "distributor_from_confirmed cid p r d peak =
     (case check_evidence cid p r d peak of
        Err _ \<Rightarrow> None
      | Ok _ \<Rightarrow>
          map_option (\<lambda>h.
            \<lparr>cd_distributor_launcher_id = pr_distributor_launcher_id p,
             cd_manager_launcher_id = pr_manager_launcher_id p,
             cd_confirmed_height = h,
             cd_generation = pr_generation p\<rparr>) (confirmed_height r))"

lemma check_evidence_Ok:
  "check_evidence cid p r d peak = Ok () \<longleftrightarrow>
     cid (rec_coin r) = pr_distributor_launcher_id p \<and>
     (\<exists>h. confirmed_height r = Some h \<and> h \<noteq> 0 \<and> pr_pushed_at_height p \<le> h \<and>
        MIN_CONFIRMATION_DEPTH \<le> burial_depth peak h) \<and>
     dd_launcher_id d = pr_distributor_launcher_id p \<and> dd_generation d = pr_generation p"
  by (auto simp: check_evidence_def burial_depth_def not_less split: option.splits if_splits)

lemma check_evidence_has_height:
  "check_evidence cid p r d peak = Ok () \<Longrightarrow> confirmed_height r \<noteq> None"
  by (auto simp: check_evidence_Ok)

lemma distributor_from_confirmed_iff:
  "distributor_from_confirmed cid p r d peak = Some e \<longleftrightarrow>
     check_evidence cid p r d peak = Ok () \<and>
     e = \<lparr>cd_distributor_launcher_id = pr_distributor_launcher_id p,
          cd_manager_launcher_id = pr_manager_launcher_id p,
          cd_confirmed_height = the (confirmed_height r), cd_generation = pr_generation p\<rparr>"
  by (auto simp: distributor_from_confirmed_def dest: check_evidence_has_height split: result.splits)

text \<open>
  Against a discovery of its own launcher and generation, the distributor's rule is the contract of
  every evidence constructor of the crate.
\<close>

definition own_discovery :: "'l pending_distributor \<Rightarrow> 'l discovered" where
  "own_discovery p = \<lparr>dd_launcher_id = pr_distributor_launcher_id p, dd_generation = pr_generation p\<rparr>"

definition own_evidence ::
  "(coin \<Rightarrow> bytes32) \<Rightarrow> 'l pending_distributor \<Rightarrow> coin_record \<Rightarrow> u32 \<Rightarrow> 'l confirmed_distributor option" where
  "own_evidence cid p r peak = distributor_from_confirmed cid p r (own_discovery p) peak"

interpretation distributor_ev: buried_evidence pr_distributor_launcher_id pr_pushed_at_height
    own_evidence cd_confirmed_height
proof
  fix cid :: "coin \<Rightarrow> bytes32" and p :: "'l pending_distributor" and r peak peak' e e'
  show "own_evidence cid p r peak \<noteq> None \<longleftrightarrow>
      cid (rec_coin r) = pr_distributor_launcher_id p \<and>
      (\<exists>h. confirmed_height r = Some h \<and> h \<noteq> 0 \<and> pr_pushed_at_height p \<le> h \<and>
           MIN_CONFIRMATION_DEPTH \<le> burial_depth peak h)"
    by (auto simp: own_evidence_def distributor_from_confirmed_iff check_evidence_Ok own_discovery_def
        not_None_eq [of "distributor_from_confirmed cid p r d peak" for d] simp del: not_None_eq)
  show "own_evidence cid p r peak = Some e \<Longrightarrow> confirmed_height r = Some (cd_confirmed_height e)"
    by (auto simp: own_evidence_def distributor_from_confirmed_iff dest!: check_evidence_has_height)
  show "own_evidence cid p r peak = Some e \<Longrightarrow> own_evidence cid p r peak' = Some e' \<Longrightarrow> e = e'"
    by (simp add: own_evidence_def distributor_from_confirmed_iff)
qed

lemma from_confirmed_own:
  "distributor_from_confirmed cid p r d peak = Some e \<longleftrightarrow>
     own_evidence cid p r peak = Some e \<and> d = own_discovery p"
  by (cases d) (auto simp: own_evidence_def own_discovery_def distributor_from_confirmed_iff check_evidence_Ok)

section \<open>Submitting\<close>

record ('l, 'g) signed_distributor_mint =
  sm_bundle :: "'g spend_bundle"
  sm_distributor_launcher_id :: bytes32
  sm_manager_launcher_id :: bytes32
  sm_funding_coin_id :: bytes32
  sm_reward_cat_coin_id :: bytes32
  sm_generation :: 'l

text \<open>\<open>p\<close> is the publisher's state before the call; it is what a publisher can look at.\<close>

definition submit_distributor_mint ::
  "('l, 'g) signed_distributor_mint \<Rightarrow> chain_source \<Rightarrow> ('g, 'p, 'p) publisher \<Rightarrow> nat \<Rightarrow> 'p \<Rightarrow>
     ('l pending_distributor, mint_error) result \<times> nat \<times> 'p"
where
  "submit_distributor_mint m chain pub t p =
     (case mint_peak_height chain t of
        (Err e, t1) \<Rightarrow> (Err e, t1, p)
      | (Ok pushed_at_height, t1) \<Rightarrow>
          (case push_bundle pub (sm_bundle m) p of
             (Err e, p1) \<Rightarrow> (Err e, t1, p1)
           | (Ok _, p1) \<Rightarrow>
               (Ok (pending_distributor_new (sm_distributor_launcher_id m) (sm_manager_launcher_id m)
                  (sm_funding_coin_id m) (sm_reward_cat_coin_id m) (sm_generation m) pushed_at_height),
                t1, p1)))"

section \<open>Where a mint stands\<close>

datatype distributor_failure =
    FundingSpentElsewhere
  | RewardCatSpentElsewhere
  | NothingDiscovered
  | EvidenceDisagrees evidence_defect

datatype 'l distributor_status =
    DistributorConfirmed "'l confirmed_distributor"
  | DistributorAwaiting u32
  | DistributorFailed distributor_failure

text \<open>The \<open>expect\<close> after a successful check: \<open>Panics\<close> would be its panic.\<close>

definition confirm_discovered ::
  "(coin \<Rightarrow> bytes32) \<Rightarrow> 'l pending_distributor \<Rightarrow> coin_record \<Rightarrow> u32 \<Rightarrow> 'l discovered \<Rightarrow>
     ('l distributor_status, unit) run"
where
  "confirm_discovered cid p r peak d =
     (case check_evidence cid p r d peak of
        Ok _ \<Rightarrow> (case distributor_from_confirmed cid p r d peak of
                  Some evidence \<Rightarrow> Returns (DistributorConfirmed evidence) ()
                | None \<Rightarrow> Panics ())
      | Err Shallow \<Rightarrow>
          Returns (DistributorAwaiting (saturating_sub peak (pr_pushed_at_height p))) ()
      | Err defect \<Rightarrow> Returns (DistributorFailed (EvidenceDisagrees defect)) ())"

definition spent_record :: "coin_record option \<Rightarrow> bool" where
  "spent_record r = (case r of None \<Rightarrow> False | Some c \<Rightarrow> is_spent c)"

text \<open>Step 3: the launcher does not exist, so the two inputs are the only evidence left.\<close>

definition status_without_launcher ::
  "'l pending_distributor \<Rightarrow> chain_source \<Rightarrow> u32 \<Rightarrow> nat \<Rightarrow> ('l distributor_status, mint_error) result \<times> nat"
where
  "status_without_launcher p chain peak t =
     (case ask_coin_record chain t (pr_funding_coin_id p) of
        Err e \<Rightarrow> (Err (MintChainUnreachable (SourceFailed e)), Suc t)
      | Ok funding \<Rightarrow>
          (case ask_coin_record chain (Suc t) (pr_reward_cat_coin_id p) of
             Err e \<Rightarrow> Err (MintChainUnreachable (SourceFailed e))
           | Ok reward_cat \<Rightarrow>
               Ok (if spent_record funding then DistributorFailed FundingSpentElsewhere
                   else if spent_record reward_cat then DistributorFailed RewardCatSpentElsewhere
                   else DistributorAwaiting (saturating_sub peak (pr_pushed_at_height p))),
           t + 2))"

definition distributor_status_of ::
  "(coin \<Rightarrow> bytes32) \<Rightarrow> (nat \<Rightarrow> bytes32 \<Rightarrow> ('l discovered option, string) result \<times> nat) \<Rightarrow>
     'l pending_distributor \<Rightarrow> chain_source \<Rightarrow> nat \<Rightarrow>
     (('l distributor_status, mint_error) result \<times> nat, unit) run"
where
  "distributor_status_of cid discover p chain t =
     (case mint_peak_height chain t of
        (Err e, t1) \<Rightarrow> Returns (Err e, t1) ()
      | (Ok peak, t1) \<Rightarrow>
          (case ask_coin_record chain t1 (pr_distributor_launcher_id p) of
             Err e \<Rightarrow> Returns (Err (MintChainUnreachable (SourceFailed e)), Suc t1) ()
           | Ok None \<Rightarrow> Returns (status_without_launcher p chain peak (Suc t1)) ()
           | Ok (Some r) \<Rightarrow>
               if confirmed_height r = None
               then Returns (Ok (DistributorAwaiting (saturating_sub peak (pr_pushed_at_height p))), Suc t1) ()
               else
                 (case discover (Suc t1) (pr_distributor_launcher_id p) of
                    (Err e, t2) \<Rightarrow> Returns (Err (MintChainUnreachable (DiscoveryFailed e)), t2) ()
                  | (Ok None, t2) \<Rightarrow> Returns (Ok (DistributorFailed NothingDiscovered), t2) ()
                  | (Ok (Some d), t2) \<Rightarrow>
                      map_run (\<lambda>st. (Ok st, t2)) (confirm_discovered cid p r peak d))))"

section \<open>What the status promises\<close>

lemma confirm_discovered_eq:
  "confirm_discovered cid p r peak d =
     Returns (case check_evidence cid p r d peak of
        Ok _ \<Rightarrow> DistributorConfirmed (the (distributor_from_confirmed cid p r d peak))
      | Err Shallow \<Rightarrow> DistributorAwaiting (saturating_sub peak (pr_pushed_at_height p))
      | Err defect \<Rightarrow> DistributorFailed (EvidenceDisagrees defect)) ()"
proof (cases "check_evidence cid p r d peak")
  case (Ok u)
  then have "check_evidence cid p r d peak = Ok ()" by simp
  then have "\<exists>e. distributor_from_confirmed cid p r d peak = Some e"
    by (simp add: distributor_from_confirmed_iff)
  with Ok show ?thesis by (auto simp: confirm_discovered_def)
next
  case (Err defect)
  then show ?thesis by (cases defect) (simp_all add: confirm_discovered_def)
qed

lemma confirm_discovered_Confirmed:
  "confirm_discovered cid p r peak d = Returns (DistributorConfirmed e) () \<longleftrightarrow>
     distributor_from_confirmed cid p r d peak = Some e"
  by (auto simp: confirm_discovered_eq distributor_from_confirmed_def
      split: result.splits evidence_defect.splits dest: check_evidence_has_height)

lemma status_without_launcher_Ok:
  "status_without_launcher p chain peak t = (Ok (DistributorConfirmed e), t') \<longleftrightarrow> False"
  by (simp add: status_without_launcher_def split: result.splits)

lemma mint_peak_height_Ok:
  "mint_peak_height chain t = (Ok peak, t') \<longleftrightarrow> ask_peak chain t = Ok (Some peak) \<and> t' = Suc t"
  by (auto simp: mint_peak_height_def split: result.splits option.splits)

lemma status_never_panics:
  "\<exists>res t'. distributor_status_of cid discover p chain t = Returns (res, t') ()"
  by (auto simp: distributor_status_of_def confirm_discovered_eq split: prod.splits result.splits option.splits)

end
