(* ===== verification/Distributor_Resume.thy ===== *)
theory Distributor_Resume
  imports Distributor_Evidence Cat_Transfer
begin

text \<open>
  The unlock's reward-distributor seam (\<open>src/reward_distributor_mint.rs\<close>): the wallet key of a
  live session, the profile's $DIG coins, and \<open>resume\<close>, which turns persisted bytes back into
  a pending mint only after proving on chain that this account's funding coin produced it.

  The two puzzle hashes and the manager's amount are constants of \<open>chia-puzzles\<close> and
  \<open>dig-rewards-coin\<close>; with the launch comment's parser, the coin id and the wallet derivation
  they are the record \<open>distributor_tools\<close>.
\<close>

section \<open>The seam\<close>

record ('v, 'p, 'l) distributor_tools =
  dt_id :: "coin \<Rightarrow> bytes32"
  dt_keys :: "profile_ix \<Rightarrow> wallet_key"
  dt_parse :: "string \<Rightarrow> 'l option"
  dt_settlement_hash :: bytes32
  dt_launcher_hash :: bytes32
  dt_manager_amount :: u64
  dt_cat :: "('v, 'p) cat_driver"

definition OFFER_XCH_AMOUNT :: u64 where
  "OFFER_XCH_AMOUNT = 1"

definition offered_xch_settlement_coin :: "('v, 'p, 'l) distributor_tools \<Rightarrow> bytes32 \<Rightarrow> coin" where
  "offered_xch_settlement_coin dt funding_coin_id =
     \<lparr>parent_coin_info = funding_coin_id, puzzle_hash = dt_settlement_hash dt, amount = OFFER_XCH_AMOUNT\<rparr>"

definition manager_launcher_coin :: "('v, 'p, 'l) distributor_tools \<Rightarrow> bytes32 \<Rightarrow> coin" where
  "manager_launcher_coin dt funding_coin_id =
     \<lparr>parent_coin_info = funding_coin_id, puzzle_hash = dt_launcher_hash dt, amount = dt_manager_amount dt\<rparr>"

definition distributor_wallet_key ::
  "('v, 'p, 'l) distributor_tools \<Rightarrow> liveness \<Rightarrow> profile_ix \<Rightarrow> (wallet_key, mint_error) result" where
  "distributor_wallet_key dt live ix = (if live_at_check live 0 then Ok (dt_keys dt ix) else Err MintLocked)"

definition distributor_public_key ::
  "('v, 'p, 'l) distributor_tools \<Rightarrow> liveness \<Rightarrow> profile_ix \<Rightarrow> (byte list, mint_error) result" where
  "distributor_public_key dt live ix = and_then (distributor_wallet_key dt live ix) (\<lambda>w. Ok (wk_public_key w))"

definition distributor_puzzle_hash ::
  "('v, 'p, 'l) distributor_tools \<Rightarrow> liveness \<Rightarrow> profile_ix \<Rightarrow> (bytes32, mint_error) result" where
  "distributor_puzzle_hash dt live ix = and_then (distributor_wallet_key dt live ix) (\<lambda>w. Ok (wk_puzzle_hash w))"

definition minter_dig_cat_coins ::
  "('v, 'p, 'l) distributor_tools \<Rightarrow> liveness \<Rightarrow> profile_ix \<Rightarrow> chain_source \<Rightarrow> parent_reads \<Rightarrow> nat \<Rightarrow>
     (cat_listing, cat_error) result \<times> nat"
where
  "minter_dig_cat_coins dt live ix chain parents t =
     (case map_err (\<lambda>_. CatLocked) (distributor_wallet_key dt live ix) of
        Err e \<Rightarrow> (Err e, t)
      | Ok w \<Rightarrow> dig_cat_coins (dt_id dt) (dt_cat dt) chain parents (wk_puzzle_hash w) t)"

section \<open>A record on its own bytes\<close>

definition first_zero_id :: "distributor_record \<Rightarrow> record_field option" where
  "first_zero_id r =
     map_option fst (List.find (\<lambda>(f, i). i = 0)
       [(FieldDistributorLauncherId, dr_distributor_launcher_id r),
        (FieldManagerLauncherId, dr_manager_launcher_id r),
        (FieldFundingCoinId, dr_funding_coin_id r),
        (FieldRewardCatCoinId, dr_reward_cat_coin_id r)])"

definition malformed :: "record_field \<Rightarrow> malformed_detail \<Rightarrow> mint_error" where
  "malformed f detail = MintRecordRejected (Malformed f detail)"

definition not_yours :: "ownership_proof \<Rightarrow> ownership_detail \<Rightarrow> mint_error" where
  "not_yours proof detail = MintRecordRejected (NotYours proof detail)"

definition parse_consistent_record ::
  "('v, 'p, 'l) distributor_tools \<Rightarrow> distributor_record \<Rightarrow> ('l, mint_error) result" where
  "parse_consistent_record dt r =
     (case first_zero_id r of
        Some f \<Rightarrow> Err (malformed f AllZero)
      | None \<Rightarrow>
          if dr_funding_coin_id r = dr_reward_cat_coin_id r
          then Err (malformed FieldRewardCatCoinId EqualsFundingCoin)
          else if dr_distributor_launcher_id r = dr_manager_launcher_id r
          then Err (malformed FieldManagerLauncherId EqualsDistributorLauncher)
          else if dr_pushed_at_height r = 0
          then Err (malformed FieldPushedAtHeight PushedAtGenesis)
          else ok_or (malformed FieldGeneration (NotALaunchComment (dr_generation r)))
                 (dt_parse dt (dr_generation r)))"

section \<open>Reading the chain\<close>

definition resume_read_coin ::
  "(coin \<Rightarrow> bytes32) \<Rightarrow> chain_source \<Rightarrow> nat \<Rightarrow> bytes32 \<Rightarrow> (coin_record option, mint_error) result \<times> nat"
where
  "resume_read_coin cid chain t i =
     (case ask_coin_record chain t i of
        Err e \<Rightarrow> Err (MintChainUnreachable (ResumeReadFailed i e))
      | Ok None \<Rightarrow> Ok None
      | Ok (Some r) \<Rightarrow>
          (if cid (rec_coin r) \<noteq> i then Err (MintChainUnreachable (ResumeMisrouted i (cid (rec_coin r))))
           else Ok (Some r)), Suc t)"

definition prove_coin_is_ours ::
  "(coin \<Rightarrow> bytes32) \<Rightarrow> chain_source \<Rightarrow> nat \<Rightarrow> bytes32 \<Rightarrow> bytes32 \<Rightarrow> ownership_proof \<Rightarrow>
     (coin_record, mint_error) result \<times> nat"
where
  "prove_coin_is_ours cid chain t i expected proof =
     (case resume_read_coin cid chain t i of
        (Err e, t') \<Rightarrow> (Err e, t')
      | (Ok None, t') \<Rightarrow> (Err (not_yours proof (ChainHasNoRecord i)), t')
      | (Ok (Some found), t') \<Rightarrow>
          (if puzzle_hash (rec_coin found) \<noteq> expected
           then Err (not_yours proof (NotAtThisPuzzleHash i)) else Ok found, t'))"

definition unusable_spend_height :: "coin_record \<Rightarrow> u32 \<Rightarrow> unusable_height option" where
  "unusable_spend_height funding spent =
     (case confirmed_height funding of
        None \<Rightarrow> Some CreationUnknown
      | Some created_at \<Rightarrow>
          if created_at = 0 then Some CreatedAtGenesis
          else if spent < created_at then Some (SpentBeforeCreation created_at)
          else None)"

definition launcher_absent :: "chain_source \<Rightarrow> nat \<Rightarrow> coin_record \<Rightarrow> mint_error \<times> nat" where
  "launcher_absent chain t funding =
     (case spent_height funding of
        None \<Rightarrow> (MintRecordRejected (Unproven FundingStillUnspent), t)
      | Some spent \<Rightarrow>
          (case unusable_spend_height funding spent of
             Some unusable \<Rightarrow> (MintRecordRejected (Unproven (SpendHeightUnusable spent unusable)), t)
           | None \<Rightarrow>
               (case mint_peak_height chain t of
                  (Err unreachable, t') \<Rightarrow> (unreachable, t')
                | (Ok peak, t') \<Rightarrow>
                    (let depth = saturating_add (saturating_sub peak spent) 1
                     in if depth < MIN_CONFIRMATION_DEPTH
                        then MintRecordRejected (Unproven (SpendTooShallow spent depth peak))
                        else MintRecordRejected (LaunchDead spent depth), t'))))"

definition prove_launchers_descend ::
  "('v, 'p, 'l) distributor_tools \<Rightarrow> chain_source \<Rightarrow> nat \<Rightarrow> distributor_record \<Rightarrow> coin_record \<Rightarrow>
     (unit, mint_error) result \<times> nat"
where
  "prove_launchers_descend dt chain t r funding =
     (let expected_manager = dt_id dt (manager_launcher_coin dt (dr_funding_coin_id r)) in
      if dr_manager_launcher_id r \<noteq> expected_manager
      then (Err (not_yours ManagerLauncherDescends
                  (NotTheDerivedManager (dr_manager_launcher_id r) expected_manager)), t)
      else case resume_read_coin (dt_id dt) chain t (dr_distributor_launcher_id r) of
        (Err e, t1) \<Rightarrow> (Err e, t1)
      | (Ok None, t1) \<Rightarrow> (let (e, t2) = launcher_absent chain t1 funding in (Err e, t2))
      | (Ok (Some launcher), t1) \<Rightarrow>
          if confirmed_height launcher = None
          then (Err (MintRecordRejected (Unproven LauncherOnlyInMempool)), t1)
          else
            (let security_coin_id = parent_coin_info (rec_coin launcher) in
             case resume_read_coin (dt_id dt) chain t1 security_coin_id of
               (Err e, t2) \<Rightarrow> (Err e, t2)
             | (Ok None, t2) \<Rightarrow>
                 (Err (not_yours DistributorLauncherDescends (SecurityCoinUnknown security_coin_id)), t2)
             | (Ok (Some security), t2) \<Rightarrow>
                 (let expected_settlement = dt_id dt (offered_xch_settlement_coin dt (dr_funding_coin_id r))
                  in if parent_coin_info (rec_coin security) \<noteq> expected_settlement
                     then Err (not_yours DistributorLauncherDescends
                            (TracesToAnotherSettlement (parent_coin_info (rec_coin security))
                               expected_settlement))
                     else Ok (), t2)))"

section \<open>Resuming\<close>

definition distributor_resume ::
  "('v, 'p, 'l) distributor_tools \<Rightarrow> liveness \<Rightarrow> profile_ix \<Rightarrow> distributor_record \<Rightarrow> chain_source \<Rightarrow>
     nat \<Rightarrow> ('l pending_distributor, mint_error) result \<times> nat"
where
  "distributor_resume dt live ix r chain t =
     (case distributor_wallet_key dt live ix of
        Err e \<Rightarrow> (Err e, t)
      | Ok w \<Rightarrow>
          (case parse_consistent_record dt r of
             Err e \<Rightarrow> (Err e, t)
           | Ok generation \<Rightarrow>
               (case prove_coin_is_ours (dt_id dt) chain t (dr_funding_coin_id r) (wk_puzzle_hash w)
                       FundingCoinIsThisAccounts of
                  (Err e, t1) \<Rightarrow> (Err e, t1)
                | (Ok funding, t1) \<Rightarrow>
                    (case prove_coin_is_ours (dt_id dt) chain t1 (dr_reward_cat_coin_id r)
                            (dig_curried_puzzle_hash (dt_cat dt) (wk_puzzle_hash w))
                            RewardCatCoinIsThisAccounts of
                       (Err e, t2) \<Rightarrow> (Err e, t2)
                     | (Ok _, t2) \<Rightarrow>
                         (case prove_launchers_descend dt chain t2 r funding of
                            (Err e, t3) \<Rightarrow> (Err e, t3)
                          | (Ok _, t3) \<Rightarrow>
                              (Ok (pending_distributor_new (dr_distributor_launcher_id r)
                                 (dr_manager_launcher_id r) (dr_funding_coin_id r)
                                 (dr_reward_cat_coin_id r) generation (dr_pushed_at_height r)), t3))))))"

section \<open>What each step establishes\<close>

text \<open>The early return of a step that reads, in the two directions.\<close>

lemma then_read_Ok:
  "(case m of (Ok x, s) \<Rightarrow> f x s | (Err e, s) \<Rightarrow> (Err e, s)) = (Ok y, t') \<longleftrightarrow>
     (\<exists>x s. m = (Ok x, s) \<and> f x s = (Ok y, t'))"
  by (auto split: prod.splits result.splits)

lemma then_read_Err:
  "(case m of (Ok x, s) \<Rightarrow> f x s | (Err e, s) \<Rightarrow> (Err e, s)) = (Err e', t') \<longleftrightarrow>
     m = (Err e', t') \<or> (\<exists>x s. m = (Ok x, s) \<and> f x s = (Err e', t'))"
  by (auto split: prod.splits result.splits)

text \<open>The coin the source answered with, under the id it was asked for.\<close>

definition answered_coin ::
  "(coin \<Rightarrow> bytes32) \<Rightarrow> chain_source \<Rightarrow> nat \<Rightarrow> bytes32 \<Rightarrow> coin_record option" where
  "answered_coin cid chain t i =
     (case ask_coin_record chain t i of
        Ok (Some r) \<Rightarrow> if cid (rec_coin r) = i then Some r else None
      | _ \<Rightarrow> None)"

lemma answered_coin_Some:
  "answered_coin cid chain t i = Some r \<longleftrightarrow> ask_coin_record chain t i = Ok (Some r) \<and> cid (rec_coin r) = i"
  by (auto simp: answered_coin_def split: result.splits option.splits if_splits)

lemma resume_read_coin_Some:
  "resume_read_coin cid chain t i = (Ok (Some r), t') \<longleftrightarrow> t' = Suc t \<and> answered_coin cid chain t i = Some r"
  by (auto simp: resume_read_coin_def answered_coin_def split: result.splits option.splits if_splits)

lemma resume_read_coin_None:
  "resume_read_coin cid chain t i = (Ok None, t') \<longleftrightarrow> t' = Suc t \<and> ask_coin_record chain t i = Ok None"
  by (auto simp: resume_read_coin_def split: result.splits option.splits if_splits)

lemma prove_coin_Ok:
  "prove_coin_is_ours cid chain t i ph proof = (Ok r, t') \<longleftrightarrow>
     t' = Suc t \<and> answered_coin cid chain t i = Some r \<and> puzzle_hash (rec_coin r) = ph"
  by (auto simp: prove_coin_is_ours_def resume_read_coin_def answered_coin_def
      split: prod.splits result.splits option.splits if_splits)

text \<open>A record that is internally a mint's: what is checked before anything is read.\<close>

definition consistent_record :: "('v, 'p, 'l) distributor_tools \<Rightarrow> distributor_record \<Rightarrow> 'l \<Rightarrow> bool" where
  "consistent_record dt r g \<longleftrightarrow>
     0 \<notin> {dr_distributor_launcher_id r, dr_manager_launcher_id r, dr_funding_coin_id r,
          dr_reward_cat_coin_id r} \<and>
     dr_funding_coin_id r \<noteq> dr_reward_cat_coin_id r \<and>
     dr_distributor_launcher_id r \<noteq> dr_manager_launcher_id r \<and>
     dr_pushed_at_height r \<noteq> 0 \<and> dt_parse dt (dr_generation r) = Some g"

lemma parse_consistent_Ok: "parse_consistent_record dt r = Ok g \<longleftrightarrow> consistent_record dt r g"
  by (auto simp: parse_consistent_record_def consistent_record_def first_zero_id_def ok_or_def
      split: option.splits if_splits)

lemma parse_consistent_only_malformed:
  "parse_consistent_record dt r = Err e \<Longrightarrow> \<exists>f detail. e = MintRecordRejected (Malformed f detail)"
  by (auto simp: parse_consistent_record_def malformed_def ok_or_def split: option.splits if_splits)

lemma launcher_absent_dead:
  "launcher_absent chain t funding = (MintRecordRejected (LaunchDead spent depth), t') \<longleftrightarrow>
     spent_height funding = Some spent \<and>
     (\<exists>created_at peak. confirmed_height funding = Some created_at \<and> created_at \<noteq> 0 \<and> created_at \<le> spent \<and>
        ask_peak chain t = Ok (Some peak) \<and> depth = burial_depth peak spent \<and>
        unat spent + 5 \<le> unat peak) \<and> t' = Suc t"
  by (auto simp: launcher_absent_def unusable_spend_height_def mint_peak_height_def Let_def
      burial_depth_def [symmetric] not_less buried_iff not_buried_iff split: option.splits result.splits if_splits)

lemma launcher_absent_never_owns:
  "launcher_absent chain t funding \<noteq> (MintRecordRejected (NotYours proof detail), t')"
  "launcher_absent chain t funding \<noteq> (MintRecordRejected (Malformed f d), t')"
  by (auto simp: launcher_absent_def mint_peak_height_def Let_def split: option.splits result.splits if_splits)

lemma descend_Ok:
  "prove_launchers_descend dt chain t r funding = (Ok (), t') \<longleftrightarrow>
     t' = t + 2 \<and>
     dr_manager_launcher_id r = dt_id dt (manager_launcher_coin dt (dr_funding_coin_id r)) \<and>
     (\<exists>launcher security.
        answered_coin (dt_id dt) chain t (dr_distributor_launcher_id r) = Some launcher \<and>
        confirmed_height launcher \<noteq> None \<and>
        answered_coin (dt_id dt) chain (Suc t) (parent_coin_info (rec_coin launcher)) = Some security \<and>
        parent_coin_info (rec_coin security) =
          dt_id dt (offered_xch_settlement_coin dt (dr_funding_coin_id r)))"
  by (auto simp: prove_launchers_descend_def Let_def resume_read_coin_def answered_coin_Some
      split: prod.splits result.splits option.splits if_splits)

end
