(* ===== verification/Distributor_Launch.thy ===== *)
theory Distributor_Launch
  imports Distributor_Resume
begin

text \<open>
  Minting a reward distributor (\<open>src/mint/reward_distributor.rs\<close>): the refusals before anything
  is staged, the composition of the launch, the gate over two keys and two named coins, the signing
  loop and the verification of the aggregate.

  The records \<open>door_tools\<close> and \<open>launch_driver\<close> hold what the SDK, \<open>dig-rewards-coin\<close>
  and \<open>chia-bls\<close> compute. A driver that stages spends into the context is given what is staged
  and returns what is staged after, of which nothing is assumed. \<open>'c\<close> is the driver's own
  conditions, \<open>'p\<close> its inner spends, \<open>'n\<close> its CLVM nodes.
\<close>

section \<open>What every distributor door uses\<close>

record owned_cat = cat +
  cat_p2_puzzle_hash :: bytes32

datatype 'c door_condition = ByDriver 'c | Own condition

record ('c, 'p, 'g) door_tools =
  dw_id :: "coin \<Rightarrow> bytes32"
  dw_scheme :: "'g signature_scheme"
  dw_verify :: "'g \<Rightarrow> (byte list \<times> byte list) list \<Rightarrow> bool"
  dw_required :: "bytes32 \<Rightarrow> coin_spend list \<Rightarrow> (required_signature list, string) result"
  dw_hint :: "bytes32 \<Rightarrow> (byte list, string) result"
  dw_inner :: "byte list \<Rightarrow> 'c door_condition list \<Rightarrow> ('p, string) result"

text \<open>\<open>HashSet\<close> equality of the roots with the coins a door named, and the size it reports.\<close>

definition root_ids :: "(coin \<Rightarrow> bytes32) \<Rightarrow> coin_spend list \<Rightarrow> bytes32 list" where
  "root_ids cid spends = map (\<lambda>s. cid (spent_coin s)) (bundle_roots cid spends)"

definition roots_are :: "(coin \<Rightarrow> bytes32) \<Rightarrow> coin_spend list \<Rightarrow> bytes32 list \<Rightarrow> bool" where
  "roots_are cid spends permitted \<longleftrightarrow> set (root_ids cid spends) = set permitted"

definition root_count :: "(coin \<Rightarrow> bytes32) \<Rightarrow> coin_spend list \<Rightarrow> nat" where
  "root_count cid spends = length (remdups (root_ids cid spends))"

text \<open>
  What naming the roots of a bundle buys, stated once for the three doors: every coin the bundle
  spends is a named one or is made by the bundle itself, and every named coin is spent.
\<close>

locale root_gate =
  fixes gate :: "(coin \<Rightarrow> bytes32) \<Rightarrow> coin_spend list \<Rightarrow> bytes32 list \<Rightarrow> (unit, 'e) result"
  assumes gate_roots: "gate cid spends permitted = Ok () \<Longrightarrow> roots_are cid spends permitted"
begin

lemma no_other_coin:
  assumes "gate cid spends permitted = Ok ()" and "s \<in> set spends"
    and "cid (spent_coin s) \<notin> set permitted"
  shows "\<exists>s' \<in> set spends. cid (spent_coin s') = parent_coin_info (spent_coin s)"
  using gate_roots [OF assms(1)] assms(2,3)
  by (force simp: roots_are_def root_ids_def bundle_roots_def Let_def)

lemma named_coins_spent:
  assumes "gate cid spends permitted = Ok ()" and "i \<in> set permitted"
  shows "\<exists>s \<in> set spends. cid (spent_coin s) = i"
proof -
  have "i \<in> set (root_ids cid spends)" using gate_roots [OF assms(1)] assms(2) by (simp add: roots_are_def)
  then show ?thesis by (auto simp: root_ids_def bundle_roots_def Let_def)
qed

end

section \<open>The launch's drivers\<close>

record 'c manager_launch =
  ma_parent_conditions :: "'c list"
  ma_launcher_id :: bytes32

record 'k launch_constants =
  ks_reserve_asset_id :: bytes32
  ks_rest :: 'k

record 's launched =
  la_launcher_id :: bytes32
  la_security_key :: 's

record 'p single_cat_spend =
  sc_prev_coin_id :: bytes32
  sc_next_parent :: bytes32
  sc_next_inner_puzzle_hash :: bytes32
  sc_next_amount :: u64
  sc_prev_subtotal :: int
  sc_extra_delta :: int
  sc_p2_spend :: 'p
  sc_revoke :: bool

datatype 'n clvm_view = ViewAtom | ViewPair 'n 'n

text \<open>
  \<open>ld_constants m seconds ph\<close> is the constants table for the manager's launch terms;
  \<open>ld_inner_cat\<close> quotes conditions and wraps them with the wallet's key.
\<close>

record ('c, 'p, 'g, 'n, 'i, 'k, 'o, 'h, 'l, 's) launch_driver = "('c, 'p, 'g) door_tools" +
  ld_manager :: "coin_spend list \<Rightarrow> bytes32 \<Rightarrow> 'i \<Rightarrow> (coin_spend list \<times> 'c manager_launch, string) result"
  ld_standard_spend ::
    "coin_spend list \<Rightarrow> byte list \<Rightarrow> coin \<Rightarrow> 'c door_condition list \<Rightarrow> (coin_spend list, string) result"
  ld_constants :: "'c manager_launch \<Rightarrow> u64 \<Rightarrow> bytes32 \<Rightarrow> ('k launch_constants, string) result"
  ld_inner_cat :: "byte list \<Rightarrow> condition list \<Rightarrow> ('p, string) result"
  ld_cat_spend ::
    "coin_spend list \<Rightarrow> owned_cat \<Rightarrow> 'p single_cat_spend \<Rightarrow> (coin_spend list, string) result"
  ld_offer :: "coin_spend list \<Rightarrow> coin_spend list \<Rightarrow> (coin_spend list \<times> 'o, string) result"
  ld_launch ::
    "coin_spend list \<Rightarrow> 'o \<Rightarrow> u64 \<Rightarrow> 'k launch_constants \<Rightarrow> 'h \<Rightarrow> 'l \<Rightarrow> u64 \<Rightarrow>
       (coin_spend list \<times> 's launched, string) result"
  ld_public_key :: "'s \<Rightarrow> byte list"
  ld_sign :: "'s \<Rightarrow> byte list \<Rightarrow> 'g"
  ld_solution :: "byte list \<Rightarrow> ('n, string) result"
  ld_delegated :: "'n \<Rightarrow> ('n, string) result"
  ld_view :: "'n \<Rightarrow> 'n clvm_view"
  ld_small_number :: "'n \<Rightarrow> u32 option"
  ld_settlement_hash :: bytes32
  ld_manager_amount :: u64

record ('i, 'l) distributor_mint_request =
  rq_funding :: coin
  rq_reward_cat :: owned_cat
  rq_manager_inner_puzzle :: 'i
  rq_epoch_seconds :: u64
  rq_first_epoch_start :: u64
  rq_generation :: 'l
  rq_fee :: u64
  rq_now_unix_seconds :: u64

section \<open>Refusals before anything is staged\<close>

definition refuse_launch_request ::
  "wallet_key \<Rightarrow> ('i, 'l) distributor_mint_request \<Rightarrow> (unit, mint_error) result" where
  "refuse_launch_request w rq =
     (if puzzle_hash (rq_funding rq) \<noteq> wk_puzzle_hash w then Err (MintRefused FundingNotThisWallets)
      else if cat_p2_puzzle_hash (rq_reward_cat rq) \<noteq> wk_puzzle_hash w
      then Err (MintRefused RewardCatNotThisWallets)
      else if rq_epoch_seconds rq = 0 then Err (MintRefused EpochLengthZero)
      else Ok ())"

definition required_xch :: "u64 \<Rightarrow> u64 \<Rightarrow> u64 option" where
  "required_xch manager_amount fee =
     (case checked_add OFFER_XCH_AMOUNT manager_amount of
        None \<Rightarrow> None
      | Some both \<Rightarrow> checked_add both fee)"

definition launch_change :: "u64 \<Rightarrow> ('i, 'l) distributor_mint_request \<Rightarrow> (u64, mint_error) result" where
  "launch_change manager_amount rq =
     and_then (ok_or (MintFundsInsufficient (- 1) (amount (rq_funding rq)))
                 (required_xch manager_amount (rq_fee rq))) (\<lambda>required.
       ok_or (MintFundsInsufficient required (amount (rq_funding rq)))
         (checked_sub (amount (rq_funding rq)) required))"

section \<open>The composition\<close>

definition distributor_funding_conditions ::
  "'c manager_launch \<Rightarrow> bytes32 \<Rightarrow> bytes32 \<Rightarrow> u64 \<Rightarrow> u64 \<Rightarrow> byte list \<Rightarrow> 'c door_condition list" where
  "distributor_funding_conditions manager settlement ph change fee hint =
     map ByDriver (ma_parent_conditions manager) @
     [Own (CreateCoin settlement OFFER_XCH_AMOUNT NoMemos)] @
     (if 0 < change then [Own (CreateCoin ph change (Hint hint))] else []) @
     (if 0 < fee then [Own (ReserveFee fee)] else [])"

definition spend_reward_cat_into_settlement ::
  "('c, 'p, 'g, 'n, 'i, 'k, 'o, 'h, 'l, 's) launch_driver \<Rightarrow> coin_spend list \<Rightarrow> wallet_key \<Rightarrow> owned_cat \<Rightarrow>
     (coin_spend list, mint_error) result"
where
  "spend_reward_cat_into_settlement ld staged w k =
     and_then (map_err (MintBuild \<circ> CatSettlementFailed)
                 (ld_inner_cat ld (wk_public_key w)
                    [CreateCoin (ld_settlement_hash ld) (amount (cat_coin k)) NoMemos])) (\<lambda>p2.
     map_err (MintBuild \<circ> CatSettlementFailed)
       (ld_cat_spend ld staged k
          \<lparr>sc_prev_coin_id = dw_id ld (cat_coin k),
           sc_next_parent = parent_coin_info (cat_coin k),
           sc_next_inner_puzzle_hash = wk_puzzle_hash w,
           sc_next_amount = amount (cat_coin k),
           sc_prev_subtotal = 0, sc_extra_delta = 0, sc_p2_spend = p2, sc_revoke = False\<rparr>))"

text \<open>Steps 1 to 4: the manager, the funding spend, the constants, and the reward CAT.\<close>

definition stage_launch_offer ::
  "('c, 'p, 'g, 'n, 'i, 'k, 'o, 'h, 'l, 's) launch_driver \<Rightarrow> wallet_key \<Rightarrow>
     ('i, 'l) distributor_mint_request \<Rightarrow> u64 \<Rightarrow>
     (coin_spend list \<times> 'c manager_launch \<times> 'k launch_constants, mint_error) result"
where
  "stage_launch_offer ld w rq change =
     (let ph = wk_puzzle_hash w in
      and_then (map_err (MintBuild \<circ> ManagerLaunchFailed)
                  (ld_manager ld [] (dw_id ld (rq_funding rq)) (rq_manager_inner_puzzle rq))) (\<lambda>(staged, manager).
      and_then (if 0 < change then map_err (MintBuild \<circ> OwnHintFailed) (dw_hint ld ph) else Ok []) (\<lambda>hint.
      and_then (map_err (MintBuild \<circ> FundingSpendFailed)
                  (ld_standard_spend ld staged (wk_public_key w) (rq_funding rq)
                     (distributor_funding_conditions manager (ld_settlement_hash ld) ph change (rq_fee rq) hint)))
        (\<lambda>funded.
      and_then (map_err (MintBuild \<circ> ConstantsFailed) (ld_constants ld manager (rq_epoch_seconds rq) ph))
        (\<lambda>constants.
      if cat_asset_id (rq_reward_cat rq) \<noteq> ks_reserve_asset_id constants
      then Err (MintRefused RewardCatNotDig)
      else and_then (spend_reward_cat_into_settlement ld funded w (rq_reward_cat rq)) (\<lambda>offered.
        Ok (offered, manager, constants)))))))"

text \<open>Step 5: the two offer spends out, everything else back in, in the order they were.\<close>

definition split_offer ::
  "(coin \<Rightarrow> bytes32) \<Rightarrow> bytes32 \<Rightarrow> bytes32 \<Rightarrow> coin_spend list \<Rightarrow>
     (coin_spend list \<times> coin_spend list, mint_error) result"
where
  "split_offer cid funding_coin_id reward_cat_coin_id staged =
     (let offered = (\<lambda>s. cid (spent_coin s) = funding_coin_id \<or> cid (spent_coin s) = reward_cat_coin_id);
          offer_spends = filter offered staged
      in if length offer_spends \<noteq> 2 then Err (MintBuild OfferSpendCount)
         else Ok (offer_spends, filter (Not \<circ> offered) staged))"

section \<open>The gate\<close>

definition is_quote_form :: "('c, 'p, 'g, 'n, 'i, 'k, 'o, 'h, 'l, 's) launch_driver \<Rightarrow> 'n \<Rightarrow> bool" where
  "is_quote_form ld delegated =
     (case ld_view ld delegated of
        ViewPair operator _ \<Rightarrow> ld_small_number ld operator = Some 1
      | ViewAtom \<Rightarrow> False)"

fun require_quote_form ::
  "('c, 'p, 'g, 'n, 'i, 'k, 'o, 'h, 'l, 's) launch_driver \<Rightarrow> bytes32 \<Rightarrow> coin_spend list \<Rightarrow>
     (unit, mint_error) result"
where
  "require_quote_form ld ph [] = Ok ()"
| "require_quote_form ld ph (s # ss) =
     (if puzzle_hash (spent_coin s) \<noteq> ph then require_quote_form ld ph ss
      else
        and_then (map_err (MintBuild \<circ> WalletSpendUnreadable) (ld_solution ld (solution s))) (\<lambda>node.
        and_then (map_err (MintBuild \<circ> WalletSpendUnreadable) (ld_delegated ld node)) (\<lambda>delegated.
        if \<not> is_quote_form ld delegated then Err (MintRefused NotQuoteForm)
        else require_quote_form ld ph ss)))"

fun admit_launch_requirements ::
  "wallet_key \<Rightarrow> byte list \<Rightarrow> mint_network \<Rightarrow> required_signature list \<Rightarrow> (unit, mint_error) result"
where
  "admit_launch_requirements w security net [] = Ok ()"
| "admit_launch_requirements w security net (Bls b # rs) =
     (if br_public_key b \<noteq> wk_public_key w \<and> br_public_key b \<noteq> security
      then Err (MintRefused KeyOutsideTheLaunch)
      else if br_domain_string b \<noteq> Some (mn_me net) then Err (MintRefused SignatureUnbound)
      else admit_launch_requirements w security net rs)"
| "admit_launch_requirements w security net (Secp # rs) = Err (MintRefused SecpSignature)"

definition gate_launch_roots ::
  "(coin \<Rightarrow> bytes32) \<Rightarrow> coin_spend list \<Rightarrow> bytes32 list \<Rightarrow> (unit, mint_error) result" where
  "gate_launch_roots cid spends permitted =
     (if roots_are cid spends permitted then Ok ()
      else Err (MintRefused (DistributorRootCount (root_count cid spends))))"

definition gate_distributor_launch ::
  "('c, 'p, 'g, 'n, 'i, 'k, 'o, 'h, 'l, 's) launch_driver \<Rightarrow> wallet_key \<Rightarrow> coin_spend list \<Rightarrow>
     required_signature list \<Rightarrow> byte list \<Rightarrow> bytes32 list \<Rightarrow> mint_network \<Rightarrow> (unit, mint_error) result"
where
  "gate_distributor_launch ld w spends required security permitted net =
     and_then (admit_launch_requirements w security net required) (\<lambda>_.
     and_then (require_quote_form ld (wk_puzzle_hash w) spends) (\<lambda>_.
     gate_launch_roots (dw_id ld) spends permitted))"

interpretation launch_roots: root_gate gate_launch_roots
  by unfold_locales (simp add: gate_launch_roots_def split: if_splits)

section \<open>Signing\<close>

text \<open>The loop over the requirements: the aggregate so far and the pairs it claims to discharge.\<close>

fun sign_launch_requirements ::
  "('c, 'p, 'g, 'n, 'i, 'k, 'o, 'h, 'l, 's) launch_driver \<Rightarrow> wallet_key \<Rightarrow> 's \<Rightarrow> 'g \<Rightarrow>
     (byte list \<times> byte list) list \<Rightarrow> required_signature list \<Rightarrow>
     ('g \<times> (byte list \<times> byte list) list, mint_error) result"
where
  "sign_launch_requirements ld w key acc discharged [] = Ok (acc, discharged)"
| "sign_launch_requirements ld w key acc discharged (Secp # rs) = Err (MintRefused NonBlsAfterGate)"
| "sign_launch_requirements ld w key acc discharged (Bls b # rs) =
     (let sc = dw_scheme ld; message = sig_message sc b in
      if br_public_key b = wk_public_key w
      then sign_launch_requirements ld w key (sig_add sc acc (sig_sign sc w message))
             (discharged @ [(br_public_key b, message)]) rs
      else if br_public_key b = ld_public_key ld key
      then sign_launch_requirements ld w key (sig_add sc acc (ld_sign ld key message))
             (discharged @ [(br_public_key b, message)]) rs
      else Err (MintRefused KeyOutsideTheLaunch))"

definition verify_aggregate_discharges ::
  "('g \<Rightarrow> (byte list \<times> byte list) list \<Rightarrow> bool) \<Rightarrow> 'g \<Rightarrow> (byte list \<times> byte list) list \<Rightarrow> byte list \<Rightarrow>
     (unit, mint_error) result"
where
  "verify_aggregate_discharges verify signature discharged security =
     (if \<not> list_ex (\<lambda>(pk, _). pk = security) discharged then Err (MintBuild SecurityKeyUnsigned)
      else if \<not> verify signature discharged then Err (MintBuild AggregateDoesNotVerify)
      else Ok ())"

definition sign_distributor_launch ::
  "('c, 'p, 'g, 'n, 'i, 'k, 'o, 'h, 'l, 's) launch_driver \<Rightarrow> wallet_key \<Rightarrow> 's \<Rightarrow> bytes32 list \<Rightarrow>
     mint_network \<Rightarrow> coin_spend list \<Rightarrow> ('g, mint_error) result"
where
  "sign_distributor_launch ld w key permitted net spends =
     (let security = ld_public_key ld key in
      and_then (map_err (MintBuild \<circ> RequirementsUnreadable) (dw_required ld (mn_me net) spends)) (\<lambda>required.
      and_then (gate_distributor_launch ld w spends required security permitted net) (\<lambda>_.
      and_then (sign_launch_requirements ld w key (sig_default (dw_scheme ld)) [] required)
        (\<lambda>(signature, discharged).
      and_then (verify_aggregate_discharges (dw_verify ld) signature discharged security) (\<lambda>_.
      Ok signature)))))"

definition begin_distributor_mint ::
  "('c, 'p, 'g, 'n, 'i, 'k, 'o, 'h, 'l, 's) launch_driver \<Rightarrow> wallet_key \<Rightarrow>
     ('i, 'l) distributor_mint_request \<Rightarrow> mint_network \<Rightarrow> 'h \<Rightarrow>
     (('l, 'g) signed_distributor_mint, mint_error) result"
where
  "begin_distributor_mint ld w rq net consensus =
     (let funding_coin_id = dw_id ld (rq_funding rq);
          reward_cat_coin_id = dw_id ld (cat_coin (rq_reward_cat rq)) in
      and_then (refuse_launch_request w rq) (\<lambda>_.
      and_then (launch_change (ld_manager_amount ld) rq) (\<lambda>change.
      and_then (stage_launch_offer ld w rq change) (\<lambda>(offered, manager, constants).
      and_then (split_offer (dw_id ld) funding_coin_id reward_cat_coin_id offered) (\<lambda>(offer_spends, rest).
      and_then (map_err (MintBuild \<circ> OfferFailed) (ld_offer ld rest offer_spends)) (\<lambda>(staged, offer).
      and_then (map_err (MintBuild \<circ> DistributorLaunchFailed)
                  (ld_launch ld staged offer (rq_first_epoch_start rq) constants consensus
                     (rq_generation rq) (rq_now_unix_seconds rq))) (\<lambda>(spends, launched).
      and_then (sign_distributor_launch ld w (la_security_key launched)
                  [funding_coin_id, reward_cat_coin_id] net spends) (\<lambda>signature.
      Ok \<lparr>sm_bundle = \<lparr>sb_coin_spends = spends, sb_signature = signature\<rparr>,
          sm_distributor_launcher_id = la_launcher_id launched,
          sm_manager_launcher_id = ma_launcher_id manager,
          sm_funding_coin_id = funding_coin_id,
          sm_reward_cat_coin_id = reward_cat_coin_id,
          sm_generation = rq_generation rq\<rparr>))))))))"

text \<open>The unlock's door: the live key first, then the whole build.\<close>

definition minter_begin ::
  "('v, 'q, 'z) distributor_tools \<Rightarrow> ('c, 'p, 'g, 'n, 'i, 'k, 'o, 'h, 'l, 's) launch_driver \<Rightarrow> liveness \<Rightarrow>
     profile_ix \<Rightarrow> ('i, 'l) distributor_mint_request \<Rightarrow> mint_network \<Rightarrow> 'h \<Rightarrow>
     (('l, 'g) signed_distributor_mint, mint_error) result"
where
  "minter_begin dt ld live ix rq net consensus =
     and_then (distributor_wallet_key dt live ix) (\<lambda>w. begin_distributor_mint ld w rq net consensus)"

end
