(* ===== verification/Distributor_Reserve.thy ===== *)
theory Distributor_Reserve
  imports Distributor_Launch
begin

text \<open>
  Moving $DIG into and out of a distributor's reserve: the refill
  (\<open>src/mint/reward_distributor_refill.rs\<close>) and the clawback
  (\<open>src/mint/reward_distributor_clawback.rs\<close>), with the loop each signs its bundle by and the
  roots each bundle is held to.

  A distributor as its driver has it is the record \<open>reward_distributor\<close> with the fields the doors
  read; the rest of it is the driver's. The puzzle arithmetic is \<open>dig-rewards-coin\<close>'s.
\<close>

section \<open>Distributors and slots\<close>

record ('a, 'z, 'x) reward_distributor =
  rd_coin :: coin
  rd_reserve_coin :: coin
  rd_reserve_asset_id :: bytes32
  rd_withdrawal_share_bps :: u64
  rd_pending_actions :: "'a list"
  rd_pending_other_cats :: "'z list"
  rd_rest :: 'x

record reward_slot =
  rs_coin :: coin
  rs_epoch_start :: u64
  rs_rewards :: u64

record 'y commitment_slot =
  cs_coin :: coin
  cs_rewards :: u64
  cs_value :: 'y

definition pending_spend_empty :: "('a, 'z, 'x) reward_distributor \<Rightarrow> bool" where
  "pending_spend_empty d \<longleftrightarrow> rd_pending_actions d = [] \<and> rd_pending_other_cats d = []"

section \<open>Signing under the wallet's key alone\<close>

text \<open>
  The loop of both doors: for each requirement its kind, its key and its domain, then the signature
  over its message. Nothing is signed after the first refusal, and what was signed is dropped.
\<close>

fun sign_own_requirements ::
  "'g signature_scheme \<Rightarrow> wallet_key \<Rightarrow> mint_network \<Rightarrow> 'g \<Rightarrow> (byte list \<times> byte list) list \<Rightarrow>
     required_signature list \<Rightarrow> ('g \<times> (byte list \<times> byte list) list, mint_error) result"
where
  "sign_own_requirements sc w net acc discharged [] = Ok (acc, discharged)"
| "sign_own_requirements sc w net acc discharged (Secp # rs) = Err (MintRefused SecpSignature)"
| "sign_own_requirements sc w net acc discharged (Bls b # rs) =
     (if br_public_key b \<noteq> wk_public_key w then Err (MintRefused KeyNotThisWallets)
      else if br_domain_string b \<noteq> Some (mn_me net) then Err (MintRefused SignatureUnbound)
      else sign_own_requirements sc w net
             (sig_add sc acc (sig_sign sc w (sig_message sc b)))
             (discharged @ [(br_public_key b, sig_message sc b)]) rs)"

definition sign_reserve_spends ::
  "('c, 'p, 'g, 'more) door_tools_scheme \<Rightarrow> wallet_key \<Rightarrow> mint_network \<Rightarrow> coin_spend list \<Rightarrow>
     ('g, mint_error) result"
where
  "sign_reserve_spends dw w net spends =
     and_then (map_err (MintBuild \<circ> RequirementsUnreadable) (dw_required dw (mn_me net) spends)) (\<lambda>required.
     and_then (sign_own_requirements (dw_scheme dw) w net (sig_default (dw_scheme dw)) [] required)
       (\<lambda>(signature, discharged).
     if \<not> dw_verify dw signature discharged then Err (MintBuild AggregateDoesNotVerify)
     else Ok signature))"

section \<open>Refill\<close>

record ('c, 'p, 'g, 'a, 'z, 'x) refill_driver = "('c, 'p, 'g) door_tools" +
  rf_commit ::
    "coin_spend list \<Rightarrow> ('a, 'z, 'x) reward_distributor \<Rightarrow> reward_slot \<Rightarrow> u64 \<Rightarrow> bytes32 \<Rightarrow> u64 \<Rightarrow>
       (coin_spend list \<times> ('a, 'z, 'x) reward_distributor \<times> 'c list, string) result"
  rf_finish ::
    "coin_spend list \<Rightarrow> ('a, 'z, 'x) reward_distributor \<Rightarrow> (owned_cat \<times> 'p) list \<Rightarrow>
       (coin_spend list, string) result"

record ('a, 'z, 'x) refill_request =
  rr_distributor :: "('a, 'z, 'x) reward_distributor"
  rr_reward_slot :: reward_slot
  rr_epoch_start :: u64
  rr_funding_cat :: owned_cat
  rr_rewards_base_units :: u64

record 'g signed_refill =
  sr_bundle :: "'g spend_bundle"
  sr_funding_cat_coin_id :: bytes32
  sr_epoch_start :: u64
  sr_rewards_base_units :: u64

definition refuse_refill_request ::
  "wallet_key \<Rightarrow> ('a, 'z, 'x) refill_request \<Rightarrow> (unit, mint_error) result" where
  "refuse_refill_request w rr =
     (let k = rr_funding_cat rr in
      if cat_p2_puzzle_hash k \<noteq> wk_puzzle_hash w then Err RefillUnownedFundingCoin
      else if rr_epoch_start rr = 0 then Err RefillZeroEpoch
      else if cat_asset_id k \<noteq> rd_reserve_asset_id (rr_distributor rr) then Err RefillWrongAsset
      else if rr_rewards_base_units rr = 0 then Err RefillZeroRewardsBaseUnits
      else if amount (cat_coin k) < rr_rewards_base_units rr
      then Err (MintFundsInsufficient (rr_rewards_base_units rr) (amount (cat_coin k)))
      else if \<not> pending_spend_empty (rr_distributor rr) then Err RefillPendingSpendPopulated
      else Ok ())"

definition refill_roots :: "(coin \<Rightarrow> bytes32) \<Rightarrow> ('a, 'z, 'x) refill_request \<Rightarrow> bytes32 list" where
  "refill_roots cid rr =
     [cid (rd_coin (rr_distributor rr)), cid (rd_reserve_coin (rr_distributor rr)),
      cid (rs_coin (rr_reward_slot rr)), cid (cat_coin (rr_funding_cat rr))]"

definition gate_refill_roots ::
  "(coin \<Rightarrow> bytes32) \<Rightarrow> coin_spend list \<Rightarrow> bytes32 list \<Rightarrow> (unit, mint_error) result" where
  "gate_refill_roots cid spends permitted =
     (if roots_are cid spends permitted then Ok ()
      else Err (RefillUnexpectedRoots (root_count cid spends)))"

interpretation refill_gate: root_gate gate_refill_roots
  by unfold_locales (simp add: gate_refill_roots_def split: if_splits)

text \<open>The funding CAT's conditions: the driver's, and this wallet's change when there is any.\<close>

definition refill_conditions :: "'c list \<Rightarrow> bytes32 \<Rightarrow> u64 \<Rightarrow> byte list \<Rightarrow> 'c door_condition list" where
  "refill_conditions secure ph change hint =
     map ByDriver secure @ (if 0 < change then [Own (CreateCoin ph change (Hint hint))] else [])"

definition build_refill_spends ::
  "('c, 'p, 'g, 'a, 'z, 'x) refill_driver \<Rightarrow> wallet_key \<Rightarrow> ('a, 'z, 'x) refill_request \<Rightarrow>
     (coin_spend list, mint_error) result"
where
  "build_refill_spends rf w rr =
     (let ph = wk_puzzle_hash w; k = rr_funding_cat rr in
      and_then (map_err (MintBuild \<circ> CommitIncentivesFailed)
                  (rf_commit rf [] (rr_distributor rr) (rr_reward_slot rr) (rr_epoch_start rr) ph
                     (rr_rewards_base_units rr))) (\<lambda>(staged, distributor, secure).
      let change = amount (cat_coin k) - rr_rewards_base_units rr in
      and_then (if 0 < change then map_err (MintBuild \<circ> OwnHintFailed) (dw_hint rf ph) else Ok []) (\<lambda>hint.
      and_then (map_err (MintBuild \<circ> FundingCatSpendFailed)
                  (dw_inner rf (wk_public_key w) (refill_conditions secure ph change hint))) (\<lambda>p2.
      map_err (MintBuild \<circ> DistributorSpendFailed) (rf_finish rf staged distributor [(k, p2)])))))"

definition begin_distributor_refill ::
  "('c, 'p, 'g, 'a, 'z, 'x) refill_driver \<Rightarrow> wallet_key \<Rightarrow> ('a, 'z, 'x) refill_request \<Rightarrow> mint_network \<Rightarrow>
     ('g signed_refill, mint_error) result"
where
  "begin_distributor_refill rf w rr net =
     and_then (refuse_refill_request w rr) (\<lambda>_.
     and_then (build_refill_spends rf w rr) (\<lambda>spends.
     and_then (gate_refill_roots (dw_id rf) spends (refill_roots (dw_id rf) rr)) (\<lambda>_.
     and_then (sign_reserve_spends rf w net spends) (\<lambda>signature.
     Ok \<lparr>sr_bundle = \<lparr>sb_coin_spends = spends, sb_signature = signature\<rparr>,
         sr_funding_cat_coin_id = dw_id rf (cat_coin (rr_funding_cat rr)),
         sr_epoch_start = rr_epoch_start rr,
         sr_rewards_base_units = rr_rewards_base_units rr\<rparr>))))"

text \<open>The peak before the push, for a caller's own evidence.\<close>

definition submit_reserve_bundle ::
  "'g spend_bundle \<Rightarrow> chain_source \<Rightarrow> ('g, 'p, 'p) publisher \<Rightarrow> nat \<Rightarrow> 'p \<Rightarrow>
     (u32, mint_error) result \<times> nat \<times> 'p"
where
  "submit_reserve_bundle b chain pub t p =
     (case mint_peak_height chain t of
        (Err e, t1) \<Rightarrow> (Err e, t1, p)
      | (Ok pushed_at_height, t1) \<Rightarrow>
          (case push_bundle pub b p of
             (Err e, p1) \<Rightarrow> (Err e, t1, p1)
           | (Ok _, p1) \<Rightarrow> (Ok pushed_at_height, t1, p1)))"

definition submit_refill ::
  "'g signed_refill \<Rightarrow> chain_source \<Rightarrow> ('g, 'p, 'p) publisher \<Rightarrow> nat \<Rightarrow> 'p \<Rightarrow>
     (u32, mint_error) result \<times> nat \<times> 'p"
where
  "submit_refill sr chain pub t p = submit_reserve_bundle (sr_bundle sr) chain pub t p"

section \<open>Clawback\<close>

datatype rewards_error =
    NotTheClawbackAuthority
  | DriverShareNotRepresentable u64 u64
  | DriverShareDisagrees
  | CommitmentEpochStarted u64 u64
  | OtherRewardsError string

fun map_rewards_error :: "rewards_error \<Rightarrow> mint_error" where
  "map_rewards_error NotTheClawbackAuthority = ClawbackNotAuthority"
| "map_rewards_error (DriverShareNotRepresentable units bps) = ClawbackDriverShareNotRepresentable units bps"
| "map_rewards_error DriverShareDisagrees = ClawbackDriverShareDisagrees"
| "map_rewards_error (CommitmentEpochStarted start peak) = ClawbackEpochAlreadyStarted start peak"
| "map_rewards_error (OtherRewardsError other) = MintBuild (WithdrawFailed other)"

record 'c withdrawal =
  cb_recovered :: u64
  cb_conditions :: "'c list"

record ('c, 'p, 'g, 'a, 'z, 'x, 'y, 'b) withdrawal_driver = "('c, 'p, 'g) door_tools" +
  cw_epoch_start :: "'y commitment_slot \<Rightarrow> u64"
  cw_authority :: "'y commitment_slot \<Rightarrow> bytes32"
  cw_withdraw ::
    "coin_spend list \<Rightarrow> ('a, 'z, 'x) reward_distributor \<Rightarrow> 'y commitment_slot \<Rightarrow> reward_slot \<Rightarrow> bytes32 \<Rightarrow>
       'b \<Rightarrow> (coin_spend list \<times> ('a, 'z, 'x) reward_distributor \<times> 'c withdrawal, rewards_error) result"
  cw_spend :: "coin_spend list \<Rightarrow> coin \<Rightarrow> 'p \<Rightarrow> (coin_spend list, string) result"
  cw_finish :: "coin_spend list \<Rightarrow> ('a, 'z, 'x) reward_distributor \<Rightarrow> (coin_spend list, string) result"

record ('a, 'z, 'x, 'y, 'b) clawback_request =
  cr_distributor :: "('a, 'z, 'x) reward_distributor"
  cr_commitment_slot :: "'y commitment_slot"
  cr_reward_slot :: reward_slot
  cr_clawback_coin :: coin
  cr_observed :: 'b

record 'g signed_clawback =
  sk_bundle :: "'g spend_bundle"
  sk_commitment_slot_coin_id :: bytes32
  sk_recovered_base_units :: u64

text \<open>\<open>u128::from(rewards) * u128::from(bps) / 10_000\<close>.\<close>

definition required_share :: "u64 \<Rightarrow> u64 \<Rightarrow> 128 word" where
  "required_share rewards bps = (ucast rewards * ucast bps) div 10000"

definition refuse_clawback_request ::
  "('c, 'p, 'g, 'a, 'z, 'x, 'y, 'b) withdrawal_driver \<Rightarrow> wallet_key \<Rightarrow>
     ('a, 'z, 'x, 'y, 'b) clawback_request \<Rightarrow> (unit, mint_error) result" where
  "refuse_clawback_request cw w cr =
     (let epoch_start = cw_epoch_start cw (cr_commitment_slot cr);
          share = required_share (cs_rewards (cr_commitment_slot cr))
                    (rd_withdrawal_share_bps (cr_distributor cr));
          slot = cr_reward_slot cr in
      if puzzle_hash (cr_clawback_coin cr) \<noteq> wk_puzzle_hash w then Err ClawbackUnownedCoin
      else if \<not> pending_spend_empty (cr_distributor cr) then Err ClawbackPendingSpendPopulated
      else if cw_authority cw (cr_commitment_slot cr) \<noteq> wk_puzzle_hash w then Err ClawbackNotAuthority
      else if rs_epoch_start slot \<noteq> epoch_start
      then Err (ClawbackRewardSlotEpochMismatch (rs_epoch_start slot) epoch_start)
      else if ucast (rs_rewards slot) < share
      then Err (ClawbackRewardSlotInsufficientRewards (rs_rewards slot) share)
      else Ok ())"

definition clawback_roots ::
  "(coin \<Rightarrow> bytes32) \<Rightarrow> ('a, 'z, 'x, 'y, 'b) clawback_request \<Rightarrow> bytes32 list" where
  "clawback_roots cid cr =
     [cid (rd_coin (cr_distributor cr)), cid (rd_reserve_coin (cr_distributor cr)),
      cid (cs_coin (cr_commitment_slot cr)), cid (rs_coin (cr_reward_slot cr)),
      cid (cr_clawback_coin cr)]"

definition gate_clawback_roots ::
  "(coin \<Rightarrow> bytes32) \<Rightarrow> coin_spend list \<Rightarrow> bytes32 list \<Rightarrow> (unit, mint_error) result" where
  "gate_clawback_roots cid spends permitted =
     (if roots_are cid spends permitted then Ok ()
      else Err (ClawbackUnexpectedRoots (root_count cid spends)))"

interpretation clawback_gate: root_gate gate_clawback_roots
  by unfold_locales (simp add: gate_clawback_roots_def split: if_splits)

text \<open>The authorizing coin is made again at its own amount, whatever the driver's conditions are.\<close>

definition clawback_conditions :: "'c withdrawal \<Rightarrow> bytes32 \<Rightarrow> u64 \<Rightarrow> 'c door_condition list" where
  "clawback_conditions cb ph value =
     map ByDriver (cb_conditions cb) @ [Own (CreateCoin ph value NoMemos)]"

definition build_clawback_spends ::
  "('c, 'p, 'g, 'a, 'z, 'x, 'y, 'b) withdrawal_driver \<Rightarrow> wallet_key \<Rightarrow>
     ('a, 'z, 'x, 'y, 'b) clawback_request \<Rightarrow> (coin_spend list \<times> u64, mint_error) result"
where
  "build_clawback_spends cw w cr =
     (let ph = wk_puzzle_hash w; coin = cr_clawback_coin cr in
      and_then (map_err map_rewards_error
                  (cw_withdraw cw [] (cr_distributor cr) (cr_commitment_slot cr) (cr_reward_slot cr) ph
                     (cr_observed cr))) (\<lambda>(staged, distributor, cb).
      and_then (map_err (MintBuild \<circ> AuthorizingSpendFailed)
                  (dw_inner cw (wk_public_key w) (clawback_conditions cb ph (amount coin)))) (\<lambda>p2.
      and_then (map_err (MintBuild \<circ> AuthorizingSpendFailed) (cw_spend cw staged coin p2)) (\<lambda>authorized.
      and_then (map_err (MintBuild \<circ> DistributorSpendFailed) (cw_finish cw authorized distributor)) (\<lambda>spends.
      Ok (spends, cb_recovered cb))))))"

definition begin_distributor_clawback ::
  "('c, 'p, 'g, 'a, 'z, 'x, 'y, 'b) withdrawal_driver \<Rightarrow> wallet_key \<Rightarrow>
     ('a, 'z, 'x, 'y, 'b) clawback_request \<Rightarrow> mint_network \<Rightarrow> ('g signed_clawback, mint_error) result"
where
  "begin_distributor_clawback cw w cr net =
     and_then (refuse_clawback_request cw w cr) (\<lambda>_.
     and_then (build_clawback_spends cw w cr) (\<lambda>(spends, recovered).
     and_then (gate_clawback_roots (dw_id cw) spends (clawback_roots (dw_id cw) cr)) (\<lambda>_.
     and_then (sign_reserve_spends cw w net spends) (\<lambda>signature.
     Ok \<lparr>sk_bundle = \<lparr>sb_coin_spends = spends, sb_signature = signature\<rparr>,
         sk_commitment_slot_coin_id = dw_id cw (cs_coin (cr_commitment_slot cr)),
         sk_recovered_base_units = recovered\<rparr>))))"

definition submit_clawback ::
  "'g signed_clawback \<Rightarrow> chain_source \<Rightarrow> ('g, 'p, 'p) publisher \<Rightarrow> nat \<Rightarrow> 'p \<Rightarrow>
     (u32, mint_error) result \<times> nat \<times> 'p"
where
  "submit_clawback sk chain pub t p = submit_reserve_bundle (sk_bundle sk) chain pub t p"

text \<open>The unlock's refill: the live key first.\<close>

definition minter_refill ::
  "('v, 'q, 'l) distributor_tools \<Rightarrow> ('c, 'p, 'g, 'a, 'z, 'x) refill_driver \<Rightarrow> liveness \<Rightarrow> profile_ix \<Rightarrow>
     ('a, 'z, 'x) refill_request \<Rightarrow> mint_network \<Rightarrow> ('g signed_refill, mint_error) result"
where
  "minter_refill dt rf live ix rr net =
     and_then (distributor_wallet_key dt live ix) (\<lambda>w. begin_distributor_refill rf w rr net)"

end
