(* ===== verification/Resume_Properties.thy ===== *)
theory Resume_Properties
  imports Distributor_Resume Editing_Properties
begin

text \<open>
  What the reward-distributor evidence promises: a confirmation is exactly what the rules ask for and
  follows its own push, a record is taken back exactly when the chain proves this account's funding
  coin made it, a launch is declared dead only on a buried spend, and a record written from a pending
  mint resumes to that mint.
\<close>

section \<open>Status\<close>

text \<open>What a confirmed status rests on: one peak, one record of the launcher, one discovery.\<close>

lemma status_Confirmed:
  "distributor_status_of cid discover p chain t = Returns (Ok (DistributorConfirmed e), t') () \<longleftrightarrow>
     (\<exists>peak r. ask_peak chain t = Ok (Some peak) \<and>
        ask_coin_record chain (Suc t) (pr_distributor_launcher_id p) = Ok (Some r) \<and>
        discover (t + 2) (pr_distributor_launcher_id p) = (Ok (Some (own_discovery p)), t') \<and>
        own_evidence cid p r peak = Some e)"
proof (cases "mint_peak_height chain t")
  case (Pair a t1)
  show ?thesis
  proof (cases "\<exists>peak r. a = Ok peak \<and> ask_coin_record chain t1 (pr_distributor_launcher_id p) = Ok (Some r) \<and>
      confirmed_height r \<noteq> None")
    case False
    then have "distributor_status_of cid discover p chain t \<noteq> Returns (Ok (DistributorConfirmed e), t') ()"
      using Pair
      by (auto simp: distributor_status_of_def status_without_launcher_def
          split: result.splits option.splits prod.splits)
    moreover have "own_evidence cid p r peak \<noteq> Some e"
      if "ask_peak chain t = Ok (Some peak)"
        "ask_coin_record chain (Suc t) (pr_distributor_launcher_id p) = Ok (Some r)" for peak r
    proof
      assume ev: "own_evidence cid p r peak = Some e"
      have "a = Ok peak \<and> t1 = Suc t" using that(1) Pair by (auto simp: mint_peak_height_def)
      with False that(2) have "confirmed_height r = None" by blast
      with distributor_ev.evidence_sound(2) [OF ev] show False by simp
    qed
    ultimately show ?thesis by blast
  next
    case True
    then obtain peak r where a: "a = Ok peak"
      and r: "ask_coin_record chain t1 (pr_distributor_launcher_id p) = Ok (Some r)"
      "confirmed_height r \<noteq> None" by blast
    have peak: "ask_peak chain t = Ok (Some peak)" "t1 = Suc t"
      using Pair a by (simp_all add: mint_peak_height_Ok)
    obtain res t2 where d: "discover (t + 2) (pr_distributor_launcher_id p) = (res, t2)" by fastforce
    show ?thesis
    proof (cases "\<exists>x. res = Ok (Some x)")
      case False
      then show ?thesis
        using Pair a r peak d
        by (auto simp: distributor_status_of_def split: result.splits option.splits)
    next
      case True
      then obtain x where x: "res = Ok (Some x)" by blast
      have "distributor_status_of cid discover p chain t = Returns (Ok (DistributorConfirmed e), t') () \<longleftrightarrow>
          confirm_discovered cid p r peak x = Returns (DistributorConfirmed e) () \<and> t' = t2"
        using Pair a r peak d x by (auto simp: distributor_status_of_def map_run_Returns)
      then show ?thesis
        using Pair a r peak d x
        by (auto simp: confirm_discovered_Confirmed from_confirmed_own own_discovery_def)
    qed
  qed
qed

text \<open>C35: A pushed distributor mint is reported confirmed exactly on evidence of the launch: a record of
  the launcher itself, buried six blocks under the peak read in this call, confirmed at a real height
  that does not predate the push, and a discovery, from the spend that created it, of this launcher
  and this generation. The report then carries the ids the mint pushed and that height.\<close>

theorem distributor_confirmed_exactly_on_evidence:
  "distributor_status_of cid discover p chain t = Returns (Ok (DistributorConfirmed e), t') () \<longleftrightarrow>
     (\<exists>peak r h. ask_peak chain t = Ok (Some peak) \<and>
        ask_coin_record chain (Suc t) (pr_distributor_launcher_id p) = Ok (Some r) \<and>
        cid (rec_coin r) = pr_distributor_launcher_id p \<and> confirmed_height r = Some h \<and>
        0 < unat h \<and> unat (pr_pushed_at_height p) \<le> unat h \<and> unat h + 5 \<le> unat peak \<and>
        discover (t + 2) (pr_distributor_launcher_id p) =
          (Ok (Some \<lparr>dd_launcher_id = pr_distributor_launcher_id p, dd_generation = pr_generation p\<rparr>), t') \<and>
        e = \<lparr>cd_distributor_launcher_id = pr_distributor_launcher_id p,
             cd_manager_launcher_id = pr_manager_launcher_id p,
             cd_confirmed_height = h, cd_generation = pr_generation p\<rparr>)"
  (is "?status \<longleftrightarrow> ?evidence")
proof
  assume ?status
  then obtain peak r where *: "ask_peak chain t = Ok (Some peak)"
    "ask_coin_record chain (Suc t) (pr_distributor_launcher_id p) = Ok (Some r)"
    "discover (t + 2) (pr_distributor_launcher_id p) = (Ok (Some (own_discovery p)), t')"
    and ev: "own_evidence cid p r peak = Some e"
    by (auto simp: status_Confirmed)
  have "e = \<lparr>cd_distributor_launcher_id = pr_distributor_launcher_id p,
      cd_manager_launcher_id = pr_manager_launcher_id p,
      cd_confirmed_height = cd_confirmed_height e, cd_generation = pr_generation p\<rparr>"
    using ev distributor_ev.evidence_sound(2) [OF ev]
    by (auto simp: own_evidence_def distributor_from_confirmed_iff)
  with * distributor_ev.evidence_sound [OF ev] show ?evidence
    by (auto simp: own_discovery_def)
next
  assume ?evidence
  then obtain peak r h where *: "ask_peak chain t = Ok (Some peak)"
    "ask_coin_record chain (Suc t) (pr_distributor_launcher_id p) = Ok (Some r)"
    and r: "cid (rec_coin r) = pr_distributor_launcher_id p" "confirmed_height r = Some h"
      "0 < unat h" "unat (pr_pushed_at_height p) \<le> unat h" "unat h + 5 \<le> unat peak"
    and d: "discover (t + 2) (pr_distributor_launcher_id p) = (Ok (Some (own_discovery p)), t')"
    and e: "e = \<lparr>cd_distributor_launcher_id = pr_distributor_launcher_id p,
             cd_manager_launcher_id = pr_manager_launcher_id p,
             cd_confirmed_height = h, cd_generation = pr_generation p\<rparr>"
    by (auto simp: own_discovery_def)
  have "h \<noteq> 0" "pr_pushed_at_height p \<le> h" using r by (auto simp: word_le_nat_alt)
  moreover have "MIN_CONFIRMATION_DEPTH \<le> burial_depth peak h" using r by (simp add: buried_iff)
  ultimately have "own_evidence cid p r peak = Some e"
    using r e by (simp add: own_evidence_def distributor_from_confirmed_iff check_evidence_Ok own_discovery_def)
  with * d show ?status by (auto simp: status_Confirmed)
qed

section \<open>Resuming\<close>

text \<open>The two ways the record itself can go, as the rest of \<open>resume\<close> sees them.\<close>

lemma record_cases:
  obtains g where "parse_consistent_record dt r = Ok g"
      and "\<And>g'. consistent_record dt r g' \<longleftrightarrow> g' = g"
  | f detail where "parse_consistent_record dt r = Err (MintRecordRejected (Malformed f detail))"
      and "\<And>g'. \<not> consistent_record dt r g'"
proof (cases "parse_consistent_record dt r")
  case (Ok g)
  then have "consistent_record dt r g' \<longleftrightarrow> g' = g" for g'
    using parse_consistent_Ok [of dt r g'] by auto
  with Ok that(1) show ?thesis by blast
next
  case (Err e)
  then have "\<not> consistent_record dt r g'" for g' using parse_consistent_Ok [of dt r g'] by auto
  with Err parse_consistent_only_malformed [OF Err] that(2) show ?thesis by blast
qed

lemma distributor_resume_Ok:
  "distributor_resume dt live ix r chain t = (Ok p, t') \<longleftrightarrow>
     live_at_check live 0 \<and> t' = t + 4 \<and>
     (\<exists>g funding reward.
        consistent_record dt r g \<and>
        answered_coin (dt_id dt) chain t (dr_funding_coin_id r) = Some funding \<and>
        puzzle_hash (rec_coin funding) = wk_puzzle_hash (dt_keys dt ix) \<and>
        answered_coin (dt_id dt) chain (Suc t) (dr_reward_cat_coin_id r) = Some reward \<and>
        puzzle_hash (rec_coin reward) = dig_curried_puzzle_hash (dt_cat dt) (wk_puzzle_hash (dt_keys dt ix)) \<and>
        prove_launchers_descend dt chain (t + 2) r funding = (Ok (), t + 4) \<and>
        p = pending_distributor_new (dr_distributor_launcher_id r) (dr_manager_launcher_id r)
              (dr_funding_coin_id r) (dr_reward_cat_coin_id r) g (dr_pushed_at_height r))"
proof (cases rule: record_cases [of dt r])
  case (1 g)
  then show ?thesis
    by (auto simp: distributor_resume_def distributor_wallet_key_def prove_coin_Ok then_read_Ok descend_Ok)
next
  case (2 f detail)
  then show ?thesis by (auto simp: distributor_resume_def distributor_wallet_key_def)
qed

text \<open>C16: A persisted record is taken back exactly when the chain proves this account's own funding coin
  made that distributor: while unlocked; the record names four real and distinct coins, a real height
  and a launch comment; the funding coin was answered under its own id at this profile's puzzle hash
  and the reward coin at this profile's $DIG puzzle hash; the manager's launcher is the one derived from
  the funding coin; and the distributor's launcher is confirmed and its parent's parent is the
  settlement coin derived from the funding coin. The pending mint is then the record's, after exactly
  four reads.\<close>

theorem resume_admits_only_this_accounts_mint:
  "distributor_resume dt live ix r chain t = (Ok p, t') \<longleftrightarrow>
     live_at_check live 0 \<and> t' = t + 4 \<and>
     (\<exists>g funding reward launcher security.
        consistent_record dt r g \<and>
        answered_coin (dt_id dt) chain t (dr_funding_coin_id r) = Some funding \<and>
        puzzle_hash (rec_coin funding) = wk_puzzle_hash (dt_keys dt ix) \<and>
        answered_coin (dt_id dt) chain (t + 1) (dr_reward_cat_coin_id r) = Some reward \<and>
        puzzle_hash (rec_coin reward) = dig_curried_puzzle_hash (dt_cat dt) (wk_puzzle_hash (dt_keys dt ix)) \<and>
        dr_manager_launcher_id r = dt_id dt (manager_launcher_coin dt (dr_funding_coin_id r)) \<and>
        answered_coin (dt_id dt) chain (t + 2) (dr_distributor_launcher_id r) = Some launcher \<and>
        confirmed_height launcher \<noteq> None \<and>
        answered_coin (dt_id dt) chain (t + 3) (parent_coin_info (rec_coin launcher)) = Some security \<and>
        parent_coin_info (rec_coin security) =
          dt_id dt (offered_xch_settlement_coin dt (dr_funding_coin_id r)) \<and>
        p = pending_distributor_new (dr_distributor_launcher_id r) (dr_manager_launcher_id r)
              (dr_funding_coin_id r) (dr_reward_cat_coin_id r) g (dr_pushed_at_height r))"
proof -
  have n: "t + 1 = Suc t" "t + 2 = Suc (Suc t)" "t + 3 = Suc (Suc (Suc t))" "t + 4 = Suc (Suc t) + 2" by simp_all
  show ?thesis
    unfolding distributor_resume_Ok n descend_Ok by blast
qed

lemma resume_rejects_only_when_reached:
  "distributor_resume dt live ix r chain t = (Err (MintRecordRejected (LaunchDead h d)), t') \<longleftrightarrow>
     live_at_check live 0 \<and>
     (\<exists>g funding reward.
        consistent_record dt r g \<and>
        answered_coin (dt_id dt) chain t (dr_funding_coin_id r) = Some funding \<and>
        puzzle_hash (rec_coin funding) = wk_puzzle_hash (dt_keys dt ix) \<and>
        answered_coin (dt_id dt) chain (t + 1) (dr_reward_cat_coin_id r) = Some reward \<and>
        puzzle_hash (rec_coin reward) = dig_curried_puzzle_hash (dt_cat dt) (wk_puzzle_hash (dt_keys dt ix)) \<and>
        prove_launchers_descend dt chain (t + 2) r funding =
          (Err (MintRecordRejected (LaunchDead h d)), t'))"
proof -
  have "prove_coin_is_ours cid chain s i ph proof \<noteq> (Err (MintRecordRejected (LaunchDead h d)), t')"
    for cid s i ph "proof"
    by (auto simp: prove_coin_is_ours_def resume_read_coin_def not_yours_def
        split: result.splits option.splits if_splits prod.splits)
  note rejects = this
  show ?thesis
  proof (cases rule: record_cases [of dt r])
    case (1 g)
    then show ?thesis
      by (auto simp: distributor_resume_def distributor_wallet_key_def prove_coin_Ok then_read_Err rejects)
  next
    case (2 f detail)
    then show ?thesis by (auto simp: distributor_resume_def distributor_wallet_key_def)
  qed
qed

lemma descend_dead:
  "prove_launchers_descend dt chain t r funding = (Err (MintRecordRejected (LaunchDead h d)), t') \<longleftrightarrow>
     dr_manager_launcher_id r = dt_id dt (manager_launcher_coin dt (dr_funding_coin_id r)) \<and>
     ask_coin_record chain t (dr_distributor_launcher_id r) = Ok None \<and>
     launcher_absent chain (Suc t) funding = (MintRecordRejected (LaunchDead h d), t')"
  by (auto simp: prove_launchers_descend_def Let_def resume_read_coin_def not_yours_def
      split: prod.splits result.splits option.splits if_splits)

text \<open>C34: A record is declared a dead launch, the answer a host tells a user their coins are back by, exactly
  on proof: unlocked, the record consistent, both coins this account's, the manager derived from the
  funding coin, the source without a record of the launcher, and the funding coin's own record placing
  it at a real height and its spend no earlier than that and buried six blocks under the peak then
  read. An unspent coin, a zero-filled or shallow spend and a failed read are never that answer.\<close>

theorem dead_launch_is_proven:
  "distributor_resume dt live ix r chain t = (Err (MintRecordRejected (LaunchDead h d)), t') \<longleftrightarrow>
     live_at_check live 0 \<and> t' = t + 4 \<and>
     (\<exists>g funding reward made peak.
        consistent_record dt r g \<and>
        answered_coin (dt_id dt) chain t (dr_funding_coin_id r) = Some funding \<and>
        puzzle_hash (rec_coin funding) = wk_puzzle_hash (dt_keys dt ix) \<and>
        answered_coin (dt_id dt) chain (t + 1) (dr_reward_cat_coin_id r) = Some reward \<and>
        puzzle_hash (rec_coin reward) = dig_curried_puzzle_hash (dt_cat dt) (wk_puzzle_hash (dt_keys dt ix)) \<and>
        dr_manager_launcher_id r = dt_id dt (manager_launcher_coin dt (dr_funding_coin_id r)) \<and>
        ask_coin_record chain (t + 2) (dr_distributor_launcher_id r) = Ok None \<and>
        spent_height funding = Some h \<and> confirmed_height funding = Some made \<and>
        0 < unat made \<and> unat made \<le> unat h \<and>
        ask_peak chain (t + 3) = Ok (Some peak) \<and> unat h + 5 \<le> unat peak \<and> d = burial_depth peak h)"
proof -
  have n: "t + 1 = Suc t" "t + 2 = Suc (Suc t)" "t + 3 = Suc (Suc (Suc t))" "t + 4 = Suc (Suc (Suc (Suc t)))"
    by simp_all
  have w: "0 < unat (made :: u32) \<longleftrightarrow> made \<noteq> 0" for made by (simp add: unat_gt_0)
  show ?thesis
    unfolding resume_rejects_only_when_reached n descend_dead launcher_absent_dead word_le_nat_alt w by blast
qed

section \<open>Status and resume on the same evidence\<close>

lemma launcher_absent_unusable:
  "spent_height f = Some h \<Longrightarrow> unusable_spend_height f h = Some u \<Longrightarrow>
     launcher_absent chain t f = (MintRecordRejected (Unproven (SpendHeightUnusable h u)), t)"
  by (simp add: launcher_absent_def)

lemma launcher_absent_shallow:
  "spent_height f = Some h \<Longrightarrow> unusable_spend_height f h = None \<Longrightarrow> ask_peak chain t = Ok (Some peak) \<Longrightarrow>
     unat peak < unat h + 5 \<Longrightarrow>
     launcher_absent chain t f =
       (MintRecordRejected (Unproven (SpendTooShallow h (burial_depth peak h) peak)), Suc t)"
  using not_buried_iff [of peak h]
  by (simp add: launcher_absent_def mint_peak_height_def burial_depth_def)

text \<open>The two doors judge one record by different rules. When the launcher has no record and the
  funding coin's record carries any spent height at all, the status is the final one, failed because a
  different spend took the funding coin, whatever that height is; on that same record the door that
  resumes answers that nothing is proven yet whenever the height is one the chain cannot have produced,
  or is not yet buried.\<close>

theorem status_ends_what_resume_keeps:
  assumes "ask_peak chain t = Ok (Some peak)"
    and "ask_coin_record chain (t + 1) (pr_distributor_launcher_id p) = Ok None"
    and "ask_coin_record chain (t + 2) (pr_funding_coin_id p) = Ok (Some f)"
    and "ask_coin_record chain (t + 3) (pr_reward_cat_coin_id p) = Ok c"
    and "spent_height f = Some h"
  shows "distributor_status_of cid discover p chain t =
      Returns (Ok (DistributorFailed FundingSpentElsewhere), t + 4) () \<and>
    (\<forall>u. unusable_spend_height f h = Some u \<longrightarrow>
       launcher_absent chain s f = (MintRecordRejected (Unproven (SpendHeightUnusable h u)), s)) \<and>
    (unusable_spend_height f h = None \<and> ask_peak chain s = Ok (Some peak) \<and> unat peak < unat h + 5 \<longrightarrow>
       launcher_absent chain s f =
         (MintRecordRejected (Unproven (SpendTooShallow h (burial_depth peak h) peak)), Suc s))"
proof -
  have n: "t + 1 = Suc t" "t + 2 = Suc (Suc t)" "t + 3 = Suc (Suc (Suc t))" by simp_all
  have "distributor_status_of cid discover p chain t =
      Returns (Ok (DistributorFailed FundingSpentElsewhere), t + 4) ()"
    using assms unfolding n
    by (simp add: distributor_status_of_def mint_peak_height_def status_without_launcher_def spent_record_def
        is_spent_def)
  then show ?thesis
    using assms(5) launcher_absent_unusable launcher_absent_shallow by blast
qed

section \<open>Push, record and confirmation\<close>

lemma submit_distributor_Ok:
  "submit_distributor_mint m chain pub t w = (Ok p, t1, w1) \<longleftrightarrow>
     (\<exists>peak u. ask_peak chain t = Ok (Some peak) \<and> t1 = Suc t \<and>
        push_bundle pub (sm_bundle m) w = (Ok u, w1) \<and>
        p = pending_distributor_new (sm_distributor_launcher_id m) (sm_manager_launcher_id m)
              (sm_funding_coin_id m) (sm_reward_cat_coin_id m) (sm_generation m) peak)"
  by (auto simp: submit_distributor_mint_def mint_peak_height_def split: prod.splits result.splits option.splits)

text \<open>C33: A pushed mint that is persisted and taken back is the mint that was pushed, and a confirmation
  reported for it is of that mint: the launcher ids and the generation it carries are those of the
  signed bundle, at a height no lower than the peak read before the push.\<close>

theorem resumed_mint_is_the_pushed_one:
  assumes push: "submit_distributor_mint m chain pub t w = (Ok p, t1, w1)"
    and parse: "dt_parse dt (print (sm_generation m)) = Some (sm_generation m)"
    and resumed: "distributor_resume dt live ix (distributor_record_from print p) chain' t2 = (Ok q, t3)"
    and status: "distributor_status_of cid discover q chain'' t4 = Returns (Ok (DistributorConfirmed e), t5) ()"
  shows "q = p \<and> cd_distributor_launcher_id e = sm_distributor_launcher_id m \<and>
    cd_manager_launcher_id e = sm_manager_launcher_id m \<and> cd_generation e = sm_generation m \<and>
    (\<exists>peak. ask_peak chain t = Ok (Some peak) \<and> peak \<le> cd_confirmed_height e)"
proof -
  obtain peak where peak: "ask_peak chain t = Ok (Some peak)"
    and p: "p = pending_distributor_new (sm_distributor_launcher_id m) (sm_manager_launcher_id m)
        (sm_funding_coin_id m) (sm_reward_cat_coin_id m) (sm_generation m) peak"
    using push by (auto simp: submit_distributor_Ok)
  have "q = p"
    using resumed parse unfolding distributor_resume_Ok p
    by (auto simp: consistent_record_def distributor_record_from_def pending_distributor_new_def)
  moreover obtain r peak' where ev: "own_evidence cid q r peak' = Some e"
    using status by (auto simp: status_Confirmed)
  ultimately show ?thesis
    using peak p ev distributor_ev.evidence_sound(4) [OF ev]
    by (auto simp: own_evidence_def distributor_from_confirmed_iff pending_distributor_new_def
        word_le_nat_alt)
qed

section \<open>Samples\<close>

text \<open>Funding coin 101, reward coin 102, manager 201, settlement 201 + 100, security 401, launcher 501.\<close>

definition sample_distributor_tools :: "(unit, unit, string) distributor_tools" where
  "sample_distributor_tools =
     \<lparr>dt_id = (\<lambda>c. parent_coin_info c + 100 * ucast (amount c)), dt_keys = (\<lambda>ix. sample_wallet),
      dt_parse = Some, dt_settlement_hash = 77, dt_launcher_hash = 78, dt_manager_amount = 3,
      dt_cat = \<lparr>curried_hash = (\<lambda>a ph. a + ph), decode_node = (\<lambda>b. Ok ()), parse_children = (\<lambda>c a b. Ok None),
               inner_spend = (\<lambda>k cs. Ok ()), spend_all = (\<lambda>xs. Ok []), dig_asset = 50\<rparr>\<rparr>"

definition sample_signed_mint :: "(string, byte list list) signed_distributor_mint" where
  "sample_signed_mint =
     \<lparr>sm_bundle = \<lparr>sb_coin_spends = [], sb_signature = []\<rparr>, sm_distributor_launcher_id = 601,
      sm_manager_launcher_id = 401, sm_funding_coin_id = 101, sm_reward_cat_coin_id = 102,
      sm_generation = ''g''\<rparr>"

abbreviation coin_of :: "bytes32 \<Rightarrow> bytes32 \<Rightarrow> coin" where
  "coin_of parent ph \<equiv> \<lparr>parent_coin_info = parent, puzzle_hash = ph, amount = 1\<rparr>"

abbreviation on_chain :: "coin \<Rightarrow> u32 option \<Rightarrow> (coin_record option, string) result" where
  "on_chain c gone \<equiv> Ok (Some \<lparr>rec_coin = c, confirmed_height = Some 45, spent_height = gone\<rparr>)"

text \<open>A chain on which the mint landed, and one whose source zero-fills the height of an unspent coin.\<close>

definition sample_landed_chain :: chain_source where
  "sample_landed_chain =
     \<lparr>ask_coin_record = (\<lambda>t i.
        if i = 101 then on_chain (coin_of 1 9) (Some 45)
        else if i = 102 then on_chain (coin_of 2 59) (Some 45)
        else if i = 601 then on_chain (coin_of 501 78) None
        else if i = 501 then on_chain \<lparr>parent_coin_info = 201, puzzle_hash = 80, amount = 3\<rparr> (Some 45)
        else Ok None),
      ask_peak = (\<lambda>t. Ok (Some (if t = 0 then 40 else 100))),
      ask_by_puzzle_hash = (\<lambda>t ph s. Ok [])\<rparr>"

definition sample_zero_filled_chain :: chain_source where
  "sample_zero_filled_chain = sample_landed_chain\<lparr>ask_coin_record := (\<lambda>t i.
     if i = 101 then on_chain (coin_of 1 9) (Some 0)
     else if i = 102 then on_chain (coin_of 2 59) None else Ok None)\<rparr>"

abbreviation sample_pushed :: "string pending_distributor" where
  "sample_pushed \<equiv> pending_distributor_new 601 401 101 102 ''g'' 40"

lemmas distributor_sample_simps =
  sample_landed_chain_def sample_zero_filled_chain_def sample_distributor_tools_def sample_signed_mint_def
  pending_distributor_new_def

lemma sample_submitted:
  "submit_distributor_mint sample_signed_mint sample_landed_chain (recording (\<lambda>b. Ok Accepted)) 0 [] =
     (Ok sample_pushed, 1, [sm_bundle sample_signed_mint])"
  by (simp add: submit_distributor_mint_def mint_peak_height_def push_bundle_def recording_def
      distributor_sample_simps)

lemma sample_consistent:
  "parse_consistent_record sample_distributor_tools (distributor_record_from id sample_pushed) = Ok ''g''"
  by (simp add: parse_consistent_record_def first_zero_id_def ok_or_def distributor_record_from_def
      distributor_sample_simps)

lemma sample_resumed:
  "distributor_resume sample_distributor_tools sample_live root_ix (distributor_record_from id sample_pushed)
     sample_landed_chain 1 = (Ok sample_pushed, 5)"
proof -
  have "distributor_wallet_key sample_distributor_tools sample_live root_ix = Ok sample_wallet"
    by (simp add: distributor_wallet_key_def sample_live_def live_at_check_def residency_is_live_def
        residency_new_def sample_distributor_tools_def)
  then show ?thesis
    by (simp add: distributor_resume_def sample_consistent)
       (simp add: prove_coin_is_ours_def resume_read_coin_def prove_launchers_descend_def
        manager_launcher_coin_def offered_xch_settlement_coin_def OFFER_XCH_AMOUNT_def
        distributor_record_from_def distributor_sample_simps sample_wallet_def dig_curried_puzzle_hash_def)
qed

definition sample_discovery :: "nat \<Rightarrow> bytes32 \<Rightarrow> (string discovered option, string) result \<times> nat" where
  "sample_discovery t i = (Ok (Some \<lparr>dd_launcher_id = i, dd_generation = ''g''\<rparr>), Suc t)"

definition sample_evidence :: "string confirmed_distributor" where
  "sample_evidence =
     \<lparr>cd_distributor_launcher_id = 601, cd_manager_launcher_id = 401, cd_confirmed_height = 45,
      cd_generation = ''g''\<rparr>"

lemma sample_distributor_confirmed:
  "distributor_status_of (dt_id sample_distributor_tools) sample_discovery sample_pushed sample_landed_chain 5 =
     Returns (Ok (DistributorConfirmed sample_evidence), 8) ()"
  unfolding status_Confirmed own_evidence_def distributor_from_confirmed_iff check_evidence_Ok buried_iff
  by (simp add: sample_discovery_def own_discovery_def sample_evidence_def
      distributor_sample_simps)

theorem resumed_mint_is_the_pushed_one_witness:
  "cd_generation sample_evidence = ''g'' \<and>
   (\<exists>peak. ask_peak sample_landed_chain 0 = Ok (Some peak) \<and> peak \<le> cd_confirmed_height sample_evidence)"
proof -
  have "dt_parse sample_distributor_tools (id (sm_generation sample_signed_mint)) =
      Some (sm_generation sample_signed_mint)"
    by (simp add: distributor_sample_simps)
  from resumed_mint_is_the_pushed_one [where print = id, OF sample_submitted this sample_resumed sample_distributor_confirmed]
  show ?thesis by (simp add: sample_signed_mint_def)
qed

theorem status_ends_what_resume_keeps_witness:
  "distributor_status_of (dt_id sample_distributor_tools) sample_discovery sample_pushed
      sample_zero_filled_chain 0 = Returns (Ok (DistributorFailed FundingSpentElsewhere), 4) () \<and>
   launcher_absent sample_zero_filled_chain 0
      \<lparr>rec_coin = coin_of 1 9, confirmed_height = Some 45, spent_height = Some 0\<rparr> =
     (MintRecordRejected (Unproven (SpendHeightUnusable 0 (SpentBeforeCreation 45))), 0)"
  using status_ends_what_resume_keeps [where chain = sample_zero_filled_chain and t = 0 and p = sample_pushed
      and peak = 40 and f = "\<lparr>rec_coin = coin_of 1 9, confirmed_height = Some 45, spent_height = Some 0\<rparr>"
      and c = "Some \<lparr>rec_coin = coin_of 2 59, confirmed_height = Some 45, spent_height = None\<rparr>"
      and h = 0 and cid = "dt_id sample_distributor_tools" and discover = sample_discovery and s = 0]
  by (simp add: distributor_sample_simps unusable_spend_height_def)

end
