(* ===== verification/Distributor_Properties.thy ===== *)
theory Distributor_Properties
  imports Distributor_Reserve Resume_Properties
begin

text \<open>
  What the three distributor doors sign: exactly the coins each named, under the keys each allows, with
  an aggregate verified before it is returned.
\<close>

section \<open>Signing under the wallet's key alone\<close>

lemma sign_own_Ok:
  "sign_own_requirements sc w net acc dis rs = Ok (g, dis') \<longleftrightarrow>
     list_all (own_bound_signature w net) rs \<and>
     g = foldl (\<lambda>acc m. sig_add sc acc (sig_sign sc w m)) acc (bls_messages sc rs) \<and>
     dis' = dis @ map (Pair (wk_public_key w)) (bls_messages sc rs)"
proof (induction rs arbitrary: acc dis)
  case Nil
  then show ?case by auto
next
  case (Cons r rs)
  then show ?case by (cases r) (auto simp: own_bound_signature_def)
qed

text \<open>A bundle signed for this wallet only, whose aggregate verifies against what it discharges.\<close>

definition signed_alone ::
  "('c, 'p, 'g, 'more) door_tools_scheme \<Rightarrow> wallet_key \<Rightarrow> mint_network \<Rightarrow> 'g spend_bundle \<Rightarrow> bool" where
  "signed_alone dw w net b \<longleftrightarrow>
     (\<exists>required. dw_required dw (mn_me net) (sb_coin_spends b) = Ok required \<and>
        list_all (own_bound_signature w net) required \<and>
        sb_signature b = aggregate (dw_scheme dw) w (bls_messages (dw_scheme dw) required) \<and>
        dw_verify dw (sb_signature b) (map (Pair (wk_public_key w)) (bls_messages (dw_scheme dw) required)))"

lemma sign_reserve_Ok:
  "sign_reserve_spends dw w net spends = Ok g \<longleftrightarrow>
     signed_alone dw w net \<lparr>sb_coin_spends = spends, sb_signature = g\<rparr>"
  by (auto simp: sign_reserve_spends_def signed_alone_def aggregate_def result_simps sign_own_Ok)

text \<open>Every coin a bundle spends is one of those named or is made in the bundle, and each named is spent.\<close>

definition spends_only :: "(coin \<Rightarrow> bytes32) \<Rightarrow> coin_spend list \<Rightarrow> bytes32 list \<Rightarrow> bool" where
  "spends_only cid spends named \<longleftrightarrow>
     (\<forall>s \<in> set spends. cid (spent_coin s) \<in> set named \<or>
        (\<exists>s' \<in> set spends. cid (spent_coin s') = parent_coin_info (spent_coin s))) \<and>
     (\<forall>i \<in> set named. \<exists>s \<in> set spends. cid (spent_coin s) = i)"

section \<open>Refill\<close>

lemma refuse_refill_Ok:
  "refuse_refill_request w rr = Ok () \<longleftrightarrow>
     cat_p2_puzzle_hash (rr_funding_cat rr) = wk_puzzle_hash w \<and> rr_epoch_start rr \<noteq> 0 \<and>
     cat_asset_id (rr_funding_cat rr) = rd_reserve_asset_id (rr_distributor rr) \<and>
     rr_rewards_base_units rr \<noteq> 0 \<and> rr_rewards_base_units rr \<le> amount (cat_coin (rr_funding_cat rr)) \<and>
     pending_spend_empty (rr_distributor rr)"
  by (auto simp: refuse_refill_request_def Let_def not_less)

text \<open>What the bundle of a refill is made of: the driver's commitment of exactly the named units, and the
  funding CAT spent whole with the rest of it returned to this wallet.\<close>

definition refills ::
  "('c, 'p, 'g, 'a, 'z, 'x) refill_driver \<Rightarrow> wallet_key \<Rightarrow> ('a, 'z, 'x) refill_request \<Rightarrow>
     coin_spend list \<Rightarrow> bool" where
  "refills rf w rr spends \<longleftrightarrow>
     (\<exists>staged d secure change hint p2.
        rf_commit rf [] (rr_distributor rr) (rr_reward_slot rr) (rr_epoch_start rr) (wk_puzzle_hash w)
          (rr_rewards_base_units rr) = Ok (staged, d, secure) \<and>
        unat change + unat (rr_rewards_base_units rr) = unat (amount (cat_coin (rr_funding_cat rr))) \<and>
        dw_inner rf (wk_public_key w) (refill_conditions secure (wk_puzzle_hash w) change hint) = Ok p2 \<and>
        rf_finish rf staged d [(rr_funding_cat rr, p2)] = Ok spends)"

lemma build_refill_Ok:
  assumes "rr_rewards_base_units rr \<le> amount (cat_coin (rr_funding_cat rr))"
    and "build_refill_spends rf w rr = Ok spends"
  shows "refills rf w rr spends"
proof -
  have "unat (amount (cat_coin (rr_funding_cat rr)) - rr_rewards_base_units rr) + unat (rr_rewards_base_units rr) =
      unat (amount (cat_coin (rr_funding_cat rr)))"
    using assms(1) by (simp add: unat_sub word_le_nat_alt)
  then show ?thesis
    using assms(2)
    by (auto simp: build_refill_spends_def refills_def Let_def result_simps split: if_splits; blast)
qed

lemma gate_refill_spends_only:
  "gate_refill_roots cid spends named = Ok () \<Longrightarrow> spends_only cid spends named"
  using refill_gate.no_other_coin [of cid spends named] refill_gate.named_coins_spent [of cid spends named]
  by (auto simp: spends_only_def)

text \<open>A signed refill touches four coins that existed before it and no others: the distributor, its
  reserve, the reward slot, and this wallet's own coin of the reserve's asset. The distributor carried
  nothing staged; the units committed are the request's, nonzero and covered, and the rest of the
  funding coin returns to this wallet; every signature is AGG_SIG_ME under the wallet's key, and the
  aggregate verified before the bundle was returned.\<close>

theorem refill_spends_four_named_coins:
  assumes "begin_distributor_refill rf w rr net = Ok s"
  shows "spends_only (dw_id rf) (sb_coin_spends (sr_bundle s)) (refill_roots (dw_id rf) rr) \<and>
    signed_alone rf w net (sr_bundle s) \<and> refills rf w rr (sb_coin_spends (sr_bundle s)) \<and>
    pending_spend_empty (rr_distributor rr) \<and>
    cat_p2_puzzle_hash (rr_funding_cat rr) = wk_puzzle_hash w \<and>
    cat_asset_id (rr_funding_cat rr) = rd_reserve_asset_id (rr_distributor rr) \<and>
    0 < unat (sr_rewards_base_units s) \<and> sr_rewards_base_units s = rr_rewards_base_units rr \<and>
    sr_epoch_start s = rr_epoch_start rr \<and> rr_epoch_start rr \<noteq> 0"
proof -
  obtain spends g where ok: "refuse_refill_request w rr = Ok ()" "build_refill_spends rf w rr = Ok spends"
    "gate_refill_roots (dw_id rf) spends (refill_roots (dw_id rf) rr) = Ok ()"
    "sign_reserve_spends rf w net spends = Ok g"
    and s: "sr_bundle s = \<lparr>sb_coin_spends = spends, sb_signature = g\<rparr>"
      "sr_rewards_base_units s = rr_rewards_base_units rr" "sr_epoch_start s = rr_epoch_start rr"
    using assms by (auto simp: begin_distributor_refill_def result_simps)
  show ?thesis
    using ok s build_refill_Ok [OF _ ok(2)] gate_refill_spends_only [OF ok(3)]
    by (simp add: refuse_refill_Ok sign_reserve_Ok unat_gt_0)
qed

section \<open>Clawback\<close>

lemma unat_wide: "unat (ucast (a :: u64) :: 128 word) = unat a"
proof -
  have "unat a < 2 ^ 64" using unsigned_less [of a] by simp
  then have "unat a < 2 ^ 128" by (rule less_le_trans) simp
  then show ?thesis by (simp add: unsigned_ucast_eq take_bit_nat_eq_self)
qed

lemma unat_required_share:
  "unat (required_share a b) = unat a * unat b div 10000"
proof -
  have "unat a < 2 ^ 64" "unat b < 2 ^ 64" using unsigned_less [of a] unsigned_less [of b] by simp_all
  then have "unat a * unat b < 2 ^ 64 * 2 ^ 64" by (intro mult_strict_mono) auto
  then have "unat (ucast a * ucast b :: 128 word) = unat a * unat b"
    by (simp add: unat_word_ariths unat_wide mod_less)
  then show ?thesis by (simp add: required_share_def unat_div)
qed

lemma refuse_clawback_Ok:
  "refuse_clawback_request cw w cr = Ok () \<longleftrightarrow>
     puzzle_hash (cr_clawback_coin cr) = wk_puzzle_hash w \<and> pending_spend_empty (cr_distributor cr) \<and>
     cw_authority cw (cr_commitment_slot cr) = wk_puzzle_hash w \<and>
     rs_epoch_start (cr_reward_slot cr) = cw_epoch_start cw (cr_commitment_slot cr) \<and>
     unat (cs_rewards (cr_commitment_slot cr)) * unat (rd_withdrawal_share_bps (cr_distributor cr)) div 10000
       \<le> unat (rs_rewards (cr_reward_slot cr))"
  by (auto simp: refuse_clawback_request_def Let_def word_less_nat_alt unat_wide unat_required_share not_less)

text \<open>What the bundle of a clawback is made of: the driver's withdrawal of the commitment under this
  wallet's authority, authorized by the wallet's coin, which is made again at its own amount.\<close>

definition claws_back ::
  "('c, 'p, 'g, 'a, 'z, 'x, 'y, 'b) withdrawal_driver \<Rightarrow> wallet_key \<Rightarrow>
     ('a, 'z, 'x, 'y, 'b) clawback_request \<Rightarrow> coin_spend list \<Rightarrow> u64 \<Rightarrow> bool" where
  "claws_back cw w cr spends recovered \<longleftrightarrow>
     (\<exists>staged d cb p2 authorized.
        cw_withdraw cw [] (cr_distributor cr) (cr_commitment_slot cr) (cr_reward_slot cr) (wk_puzzle_hash w)
          (cr_observed cr) = Ok (staged, d, cb) \<and>
        recovered = cb_recovered cb \<and>
        dw_inner cw (wk_public_key w)
          (clawback_conditions cb (wk_puzzle_hash w) (amount (cr_clawback_coin cr))) = Ok p2 \<and>
        cw_spend cw staged (cr_clawback_coin cr) p2 = Ok authorized \<and>
        cw_finish cw authorized d = Ok spends)"

lemma build_clawback_Ok:
  "build_clawback_spends cw w cr = Ok (spends, recovered) \<longleftrightarrow> claws_back cw w cr spends recovered"
  by (auto simp: build_clawback_spends_def claws_back_def Let_def result_simps)

lemma gate_clawback_spends_only:
  "gate_clawback_roots cid spends named = Ok () \<Longrightarrow> spends_only cid spends named"
  using clawback_gate.no_other_coin [of cid spends named] clawback_gate.named_coins_spent [of cid spends named]
  by (auto simp: spends_only_def)

text \<open>C17: A signed clawback withdraws only a commitment whose recorded authority is this wallet, against a
  reward slot of the commitment's own epoch that holds at least the withdrawal share, computed without
  overflow; it touches five coins that existed before it and no others, the authorizing coin this
  wallet's own; every signature is AGG_SIG_ME under the wallet's key, and the aggregate verified before
  the bundle was returned.\<close>

theorem clawback_withdraws_only_its_own:
  assumes "begin_distributor_clawback cw w cr net = Ok s"
  shows "spends_only (dw_id cw) (sb_coin_spends (sk_bundle s)) (clawback_roots (dw_id cw) cr) \<and>
    signed_alone cw w net (sk_bundle s) \<and>
    claws_back cw w cr (sb_coin_spends (sk_bundle s)) (sk_recovered_base_units s) \<and>
    cw_authority cw (cr_commitment_slot cr) = wk_puzzle_hash w \<and>
    puzzle_hash (cr_clawback_coin cr) = wk_puzzle_hash w \<and> pending_spend_empty (cr_distributor cr) \<and>
    rs_epoch_start (cr_reward_slot cr) = cw_epoch_start cw (cr_commitment_slot cr) \<and>
    unat (cs_rewards (cr_commitment_slot cr)) * unat (rd_withdrawal_share_bps (cr_distributor cr)) div 10000
      \<le> unat (rs_rewards (cr_reward_slot cr))"
proof -
  obtain spends recovered g where ok: "refuse_clawback_request cw w cr = Ok ()"
    "build_clawback_spends cw w cr = Ok (spends, recovered)"
    "gate_clawback_roots (dw_id cw) spends (clawback_roots (dw_id cw) cr) = Ok ()"
    "sign_reserve_spends cw w net spends = Ok g"
    and s: "sk_bundle s = \<lparr>sb_coin_spends = spends, sb_signature = g\<rparr>" "sk_recovered_base_units s = recovered"
    using assms by (auto simp: begin_distributor_clawback_def result_simps)
  show ?thesis
    using ok s gate_clawback_spends_only [OF ok(3)]
    by (simp add: refuse_clawback_Ok sign_reserve_Ok build_clawback_Ok)
qed

section \<open>Launch\<close>

lemma admit_launch_Ok:
  "admit_launch_requirements w security net rs = Ok () \<longleftrightarrow>
     list_all (\<lambda>r. case r of Bls b \<Rightarrow>
         (br_public_key b = wk_public_key w \<or> br_public_key b = security) \<and> br_domain_string b = Some (mn_me net)
       | Secp \<Rightarrow> False) rs"
proof (induction rs)
  case Nil
  then show ?case by simp
next
  case (Cons r rs)
  then show ?case by (cases r) auto
qed

lemma require_quote_form_Ok:
  "require_quote_form ld ph spends = Ok () \<longleftrightarrow>
     list_all (\<lambda>s. puzzle_hash (spent_coin s) = ph \<longrightarrow>
       (\<exists>node delegated. ld_solution ld (solution s) = Ok node \<and> ld_delegated ld node = Ok delegated \<and>
          is_quote_form ld delegated)) spends"
proof (induction spends)
  case Nil
  then show ?case by simp
next
  case (Cons s ss)
  then show ?case by (auto simp: result_simps)
qed

text \<open>The pairs a list of requirements asks for, and the aggregate of both keys over them.\<close>

fun bls_pairs :: "'g signature_scheme \<Rightarrow> required_signature list \<Rightarrow> (byte list \<times> byte list) list" where
  "bls_pairs sc [] = []"
| "bls_pairs sc (Bls b # rs) = (br_public_key b, sig_message sc b) # bls_pairs sc rs"
| "bls_pairs sc (Secp # rs) = bls_pairs sc rs"

definition launch_signature ::
  "('c, 'p, 'g, 'n, 'i, 'k, 'o, 'h, 'l, 's) launch_driver \<Rightarrow> wallet_key \<Rightarrow> 's \<Rightarrow> byte list \<times> byte list \<Rightarrow> 'g" where
  "launch_signature ld w key pair =
     (if fst pair = wk_public_key w then sig_sign (dw_scheme ld) w (snd pair) else ld_sign ld key (snd pair))"

lemma sign_launch_Ok:
  "sign_launch_requirements ld w key acc dis rs = Ok (g, dis') \<Longrightarrow>
     dis' = dis @ bls_pairs (dw_scheme ld) rs \<and>
     g = foldl (\<lambda>acc pair. sig_add (dw_scheme ld) acc (launch_signature ld w key pair)) acc
           (bls_pairs (dw_scheme ld) rs)"
proof (induction rs arbitrary: acc dis)
  case Nil
  then show ?case by auto
next
  case (Cons r rs)
  show ?case
  proof (cases r)
    case (Bls b)
    with Cons.prems Cons.IH show ?thesis by (fastforce simp: Let_def launch_signature_def split: if_splits)
  next
    case Secp
    with Cons.prems show ?thesis by simp
  qed
qed

text \<open>A bundle of a launch: every requirement is AGG_SIG_ME under the wallet's key or the launch's own
  security key, the security key's among them, each message is signed once under the key it names, and
  the aggregate verifies against those pairs.\<close>

definition signed_by_launch ::
  "('c, 'p, 'g, 'n, 'i, 'k, 'o, 'h, 'l, 's) launch_driver \<Rightarrow> wallet_key \<Rightarrow> mint_network \<Rightarrow> 's \<Rightarrow>
     'g spend_bundle \<Rightarrow> bool" where
  "signed_by_launch ld w net key b \<longleftrightarrow>
     (\<exists>required. dw_required ld (mn_me net) (sb_coin_spends b) = Ok required \<and>
        list_all (\<lambda>r. case r of Bls b \<Rightarrow>
            (br_public_key b = wk_public_key w \<or> br_public_key b = ld_public_key ld key) \<and>
            br_domain_string b = Some (mn_me net)
          | Secp \<Rightarrow> False) required \<and>
        ld_public_key ld key \<in> fst ` set (bls_pairs (dw_scheme ld) required) \<and>
        sb_signature b =
          foldl (\<lambda>acc pair. sig_add (dw_scheme ld) acc (launch_signature ld w key pair))
            (sig_default (dw_scheme ld)) (bls_pairs (dw_scheme ld) required) \<and>
        dw_verify ld (sb_signature b) (bls_pairs (dw_scheme ld) required))"

lemma gate_launch_spends_only:
  "gate_launch_roots cid spends named = Ok () \<Longrightarrow> spends_only cid spends named"
  using launch_roots.no_other_coin [of cid spends named] launch_roots.named_coins_spent [of cid spends named]
  by (auto simp: spends_only_def)

lemma sign_launch_bundle:
  assumes "sign_distributor_launch ld w key named net spends = Ok g"
  shows "signed_by_launch ld w net key \<lparr>sb_coin_spends = spends, sb_signature = g\<rparr> \<and>
    spends_only (dw_id ld) spends named \<and> require_quote_form ld (wk_puzzle_hash w) spends = Ok ()"
proof -
  obtain required dis where req: "dw_required ld (mn_me net) spends = Ok required"
    and gate: "gate_distributor_launch ld w spends required (ld_public_key ld key) named net = Ok ()"
    and sig: "sign_launch_requirements ld w key (sig_default (dw_scheme ld)) [] required = Ok (g, dis)"
    and ver: "verify_aggregate_discharges (dw_verify ld) g dis (ld_public_key ld key) = Ok ()"
    using assms by (auto simp: sign_distributor_launch_def Let_def result_simps)
  note signed_as = sign_launch_Ok [OF sig]
  have ex: "list_ex (\<lambda>(pk, _). pk = ld_public_key ld key) dis" and v: "dw_verify ld g dis"
    using ver by (auto simp: verify_aggregate_discharges_def split: if_splits)
  from ex have "ld_public_key ld key \<in> fst ` set dis" by (force simp: list_ex_iff)
  with req gate signed_as v show ?thesis
    by (auto simp: signed_by_launch_def gate_distributor_launch_def result_simps admit_launch_Ok
        intro: gate_launch_spends_only)
qed

lemma launch_change_Ok:
  assumes "launch_change m rq = Ok change"
  shows "unat (amount (rq_funding rq)) = 1 + unat m + unat (rq_fee rq) + unat change"
proof -
  obtain both required where "checked_add OFFER_XCH_AMOUNT m = Some both"
    "checked_add both (rq_fee rq) = Some required" "checked_sub (amount (rq_funding rq)) required = Some change"
    using assms by (auto simp: launch_change_def required_xch_def result_simps split: option.splits)
  from this(1,2) [THEN checked_add_unat] this(3) [THEN checked_sub_unat] show ?thesis
    by (simp add: OFFER_XCH_AMOUNT_def)
qed

text \<open>What a condition of a door takes out of the coin it is spent with, \<open>v\<close> saying it of the
  driver's own.\<close>

fun door_value :: "('c \<Rightarrow> nat) \<Rightarrow> 'c door_condition \<Rightarrow> nat" where
  "door_value v (ByDriver c) = v c"
| "door_value v (Own c) = created [c] + reserved_fee [c]"

text \<open>A door's own conditions create nothing but the offer's mojo and coins of this wallet.\<close>

definition pays_home :: "bytes32 \<Rightarrow> bytes32 \<Rightarrow> 'c door_condition list \<Rightarrow> bool" where
  "pays_home settlement ph conds \<longleftrightarrow>
     list_all (\<lambda>c. case c of
         Own (CreateCoin ph' n m) \<Rightarrow> ph' = ph \<or> ph' = settlement \<and> n = OFFER_XCH_AMOUNT
       | _ \<Rightarrow> True) conds"

lemma distributor_funding_conditions_value:
  "sum_list (map (door_value v) (distributor_funding_conditions manager settlement ph change fee hint)) =
     sum_list (map v (ma_parent_conditions manager)) + 1 + unat change + unat fee"
  "pays_home settlement ph (distributor_funding_conditions manager settlement ph change fee hint)"
  by (auto simp: distributor_funding_conditions_def created_def reserved_fee_def OFFER_XCH_AMOUNT_def
      pays_home_def word_gt_0 comp_def list_all_iff)

text \<open>What the SDK documents of staging: a spend is appended to the context under the coin it is of, and
  the launch re-inserts the spends of the offer beside those already staged.\<close>

definition stages_spends :: "('c, 'p, 'g, 'n, 'i, 'k, 'o, 'h, 'l, 's) launch_driver \<Rightarrow> bool" where
  "stages_spends ld \<longleftrightarrow>
     (\<forall>xs pk c conds ys. ld_standard_spend ld xs pk c conds = Ok ys \<longrightarrow>
        (\<exists>s. ys = xs @ [s] \<and> spent_coin s = c)) \<and>
     (\<forall>xs k sc ys. ld_cat_spend ld xs k sc = Ok ys \<longrightarrow>
        (\<exists>s. ys = xs @ [s] \<and> spent_coin s = cat_coin k)) \<and>
     (\<forall>xs os ys offer start ks con gen now zs l. ld_offer ld xs os = Ok (ys, offer) \<longrightarrow>
        ld_launch ld ys offer start ks con gen now = Ok (zs, l) \<longrightarrow> set os \<subseteq> set zs)"

lemma stages_spendsD:
  assumes "stages_spends ld"
  shows "ld_standard_spend ld xs pk c conds = Ok ys \<Longrightarrow> \<exists>s. ys = xs @ [s] \<and> spent_coin s = c"
    and "ld_cat_spend ld xs k sc = Ok ys \<Longrightarrow> \<exists>s. ys = xs @ [s] \<and> spent_coin s = cat_coin k"
    and "ld_offer ld xs os = Ok (ys, offer) \<Longrightarrow> ld_launch ld ys offer start ks con gen now = Ok (zs, l) \<Longrightarrow>
      set os \<subseteq> set zs"
  using assms unfolding stages_spends_def by - (elim conjE, metis)+

text \<open>The manager's parent conditions take its singleton's amount out of the coin they are spent with.\<close>

definition manager_costs ::
  "('c \<Rightarrow> nat) \<Rightarrow> ('c, 'p, 'g, 'n, 'i, 'k, 'o, 'h, 'l, 's) launch_driver \<Rightarrow> bool" where
  "manager_costs v ld \<longleftrightarrow>
     (\<forall>xs i p ys m. ld_manager ld xs i p = Ok (ys, m) \<longrightarrow>
        sum_list (map v (ma_parent_conditions m)) = unat (ld_manager_amount ld))"

text \<open>The spend of the request's funding coin, with the conditions it was built with.\<close>

definition funding_spend_with ::
  "('c, 'p, 'g, 'n, 'i, 'k, 'o, 'h, 'l, 's) launch_driver \<Rightarrow> wallet_key \<Rightarrow> coin \<Rightarrow>
     'c door_condition list \<Rightarrow> coin_spend \<Rightarrow> bool" where
  "funding_spend_with ld w c conds s \<longleftrightarrow>
     spent_coin s = c \<and> (\<exists>staged. ld_standard_spend ld staged (wk_public_key w) c conds = Ok (staged @ [s]))"

text \<open>A bundle spends the funding coin with conditions that take out of it exactly what it holds: the
  manager's amount, the offer's mojo, the fee and the change.\<close>

definition launch_funded ::
  "('c \<Rightarrow> nat) \<Rightarrow> ('c, 'p, 'g, 'n, 'i, 'k, 'o, 'h, 'l, 's) launch_driver \<Rightarrow> wallet_key \<Rightarrow>
     ('i, 'l) distributor_mint_request \<Rightarrow> 'c manager_launch \<Rightarrow> coin_spend list \<Rightarrow> bool" where
  "launch_funded v ld w rq manager spends \<longleftrightarrow>
     (\<exists>s change hint. let conds = distributor_funding_conditions manager (ld_settlement_hash ld)
          (wk_puzzle_hash w) change (rq_fee rq) hint
        in s \<in> set spends \<and> funding_spend_with ld w (rq_funding rq) conds s \<and>
           sum_list (map (door_value v) conds) = unat (amount (rq_funding rq)) \<and>
           pays_home (ld_settlement_hash ld) (wk_puzzle_hash w) conds \<and>
           unat (amount (rq_funding rq)) =
             1 + unat (ld_manager_amount ld) + unat (rq_fee rq) + unat change)"

lemma staged_launch_offer:
  assumes "stages_spends ld" and "stage_launch_offer ld w rq change = Ok (offered, manager, constants)"
  shows "\<exists>hint s. s \<in> set offered \<and> funding_spend_with ld w (rq_funding rq)
      (distributor_funding_conditions manager (ld_settlement_hash ld) (wk_puzzle_hash w) change (rq_fee rq) hint) s"
    and "\<exists>xs i p ys. ld_manager ld xs i p = Ok (ys, manager)"
    and "ld_constants ld manager (rq_epoch_seconds rq) (wk_puzzle_hash w) = Ok constants"
    and "cat_asset_id (rq_reward_cat rq) = ks_reserve_asset_id constants"
proof -
  let ?conds = "distributor_funding_conditions manager (ld_settlement_hash ld) (wk_puzzle_hash w) change (rq_fee rq)"
  obtain staged hint funded where
    m: "ld_manager ld [] (dw_id ld (rq_funding rq)) (rq_manager_inner_puzzle rq) = Ok (staged, manager)"
    and f: "ld_standard_spend ld staged (wk_public_key w) (rq_funding rq) (?conds hint) = Ok funded"
    and k: "ld_constants ld manager (rq_epoch_seconds rq) (wk_puzzle_hash w) = Ok constants"
      "cat_asset_id (rq_reward_cat rq) = ks_reserve_asset_id constants"
    and c: "spend_reward_cat_into_settlement ld funded w (rq_reward_cat rq) = Ok offered"
    using assms(2) by (auto simp: stage_launch_offer_def Let_def result_simps split: if_splits)
  obtain s where s: "funded = staged @ [s]" "spent_coin s = rq_funding rq"
    using stages_spendsD(1) [OF assms(1) f] by blast
  obtain cat_spend where "offered = funded @ [cat_spend]"
    using c stages_spendsD(2) [OF assms(1)]
    by (fastforce simp: spend_reward_cat_into_settlement_def result_simps)
  then have "s \<in> set offered" by (simp add: s)
  moreover have "funding_spend_with ld w (rq_funding rq) (?conds hint) s"
    using f s by (auto simp: funding_spend_with_def)
  ultimately show "\<exists>hint s. s \<in> set offered \<and> funding_spend_with ld w (rq_funding rq) (?conds hint) s" by blast
  show "\<exists>xs i p ys. ld_manager ld xs i p = Ok (ys, manager)" using m by blast
  show "ld_constants ld manager (rq_epoch_seconds rq) (wk_puzzle_hash w) = Ok constants"
    and "cat_asset_id (rq_reward_cat rq) = ks_reserve_asset_id constants" by (rule k)+
qed

text \<open>C18: A signed distributor launch touches two coins that existed before it and no others, this wallet's
  funding coin and this wallet's reward coin, which is of the distributor's reserve asset. The bundle's
  spend of the funding coin was built with conditions that, to the mojo, take out of it all it holds: the
  manager's amount, the offer's one mojo, the fee asked for and the change, where nothing but the offer's
  mojo is created outside this wallet by the conditions that are not the manager's own. Only this wallet's
  key and the launch's own security key sign, only AGG_SIG_ME, every spend of a coin of this wallet reveals
  a quoted puzzle, and the aggregate verified. The epoch is never zero, and the ids the mint reports are
  those of its own coins and launch. Of the driver it is used that staging keeps what is staged and that
  the manager's conditions cost the manager's amount.\<close>

theorem distributor_launch_spends_two_named_coins:
  assumes "begin_distributor_mint ld w rq net consensus = Ok m"
    and driver: "stages_spends ld" "manager_costs v ld"
  shows "spends_only (dw_id ld) (sb_coin_spends (sm_bundle m)) [sm_funding_coin_id m, sm_reward_cat_coin_id m] \<and>
    sm_funding_coin_id m = dw_id ld (rq_funding rq) \<and>
    sm_reward_cat_coin_id m = dw_id ld (cat_coin (rq_reward_cat rq)) \<and>
    puzzle_hash (rq_funding rq) = wk_puzzle_hash w \<and>
    cat_p2_puzzle_hash (rq_reward_cat rq) = wk_puzzle_hash w \<and>
    (\<exists>manager constants. ld_constants ld manager (rq_epoch_seconds rq) (wk_puzzle_hash w) = Ok constants \<and>
       cat_asset_id (rq_reward_cat rq) = ks_reserve_asset_id constants \<and>
       sm_manager_launcher_id m = ma_launcher_id manager \<and>
       launch_funded v ld w rq manager (sb_coin_spends (sm_bundle m))) \<and>
    (\<exists>key. signed_by_launch ld w net key (sm_bundle m)) \<and>
    require_quote_form ld (wk_puzzle_hash w) (sb_coin_spends (sm_bundle m)) = Ok () \<and>
    rq_epoch_seconds rq \<noteq> 0 \<and> sm_generation m = rq_generation rq"
proof -
  obtain change offered manager constants offer_spends rest staged offer spends key g where
    refuse: "refuse_launch_request w rq = Ok ()"
    and change: "launch_change (ld_manager_amount ld) rq = Ok change"
    and stage: "stage_launch_offer ld w rq change = Ok (offered, manager, constants)"
    and split: "split_offer (dw_id ld) (dw_id ld (rq_funding rq)) (dw_id ld (cat_coin (rq_reward_cat rq))) offered
        = Ok (offer_spends, rest)"
    and offer: "ld_offer ld rest offer_spends = Ok (staged, offer)"
    and launch: "\<exists>l. ld_launch ld staged offer (rq_first_epoch_start rq) constants consensus (rq_generation rq)
        (rq_now_unix_seconds rq) = Ok (spends, l)"
    and sig: "sign_distributor_launch ld w key
        [dw_id ld (rq_funding rq), dw_id ld (cat_coin (rq_reward_cat rq))] net spends = Ok g"
    and m: "sm_bundle m = \<lparr>sb_coin_spends = spends, sb_signature = g\<rparr>"
      "sm_funding_coin_id m = dw_id ld (rq_funding rq)"
      "sm_reward_cat_coin_id m = dw_id ld (cat_coin (rq_reward_cat rq))"
      "sm_manager_launcher_id m = ma_launcher_id manager" "sm_generation m = rq_generation rq"
    using assms(1) by (auto simp: begin_distributor_mint_def Let_def result_simps)
  note staging = staged_launch_offer [OF driver(1) stage]
  obtain hint s where s: "s \<in> set offered" "funding_spend_with ld w (rq_funding rq)
      (distributor_funding_conditions manager (ld_settlement_hash ld) (wk_puzzle_hash w) change (rq_fee rq) hint) s"
    using staging(1) by blast
  have "s \<in> set offer_spends"
    using split s by (auto simp: split_offer_def Let_def funding_spend_with_def split: if_splits)
  then have in_bundle: "s \<in> set spends" using stages_spendsD(3) [OF driver(1) offer] launch by blast
  have cost: "sum_list (map v (ma_parent_conditions manager)) = unat (ld_manager_amount ld)"
    using driver(2) staging(2) unfolding manager_costs_def by blast
  note worth = distributor_funding_conditions_value
  have "launch_funded v ld w rq manager spends"
    unfolding launch_funded_def Let_def worth(1) cost
    using s(2) in_bundle launch_change_Ok [OF change]
    by (intro exI [of _ s] exI [of _ change] exI [of _ hint]) (simp add: worth(2))
  then show ?thesis
    using refuse staging(3,4) sign_launch_bundle [OF sig] m
    by (auto simp: refuse_launch_request_def split: if_splits)
qed

section \<open>Samples\<close>

definition listing_scheme :: "byte list list signature_scheme" where
  "listing_scheme =
     \<lparr>sig_default = [], sig_add = (@), sig_sign = (\<lambda>w m. [m]), sig_message = br_raw_message\<rparr>"

definition sample_own_requirement :: required_signature where
  "sample_own_requirement =
     Bls \<lparr>br_public_key = [7], br_raw_message = [4], br_appended_info = [], br_domain_string = Some 6\<rparr>"

definition sample_security_requirement :: required_signature where
  "sample_security_requirement =
     Bls \<lparr>br_public_key = [8], br_raw_message = [5], br_appended_info = [], br_domain_string = Some 6\<rparr>"

abbreviation sample_coin :: "bytes32 \<Rightarrow> bytes32 \<Rightarrow> u64 \<Rightarrow> coin" where
  "sample_coin parent ph value \<equiv> \<lparr>parent_coin_info = parent, puzzle_hash = ph, amount = value\<rparr>"

definition sample_reserve :: "(unit, unit, unit) reward_distributor" where
  "sample_reserve =
     \<lparr>rd_coin = sample_coin 1 80 1, rd_reserve_coin = sample_coin 2 81 500, rd_reserve_asset_id = 50,
      rd_withdrawal_share_bps = 9000, rd_pending_actions = [], rd_pending_other_cats = [], rd_rest = ()\<rparr>"

definition sample_slot :: reward_slot where
  "sample_slot = \<lparr>rs_coin = sample_coin 3 82 0, rs_epoch_start = 1000, rs_rewards = 100\<rparr>"

definition sample_own_cat :: owned_cat where
  "sample_own_cat = \<lparr>cat_coin = sample_coin 4 59 30, cat_asset_id = 50, cat_p2_puzzle_hash = 9\<rparr>"

definition sample_refill_driver :: "(unit, unit, byte list list, unit, unit, unit) refill_driver" where
  "sample_refill_driver =
     \<lparr>dw_id = sample_mint_id, dw_scheme = listing_scheme, dw_verify = (\<lambda>g ps. g = map snd ps),
      dw_required = (\<lambda>me ss. Ok [sample_own_requirement]), dw_hint = (\<lambda>ph. Ok [1]),
      dw_inner = (\<lambda>pk cs. Ok ()),
      rf_commit = (\<lambda>xs d sl e ph u. Ok (xs @ [plain_spend (rs_coin sl)], d, [])),
      rf_finish = (\<lambda>xs d ks. Ok (xs @ [plain_spend (rd_coin d), plain_spend (rd_reserve_coin d)] @
                     map (\<lambda>k. plain_spend (cat_coin (fst k))) ks))\<rparr>"

definition sample_refill :: "(unit, unit, unit) refill_request" where
  "sample_refill =
     \<lparr>rr_distributor = sample_reserve, rr_reward_slot = sample_slot, rr_epoch_start = 1000,
      rr_funding_cat = sample_own_cat, rr_rewards_base_units = 20\<rparr>"

lemmas door_sample_simps =
  sample_reserve_def sample_slot_def sample_own_cat_def sample_wallet_def sample_network_def
  network_from_constants_def listing_scheme_def sample_own_requirement_def sample_security_requirement_def
  sample_mint_id_def

lemma sample_refilled:
  "begin_distributor_refill sample_refill_driver sample_wallet sample_refill sample_network =
     Ok \<lparr>sr_bundle = \<lparr>sb_coin_spends = map plain_spend [sample_coin 3 82 0, sample_coin 1 80 1,
           sample_coin 2 81 500, sample_coin 4 59 30], sb_signature = [[4]]\<rparr>,
         sr_funding_cat_coin_id = 104, sr_epoch_start = 1000, sr_rewards_base_units = 20\<rparr>"
proof -
  have "refuse_refill_request sample_wallet sample_refill = Ok ()"
    by (simp add: refuse_refill_Ok sample_refill_def pending_spend_empty_def door_sample_simps)
  moreover have "build_refill_spends sample_refill_driver sample_wallet sample_refill =
      Ok (map plain_spend [sample_coin 3 82 0, sample_coin 1 80 1, sample_coin 2 81 500, sample_coin 4 59 30])"
    by (simp add: build_refill_spends_def sample_refill_driver_def sample_refill_def door_sample_simps)
  moreover have "sign_reserve_spends sample_refill_driver sample_wallet sample_network spends = Ok [[4]]" for spends
    by (simp add: sign_reserve_spends_def sample_refill_driver_def door_sample_simps)
  moreover have "gate_refill_roots sample_mint_id (map plain_spend [sample_coin 3 82 0, sample_coin 1 80 1,
      sample_coin 2 81 500, sample_coin 4 59 30]) [101, 102, 103, 104] = Ok ()"
    by (simp add: gate_refill_roots_def roots_are_def root_ids_def bundle_roots_def sample_mint_id_def insert_commute)
  moreover have "dw_id sample_refill_driver = sample_mint_id"
    by (simp add: sample_refill_driver_def)
  moreover have "refill_roots sample_mint_id sample_refill = [101, 102, 103, 104]"
    by (simp add: refill_roots_def sample_refill_def door_sample_simps)
  ultimately show ?thesis
    by (simp add: begin_distributor_refill_def) (simp add: sample_refill_def door_sample_simps)
qed

theorem refill_spends_four_named_coins_witness:
  "spends_only sample_mint_id (map plain_spend [sample_coin 3 82 0, sample_coin 1 80 1,
     sample_coin 2 81 500, sample_coin 4 59 30]) (refill_roots sample_mint_id sample_refill)"
proof -
  have "dw_id sample_refill_driver = sample_mint_id" by (simp add: sample_refill_driver_def)
  then show ?thesis using refill_spends_four_named_coins [OF sample_refilled] by simp
qed

definition sample_withdrawal_driver ::
  "(unit, unit, byte list list, unit, unit, unit, unit, unit) withdrawal_driver" where
  "sample_withdrawal_driver =
     \<lparr>dw_id = sample_mint_id, dw_scheme = listing_scheme, dw_verify = (\<lambda>g ps. g = map snd ps),
      dw_required = (\<lambda>me ss. Ok [sample_own_requirement]), dw_hint = (\<lambda>ph. Ok [1]),
      dw_inner = (\<lambda>pk cs. Ok ()),
      cw_epoch_start = (\<lambda>c. 1000), cw_authority = (\<lambda>c. 9),
      cw_withdraw = (\<lambda>xs d c sl ph obs. Ok (xs @ [plain_spend (cs_coin c), plain_spend (rs_coin sl)], d,
                       \<lparr>cb_recovered = 90, cb_conditions = []\<rparr>)),
      cw_spend = (\<lambda>xs c p2. Ok (xs @ [plain_spend c])),
      cw_finish = (\<lambda>xs d. Ok (xs @ [plain_spend (rd_coin d), plain_spend (rd_reserve_coin d)]))\<rparr>"

definition sample_clawback :: "(unit, unit, unit, unit, unit) clawback_request" where
  "sample_clawback =
     \<lparr>cr_distributor = sample_reserve,
      cr_commitment_slot = \<lparr>cs_coin = sample_coin 5 83 0, cs_rewards = 100, cs_value = ()\<rparr>,
      cr_reward_slot = sample_slot, cr_clawback_coin = sample_coin 4 9 7, cr_observed = ()\<rparr>"

abbreviation sample_clawback_spends :: "coin_spend list" where
  "sample_clawback_spends \<equiv> map plain_spend
     [sample_coin 5 83 0, sample_coin 3 82 0, sample_coin 4 9 7, sample_coin 1 80 1, sample_coin 2 81 500]"

lemma sample_clawed_back:
  "begin_distributor_clawback sample_withdrawal_driver sample_wallet sample_clawback sample_network =
     Ok \<lparr>sk_bundle = \<lparr>sb_coin_spends = sample_clawback_spends, sb_signature = [[4]]\<rparr>,
         sk_commitment_slot_coin_id = 105, sk_recovered_base_units = 90\<rparr>"
proof -
  have "refuse_clawback_request sample_withdrawal_driver sample_wallet sample_clawback = Ok ()"
    by (simp add: refuse_clawback_Ok sample_clawback_def sample_withdrawal_driver_def pending_spend_empty_def
        door_sample_simps)
  moreover have "build_clawback_spends sample_withdrawal_driver sample_wallet sample_clawback =
      Ok (sample_clawback_spends, 90)"
    by (simp add: build_clawback_spends_def sample_withdrawal_driver_def sample_clawback_def door_sample_simps)
  moreover have "sign_reserve_spends sample_withdrawal_driver sample_wallet sample_network spends = Ok [[4]]" for spends
    by (simp add: sign_reserve_spends_def sample_withdrawal_driver_def door_sample_simps)
  moreover have "gate_clawback_roots sample_mint_id sample_clawback_spends [101, 102, 105, 103, 104] = Ok ()"
    by (simp add: gate_clawback_roots_def roots_are_def root_ids_def bundle_roots_def sample_mint_id_def
        insert_commute)
  moreover have "dw_id sample_withdrawal_driver = sample_mint_id"
    by (simp add: sample_withdrawal_driver_def)
  moreover have "clawback_roots sample_mint_id sample_clawback = [101, 102, 105, 103, 104]"
    by (simp add: clawback_roots_def sample_clawback_def door_sample_simps)
  ultimately show ?thesis
    by (simp add: begin_distributor_clawback_def) (simp add: sample_clawback_def sample_mint_id_def)
qed

theorem clawback_withdraws_only_its_own_witness:
  "spends_only sample_mint_id sample_clawback_spends (clawback_roots sample_mint_id sample_clawback)"
proof -
  have "dw_id sample_withdrawal_driver = sample_mint_id" by (simp add: sample_withdrawal_driver_def)
  then show ?thesis using clawback_withdraws_only_its_own [OF sample_clawed_back] by simp
qed

text \<open>Funding coin 101 and reward coin 104; the launch spends the manager's launcher 201, made by the
  funding coin.\<close>

definition sample_launch_driver ::
  "(unit, unit, byte list list, nat, unit, unit, unit, unit, string, unit) launch_driver" where
  "sample_launch_driver =
     \<lparr>dw_id = sample_mint_id, dw_scheme = listing_scheme, dw_verify = (\<lambda>g ps. g = map snd ps),
      dw_required = (\<lambda>me ss. Ok [sample_own_requirement, sample_security_requirement]),
      dw_hint = (\<lambda>ph. Ok [1]), dw_inner = (\<lambda>pk cs. Ok ()),
      ld_manager = (\<lambda>xs i m. Ok (xs @ [plain_spend (sample_coin i 78 1)],
                      \<lparr>ma_parent_conditions = [()], ma_launcher_id = i + 100\<rparr>)),
      ld_standard_spend = (\<lambda>xs pk c cs. Ok (xs @ [plain_spend c])),
      ld_constants = (\<lambda>m n ph. Ok \<lparr>ks_reserve_asset_id = 50, ks_rest = ()\<rparr>),
      ld_inner_cat = (\<lambda>pk cs. Ok ()),
      ld_cat_spend = (\<lambda>xs k sc. Ok (xs @ [plain_spend (cat_coin k)])),
      ld_offer = (\<lambda>xs os. Ok (xs @ os, ())),
      ld_launch = (\<lambda>xs a b c d e f. Ok (xs, \<lparr>la_launcher_id = 601, la_security_key = ()\<rparr>)),
      ld_public_key = (\<lambda>k. [8]), ld_sign = (\<lambda>k m. [m]),
      ld_solution = (\<lambda>b. Ok 0), ld_delegated = (\<lambda>n. Ok n), ld_view = (\<lambda>n. ViewPair 1 0),
      ld_small_number = (\<lambda>n. Some (of_nat n)), ld_settlement_hash = 77, ld_manager_amount = 1\<rparr>"

definition sample_launch_request :: "(unit, string) distributor_mint_request" where
  "sample_launch_request =
     \<lparr>rq_funding = sample_coin 1 9 20, rq_reward_cat = sample_own_cat, rq_manager_inner_puzzle = (),
      rq_epoch_seconds = 60, rq_first_epoch_start = 1000, rq_generation = ''g'', rq_fee = 3,
      rq_now_unix_seconds = 500\<rparr>"

abbreviation sample_launch_spends :: "coin_spend list" where
  "sample_launch_spends \<equiv> map plain_spend [sample_coin 101 78 1, sample_coin 1 9 20, sample_coin 4 59 30]"

lemma sample_launch_staged:
  "stage_launch_offer sample_launch_driver sample_wallet sample_launch_request 15 =
     Ok (sample_launch_spends, \<lparr>ma_parent_conditions = [()], ma_launcher_id = 201\<rparr>,
         \<lparr>ks_reserve_asset_id = 50, ks_rest = ()\<rparr>)"
  by (simp add: stage_launch_offer_def spend_reward_cat_into_settlement_def sample_launch_driver_def
      sample_launch_request_def door_sample_simps)

lemma sample_launch_signed:
  "sign_distributor_launch sample_launch_driver sample_wallet () [101, 104] sample_network
     (map plain_spend [sample_coin 101 78 1, sample_coin 1 9 20, sample_coin 4 59 30]) = Ok [[4], [5]]"
proof -
  have "gate_launch_roots sample_mint_id sample_launch_spends [101, 104] = Ok ()"
    by (simp add: gate_launch_roots_def roots_are_def root_ids_def bundle_roots_def sample_mint_id_def)
  moreover have "admit_launch_requirements sample_wallet [8] sample_network
      [sample_own_requirement, sample_security_requirement] = Ok ()"
    by (simp add: door_sample_simps)
  moreover have "require_quote_form sample_launch_driver 9 sample_launch_spends = Ok ()"
    by (simp add: sample_launch_driver_def is_quote_form_def)
  moreover have "dw_id sample_launch_driver = sample_mint_id" "wk_puzzle_hash sample_wallet = 9"
    by (simp_all add: sample_launch_driver_def sample_wallet_def)
  ultimately have "gate_distributor_launch sample_launch_driver sample_wallet sample_launch_spends
      [sample_own_requirement, sample_security_requirement] [8] [101, 104] sample_network = Ok ()"
    by (simp add: gate_distributor_launch_def)
  then show ?thesis
    unfolding sign_distributor_launch_def Let_def
    by (simp add: sample_launch_driver_def)
       (simp add: verify_aggregate_discharges_def door_sample_simps Let_def)
qed

lemma sample_distributor_launched:
  "begin_distributor_mint sample_launch_driver sample_wallet sample_launch_request sample_network () =
     Ok \<lparr>sm_bundle = \<lparr>sb_coin_spends = sample_launch_spends, sb_signature = [[4], [5]]\<rparr>,
         sm_distributor_launcher_id = 601, sm_manager_launcher_id = 201, sm_funding_coin_id = 101,
         sm_reward_cat_coin_id = 104, sm_generation = ''g''\<rparr>"
proof -
  have "refuse_launch_request sample_wallet sample_launch_request = Ok ()"
    by (simp add: refuse_launch_request_def sample_launch_request_def door_sample_simps)
  moreover have "launch_change (ld_manager_amount sample_launch_driver) sample_launch_request = Ok 15"
    by (simp add: launch_change_def required_xch_def OFFER_XCH_AMOUNT_def checked_add_def checked_sub_def
        sample_launch_request_def sample_launch_driver_def ok_or_def)
  moreover have "split_offer sample_mint_id 101 104 sample_launch_spends =
      Ok (map plain_spend [sample_coin 1 9 20, sample_coin 4 59 30], [plain_spend (sample_coin 101 78 1)])"
    by (simp add: split_offer_def sample_mint_id_def)
  moreover have "dw_id sample_launch_driver = sample_mint_id"
    "ld_offer sample_launch_driver = (\<lambda>xs os. Ok (xs @ os, ()))"
    "ld_launch sample_launch_driver =
       (\<lambda>xs a b c d e f. Ok (xs, \<lparr>la_launcher_id = 601, la_security_key = ()\<rparr>))"
    by (simp_all add: sample_launch_driver_def)
  moreover have "sample_mint_id (rq_funding sample_launch_request) = 101"
    "sample_mint_id (cat_coin (rq_reward_cat sample_launch_request)) = 104"
    "rq_generation sample_launch_request = ''g''"
    by (simp_all add: sample_launch_request_def door_sample_simps)
  ultimately show ?thesis
    using sample_launch_signed
    by (simp add: begin_distributor_mint_def Let_def sample_launch_staged)
qed

lemma sample_launch_laws: "stages_spends sample_launch_driver" "manager_costs (\<lambda>_. 1) sample_launch_driver"
  by (auto simp: stages_spends_def manager_costs_def sample_launch_driver_def)

theorem distributor_launch_spends_two_named_coins_witness:
  "spends_only sample_mint_id sample_launch_spends [101, 104] \<and>
   (\<exists>s \<in> set sample_launch_spends. spent_coin s = sample_coin 1 9 20)"
proof -
  have "dw_id sample_launch_driver = sample_mint_id" "rq_funding sample_launch_request = sample_coin 1 9 20"
    by (simp_all add: sample_launch_driver_def sample_launch_request_def)
  then show ?thesis
    using distributor_launch_spends_two_named_coins [OF sample_distributor_launched sample_launch_laws]
    unfolding launch_funded_def Let_def funding_spend_with_def by auto
qed

end
