(* ===== verification/Account_Handles.thy ===== *)
theory Account_Handles
  imports Unlock_Gate Custody_Gate Profile_Melting Distributor_Properties
begin

text \<open>
  What an unlocked account hands out: the identity signer (\<open>src/signer.rs\<close>), the wallet handle and
  its money signer (\<open>src/wallet/authorizer.rs\<close>, \<open>src/wallet/money_signer.rs\<close>), the derived
  data keys (\<open>src/keys/dek.rs\<close>, \<open>src/keys/sealing.rs\<close>), the accessors of
  \<open>src/unlocked.rs\<close> and the clocks of \<open>src/wallet/clock.rs\<close>.

  Everything derived from a seed is \<open>dig-session\<close>'s and is the record \<open>seed_functions\<close>; the
  vetted signing core of \<open>dig-wallet-backend\<close> is the record \<open>vetted_core\<close>. A handle that
  observes its unlock holds the position of that unlock's token.
\<close>

section \<open>What a seed derives\<close>

record 's seed_functions =
  sf_master_seed :: "'s \<Rightarrow> byte list"
  sf_public_key :: "'s \<Rightarrow> u32 \<Rightarrow> byte list"
  sf_sign :: "'s \<Rightarrow> u32 \<Rightarrow> byte list \<Rightarrow> byte list"
  sf_symmetric_key :: "'s \<Rightarrow> u32 \<Rightarrow> string \<Rightarrow> bytes32"
  sf_recovery_phrase :: "'s \<Rightarrow> string"
  sf_wallet_key :: "byte list \<Rightarrow> profile_ix \<Rightarrow> wallet_key"
  sf_x25519_public :: "bytes32 \<Rightarrow> bytes32"
  sf_dek_label :: string
  sf_sealing_label :: string

definition profile_dek :: "'s seed_functions \<Rightarrow> 's \<Rightarrow> profile_ix \<Rightarrow> bytes32" where
  "profile_dek sf seed ix = sf_symmetric_key sf seed (ix_val ix) (sf_dek_label sf)"

definition profile_sealing_secret :: "'s seed_functions \<Rightarrow> 's \<Rightarrow> profile_ix \<Rightarrow> bytes32" where
  "profile_sealing_secret sf seed ix = sf_symmetric_key sf seed (ix_val ix) (sf_sealing_label sf)"

definition profile_sealing_public_key :: "'s seed_functions \<Rightarrow> 's \<Rightarrow> profile_ix \<Rightarrow> bytes32" where
  "profile_sealing_public_key sf seed ix = sf_x25519_public sf (profile_sealing_secret sf seed ix)"

section \<open>The identity signer\<close>

record 's profile_signer =
  ps_seed :: "'s option"
  ps_profile :: profile_ix

definition profile_signer_new :: "'s \<Rightarrow> profile_ix \<Rightarrow> 's profile_signer" where
  "profile_signer_new seed ix = \<lparr>ps_seed = Some seed, ps_profile = ix\<rparr>"

definition profile_signer_locked :: "profile_ix \<Rightarrow> 's profile_signer" where
  "profile_signer_locked ix = \<lparr>ps_seed = None, ps_profile = ix\<rparr>"

definition profile_signer_is_locked :: "'s profile_signer \<Rightarrow> bool" where
  "profile_signer_is_locked p \<longleftrightarrow> ps_seed p = None"

text \<open>A locked signer panics on the two calls that must not be made on it.\<close>

definition signing_public_key :: "'s seed_functions \<Rightarrow> 's profile_signer \<Rightarrow> (byte list, unit) run" where
  "signing_public_key sf p =
     (case ps_seed p of
        None \<Rightarrow> Panics ()
      | Some seed \<Rightarrow> Returns (sf_public_key sf seed (ix_val (ps_profile p))) ())"

definition identity_sign :: "'s seed_functions \<Rightarrow> 's profile_signer \<Rightarrow> byte list \<Rightarrow> (byte list, unit) run" where
  "identity_sign sf p message =
     (case ps_seed p of
        None \<Rightarrow> Panics ()
      | Some seed \<Rightarrow> Returns (sf_sign sf seed (ix_val (ps_profile p)) message) ())"

definition identity_try_sign :: "'s seed_functions \<Rightarrow> 's profile_signer \<Rightarrow> byte list \<Rightarrow> byte list option" where
  "identity_try_sign sf p message =
     map_option (\<lambda>seed. sf_sign sf seed (ix_val (ps_profile p)) message) (ps_seed p)"

section \<open>The wallet handle\<close>

record 's wallet_ops =
  wo_seed :: 's
  wo_profile :: profile_ix
  wo_token :: nat

definition wallet_ops_new :: "'s \<Rightarrow> profile_ix \<Rightarrow> nat \<Rightarrow> 's wallet_ops" where
  "wallet_ops_new seed ix token = \<lparr>wo_seed = seed, wo_profile = ix, wo_token = token\<rparr>"

definition wallet_ops_key :: "'s seed_functions \<Rightarrow> 's wallet_ops \<Rightarrow> wallet_key" where
  "wallet_ops_key sf wo = sf_wallet_key sf (sf_master_seed sf (wo_seed wo)) (wo_profile wo)"

definition wallet_ops_public_key :: "'s seed_functions \<Rightarrow> 's wallet_ops \<Rightarrow> byte list" where
  "wallet_ops_public_key sf wo = wk_public_key (wallet_ops_key sf wo)"

definition wallet_ops_puzzle_hash :: "'s seed_functions \<Rightarrow> 's wallet_ops \<Rightarrow> bytes32" where
  "wallet_ops_puzzle_hash sf wo = wk_puzzle_hash (wallet_ops_key sf wo)"

definition wallet_ops_address ::
  "'n spend_driver \<Rightarrow> 's seed_functions \<Rightarrow> 's wallet_ops \<Rightarrow> (string, account_error) result" where
  "wallet_ops_address drv sf wo = wallet_address drv (wallet_ops_key sf wo)"

definition wallet_ops_summarize ::
  "'n spend_driver \<Rightarrow> 's wallet_ops \<Rightarrow> coin_spend list \<Rightarrow> custody_policy \<Rightarrow>
     (spend_summary, account_error) result" where
  "wallet_ops_summarize drv wo spends policy = summary_classified drv spends policy"

section \<open>The money signer\<close>

text \<open>A signer keeps the shared seed, the token of its unlock, its profile and its network.\<close>

record ('s, 'n) local_money_signer = money_signer +
  lm_seed :: 's
  lm_token :: nat
  lm_network :: 'n

definition new_canonical :: "'s \<Rightarrow> nat \<Rightarrow> profile_ix \<Rightarrow> 'n \<Rightarrow> ('s, 'n) local_money_signer" where
  "new_canonical seed token ix network =
     \<lparr>ms_profile = ix, lm_seed = seed, lm_token = token, lm_network = network\<rparr>"

definition wallet_ops_money_signer :: "'s wallet_ops \<Rightarrow> 'n \<Rightarrow> ('s, 'n) local_money_signer" where
  "wallet_ops_money_signer wo network = new_canonical (wo_seed wo) (wo_token wo) (wo_profile wo) network"

text \<open>
  The vetted core: \<open>vc_build\<close> builds the canonical signer of a profile from master bytes,
  \<open>vc_extra\<close> is its genesis challenge, \<open>vc_extract\<close> the key-free extractor, and the other
  two render the summary and sign. \<open>'k\<close> is its signer, \<open>'u\<close> its summary, \<open>'g\<close> its signature.
\<close>

record ('k, 'u, 'g, 'n) vetted_core =
  vc_build :: "u32 \<Rightarrow> byte list \<Rightarrow> 'n \<Rightarrow> ('k, string) result"
  vc_extra :: "'k \<Rightarrow> bytes32"
  vc_extract :: "coin_spend list \<Rightarrow> bytes32 \<Rightarrow> (required_signature list, string) result"
  vc_message :: "bls_requirement \<Rightarrow> byte list"
  vc_reviewable :: "'k \<Rightarrow> coin_spend list \<Rightarrow> ('u, string) result"
  vc_sign ::
    "'k \<Rightarrow> coin_spend list \<Rightarrow> (byte list \<times> byte list) list \<Rightarrow> 'u \<Rightarrow> (coin_spend list \<times> 'g, string) result"

fun money_requirements ::
  "(bls_requirement \<Rightarrow> byte list) \<Rightarrow> required_signature list \<Rightarrow>
     ((byte list \<times> byte list) list, account_error) result"
where
  "money_requirements message [] = Ok []"
| "money_requirements message (Bls b # rs) =
     and_then (money_requirements message rs) (\<lambda>more. Ok ((br_public_key b, message b) # more))"
| "money_requirements message (Secp # rs) =
     Err (Spend ''unexpected secp signature requirement in a wallet spend'')"

definition money_required_signatures ::
  "('k, 'u, 'g, 'n) vetted_core \<Rightarrow> 'k \<Rightarrow> coin_spend list \<Rightarrow>
     ((byte list \<times> byte list) list, account_error) result"
where
  "money_required_signatures vc k spends =
     and_then (map_err (\<lambda>e. Spend (''required-signature extraction failed: '' @ e))
                 (vc_extract vc spends (vc_extra vc k)))
       (money_requirements (vc_message vc))"

definition money_sign_unsigned ::
  "('k, 'u, 'g, 'n) vetted_core \<Rightarrow> 'k \<Rightarrow> coin_spend list \<Rightarrow> (byte list \<times> byte list) list \<Rightarrow> 'u \<Rightarrow>
     (coin_spend list \<times> 'g, account_error) result"
where
  "money_sign_unsigned vc k spends required reviewed =
     map_err (\<lambda>e. Spend (''spend signing refused: '' @ e)) (vc_sign vc k spends required reviewed)"

text \<open>What the signer's admission is given for the core: this crate's wrappers around the vetted one.\<close>

definition local_signing_core ::
  "'s seed_functions \<Rightarrow> ('k, 'u, 'g, 'n) vetted_core \<Rightarrow> ('s, 'n) local_money_signer \<Rightarrow>
     ('k, (byte list \<times> byte list) list, 'u, 'g) signing_core"
where
  "local_signing_core sf vc m =
     \<lparr>sg_puzzle_hash = (\<lambda>ix. wk_puzzle_hash (sf_wallet_key sf (sf_master_seed sf (lm_seed m)) ix)),
      sg_build = (\<lambda>ix. map_err (\<lambda>e. Spend (''cannot build money signer: '' @ e))
                    (vc_build vc (ix_val ix) (sf_master_seed sf (lm_seed m)) (lm_network m))),
      sg_required = money_required_signatures vc,
      sg_reviewable = (\<lambda>k spends. map_err (\<lambda>e. Spend (''cannot render this spend for signing: '' @ e))
                         (vc_reviewable vc k spends)),
      sg_sign = money_sign_unsigned vc\<rparr>"

text \<open>One signature, against the tokens as they stand when it is asked for.\<close>

definition money_sign_approved ::
  "'s seed_functions \<Rightarrow> ('k, 'u, 'g, 'n) vetted_core \<Rightarrow> nat \<Rightarrow> residency list \<Rightarrow>
     ('s, 'n) local_money_signer \<Rightarrow> spend_approval \<Rightarrow> (coin_spend list \<times> 'g, account_error) result"
where
  "money_sign_approved sf vc now ts m a =
     sign_approved (local_signing_core sf vc m) now (ts ! lm_token m) \<lparr>ms_profile = ms_profile m\<rparr> a"

section \<open>The accessors of an unlocked account\<close>

definition handle_residency :: "'s unlocked_account \<Rightarrow> nat" where
  "handle_residency h = ua_token h"

definition handle_account_id :: "'s unlocked_account \<Rightarrow> account_id" where
  "handle_account_id h = ua_account h"

definition handle_profile_signer :: "'s unlocked_account \<Rightarrow> profile_ix \<Rightarrow> 's profile_signer" where
  "handle_profile_signer h ix = profile_signer_new (ua_seed h) ix"

definition handle_signer :: "'s unlocked_account \<Rightarrow> 's profile_signer" where
  "handle_signer h = handle_profile_signer h (ua_default_ix h)"

definition handle_wallet_ops_at :: "'s unlocked_account \<Rightarrow> profile_ix \<Rightarrow> 's wallet_ops" where
  "handle_wallet_ops_at h ix = wallet_ops_new (ua_seed h) ix (ua_token h)"

definition handle_wallet_ops :: "'s unlocked_account \<Rightarrow> 's wallet_ops" where
  "handle_wallet_ops h = handle_wallet_ops_at h (ua_default_ix h)"

definition handle_dek :: "'s seed_functions \<Rightarrow> 's unlocked_account \<Rightarrow> profile_ix \<Rightarrow> bytes32" where
  "handle_dek sf h ix = profile_dek sf (ua_seed h) ix"

definition handle_sealing_key :: "'s seed_functions \<Rightarrow> 's unlocked_account \<Rightarrow> profile_ix \<Rightarrow> bytes32" where
  "handle_sealing_key sf h ix = profile_sealing_secret sf (ua_seed h) ix"

definition handle_sealing_public_key :: "'s seed_functions \<Rightarrow> 's unlocked_account \<Rightarrow> profile_ix \<Rightarrow> bytes32" where
  "handle_sealing_public_key sf h ix = profile_sealing_public_key sf (ua_seed h) ix"

definition handle_recovery_phrase :: "'s seed_functions \<Rightarrow> 's unlocked_account \<Rightarrow> string" where
  "handle_recovery_phrase sf h = sf_recovery_phrase sf (ua_seed h)"

text \<open>
  The handles that spend observe the unlock: their liveness is the shared token, as it stands at each
  check. \<open>clock k\<close> and \<open>tokens k\<close> are what the \<open>k\<close>-th check of a call reads.
\<close>

definition handle_liveness :: "'s unlocked_account \<Rightarrow> (nat \<Rightarrow> nat) \<Rightarrow> (nat \<Rightarrow> residency list) \<Rightarrow> liveness" where
  "handle_liveness h clock tokens k = (clock k, tokens k ! ua_token h)"

definition resume_reward_distributor_at ::
  "('v, 'p, 'l) distributor_tools \<Rightarrow> 's unlocked_account \<Rightarrow> (nat \<Rightarrow> nat) \<Rightarrow> (nat \<Rightarrow> residency list) \<Rightarrow>
     profile_ix \<Rightarrow> distributor_record \<Rightarrow> chain_source \<Rightarrow> nat \<Rightarrow>
     ('l pending_distributor, mint_error) result \<times> nat"
where
  "resume_reward_distributor_at dt h clock tokens ix r chain t =
     distributor_resume dt (handle_liveness h clock tokens) ix r chain t"

definition resume_reward_distributor ::
  "('v, 'p, 'l) distributor_tools \<Rightarrow> 's unlocked_account \<Rightarrow> (nat \<Rightarrow> nat) \<Rightarrow> (nat \<Rightarrow> residency list) \<Rightarrow>
     distributor_record \<Rightarrow> chain_source \<Rightarrow> nat \<Rightarrow> ('l pending_distributor, mint_error) result \<times> nat"
where
  "resume_reward_distributor dt h clock tokens r chain t =
     resume_reward_distributor_at dt h clock tokens (ua_default_ix h) r chain t"

section \<open>Clocks\<close>

text \<open>\<open>SystemTime::now().duration_since(UNIX_EPOCH)\<close> is the argument: seconds, or a failure.\<close>

definition system_clock :: "(u64, string) result \<Rightarrow> (u64, account_error) result" where
  "system_clock since_epoch =
     map_err (\<lambda>_. PolicyIndeterminate (ClockUnreadable ''system clock is set before the UNIX epoch'')) since_epoch"

definition fixed_clock_set :: "u64 \<Rightarrow> u64 \<Rightarrow> u64" where
  "fixed_clock_set now clock = now"

definition fixed_clock :: "u64 \<Rightarrow> (u64, account_error) result" where
  "fixed_clock clock = Ok clock"

definition unreadable_clock :: "(u64, account_error) result" where
  "unreadable_clock = Err (PolicyIndeterminate (ClockUnreadable ''clock unavailable''))"

section \<open>Properties\<close>

text \<open>A relocked unlock, and every later reading of its token.\<close>

definition relocked :: "'s unlocked_account \<Rightarrow> nat \<Rightarrow> residency list \<Rightarrow> (nat \<Rightarrow> nat) \<Rightarrow> (nat \<Rightarrow> residency list) \<Rightarrow> bool"
where
  "relocked h t ts clock tokens \<longleftrightarrow>
     ua_token h < length ts \<and>
     (\<forall>k. residency_reach t (handle_lock h ts ! ua_token h) (clock k) (tokens k ! ua_token h))"

lemma relocked_dead:
  assumes "relocked h t ts clock tokens"
  shows "\<not> live_at_check (handle_liveness h clock tokens) k"
proof -
  have r: "residency_reach t (handle_lock h ts ! ua_token h) (clock k) (tokens k ! ua_token h)"
    and i: "ua_token h < length ts"
    using assms by (auto simp: relocked_def)
  have "handle_lock h ts ! ua_token h = residency_revoke (ts ! ua_token h)"
    using i by (simp add: handle_lock_def revoke_token_def)
  then have "\<not> residency_is_live t (handle_lock h ts ! ua_token h)"
    by (simp add: residency_is_live_def residency_revoke_def)
  from residency_reach_dead [OF r this] show ?thesis
    by (simp add: live_at_check_def handle_liveness_def)
qed


text \<open>The wrappers around the vetted core pass it exactly the re-derived requirements, in order, and refuse
  a spend that requires any secp signature.\<close>

lemma money_requirements_Ok:
  "money_requirements message rs = Ok pairs \<longleftrightarrow>
     list_all (\<lambda>r. r \<noteq> Secp) rs \<and>
     pairs = concat (map (\<lambda>r. case r of Bls b \<Rightarrow> [(br_public_key b, message b)] | Secp \<Rightarrow> []) rs)"
proof (induction rs arbitrary: pairs)
  case Nil
  then show ?case by auto
next
  case (Cons r rs)
  then show ?case by (cases r) (auto simp: result_simps)
qed

lemma money_sign_approved_Ok:
  "money_sign_approved sf vc now ts m a = Ok bun \<Longrightarrow>
     \<exists>k rs reviewed.
       residency_is_live now (ts ! lm_token m) \<and>
       assert_signable_by (az_scope (approved a)) (ms_profile m)
         (wk_puzzle_hash (sf_wallet_key sf (sf_master_seed sf (lm_seed m)) (ms_profile m))) = Ok () \<and>
       vc_extract vc (az_coin_spends (approved a)) (vc_extra vc k) = Ok rs \<and> list_all (\<lambda>r. r \<noteq> Secp) rs \<and>
       vc_sign vc k (az_coin_spends (approved a))
         (concat (map (\<lambda>r. case r of Bls b \<Rightarrow> [(br_public_key b, vc_message vc b)] | Secp \<Rightarrow> []) rs)) reviewed =
         Ok bun"
  by (auto simp: money_sign_approved_def sign_approved_def live_signer_def local_signing_core_def result_simps
      money_required_signatures_def money_requirements_Ok money_sign_unsigned_def split: if_splits; blast)

section \<open>Samples\<close>

definition sample_relocked :: "nat unlocked_account" where
  "sample_relocked = \<lparr>ua_account = AccountId ''a'', ua_seed = 0, ua_default_ix = root_ix, ua_token = 0\<rparr>"

lemma sample_relocks:
  "relocked sample_relocked 3 [residency_new] (\<lambda>k. 3) (\<lambda>k. [residency_revoke residency_new])"
  by (auto simp: relocked_def sample_relocked_def handle_lock_def revoke_token_def intro: residency_reach.Refl)


end
