(* ===== verification/Gate_Interleaving.thy ===== *)
theory Gate_Interleaving
  imports Custody_Gate
begin

text \<open>
  Several calls of one gate at a time. \<open>PolicyAuthorizer\<close> (\<open>src/wallet/enforcer.rs\<close>) is
  shared behind an \<open>Arc\<close>; a call takes each ledger's mutex for the update alone, and it reads the
  clock \<^emph>\<open>before\<close> it takes the mutex. Here a call is a state machine whose steps are the
  points at which another call can act; a schedule says which call moves next, at what time, and what the
  clock answers if that step reads it. Run alone, the steps are \<open>authorize_op\<close>.
\<close>

section \<open>Windows, when readings arrive late\<close>

definition spanning :: "nat \<Rightarrow> u64 \<Rightarrow> u64 \<Rightarrow> bool" where
  "spanning width a t \<longleftrightarrow> unat a \<le> unat t \<and> unat t < unat a + width"

context rolling_ledger
begin

text \<open>
  As \<open>covers\<close>, for charges stamped with a reading up to \<open>lag\<close> seconds older than the
  time \<open>since\<close> reached so far: the windows that stay within the cap are \<open>lag\<close> shorter.
\<close>

definition covers_late :: "nat \<Rightarrow> u64 \<Rightarrow> 'r list \<Rightarrow> admissions \<Rightarrow> bool" where
  "covers_late lag since l log \<longleftrightarrow>
     (\<forall>t. since \<le> t \<longrightarrow>
        sum_where (in_window period t) log = sum_where (in_window period t) (entries_of l)) \<and>
     (\<forall>a. sum_where (spanning (unat period - lag) a) log \<le> cap)"

lemma covers_late_new [simp]: "covers_late lag since [] []"
  by (simp add: covers_late_def entries_of_def)

lemma covers_late_later: "covers_late lag since l log \<Longrightarrow> since \<le> t \<Longrightarrow> covers_late lag t l log"
  by (fastforce simp: covers_late_def)

lemma covers_late_prune:
  "covers_late lag since l log \<Longrightarrow> now \<le> since \<Longrightarrow>
     covers_late lag since (filter (\<lambda>r. in_window period now (stamp r)) l) log"
  by (simp add: covers_late_def entries_of_prune)

lemma covers_late_refused:
  "covers_late lag since l log \<Longrightarrow> now \<le> since \<Longrightarrow> charge now q l = (False, l') \<Longrightarrow>
     covers_late lag since l' log"
  using covers_late_prune charge_refuses by metis

lemma entries_of_stamped:
  assumes "\<forall>r\<in>set new. stamp r = now"
  shows "sum_where p (entries_of new) = (if p now then sum_list (map weight new) else 0)"
proof (cases "p now")
  case True
  then have "filter (p \<circ> stamp) new = new" using assms by (simp add: filter_id_conv)
  then show ?thesis using True by (simp add: sum_where_entries)
next
  case False
  then have "filter (p \<circ> stamp) new = []" using assms by (simp add: filter_empty_conv)
  then show ?thesis using False by (simp add: sum_where_entries)
qed

lemma sum_where_entries_le: "sum_where p (entries_of l) \<le> sum_list (map weight l)"
proof -
  have "sum_list (map weight (filter q l)) \<le> sum_list (map weight l)" for q
    by (induction l) auto
  then show ?thesis by (simp add: sum_where_entries)
qed

lemma covers_late_admitted:
  assumes cov: "covers_late lag since l log" and now: "now \<le> since" "unat since < 2 ^ 64 - 1"
    and late: "unat since \<le> unat now + lag" and adm: "charge now q l = (True, l')"
  shows "covers_late lag since l' (log @ [(now, cost q)])"
proof -
  let ?kept = "filter (\<lambda>r. in_window period now (stamp r)) l"
  obtain new where l': "l' = ?kept @ new" and stamps: "\<forall>r\<in>set new. stamp r = now"
    and new: "sum_list (map weight new) = cost q" and within_cap: "sum_list (map weight l') \<le> cap"
    using charge_admits [OF adm] by blast
  have pruned: "covers_late lag since ?kept log" by (rule covers_late_prune [OF cov now(1)])
  then have "sum_where (in_window period since) log = sum_where (in_window period since) (entries_of ?kept)"
    by (simp add: covers_late_def)
  then have "sum_where (in_window period since) log \<le> sum_list (map weight ?kept)"
    by (metis sum_where_entries_le)
  then have seen: "sum_where (in_window period since) log + cost q \<le> cap"
    using l' new within_cap by simp
  have "sum_where (spanning (unat period - lag) a) (log @ [(now, cost q)]) \<le> cap" for a
  proof (cases "spanning (unat period - lag) a now")
    case False
    then show ?thesis using pruned by (simp add: covers_late_def)
  next
    case True
    have "sum_where (spanning (unat period - lag) a) log \<le> sum_where (in_window period since) log"
      using True late by (intro sum_where_mono) (auto simp: spanning_def in_window_iff [OF now(2)])
    with seen True show ?thesis by simp
  qed
  then show ?thesis
    using pruned l' entries_of_stamped [OF stamps] new by (auto simp: covers_late_def)
qed

end

section \<open>One call, step by step\<close>

datatype gate_call =
    Entered "coin_spend list" spend_op_class
  | CapClock "coin_spend list" derived_spend
  | CapLock "coin_spend list" derived_spend u64
  | PromptClock "coin_spend list" derived_spend
  | PromptLock "coin_spend list" derived_spend u64
  | Answered "(spend_ruling, account_error) result"

text \<open>Where each ledger's charge begins: the period is looked at before the clock is.\<close>

definition to_prompt :: "policy_authorizer \<Rightarrow> coin_spend list \<Rightarrow> derived_spend \<Rightarrow> gate_call" where
  "to_prompt g spends d =
     (if period_seconds (pa_auto_send g) = 0
      then Answered (Err (PolicyIndeterminate ZeroPeriodForPrompts)) else PromptClock spends d)"

definition to_cap :: "policy_authorizer \<Rightarrow> coin_spend list \<Rightarrow> derived_spend \<Rightarrow> gate_call" where
  "to_cap g spends d =
     (if period_seconds (pa_auto_send g) = 0
      then Answered (Err (PolicyIndeterminate ZeroPeriodForCap)) else CapClock spends d)"

text \<open>From the entry to the first read of the clock nothing shared is touched.\<close>

definition judged_call ::
  "'n spend_driver \<Rightarrow> policy_authorizer \<Rightarrow> coin_spend list \<Rightarrow> spend_op_class \<Rightarrow> gate_call" where
  "judged_call drv g spends op_class =
     (case derive_spend drv spends (pa_custody g) of
        Err e \<Rightarrow> Answered (Err e)
      | Ok d \<Rightarrow>
          (case sm_tier (ds_summary d) of
             VaultTier \<Rightarrow>
               (case reject_vault_outflow drv (pa_hot_wallet g) (sm_recipients (ds_summary d)) of
                  Err e \<Rightarrow> Answered (Err e)
                | Ok _ \<Rightarrow> to_prompt g spends d)
           | Confirm \<Rightarrow> to_prompt g spends d
           | AutoSend \<Rightarrow>
               (if \<not> as_enabled (pa_auto_send g) then to_prompt g spends d
                else case configured_limits (pa_auto_send g) op_class of
                  None \<Rightarrow> to_prompt g spends d
                | Some limits \<Rightarrow>
                    if \<not> lim_enabled limits then to_prompt g spends d
                    else case reject_amounts_no_mojo_limit_can_bound (ds_summary d) of
                      Err e \<Rightarrow> Answered (Err e)
                    | Ok _ \<Rightarrow>
                        if per_tx_limit_mojos limits < ds_native_total d then to_prompt g spends d
                        else to_cap g spends d)))"

text \<open>What a call does once it holds a ledger's mutex.\<close>

definition locked_cap ::
  "policy_authorizer \<Rightarrow> coin_spend list \<Rightarrow> derived_spend \<Rightarrow> u64 \<Rightarrow> gate_call \<times> policy_authorizer" where
  "locked_cap g spends d now =
     (if pa_recent_poisoned g then (Answered (Err (PolicyIndeterminate LedgerPoisoned)), g)
      else case charge_ledger (pa_auto_send g) now (ds_native_total d) (pa_recent g) of
        (res, recent) \<Rightarrow>
          ((case res of
              Err e \<Rightarrow> Answered (Err e)
            | Ok Charged \<Rightarrow> Answered (Ok (Approved (approval_new spends (ds_summary d) (pa_scope g))))
            | Ok OverCap \<Rightarrow> to_prompt g spends d),
           g\<lparr>pa_recent := recent\<rparr>))"

definition locked_prompt ::
  "policy_authorizer \<Rightarrow> coin_spend list \<Rightarrow> derived_spend \<Rightarrow> u64 \<Rightarrow> gate_call \<times> policy_authorizer" where
  "locked_prompt g spends d now =
     (if pa_prompts_poisoned g then (Answered (Err (PolicyIndeterminate PromptsPoisoned)), g)
      else case charge_prompts (pa_auto_send g) now (pa_prompts g) of
        (res, prompts) \<Rightarrow>
          (Answered (and_then res (\<lambda>_.
             Ok (RequiresConfirmation (pending_new spends (ds_summary d) (pa_scope g))))),
           g\<lparr>pa_prompts := prompts\<rparr>))"

fun call_step ::
  "'n spend_driver \<Rightarrow> (u64, account_error) result \<Rightarrow> gate_call \<Rightarrow> policy_authorizer \<Rightarrow>
     gate_call \<times> policy_authorizer"
where
  "call_step drv reading (Entered spends op_class) g = (judged_call drv g spends op_class, g)"
| "call_step drv reading (CapClock spends d) g =
     ((case reading of Err e \<Rightarrow> Answered (Err e) | Ok now \<Rightarrow> CapLock spends d now), g)"
| "call_step drv reading (CapLock spends d now) g = locked_cap g spends d now"
| "call_step drv reading (PromptClock spends d) g =
     ((case reading of Err e \<Rightarrow> Answered (Err e) | Ok now \<Rightarrow> PromptLock spends d now), g)"
| "call_step drv reading (PromptLock spends d now) g = locked_prompt g spends d now"
| "call_step drv reading (Answered r) g = (Answered r, g)"

subsection \<open>Run alone, the steps are the call\<close>

fun reads_clock :: "gate_call \<Rightarrow> bool" where
  "reads_clock (CapClock spends d) = True"
| "reads_clock (PromptClock spends d) = True"
| "reads_clock _ = False"

fun call_alone ::
  "'n spend_driver \<Rightarrow> gate_clock \<Rightarrow> nat \<Rightarrow> nat \<Rightarrow> gate_call \<Rightarrow> policy_authorizer \<Rightarrow>
     gate_call \<times> policy_authorizer"
where
  "call_alone drv clk 0 k c g = (c, g)"
| "call_alone drv clk (Suc n) k c g =
     (case call_step drv (clk k) c g of
        (c', g') \<Rightarrow> call_alone drv clk n (if reads_clock c then Suc k else k) c' g')"

lemma call_alone_Answered [simp]: "call_alone drv clk n k (Answered r) g = (Answered r, g)"
  by (induction n arbitrary: k) auto

abbreviation answer_of :: "gate_outcome \<Rightarrow> gate_call \<times> policy_authorizer" where
  "answer_of out \<equiv> (case out of (res, g') \<Rightarrow> (Answered res, g'))"

lemma prompt_alone:
  "call_alone drv clk (Suc (Suc n)) k (to_prompt g spends d) g = answer_of (escalate clk k spends d g)"
  by (auto simp: to_prompt_def escalate_def charge_a_confirmation_prompt_def locked_prompt_def
      result_simps split: result.split prod.split)

lemma to_prompt_recent: "to_prompt (g\<lparr>pa_recent := recent\<rparr>) spends d = to_prompt g spends d"
  by (simp add: to_prompt_def)

lemma cap_alone:
  "call_alone drv clk (Suc (Suc (Suc (Suc n)))) k (to_cap g spends d) g =
     answer_of (case charge_the_rolling_period_cap clk k (ds_native_total d) g of
        (Err e, g') \<Rightarrow> (Err e, g')
      | (Ok Charged, g') \<Rightarrow> (Ok (Approved (approval_new spends (ds_summary d) (pa_scope g'))), g')
      | (Ok OverCap, g') \<Rightarrow> escalate clk (Suc k) spends d g')"
proof (cases "period_seconds (pa_auto_send g) = 0 \<or> pa_recent_poisoned g \<or> (\<exists>e. clk k = Err e)")
  case True
  then show ?thesis
    by (auto simp: to_cap_def charge_the_rolling_period_cap_def locked_cap_def split: result.split)
next
  case False
  then obtain now where now: "clk k = Ok now" by (cases "clk k") auto
  obtain res recent where c: "charge_ledger (pa_auto_send g) now (ds_native_total d) (pa_recent g) =
      (res, recent)" by fastforce
  have "call_alone drv clk (Suc (Suc (Suc (Suc n)))) k (to_cap g spends d) g =
      call_alone drv clk (Suc (Suc (Suc n))) (Suc k) (CapLock spends d now) g"
    using False now by (subst call_alone.simps(2)) (simp add: to_cap_def del: call_alone.simps)
  also have "\<dots> = call_alone drv clk (Suc (Suc n)) (Suc k) (case res of
         Err e \<Rightarrow> Answered (Err e)
       | Ok Charged \<Rightarrow> Answered (Ok (Approved (approval_new spends (ds_summary d) (pa_scope g))))
       | Ok OverCap \<Rightarrow> to_prompt (g\<lparr>pa_recent := recent\<rparr>) spends d) (g\<lparr>pa_recent := recent\<rparr>)"
    using False c by (subst call_alone.simps(2))
      (auto simp: locked_cap_def to_prompt_recent simp del: call_alone.simps
        split: result.split cap_verdict.split)
  finally show ?thesis
    using False now c
    by (auto simp: charge_the_rolling_period_cap_def prompt_alone simp del: call_alone.simps
        split: result.split cap_verdict.split)
qed

lemma authorize_op_is_its_steps:
  "call_alone drv clk 5 0 (Entered spends op_class) g =
     answer_of (authorize_op drv clk spends op_class g)"
proof -
  have prompt: "call_alone drv clk 4 0 (to_prompt g spends d) g = answer_of (escalate clk 0 spends d g)" for d
    using prompt_alone [of drv clk 2 0 g spends d] by (simp add: numeral_eq_Suc del: call_alone.simps)
  have cap: "call_alone drv clk 4 0 (to_cap g spends d) g =
     answer_of (case charge_the_rolling_period_cap clk 0 (ds_native_total d) g of
        (Err e, g') \<Rightarrow> (Err e, g')
      | (Ok Charged, g') \<Rightarrow> (Ok (Approved (approval_new spends (ds_summary d) (pa_scope g'))), g')
      | (Ok OverCap, g') \<Rightarrow> escalate clk (Suc 0) spends d g')" for d
    using cap_alone [of drv clk 0 0 g spends d] by (simp add: numeral_eq_Suc del: call_alone.simps)
  have "call_alone drv clk 5 0 (Entered spends op_class) g =
      call_alone drv clk 4 0 (judged_call drv g spends op_class) g"
    by (simp add: numeral_eq_Suc)
  also have "\<dots> = answer_of (authorize_op drv clk spends op_class g)"
    by (auto simp: judged_call_def authorize_op_def rule_on_auto_send_def prompt cap
        split: result.split spend_tier.split option.split prod.split cap_verdict.split)
  finally show ?thesis .
qed

section \<open>Several calls at a time\<close>

text \<open>
  A schedule moves one call per event. \<open>ev_time\<close> is the time of the event, \<open>ev_reading\<close>
  what the clock answers if the step reads it: it may fail, and it may be behind, but not ahead.
\<close>

record gate_event =
  ev_call :: nat
  ev_time :: u64
  ev_reading :: "(u64, account_error) result"

type_synonym gate_system = "gate_call list \<times> policy_authorizer"

definition system_step :: "'n spend_driver \<Rightarrow> gate_event \<Rightarrow> gate_system \<Rightarrow> gate_system" where
  "system_step drv e sys =
     (case sys of (calls, g) \<Rightarrow>
        if ev_call e < length calls
        then (case call_step drv (ev_reading e) (calls ! ev_call e) g of
                (c, g') \<Rightarrow> (calls[ev_call e := c], g'))
        else (calls, g))"

text \<open>What an event auto-approves, at the reading it is charged at, and the ceremony it raises.\<close>

definition sent_at :: "gate_call \<Rightarrow> gate_call \<Rightarrow> admissions" where
  "sent_at c c' =
     (case c of
        CapLock spends d now \<Rightarrow>
          (case c' of Answered (Ok (Approved _)) \<Rightarrow> [(now, unat (ds_native_total d))] | _ \<Rightarrow> [])
      | _ \<Rightarrow> [])"

definition raised_at :: "gate_call \<Rightarrow> gate_call \<Rightarrow> admissions" where
  "raised_at c c' =
     (case c of
        PromptLock spends d now \<Rightarrow>
          (case c' of Answered (Ok (RequiresConfirmation _)) \<Rightarrow> [(now, 1)] | _ \<Rightarrow> [])
      | _ \<Rightarrow> [])"

definition observed ::
  "(gate_call \<Rightarrow> gate_call \<Rightarrow> admissions) \<Rightarrow> 'n spend_driver \<Rightarrow> gate_event \<Rightarrow> gate_system \<Rightarrow> admissions"
where
  "observed at_step drv e sys =
     (case sys of (calls, g) \<Rightarrow>
        if ev_call e < length calls
        then at_step (calls ! ev_call e) (fst (call_step drv (ev_reading e) (calls ! ev_call e) g))
        else [])"

fun observed_over ::
  "(gate_call \<Rightarrow> gate_call \<Rightarrow> admissions) \<Rightarrow> 'n spend_driver \<Rightarrow> gate_event list \<Rightarrow> gate_system \<Rightarrow> admissions"
where
  "observed_over at_step drv [] sys = []"
| "observed_over at_step drv (e # es) sys =
     observed at_step drv e sys @ observed_over at_step drv es (system_step drv e sys)"

text \<open>The reading a call carries to a mutex.\<close>

fun held_reading :: "gate_call \<Rightarrow> u64 option" where
  "held_reading (CapLock spends d now) = Some now"
| "held_reading (PromptLock spends d now) = Some now"
| "held_reading _ = None"

text \<open>
  A schedule in which time does not run backwards and no call takes a mutex more than \<open>lag\<close>
  seconds after the reading it carries there.
\<close>

definition timely_event :: "nat \<Rightarrow> u64 \<Rightarrow> gate_event \<Rightarrow> gate_call list \<Rightarrow> bool" where
  "timely_event lag since e calls \<longleftrightarrow>
     since \<le> ev_time e \<and> unat (ev_time e) < 2 ^ 64 - 1 \<and>
     (case ev_reading e of Ok t \<Rightarrow> t \<le> ev_time e | Err _ \<Rightarrow> True) \<and>
     (if ev_call e < length calls
      then (case held_reading (calls ! ev_call e) of
              Some now \<Rightarrow> unat (ev_time e) \<le> unat now + lag | None \<Rightarrow> True)
      else True)"

fun timely :: "'n spend_driver \<Rightarrow> nat \<Rightarrow> u64 \<Rightarrow> gate_event list \<Rightarrow> gate_system \<Rightarrow> bool" where
  "timely drv lag since [] sys \<longleftrightarrow> True"
| "timely drv lag since (e # es) sys \<longleftrightarrow>
     timely_event lag since e (fst sys) \<and> timely drv lag (ev_time e) es (system_step drv e sys)"

section \<open>The ledgers under any schedule\<close>

definition system_covers :: "nat \<Rightarrow> u64 \<Rightarrow> gate_system \<Rightarrow> admissions \<Rightarrow> admissions \<Rightarrow> bool" where
  "system_covers lag since sys sent asked \<longleftrightarrow>
     (case sys of (calls, g) \<Rightarrow>
        spend_ledger.covers_late (pa_auto_send g) lag since (pa_recent g) sent \<and>
        prompt_ledger.covers_late (pa_auto_send g) lag since (pa_prompts g) asked \<and>
        (\<forall>c\<in>set calls. \<forall>now. held_reading c = Some now \<longrightarrow> now \<le> since))"

lemma to_prompt_holds_nothing [simp]: "held_reading (to_prompt g spends d) = None"
  by (simp add: to_prompt_def)

lemma judged_call_holds_nothing [simp]: "held_reading (judged_call drv g spends op_class) = None"
  by (auto simp: judged_call_def to_cap_def
      split: result.split spend_tier.split option.split)

lemma to_prompt_answers: "to_prompt g spends d \<noteq> Answered (Ok r)"
  by (simp add: to_prompt_def)

lemma locked_cap_late:
  assumes step: "locked_cap g spends d now = (c, g')"
    and cov: "spend_ledger.covers_late (pa_auto_send g) lag since (pa_recent g) sent"
    and t: "now \<le> since" "unat since < 2 ^ 64 - 1" "unat since \<le> unat now + lag"
  shows "spend_ledger.covers_late (pa_auto_send g) lag since (pa_recent g')
      (sent @ (case c of Answered (Ok (Approved _)) \<Rightarrow> [(now, unat (ds_native_total d))] | _ \<Rightarrow> []))"
    and "same_gate g g'" and "pa_prompts g' = pa_prompts g" and "held_reading c = None"
proof -
  have "spend_ledger.covers_late (pa_auto_send g) lag since (pa_recent g')
      (sent @ (case c of Answered (Ok (Approved _)) \<Rightarrow> [(now, unat (ds_native_total d))] | _ \<Rightarrow> [])) \<and>
    same_gate g g' \<and> pa_prompts g' = pa_prompts g \<and> held_reading c = None"
  proof (cases "pa_recent_poisoned g")
    case True
    then show ?thesis using step cov by (auto simp: locked_cap_def)
  next
    case False
    obtain res recent where ch: "charge_ledger (pa_auto_send g) now (ds_native_total d) (pa_recent g) =
        (res, recent)" by fastforce
    note refused = spend_ledger.covers_late_refused [OF cov t(1), of "ds_native_total d" recent]
      and admitted = spend_ledger.covers_late_admitted [OF cov t, of "ds_native_total d" recent]
    consider (Charged) "res = Ok Charged" | (OverCap) "res = Ok OverCap" | (Err) e where "res = Err e"
      by (metis cap_verdict.exhaust result.exhaust)
    then show ?thesis
      using step False ch refused admitted
      by cases (auto simp: locked_cap_def spend_charge_def same_gate_def to_prompt_def)
  qed
  then show "spend_ledger.covers_late (pa_auto_send g) lag since (pa_recent g')
      (sent @ (case c of Answered (Ok (Approved _)) \<Rightarrow> [(now, unat (ds_native_total d))] | _ \<Rightarrow> []))"
    and "same_gate g g'" and "pa_prompts g' = pa_prompts g" and "held_reading c = None" by auto
qed

lemma locked_prompt_late:
  assumes step: "locked_prompt g spends d now = (c, g')"
    and cov: "prompt_ledger.covers_late (pa_auto_send g) lag since (pa_prompts g) asked"
    and t: "now \<le> since" "unat since < 2 ^ 64 - 1" "unat since \<le> unat now + lag"
  shows "prompt_ledger.covers_late (pa_auto_send g) lag since (pa_prompts g')
      (asked @ (case c of Answered (Ok (RequiresConfirmation _)) \<Rightarrow> [(now, 1)] | _ \<Rightarrow> []))"
    and "same_gate g g'" and "pa_recent g' = pa_recent g" and "held_reading c = None"
proof -
  have "prompt_ledger.covers_late (pa_auto_send g) lag since (pa_prompts g')
      (asked @ (case c of Answered (Ok (RequiresConfirmation _)) \<Rightarrow> [(now, 1)] | _ \<Rightarrow> [])) \<and>
    same_gate g g' \<and> pa_recent g' = pa_recent g \<and> held_reading c = None"
  proof (cases "pa_prompts_poisoned g")
    case True
    then show ?thesis using step cov by (auto simp: locked_prompt_def)
  next
    case False
    obtain res prompts where ch: "charge_prompts (pa_auto_send g) now (pa_prompts g) = (res, prompts)"
      by fastforce
    note refused = prompt_ledger.covers_late_refused [OF cov t(1), of "()" prompts]
      and admitted = prompt_ledger.covers_late_admitted [OF cov t, of "()" prompts]
    show ?thesis
      using step False ch refused admitted
      by (cases res) (auto simp: locked_prompt_def prompt_charge_def same_gate_def result_simps)
  qed
  then show "prompt_ledger.covers_late (pa_auto_send g) lag since (pa_prompts g')
      (asked @ (case c of Answered (Ok (RequiresConfirmation _)) \<Rightarrow> [(now, 1)] | _ \<Rightarrow> []))"
    and "same_gate g g'" and "pa_recent g' = pa_recent g" and "held_reading c = None" by auto
qed

lemma call_step_late:
  assumes step: "call_step drv reading c g = (c', g')"
    and spends: "spend_ledger.covers_late (pa_auto_send g) lag t (pa_recent g) sent"
    and prompts: "prompt_ledger.covers_late (pa_auto_send g) lag t (pa_prompts g) asked"
    and t: "unat t < 2 ^ 64 - 1"
    and held: "\<And>n. held_reading c = Some n \<Longrightarrow> n \<le> t \<and> unat t \<le> unat n + lag"
    and read: "\<And>n. reading = Ok n \<Longrightarrow> n \<le> t"
  shows "same_gate g g'"
    and "spend_ledger.covers_late (pa_auto_send g) lag t (pa_recent g') (sent @ sent_at c c')"
    and "prompt_ledger.covers_late (pa_auto_send g) lag t (pa_prompts g') (asked @ raised_at c c')"
    and "held_reading c' = Some n \<Longrightarrow> n \<le> t"
proof -
  have "same_gate g g' \<and>
    spend_ledger.covers_late (pa_auto_send g) lag t (pa_recent g') (sent @ sent_at c c') \<and>
    prompt_ledger.covers_late (pa_auto_send g) lag t (pa_prompts g') (asked @ raised_at c c') \<and>
    (held_reading c' = Some n \<longrightarrow> n \<le> t)"
  proof (cases c)
    case (CapLock sps d m)
    have "locked_cap g sps d m = (c', g')" using step CapLock by simp
    note l = locked_cap_late [OF this spends]
    show ?thesis
      using l held [of m] t prompts by (simp add: CapLock sent_at_def raised_at_def)
  next
    case (PromptLock sps d m)
    have "locked_prompt g sps d m = (c', g')" using step PromptLock by simp
    note l = locked_prompt_late [OF this prompts]
    show ?thesis
      using l held [of m] t spends by (simp add: PromptLock sent_at_def raised_at_def)
  qed (use step spends prompts read in
       \<open>auto simp: sent_at_def raised_at_def split: result.splits\<close>)
  then show "same_gate g g'"
    and "spend_ledger.covers_late (pa_auto_send g) lag t (pa_recent g') (sent @ sent_at c c')"
    and "prompt_ledger.covers_late (pa_auto_send g) lag t (pa_prompts g') (asked @ raised_at c c')"
    and "held_reading c' = Some n \<Longrightarrow> n \<le> t" by auto
qed

lemma system_covers_later:
  "system_covers lag since sys sent asked \<Longrightarrow> since \<le> t \<Longrightarrow> system_covers lag t sys sent asked"
  using spend_ledger.covers_late_later prompt_ledger.covers_late_later
  by (fastforce simp: system_covers_def split: prod.splits)

lemma system_step_covers:
  assumes now: "timely_event lag since e (fst sys)" and cov: "system_covers lag since sys sent asked"
  shows "system_covers lag (ev_time e) (system_step drv e sys)
           (sent @ observed sent_at drv e sys) (asked @ observed raised_at drv e sys)"
    and "same_gate (snd sys) (snd (system_step drv e sys))"
proof -
  obtain calls g where sys: "sys = (calls, g)" by fastforce
  let ?t = "ev_time e" and ?i = "ev_call e"
  obtain c' g' where step: "call_step drv (ev_reading e) (calls ! ?i) g = (c', g')" by fastforce
  have here: "system_covers lag ?t (calls, g) sent asked"
    using system_covers_later [OF cov] now by (simp add: sys timely_event_def)
  then have cov': "spend_ledger.covers_late (pa_auto_send g) lag ?t (pa_recent g) sent"
    "prompt_ledger.covers_late (pa_auto_send g) lag ?t (pa_prompts g) asked"
    and held: "\<forall>c\<in>set calls. \<forall>n. held_reading c = Some n \<longrightarrow> n \<le> ?t"
    by (simp_all add: system_covers_def)
  have t: "unat ?t < 2 ^ 64 - 1"
    and late: "held_reading (calls ! ?i) = Some n \<Longrightarrow> n \<le> ?t \<and> unat ?t \<le> unat n + lag"
    and read: "ev_reading e = Ok n \<Longrightarrow> n \<le> ?t" if "?i < length calls" for n
    using now that held nth_mem [of ?i calls] by (auto simp: sys timely_event_def)
  show "same_gate (snd sys) (snd (system_step drv e sys))"
    using call_step_late(1) [OF step cov' t late read] step by (simp add: sys system_step_def)
  show "system_covers lag ?t (system_step drv e sys)
      (sent @ observed sent_at drv e sys) (asked @ observed raised_at drv e sys)"
  proof (cases "?i < length calls")
    case False
    then show ?thesis using here by (simp add: sys system_step_def observed_def)
  next
    case True
    note l = call_step_late [OF step cov' t [OF True] late [OF True] read [OF True]]
    have "\<forall>c\<in>set (calls[?i := c']). \<forall>n. held_reading c = Some n \<longrightarrow> n \<le> ?t"
      using held l(4) set_update_subset_insert [of calls ?i c'] by blast
    moreover have "pa_auto_send g' = pa_auto_send g" using l(1) by (simp add: same_gate_def)
    ultimately show ?thesis
      using l(2,3) True by (simp add: sys system_step_def observed_def system_covers_def step)
  qed
qed

fun system_run :: "'n spend_driver \<Rightarrow> gate_event list \<Rightarrow> gate_system \<Rightarrow> gate_system" where
  "system_run drv [] sys = sys"
| "system_run drv (e # es) sys = system_run drv es (system_step drv e sys)"

lemma timely_covers:
  assumes "timely drv lag since es sys" and "system_covers lag since sys sent asked"
  shows "\<exists>t. system_covers lag t (system_run drv es sys)
      (sent @ observed_over sent_at drv es sys) (asked @ observed_over raised_at drv es sys)"
    and "same_gate (snd sys) (snd (system_run drv es sys))"
  using assms
proof (induction es arbitrary: since sys sent asked)
  case Nil
  {
    case 1
    then show ?case by auto
  next
    case 2
    then show ?case by simp
  }
next
  case (Cons e es)
  {
    case 1
    then have "timely_event lag since e (fst sys)" "timely drv lag (ev_time e) es (system_step drv e sys)"
      by simp_all
    then show ?case
      using Cons.IH(1) [OF _ system_step_covers(1) [OF _ 1(2)]] by (simp add: append_assoc)
  next
    case 2
    then have t: "timely_event lag since e (fst sys)" "timely drv lag (ev_time e) es (system_step drv e sys)"
      by simp_all
    note step = system_step_covers [OF t(1) 2(2), of drv]
    show ?case using same_gate_trans [OF step(2) Cons.IH(2) [OF t(2) step(1)]] by simp
  }
qed

section \<open>What any schedule can move\<close>

abbreviation entering :: "(coin_spend list \<times> spend_op_class) list \<Rightarrow> gate_call list" where
  "entering requests \<equiv> map (\<lambda>(spends, op_class). Entered spends op_class) requests"

lemma entering_covers:
  assumes "policy_authorizer_new drv ix custody policy addr = Ok g"
  shows "system_covers lag 0 (entering requests, g) [] []"
  using assms
  by (auto simp: policy_authorizer_new_def system_covers_def simp del: One_nat_def
      split: result.splits prod.splits)

text \<open>C6: The cap survives concurrency, but for the lag. However any number of calls of one gate are
  interleaved, as long as no call takes a ledger's mutex more than \<open>lag\<close> seconds after the
  clock reading it carries there, the native totals auto-approved within any window \<open>lag\<close> seconds
  shorter than the period never sum to more than the cap, and the ceremonies raised within one never
  number more than the ceiling. With no lag the window is the whole period.\<close>

theorem interleaved_calls_stay_capped:
  assumes "policy_authorizer_new drv ix custody policy addr = Ok g"
    and "timely drv lag 0 es (entering requests, g)"
  shows "sum_where (spanning (unat (period_seconds policy) - lag) a)
           (observed_over sent_at drv es (entering requests, g)) \<le> unat (period_cap_mojos policy) \<and>
    sum_where (spanning (unat (period_seconds policy) - lag) a)
           (observed_over raised_at drv es (entering requests, g)) \<le> unat (max_confirmations_per_period policy)"
proof -
  note run = timely_covers [OF assms(2) entering_covers [OF assms(1)]]
  obtain t where t: "system_covers lag t (system_run drv es (entering requests, g))
      (observed_over sent_at drv es (entering requests, g))
      (observed_over raised_at drv es (entering requests, g))"
    using run(1) by auto
  obtain calls g' where end_state: "system_run drv es (entering requests, g) = (calls, g')" by fastforce
  have "pa_auto_send g' = policy"
    using run(2) gate_new_covers(2) [OF assms(1)] by (simp add: end_state same_gate_def)
  then show ?thesis
    using t by (simp add: end_state system_covers_def spend_ledger.covers_late_def
        prompt_ledger.covers_late_def del: One_nat_def)
qed

section \<open>A concrete race\<close>

abbreviation tip_request :: "coin_spend list \<times> spend_op_class" where
  "tip_request \<equiv> ([sample_spend], Tip)"

definition racing_gate :: "u64 \<Rightarrow> auto_send_record list \<Rightarrow> u64 list \<Rightarrow> policy_authorizer" where
  "racing_gate cap recent prompts = (sample_gate hot800)\<lparr>pa_auto_send := sample_policy\<lparr>period_cap_mojos := cap\<rparr>,
     pa_recent := recent, pa_prompts := prompts\<rparr>"

definition moves :: "nat \<Rightarrow> u64 \<Rightarrow> gate_event" where
  "moves i t = \<lparr>ev_call = i, ev_time = t, ev_reading = Ok t\<rparr>"

lemma racing_gate_new:
  "policy_authorizer_new sample_driver (ProfileIx 0) hot800 (sample_policy\<lparr>period_cap_mojos := cap\<rparr>)
     ''xch1nine'' = Ok (racing_gate cap [] [])"
  by (simp add: policy_authorizer_new_def sample_driver_def racing_gate_def sample_gate_def)

abbreviation racing_derived :: derived_spend where
  "racing_derived \<equiv> \<lparr>ds_summary = sample_summary AutoSend, ds_native_total = 710\<rparr>"

lemma racing_judged:
  "judged_call sample_driver (racing_gate cap recent prompts) [sample_spend] Tip =
     CapClock [sample_spend] racing_derived"
proof -
  have g: "pa_custody (racing_gate cap recent prompts) = hot800"
    "pa_auto_send (racing_gate cap recent prompts) = sample_policy\<lparr>period_cap_mojos := cap\<rparr>"
    by (simp_all add: racing_gate_def sample_gate_def)
  have t: "sm_tier (sample_summary AutoSend) = AutoSend" by (simp add: sample_summary_def)
  show ?thesis
    by (simp add: judged_call_def g sample_derived_hot t sample_summary_native)
       (simp add: g to_cap_def sample_policy_def enabled_up_to_def)
qed

lemma racing_locked_cap:
  "locked_cap (racing_gate cap recent prompts) [sample_spend] racing_derived now =
     (let kept = filter (\<lambda>r. now < saturating_add (at_unix r) 3600) recent in
      case checked_sum 710 (map rec_mojos kept) of
        None \<Rightarrow> (Answered (Err (PolicyIndeterminate ProjectionOverflows)), racing_gate cap kept prompts)
      | Some projected \<Rightarrow>
          if cap < projected
          then (PromptClock [sample_spend] racing_derived, racing_gate cap kept prompts)
          else if MAX_LEDGER_ENTRIES \<le> length kept
          then (Answered (Err (PolicyIndeterminate LedgerFull)), racing_gate cap kept prompts)
          else (Answered (Ok (Approved (approval_new [sample_spend] (sample_summary AutoSend)
                   (custody_scope_new (ProfileIx 0) hot800 9)))),
                racing_gate cap (kept @ [\<lparr>at_unix = now, rec_mojos = 710\<rparr>]) prompts))"
  by (simp add: locked_cap_def racing_gate_def sample_gate_def sample_policy_def charge_ledger_def
      to_prompt_def Let_def comp_def split: option.split)

text \<open>One event at a time.\<close>

abbreviation tip_entered :: gate_call where
  "tip_entered \<equiv> Entered [sample_spend] Tip"

abbreviation tip_clock :: gate_call where
  "tip_clock \<equiv> CapClock [sample_spend] racing_derived"

abbreviation tip_lock :: "u64 \<Rightarrow> gate_call" where
  "tip_lock now \<equiv> CapLock [sample_spend] racing_derived now"

abbreviation tip_asks :: gate_call where
  "tip_asks \<equiv> PromptClock [sample_spend] racing_derived"

abbreviation tip_asking :: "u64 \<Rightarrow> gate_call" where
  "tip_asking now \<equiv> PromptLock [sample_spend] racing_derived now"

definition tip_sent :: gate_call where
  "tip_sent = Answered (Ok (Approved (approval_new [sample_spend] (sample_summary AutoSend)
     (custody_scope_new (ProfileIx 0) hot800 9))))"

definition tip_asked :: gate_call where
  "tip_asked = Answered (Ok (RequiresConfirmation (pending_new [sample_spend] (sample_summary AutoSend)
     (custody_scope_new (ProfileIx 0) hot800 9))))"

lemma racing_calls:
  "call_step sample_driver r tip_entered (racing_gate cap recent ps) = (tip_clock, racing_gate cap recent ps)"
  "call_step sample_driver (Ok t) tip_clock g = (tip_lock t, g)"
  "call_step sample_driver (Ok t) tip_asks g = (tip_asking t, g)"
  by (simp_all add: racing_judged)

lemma racing_charge:
  assumes "filter (\<lambda>r. now < saturating_add (at_unix r) 3600) recent = kept"
    and "checked_sum 710 (map rec_mojos kept) = Some s" and "length kept < MAX_LEDGER_ENTRIES"
  shows "s \<le> cap \<Longrightarrow> call_step drv r (tip_lock now) (racing_gate cap recent ps) =
     (tip_sent, racing_gate cap (kept @ [\<lparr>at_unix = now, rec_mojos = 710\<rparr>]) ps)"
    and "cap < s \<Longrightarrow> call_step drv r (tip_lock now) (racing_gate cap recent ps) =
     (tip_asks, racing_gate cap kept ps)"
  using assms by (simp_all add: racing_locked_cap tip_sent_def not_less not_le)

lemma racing_ask:
  "call_step drv r (tip_asking now) (racing_gate cap recent []) = (tip_asked, racing_gate cap recent [now])"
  by (simp add: locked_prompt_def racing_gate_def sample_gate_def sample_policy_def charge_prompts_def
      result_simps tip_asked_def)

lemma racing_logs [simp]:
  "sent_at tip_entered c = []" "sent_at tip_clock c = []" "sent_at tip_asks c = []"
  "sent_at (tip_asking now) c = []"
  "sent_at (tip_lock now) tip_sent = [(now, 710)]" "sent_at (tip_lock now) tip_asks = []"
  "raised_at tip_entered c = []" "raised_at tip_clock c = []" "raised_at tip_asks c = []"
  "raised_at (tip_lock now) c = []" "raised_at (tip_asking now) tip_asked = [(now, 1)]"
  by (simp_all add: sent_at_def raised_at_def tip_sent_def tip_asked_def)

lemma racing_event:
  assumes "i < length calls" and "calls ! i = c" and "call_step drv (Ok t) c g = (c', g')"
  shows "observed_over at_step drv (moves i t # es) (calls, g) =
      at_step c c' @ observed_over at_step drv es (calls[i := c'], g')"
    and "timely drv lag since (moves i t # es) (calls, g) \<longleftrightarrow>
      since \<le> t \<and> unat t < 2 ^ 64 - 1 \<and>
      (case held_reading c of Some now \<Rightarrow> unat t \<le> unat now + lag | None \<Rightarrow> True) \<and>
      timely drv lag t es (calls[i := c'], g')"
proof -
  have "system_step drv (moves i t) (calls, g) = (calls[i := c'], g')"
    and "observed at_step drv (moves i t) (calls, g) = at_step c c'"
    and "ev_time (moves i t) = t" and "ev_reading (moves i t) = Ok t" and "ev_call (moves i t) = i"
    using assms by (simp_all add: system_step_def observed_def moves_def)
  then show "observed_over at_step drv (moves i t # es) (calls, g) =
      at_step c c' @ observed_over at_step drv es (calls[i := c'], g')"
    and "timely drv lag since (moves i t # es) (calls, g) \<longleftrightarrow>
      since \<le> t \<and> unat t < 2 ^ 64 - 1 \<and>
      (case held_reading c of Some now \<Rightarrow> unat t \<le> unat now + lag | None \<Rightarrow> True) \<and>
      timely drv lag t es (calls[i := c'], g')"
    using assms(1,2) by (simp_all add: timely_event_def split: option.split)
qed

lemmas racing_run =
  racing_event [OF _ _ racing_calls(1)] racing_event [OF _ _ racing_calls(2)]
  racing_event [OF _ _ racing_calls(3)] racing_event [OF _ _ racing_charge(1)]
  racing_event [OF _ _ racing_charge(2)] racing_event [OF _ _ racing_ask]

declare timely.simps(2) [simp del] observed_over.simps(2) [simp del]

lemmas racing_numbers = saturating_add_def checked_add_def MAX_LEDGER_ENTRIES_def

theorem interleaved_calls_stay_capped_witness:
  "sum_where (spanning 3599 0) [(101, 710)] \<le> 1000 \<and> sum_where (spanning 3599 0) [(103, 1)] \<le> 1"
proof -
  let ?es = "[moves 0 100, moves 1 100, moves 0 100, moves 1 101, moves 1 101, moves 0 101, moves 0 103,
    moves 0 103]" and ?s = "([tip_entered, tip_entered], racing_gate 1000 [] [])"
  have "timely sample_driver 1 0 ?es ?s" by (simp add: racing_run racing_numbers)
  moreover have "observed_over sent_at sample_driver ?es ?s = [(101, 710)]"
    by (simp add: racing_run racing_numbers)
  moreover have "observed_over raised_at sample_driver ?es ?s = [(103, 1)]"
    by (simp add: racing_run racing_numbers)
  ultimately show ?thesis
    using interleaved_calls_stay_capped [OF racing_gate_new [of 1000], of 1 ?es "[tip_request, tip_request]" 0]
    by (simp add: sample_policy_def)
qed

text \<open>C40: The clock is read before the mutex is taken, and a call can be overtaken in between. With the
  lag of a single second, three spends that together exceed the cap by 630 mojos are auto-approved within
  one full period: the last is charged at a reading at which the first two still count, after a call with
  a newer reading has dropped them.\<close>

theorem a_late_reading_exceeds_the_full_window:
  "\<exists>g es. policy_authorizer_new sample_driver (ProfileIx 0) hot800 (sample_policy\<lparr>period_cap_mojos := 1500\<rparr>)
       ''xch1nine'' = Ok g \<and>
     timely sample_driver 1 0 es (entering (replicate 4 tip_request), g) \<and>
     sum_where (within 3600 100) (observed_over sent_at sample_driver es
       (entering (replicate 4 tip_request), g)) = 2130"
proof -
  let ?es = "[moves 0 100, moves 0 100, moves 0 100, moves 1 100, moves 1 100, moves 1 100,
    moves 2 3699, moves 2 3699, moves 3 3700, moves 3 3700, moves 3 3700, moves 2 3700]"
  let ?s = "([tip_entered, tip_entered, tip_entered, tip_entered], racing_gate 1500 [] [])"
  have "timely sample_driver 1 0 ?es ?s" by (simp add: racing_run racing_numbers)
  moreover have "observed_over sent_at sample_driver ?es ?s =
      [(100, 710), (100, 710), (3700, 710), (3699, 710)]"
    by (simp add: racing_run racing_numbers)
  then have "sum_where (within 3600 100) (observed_over sent_at sample_driver ?es ?s) = 2130"
    by (simp add: within_def sum_where_def)
  moreover have "entering (replicate 4 tip_request) = fst ?s" by (simp add: numeral_eq_Suc)
  ultimately show ?thesis
    using racing_gate_new [of 1500] by (metis fst_conv)
qed

end
