(* ===== verification/Payment_Properties.thy ===== *)
theory Payment_Properties
  imports Transfer_Summary Custody_Gate
begin

text \<open>
  A payment from end to end: \<open>src/wallet/transfer.rs\<close> selects, reserves and builds,
  \<open>src/wallet/summary.rs\<close> and \<open>src/wallet/enforcer.rs\<close> judge the spends,
  \<open>src/wallet/approval.rs\<close> carries them, \<open>src/wallet/money_signer.rs\<close> signs them.
\<close>

section \<open>What the driver documents of the spends of a plan\<close>

text \<open>A standard spend spends the coin it is given, under the key's own puzzle.\<close>

definition spends_standard :: "spend_builder \<Rightarrow> 'n spend_driver \<Rightarrow> wallet_key \<Rightarrow> bool" where
  "spends_standard bld drv w \<longleftrightarrow>
     (\<forall>c conds s. standard_spend bld (wk_public_key w) c conds = Ok s \<longrightarrow>
        spent_coin s = c \<and> p2_curry drv (puzzle_reveal s) = Some (wk_puzzle_hash w))"

text \<open>The re-parse of spends reads the conditions they were built with.\<close>

definition reads_back ::
  "spend_builder \<Rightarrow> 'n spend_driver \<Rightarrow> wallet_key \<Rightarrow> coin_spend list \<Rightarrow> bool" where
  "reads_back bld drv w spends \<longleftrightarrow>
     (\<forall>ins. map (\<lambda>(c, conds). standard_spend bld (wk_public_key w) c conds) ins = map Ok spends \<longrightarrow>
        analyze drv spends = Ok (standard_effect ins))"

lemma spends_standardD:
  "spends_standard bld drv w \<Longrightarrow> standard_spend bld (wk_public_key w) c conds = Ok s \<Longrightarrow>
     spent_coin s = c \<and> p2_curry drv (puzzle_reveal s) = Some (wk_puzzle_hash w)"
  by (simp add: spends_standard_def)

section \<open>The gate's ruling on a built payment\<close>

lemma approved_is_auto_sendable:
  assumes "authorize_op drv clk spends op g = (Ok (Approved a), g')"
    and "derive_spend drv spends (pa_custody g) = Ok d"
  shows "auto_sendable g op d"
  using assms(1)
proof (cases rule: authorize_cases)
  case (asked d' k g1)
  then show ?thesis using escalate_never_approves by metis
next
  case (approves d')
  then show ?thesis using assms(2) by simp
qed simp_all

text \<open>The ledger an automatic approval leaves: what still counts, and the total it charged.\<close>

definition charged_ledger ::
  "auto_send_policy \<Rightarrow> auto_send_record list \<Rightarrow> u64 \<Rightarrow> u64 \<Rightarrow> auto_send_record list" where
  "charged_ledger auto recent now n =
     filter (\<lambda>r. in_window (period_seconds auto) now (at_unix r)) recent @
     (if 0 < n then [\<lparr>at_unix = now, rec_mojos = n\<rparr>] else [])"

lemma approved_is_charged:
  assumes "authorize_op drv clk spends op g = (Ok (Approved a), g')"
    and "derive_spend drv spends (pa_custody g) = Ok d"
  shows "\<exists>now. clk 0 = Ok now \<and>
    pa_recent g' = charged_ledger (pa_auto_send g) (pa_recent g) now (ds_native_total d) \<and>
    sum_list (map (unat \<circ> rec_mojos) (pa_recent g')) \<le> unat (period_cap_mojos (pa_auto_send g))"
  using assms(1)
proof (cases rule: authorize_cases)
  case (asked d' k g1)
  then show ?thesis using escalate_never_approves by metis
next
  case (approves d')
  then have "charge_the_rolling_period_cap clk 0 (ds_native_total d) g = (Ok Charged, g')"
    using assms(2) by simp
  then show ?thesis
  proof (cases rule: charge_cases)
    case (charged now)
    then have c: "charge_ledger (pa_auto_send g) now (ds_native_total d) (pa_recent g) =
        (Ok Charged, pa_recent g')"
      by (simp add: spend_charge_def split: prod.splits)
    then have "pa_recent g' = charged_ledger (pa_auto_send g) (pa_recent g) now (ds_native_total d)"
      using charge_ledger_kept [of "pa_auto_send g" now "ds_native_total d" "pa_recent g"]
      by (simp add: charged_ledger_def Let_def)
    with charged(1) charge_ledger_cap(1) [OF c] show ?thesis by blast
  qed auto
qed simp_all

lemma built_payment_derived:
  assumes "spends_standard bld drv w" and "reads_back bld drv w (tp_coin_spends plan)"
    and built: "build_transfer_spends bld cid w selected request None = Ok (plan\<lparr>tp_reservation := None\<rparr>)"
    and other: "recipient_of request \<noteq> wk_puzzle_hash w"
    and own: "\<forall>c \<in> set selected. puzzle_hash c = wk_puzzle_hash w"
  shows "checked_add (tr_amount request) (tr_fee request) = Some (tr_amount request + tr_fee request)"
    and "mset (map spent_coin (tp_coin_spends plan)) = mset selected"
    and "derive_spend drv (tp_coin_spends plan) policy = Ok \<lparr>ds_summary = payment_summary drv
        (classify policy (tr_amount request + tr_fee request)) request,
      ds_native_total = tr_amount request + tr_fee request\<rparr>"
    and "tp_source_coin_ids plan = map cid selected" and "selected \<noteq> []"
proof -
  obtain change hint ss where b: "selected \<noteq> []" "hint_of bld (recipient_of request) = Ok hint"
    "map (\<lambda>(c, conds). standard_spend bld (wk_public_key w) c conds)
       (transfer_inputs bld cid w selected request hint change) = map Ok ss"
    "plan\<lparr>tp_reservation := None\<rparr> = plan_of cid selected request change ss None"
    using built unfolding build_transfer_spends_Ok by blast
  have f: "tp_coin_spends plan = ss" "tp_change plan = change" "tp_source_coin_ids plan = map cid selected"
    using arg_cong [OF b(4), of tp_coin_spends] arg_cong [OF b(4), of tp_change]
      arg_cong [OF b(4), of tp_source_coin_ids] by (simp_all add: plan_of_def)
  have reads: "analyze drv (tp_coin_spends (plan\<lparr>tp_reservation := None\<rparr>)) =
      Ok (standard_effect (transfer_inputs bld cid w selected request hint
        (tp_change (plan\<lparr>tp_reservation := None\<rparr>))))"
    using assms(2) b(3) by (simp add: f reads_back_def)
  note derived = built_transfer_derived [OF built other own spends_standardD [OF assms(1)] b(2) reads]
  show "checked_add (tr_amount request) (tr_fee request) = Some (tr_amount request + tr_fee request)"
    and "mset (map spent_coin (tp_coin_spends plan)) = mset selected"
    and "derive_spend drv (tp_coin_spends plan) policy = Ok \<lparr>ds_summary = payment_summary drv
        (classify policy (tr_amount request + tr_fee request)) request,
      ds_native_total = tr_amount request + tr_fee request\<rparr>"
    using derived(1,2) derived(3) [where policy = policy] by simp_all
  show "tp_source_coin_ids plan = map cid selected" and "selected \<noteq> []" by (rule f(3), rule b(1))
qed

text \<open>Within everything the policy allows unattended, the ledger standing as it does once charged.\<close>

definition within_auto_send ::
  "auto_send_policy \<Rightarrow> custody_policy \<Rightarrow> spend_op_class \<Rightarrow> u64 \<Rightarrow> auto_send_record list \<Rightarrow> bool" where
  "within_auto_send auto custody op n ledger \<longleftrightarrow>
     as_enabled auto \<and>
     (case configured_limits auto op of
        None \<Rightarrow> False | Some l \<Rightarrow> lim_enabled l \<and> n \<le> per_tx_limit_mojos l) \<and>
     (case custody of HotCustody hot \<Rightarrow> n \<le> auto_send_limit hot | VaultCustody _ \<Rightarrow> False) \<and>
     sum_list (map (unat \<circ> rec_mojos) ledger) \<le> unat (period_cap_mojos auto)"

lemma classify_AutoSend:
  "classify custody n = AutoSend \<longleftrightarrow>
     (case custody of HotCustody hot \<Rightarrow> n \<le> auto_send_limit hot | VaultCustody _ \<Rightarrow> False)"
  by (cases custody) auto

text \<open>C2: From the chain to the signature, a payment stays the one that was asked for. When a transfer is
  built over the reservation table, put to a gate, and a bundle is signed with what the gate's holder
  obtained, then that very plan's spends are what was signed, while the session was live and for the
  gate's profile; they spend exactly the coins the plan names, which its own reservation holds and no
  other does; and either the human said yes to a request that showed the requested amount to the requested
  destination, the requested fee, and nothing else; or amount plus fee, in exact arithmetic, was within the
  switch, the class and the per-transaction limit of the policy and the wallet's allowance, and was charged
  to the gate's ledger at the time its clock read, where with everything sent unattended that still counts
  at that time it is within the rolling cap.\<close>

theorem signed_payment_is_the_requested_one:
  assumes built: "build_transfer bld cid w chain custody request rv (\<lambda>k. fold local_call (others k)) t
           (reservation_session calls) = (Ok plan, t', s')" and rv: "rv_store rv = local_store"
    and driver: "spends_standard bld drv w" "reads_back bld drv w (tp_coin_spends plan)"
    and gate: "policy_authorizer_new drv ix custody auto addr = Ok g0" "same_gate g0 g"
    and got: "obtained drv clk (tp_coin_spends plan) op g provider acc shown_ix a"
    and signed: "sign_approved core now res m a = Ok bundle"
  shows "residency_is_live now res \<and> ms_profile m = ix \<and>
    (\<exists>k rq reviewed. sg_sign core k (tp_coin_spends plan) rq reviewed = Ok bundle) \<and>
    (\<exists>j expires. tp_reservation plan = Some (ReservationId j) \<and>
       mset (map (cid \<circ> spent_coin) (tp_coin_spends plan)) = mset (tp_source_coin_ids plan) \<and>
       (j, tp_source_coin_ids plan, expires) \<in> local_reserved s' \<and> exclusive (local_reserved s')) \<and>
    (\<exists>out. checked_add (tr_amount request) (tr_fee request) = Some out \<and>
       ((\<exists>now ledger. clk 0 = Ok now \<and> ledger = charged_ledger auto (pa_recent g) now out \<and>
           pa_recent (snd (authorize_op drv clk (tp_coin_spends plan) op g)) = ledger \<and>
           within_auto_send auto custody op out ledger) \<or>
        provider \<lparr>rq_account = acc, rq_profile = shown_ix,
           rq_summary = payment_summary drv (classify custody out) request\<rparr> = Ok Approve))"
proof -
  obtain required selected held where other: "recipient_of request \<noteq> wk_puzzle_hash w"
    and sel: "select_and_reserve rv (\<lambda>k. fold local_call (others k)) MAX_RESERVATION_ATTEMPTS
       (select_ids cid chain (wk_puzzle_hash w) required) ReservationUnusable t
       (reservation_session calls) = (Ok (selected, held), t', s')"
    and b: "build_transfer_spends bld cid w selected request None = Ok (plan\<lparr>tp_reservation := None\<rparr>)"
    and held: "tp_reservation plan = Some held"
    using build_transfer_Ok [OF built] by metis
  obtain j where j: "held = ReservationId j" by (cases held)
  have ne: "selected \<noteq> []" using b unfolding build_transfer_spends_Ok by blast
  note funded = selected_and_held [OF rv sel [unfolded j] ne]
  then have own: "\<forall>c\<in>set selected. puzzle_hash c = wk_puzzle_hash w"
    by (auto simp: usable_coins_def own_unspent_def)
  note derived = built_payment_derived [OF driver b other own]
  have g: "pa_custody g = custody" "pa_auto_send g = auto" "pa_scope g = custody_scope_new ix custody (pa_hot_wallet g0)"
    using gate_new_covers [OF gate(1)] gate(2) by (simp_all add: same_gate_def)
  let ?out = "tr_amount request + tr_fee request"
  obtain d where d: "derive_spend drv (tp_coin_spends plan) custody = Ok d"
    and a: "approved a = \<lparr>az_coin_spends = tp_coin_spends plan, az_summary = ds_summary d, az_scope = pa_scope g\<rparr>"
    and ruling: "fst (authorize_op drv clk (tp_coin_spends plan) op g) = Ok (Approved a) \<or>
       provider \<lparr>rq_account = acc, rq_profile = shown_ix, rq_summary = ds_summary d\<rparr> = Ok Approve"
    using obtained_spends [OF got] by (auto simp: g)
  have d_is: "d = \<lparr>ds_summary = payment_summary drv (classify custody ?out) request, ds_native_total = ?out\<rparr>"
    using d derived(3) [where policy = custody] by simp
  let ?sent = "\<exists>now ledger. clk 0 = Ok now \<and> ledger = charged_ledger auto (pa_recent g) now ?out \<and>
      pa_recent (snd (authorize_op drv clk (tp_coin_spends plan) op g)) = ledger \<and>
      within_auto_send auto custody op ?out ledger"
  have ?sent if "fst (authorize_op drv clk (tp_coin_spends plan) op g) = Ok (Approved a)"
  proof -
    have auth: "authorize_op drv clk (tp_coin_spends plan) op g =
        (Ok (Approved a), snd (authorize_op drv clk (tp_coin_spends plan) op g))"
      using that by (simp add: prod_eq_iff)
    have "auto_sendable g op d" by (rule approved_is_auto_sendable [OF auth]) (simp add: d g)
    moreover obtain now where "clk 0 = Ok now"
      "pa_recent (snd (authorize_op drv clk (tp_coin_spends plan) op g)) =
         charged_ledger auto (pa_recent g) now (ds_native_total d)"
      "sum_list (map (unat \<circ> rec_mojos) (pa_recent (snd (authorize_op drv clk (tp_coin_spends plan) op g))))
         \<le> unat (period_cap_mojos auto)"
      using approved_is_charged [OF auth, of d] d by (auto simp: g)
    ultimately show ?thesis
      by (simp add: auto_sendable_def within_auto_send_def g d_is payment_summary_def classify_AutoSend
          split: option.splits)
  qed
  then have "?sent \<or>
      provider \<lparr>rq_account = acc, rq_profile = shown_ix,
         rq_summary = payment_summary drv (classify custody ?out) request\<rparr> = Ok Approve"
    using ruling by (auto simp: d_is)
  moreover have "mset (map (cid \<circ> spent_coin) (tp_coin_spends plan)) = mset (tp_source_coin_ids plan)"
    using arg_cong [OF derived(2), of "image_mset cid"] by (simp add: derived(4) multiset.map_comp)
  moreover note signed_spends [OF signed, unfolded a, simplified]
  ultimately show ?thesis
    using funded held j derived(1,4) g(3) by (auto simp: custody_scope_new_def)
qed

section \<open>A concrete payment\<close>

definition paying_inputs :: "(coin \<times> condition list) list" where
  "paying_inputs =
     transfer_inputs sample_builder parent_coin_info sample_wallet sample_selected sample_payment [] 0"

definition paying_builder :: spend_builder where
  "paying_builder = sample_builder\<lparr>standard_spend := (\<lambda>pk c conds.
     if (c, conds) \<in> set paying_inputs then Ok \<lparr>spent_coin = c, puzzle_reveal = pk, solution = []\<rparr>
     else Err ''no such spend'')\<rparr>"

definition paying_spends :: "coin_spend list" where
  "paying_spends = map (\<lambda>(c, conds). \<lparr>spent_coin = c, puzzle_reveal = [7], solution = []\<rparr>) paying_inputs"

definition paying_driver :: "unit spend_driver" where
  "paying_driver = (reading_driver paying_spends (standard_effect paying_inputs))
     \<lparr>decode_address := (\<lambda>_. Ok (9, ''xch''))\<rparr>"

definition paying_plan :: transfer_plan where
  "paying_plan = plan_of parent_coin_info sample_selected sample_payment 0 paying_spends
     (Some (ReservationId 1))"

lemma paying_inputs_two:
  "\<exists>a b. paying_inputs = [(rec_coin (sample_record 1 5 (Some 3)), a), (rec_coin (sample_record 3 7 (Some 4)), b)]"
  by (simp add: paying_inputs_def transfer_inputs_def)

lemma only_preimage:
  assumes keys: "distinct (map fst P)" and mk: "\<And>c. spent_coin (mk c) = c"
    and ins: "map (\<lambda>(c, conds). if (c, conds) \<in> set P then Ok (mk c) else Err e) ins =
      map Ok (map (\<lambda>(c, conds). mk c) P)"
  shows "ins = P"
proof (rule nth_equalityI)
  show len: "length ins = length P" using arg_cong [OF ins, of length] by (simp only: length_map)
  fix k
  assume k: "k < length ins"
  obtain c conds where x: "ins ! k = (c, conds)" by fastforce
  obtain c' conds' where y: "P ! k = (c', conds')" by fastforce
  have "map (\<lambda>(c, conds). if (c, conds) \<in> set P then Ok (mk c) else Err e) ins ! k =
      map Ok (map (\<lambda>(c, conds). mk c) P) ! k" by (simp only: ins)
  then have mem: "(c, conds) \<in> set P" and eq: "mk c = mk c'"
    using k len x y by (auto split: if_splits)
  have c: "c = c'" using arg_cong [OF eq, of spent_coin] by (simp only: mk)
  with mem have "(c', conds) \<in> set P" by simp
  moreover have "(c', conds') \<in> set P" using k len y by (metis nth_mem)
  ultimately have "conds = conds'" by (rule eq_key_imp_eq_value [OF keys])
  then show "ins ! k = P ! k" by (simp only: x y c)
qed

lemma paying_reads_back: "reads_back paying_builder paying_driver sample_wallet paying_spends"
proof -
  obtain a b where two: "paying_inputs =
      [(rec_coin (sample_record 1 5 (Some 3)), a), (rec_coin (sample_record 3 7 (Some 4)), b)]"
    using paying_inputs_two by blast
  have "distinct (map fst paying_inputs)" unfolding two by (simp add: sample_record_def)
  from only_preimage [OF this, of "\<lambda>c. \<lparr>spent_coin = c, puzzle_reveal = [7], solution = []\<rparr>"]
  have "ins = paying_inputs"
    if "map (\<lambda>(c, conds). standard_spend paying_builder (wk_public_key sample_wallet) c conds) ins =
        map Ok paying_spends" for ins
    using that by (simp add: paying_spends_def paying_builder_def sample_wallet_def)
  then show ?thesis by (auto simp: reads_back_def paying_driver_def reading_driver_def)
qed

lemma paying_standard: "spends_standard paying_builder paying_driver sample_wallet"
  by (auto simp: spends_standard_def paying_builder_def paying_driver_def reading_driver_def
      sample_wallet_def split: if_splits)

lemma paying_built:
  "build_transfer_spends paying_builder parent_coin_info sample_wallet sample_selected sample_payment None =
     Ok (paying_plan\<lparr>tp_reservation := None\<rparr>)"
proof -
  have "transfer_inputs paying_builder parent_coin_info sample_wallet sample_selected sample_payment [] 0 =
      paying_inputs"
    by (simp add: paying_inputs_def transfer_inputs_def paying_builder_def)
  moreover have "map (\<lambda>(c, conds). standard_spend paying_builder (wk_public_key sample_wallet) c conds)
      paying_inputs = map Ok paying_spends"
    by (auto simp: paying_builder_def paying_spends_def sample_wallet_def)
  ultimately show ?thesis
    unfolding build_transfer_spends_Ok
    by (intro conjI exI [of _ 0] exI [of _ "[]"] exI [of _ paying_spends])
       (simp_all add: paying_plan_def plan_of_def paying_builder_def sample_builder_def sample_payment_def
         sample_record_def with_fee_def transfer_request_new_def from_derived_def)
qed

lemma paying_reserved:
  "\<exists>s'. build_transfer paying_builder parent_coin_info sample_wallet (sample_chain sample_listing) hot800
     sample_payment sample_reservations (\<lambda>k. fold local_call []) 0
     (reservation_session [CallReserve [2] 99 399]) = (Ok paying_plan, 3, s')"
proof -
  obtain s' where "select_and_reserve sample_reservations (\<lambda>k. fold local_call [])
      MAX_RESERVATION_ATTEMPTS (select_ids parent_coin_info (sample_chain sample_listing) 9 12)
      ReservationUnusable 0 (reservation_session [CallReserve [2] 99 399]) =
      (Ok (sample_selected, ReservationId 1), 3, s')"
    using sample_selection_reserved [of "\<lambda>k. fold local_call []"] by auto
  then show ?thesis
    using paying_built
    by (simp add: build_transfer_def sample_request_simps held_commit_def paying_plan_def plan_of_def)
qed

definition paying_gate :: policy_authorizer where
  "paying_gate = (sample_gate hot800)\<lparr>pa_recent := []\<rparr>"

lemma paying_gate_new:
  "policy_authorizer_new paying_driver (ProfileIx 0) hot800 sample_policy ''xch1nine'' = Ok paying_gate"
  by (simp add: policy_authorizer_new_def paying_driver_def paying_gate_def sample_gate_def)

lemma paying_derived:
  "derive_spend paying_driver paying_spends hot800 =
     Ok \<lparr>ds_summary = payment_summary paying_driver AutoSend sample_payment, ds_native_total = 12\<rparr>"
proof -
  have plan: "tp_coin_spends paying_plan = paying_spends" by (simp add: paying_plan_def plan_of_def)
  have "recipient_of sample_payment \<noteq> wk_puzzle_hash sample_wallet" by (simp add: sample_request_simps)
  moreover have "\<forall>c\<in>set sample_selected. puzzle_hash c = wk_puzzle_hash sample_wallet"
    by (simp add: sample_record_def sample_wallet_def)
  moreover have "tr_amount sample_payment + tr_fee sample_payment = 12"
    by (simp add: sample_payment_def with_fee_def transfer_request_new_def)
  ultimately show ?thesis
    using built_payment_derived(3) [OF paying_standard _ paying_built, unfolded plan,
        OF paying_reads_back, of hot800] by simp
qed

lemma paying_approved:
  "fst (authorize_op paying_driver (\<lambda>_. Ok 100) paying_spends Tip paying_gate) =
     Ok (Approved (approval_new paying_spends (payment_summary paying_driver AutoSend sample_payment)
       (custody_scope_new (ProfileIx 0) hot800 9)))"
proof -
  have c: "charge_the_rolling_period_cap (\<lambda>_. Ok 100) 0 12 paying_gate =
      (Ok Charged, paying_gate\<lparr>pa_recent := [\<lparr>at_unix = 100, rec_mojos = 12\<rparr>]\<rparr>)"
    by (simp add: charge_the_rolling_period_cap_def paying_gate_def sample_gate_def sample_policy_def
          charge_ledger_def Let_def MAX_LEDGER_ENTRIES_def)
  have g: "pa_custody paying_gate = hot800" "pa_auto_send paying_gate = sample_policy"
    "pa_scope paying_gate = custody_scope_new (ProfileIx 0) hot800 9"
    by (simp_all add: paying_gate_def sample_gate_def)
  have t: "sm_tier (payment_summary paying_driver AutoSend sample_payment) = AutoSend"
    "reject_amounts_no_mojo_limit_can_bound (payment_summary paying_driver AutoSend sample_payment) = Ok ()"
    by (simp_all add: payment_summary_def address_line_def to_address_def reject_amounts_no_mojo_limit_can_bound_def
        List.map_filter_def split: result.split)
  show ?thesis
    unfolding authorize_op_def g(1) paying_derived
    by (simp add: t rule_on_auto_send_def g(2) c)
       (simp add: g sample_policy_def enabled_up_to_def)
qed

theorem signed_payment_is_the_requested_one_witness:
  "\<exists>out. checked_add (tr_amount sample_payment) (tr_fee sample_payment) = Some out \<and>
     within_auto_send sample_policy hot800 Tip out (charged_ledger sample_policy [] 100 out)"
proof -
  let ?a = "approval_new paying_spends (payment_summary paying_driver AutoSend sample_payment)
      (custody_scope_new (ProfileIx 0) hot800 9)"
  have plan: "tp_coin_spends paying_plan = paying_spends" by (simp add: paying_plan_def plan_of_def)
  obtain s' where b: "build_transfer paying_builder parent_coin_info sample_wallet (sample_chain sample_listing)
      hot800 sample_payment sample_reservations (\<lambda>k. fold local_call []) 0
      (reservation_session [CallReserve [2] 99 399]) = (Ok paying_plan, 3, s')"
    using paying_reserved by blast
  have rv: "rv_store sample_reservations = local_store"
    by (simp add: sample_reservations_def reservations_new_def)
  have got: "obtained paying_driver (\<lambda>_. Ok 100) paying_spends Tip paying_gate
      (\<lambda>_. Err Locked) (AccountId ''a'') (ProfileIx 0) ?a"
    by (simp add: obtained_def paying_approved)
  have signed: "sign_approved sample_core 5 residency_new \<lparr>ms_profile = ProfileIx 0\<rparr> ?a =
      Ok (paying_spends, ''sig'')"
    by (simp add: sign_approved_def live_signer_def residency_is_live_def residency_new_def
          sample_core_def assert_signable_by_def custody_scope_new_def approval_new_def)
  show ?thesis
    using signed_payment_is_the_requested_one [OF b rv paying_standard _ paying_gate_new same_gate_refl,
        unfolded plan, OF paying_reads_back got signed]
    by (auto simp: paying_gate_def)
qed

end
