(* ===== verification/Session_Properties.thy ===== *)
theory Session_Properties
  imports Gate_Properties Account_Handles
begin

text \<open>
  An unlock and what is signed under it: the gate of \<open>src/auth/policy.rs\<close>, the handles it gives
  out (\<open>src/unlocked.rs\<close>, \<open>src/wallet/authorizer.rs\<close>) and the money signer made from one
  (\<open>src/wallet/money_signer.rs\<close>), over anything that can happen to the gate in between.
\<close>

section \<open>Where a held unlock comes from\<close>

lemma gate_steps_trans:
  "gate_steps kc auths t1 g1 t2 g2 \<Longrightarrow> gate_steps kc auths t g t1 g1 \<Longrightarrow> gate_steps kc auths t g t2 g2"
  by (induction rule: gate_steps.induct) (auto intro: gate_steps.More)

text \<open>A step keeps what is held, drops it, or is an unlock that opened.\<close>

lemma gate_step_held:
  assumes "gate_step kc auths t g t' g'"
  obtains (kept) "length (ug_tokens g') = length (ug_tokens g)"
      "ug_live g' = None \<or> ug_live g' = ug_live g" "ug_account g' = ug_account g" "t \<le> t'"
  | (opened) authorize factors h where "authorize \<in> auths" "t \<le> t'"
      "gate_unlock kc authorize t' factors g = Returns (Ok h) g'"
      "length (ug_tokens g') = Suc (length (ug_tokens g))"
      "ug_live g' = Some (ua_seed h, length (ug_tokens g))" "ua_token h = length (ug_tokens g)"
      "ug_account g' = ug_account g"
  using assms
proof (cases rule: gate_step.cases)
  case (Unlock authorize factors)
  show ?thesis
  proof (cases rule: gate_unlock_cases [of kc authorize t' factors g])
    case (refused p)
    then show ?thesis using kept Unlock by simp
  next
    case (opened p seed)
    note handle = that(2) [of authorize factors "\<lparr>ua_account = ug_account g, ua_seed = seed,
        ua_default_ix = ug_default_ix g, ua_token = length (ug_tokens g)\<rparr>"]
    show ?thesis using opened Unlock by (intro handle) simp_all
  qed
next
  case (Access now0 now1)
  then have "length (ug_tokens g') = length (ug_tokens g)" "ug_live g' = None \<or> ug_live g' = ug_live g"
    "ug_account g' = ug_account g"
    by (auto simp: gate_access_def end_unlock_def revoke_token_def split: option.splits)
  then show ?thesis using kept Access by auto
next
  case Lock
  then show ?thesis using kept by (auto simp: gate_lock_def end_unlock_def revoke_token_def split: option.splits)
next
  case (Handle h)
  then show ?thesis using kept by (simp add: handle_lock_def revoke_token_def)
next
  case (Elsewhere b)
  then show ?thesis using kept by simp
qed

lemma gate_steps_frame:
  assumes "gate_steps kc auths t g t' g'"
  shows "length (ug_tokens g) \<le> length (ug_tokens g') \<and> ug_account g' = ug_account g \<and> t \<le> t' \<and>
    (\<forall>s i. ug_live g' = Some (s, i) \<longrightarrow> i < length (ug_tokens g) \<longrightarrow> ug_live g = Some (s, i))"
  using assms
proof (induction rule: gate_steps.induct)
  case Stay
  then show ?case by simp
next
  case (More t1 g1 t2 g2)
  from More.hyps(2) show ?case
    by (cases rule: gate_step_held) (use More.IH in auto)
qed

text \<open>The attempt that opened an unlock, and what followed it.\<close>

definition opened_by ::
  "('b, 's) keychain \<Rightarrow> 'p authorize set \<Rightarrow> nat \<Rightarrow> ('p, 'b, 's) unlock_gate \<Rightarrow> nat \<Rightarrow> ('p, 'b, 's) unlock_gate \<Rightarrow>
     's \<times> nat \<Rightarrow> 'p authorize \<Rightarrow> auth_factors \<Rightarrow> ('p, 'b, 's) unlock_gate \<Rightarrow> bool"
where
  "opened_by kc auths t0 start t g live authorize factors before \<longleftrightarrow>
     (\<exists>t1 now h after. gate_steps kc auths t0 start t1 before \<and> t1 \<le> now \<and> authorize \<in> auths \<and>
        gate_unlock kc authorize now factors before = Returns (Ok h) after \<and>
        live = (ua_seed h, ua_token h) \<and> gate_steps kc auths now after t g)"

lemma held_was_opened:
  assumes "gate_steps kc auths t0 start t g" and "ug_live start = None" and "ug_live g = Some live"
  shows "\<exists>authorize factors before. opened_by kc auths t0 start t g live authorize factors before"
  using assms
proof (induction arbitrary: live rule: gate_steps.induct)
  case Stay
  then show ?case by simp
next
  case (More t1 g1 t2 g2)
  from More.hyps(2) show ?case
  proof (cases rule: gate_step_held)
    case kept
    then have "ug_live g1 = Some live" using More.prems(2) by simp
    then obtain authorize factors before where
      "opened_by kc auths t0 start t1 g1 live authorize factors before"
      using More.IH [OF More.prems(1)] by blast
    then show ?thesis using gate_steps.More [OF _ More.hyps(2)] unfolding opened_by_def by blast
  next
    case (opened authorize factors h)
    then have "live = (ua_seed h, ua_token h)" using More.prems(2) by simp
    then show ?thesis
      using opened More.hyps(1) gate_steps.Stay [of kc auths t2 g2] unfolding opened_by_def by blast
  qed
qed

lemma opened_by_later:
  "opened_by kc auths t0 start t g live authorize factors before \<Longrightarrow> gate_steps kc auths t g t' g' \<Longrightarrow>
     opened_by kc auths t0 start t' g' live authorize factors before"
  using gate_steps_trans unfolding opened_by_def by blast

text \<open>Every handle a gate gives out is of the unlock it holds at that moment.\<close>

lemma given_out:
  "gate_unlock kc authorize now factors g = Returns (Ok h) g' \<Longrightarrow>
     \<exists>live. ug_live g' = Some live \<and> h = account_handle g' live"
  "gate_access now0 now1 now2 g = (Some h, g') \<Longrightarrow> \<exists>live. ug_live g' = Some live \<and> h = account_handle g' live"
proof -
  show "\<exists>live. ug_live g' = Some live \<and> h = account_handle g' live"
    if "gate_unlock kc authorize now factors g = Returns (Ok h) g'"
    using that by (cases rule: gate_unlock_cases [of kc authorize now factors g])
      (auto simp: account_handle_def)
  show "\<exists>live. ug_live g' = Some live \<and> h = account_handle g' live"
    if "gate_access now0 now1 now2 g = (Some h, g')"
    using that by (auto simp: gate_access_def account_handle_def split: if_splits option.splits)
qed

section \<open>What a signature took\<close>

text \<open>C3: A signature takes every factor and the password. Whatever happens to a gate under \<open>AllOf\<close>,
  when a bundle is signed by a money signer made from a handle the gate gave out at any time, the gate
  still holds the unlock the handle is of; that unlock was opened by an attempt at which every enrolled
  factor passed and the password opened the account's blob to the very seed the signer signs with; and the
  approval was scoped to the signer's profile and, if it names a wallet, to the wallet that seed derives.\<close>

theorem signature_takes_every_factor:
  assumes given: "gate_steps kc (all_of_rulings checks) t0 (gate_new account ix store policy timeout) t1 g1"
      "ug_live g1 = Some live"
    and since: "gate_steps kc (all_of_rulings checks) t1 g1 t g" "t \<le> now"
    and signed: "money_sign_approved sf vc now (ug_tokens g)
        (wallet_ops_money_signer (handle_wallet_ops_at (account_handle g1 live) p) network) a = Ok bundle"
  shows "ug_live g = Some live \<and>
    scope_profile (az_scope (approved a)) = p \<and>
    (\<forall>w. spending_wallet (az_scope (approved a)) = Some w \<longrightarrow>
       w = wk_puzzle_hash (sf_wallet_key sf (sf_master_seed sf (fst live)) p)) \<and>
    (\<exists>env factors before fs.
       fe_hotp env = fe_hotp checks \<and> fe_webauthn env = fe_webauthn checks \<and>
       opened_by kc (all_of_rulings checks) t0 (gate_new account ix store policy timeout) t g live
         (all_of_authorize env) factors before \<and>
       list_all2 (factor_passes env factors) (ug_policy before) fs \<and>
       store_unlock kc (ug_store before) account (af_password factors) = Ok (fst live))"
proof -
  let ?auths = "all_of_rulings checks" and ?start = "gate_new account ix store policy timeout"
  obtain seed i where live: "live = (seed, i)" by fastforce
  have i: "i < length (ug_tokens g1)"
    using gate_steps_ok [OF given(1) gate_new_ok] given(2) live by (auto simp: gate_ok_def gate_holds_def)
  note frame = gate_steps_frame [OF since(1)]
  have ok: "gate_ok t g" using gate_steps_ok [OF gate_steps_trans [OF since(1) given(1)] gate_new_ok] .
  obtain k rs reviewed where sig: "residency_is_live now (ug_tokens g ! i)"
    "assert_signable_by (az_scope (approved a)) p
       (wk_puzzle_hash (sf_wallet_key sf (sf_master_seed sf seed) p)) = Ok ()"
    using money_sign_approved_Ok [OF signed]
    by (auto simp: wallet_ops_money_signer_def handle_wallet_ops_at_def wallet_ops_new_def
        new_canonical_def account_handle_def live)
  have "token_live now g i" using sig(1) i frame by (simp add: token_live_def)
  then have "token_live t g i" using since(2) by (rule token_live_later)
  then obtain s where "ug_live g = Some (s, i)" using ok by (auto simp: gate_ok_def gate_holds_def)
  then have held: "ug_live g = Some live" using frame i given(2) live by fastforce
  obtain authorize factors before where
    by1: "opened_by kc ?auths t0 ?start t1 g1 live authorize factors before"
    using held_was_opened [OF given(1) _ given(2)] by (auto simp: gate_new_def)
  note by2 = opened_by_later [OF by1 since(1)]
  then obtain t2 now2 h after where un: "authorize \<in> ?auths" "gate_steps kc ?auths t0 ?start t2 before"
    "gate_unlock kc authorize now2 factors before = Returns (Ok h) after" "live = (ua_seed h, ua_token h)"
    unfolding opened_by_def by blast
  then obtain env where env: "authorize = all_of_authorize env"
    and checks: "fe_hotp env = fe_hotp checks" "fe_webauthn env = fe_webauthn checks"
    by (auto simp: all_of_rulings_def)
  have account: "ug_account before = account"
    using gate_steps_frame [OF un(2)] by (simp add: gate_new_def)
  have "\<exists>fs. list_all2 (factor_passes env factors) (ug_policy before) fs \<and>
      store_unlock kc (ug_store before) account (af_password factors) = Ok (fst live)"
  proof (cases rule: gate_unlock_cases [of kc authorize now2 factors before])
    case (refused p)
    then show ?thesis using un(3) by blast
  next
    case (opened p s)
    then show ?thesis using un(3,4) all_of_passes [of env factors "ug_policy before" p]
      by (auto simp: env account)
  qed
  then show ?thesis
    using held by2 sig(2) checks unfolding env by (auto simp: assert_signable_by_Ok live)
qed

section \<open>A concrete session\<close>

definition sample_seed_functions :: "byte list seed_functions" where
  "sample_seed_functions =
     \<lparr>sf_master_seed = id, sf_public_key = (\<lambda>s i. s), sf_sign = (\<lambda>s i m. s @ m),
      sf_symmetric_key = (\<lambda>s i l. 0), sf_recovery_phrase = (\<lambda>s. ''words''),
      sf_wallet_key = (\<lambda>s ix. \<lparr>wk_public_key = s, wk_puzzle_hash = 9\<rparr>), sf_x25519_public = id,
      sf_dek_label = ''dek'', sf_sealing_label = ''seal''\<rparr>"

definition sample_vetted_core :: "(byte list, unit, string, unit) vetted_core" where
  "sample_vetted_core =
     \<lparr>vc_build = (\<lambda>i s n. Ok s), vc_extra = (\<lambda>k. 0), vc_extract = (\<lambda>ss x. Ok []), vc_message = (\<lambda>b. []),
      vc_reviewable = (\<lambda>k ss. Ok ()), vc_sign = (\<lambda>k ss r u. Ok (ss, ''sig''))\<rparr>"

abbreviation opened_sample :: "(unit second_factor list, sample_blobs, 8 word list) unlock_gate" where
  "opened_sample \<equiv> Gate_Properties.sample_gate\<lparr>ug_live := Some ([7], 0), ug_tokens := [idle_bounded 100 60]\<rparr>"

lemma sample_session_signs:
  "money_sign_approved sample_seed_functions sample_vetted_core 120 (ug_tokens opened_sample)
     (wallet_ops_money_signer (handle_wallet_ops_at (account_handle opened_sample ([7], 0)) (ProfileIx 0)) ())
     (approval_new [sample_spend] (sample_summary AutoSend) (custody_scope_new (ProfileIx 0) hot800 9)) =
   Ok ([sample_spend], ''sig'')"
  by (simp add: money_sign_approved_def sign_approved_def live_signer_def residency_is_live_def idle_bounded_def has_lapsed_def
      local_signing_core_def wallet_ops_money_signer_def handle_wallet_ops_at_def wallet_ops_new_def
      new_canonical_def account_handle_def assert_signable_by_def custody_scope_new_def approval_new_def
      money_required_signatures_def money_sign_unsigned_def sample_seed_functions_def sample_vetted_core_def
      result_simps)

theorem signature_takes_every_factor_witness:
  "\<exists>(factors :: auth_factors) (before :: (unit second_factor list, sample_blobs, byte list) unlock_gate).
     store_unlock sample_keychain (ug_store before) (AccountId ''a'') (af_password factors) = Ok [7]"
proof -
  have "ug_live opened_sample = Some ([7], 0)" by simp
  from signature_takes_every_factor [OF sample_gate_reached this gate_steps.Stay _ sample_session_signs]
  show ?thesis by auto
qed

end
