(* ===== verification/Spec2Isabelle.thy ===== *)
theory Spec2Isabelle
  imports Account_Model Custody_Gate Transfer_Outcome Transfer_Summary Cat_Properties Vault_Move Mint_Ceremony
    Editing_Properties Melting_Properties Resolution_Properties Push_Answer Gate_Properties Distributor_Properties
    Account_Handles
    Gate_Interleaving Payment_Properties Session_Properties
begin

text \<open>
  A verification library of \<open>dig-account\<close>, the custody crate of the DIG applications: one
  account is one sealed seed, unlocked for a while, from which every profile's identity, wallet and
  on-chain singletons are derived. Paths below are under \<open>src/src/\<close>.

  \<^bold>\<open>The program.\<close> A host enrols a seed (\<open>store.rs\<close>) and opens it through a gate that
  demands every enrolled factor (\<open>auth/\<close>, \<open>session.rs\<close>). The open account
  (\<open>unlocked.rs\<close>) gives out handles that share one liveness token
  (\<open>session_residency.rs\<close>). Money moves in two steps: a builder selects, reserves and composes
  coin spends (\<open>wallet/transfer.rs\<close>, \<open>wallet/cat_transfer.rs\<close>,
  \<open>wallet/vault_move.rs\<close>, \<open>wallet/reservation.rs\<close>), and the gate
  (\<open>wallet/enforcer.rs\<close>) derives a summary from those very spends (\<open>wallet/summary.rs\<close>),
  rules on it or asks the user, and mints the one approval a money signer accepts
  (\<open>wallet/approval.rs\<close>, \<open>wallet/money_signer.rs\<close>). A profile is a DID and a data store on
  chain: minted in two pushed bundles over a journal (\<open>mint/\<close>, \<open>registry/\<close>), edited
  (\<open>edit/\<close>), deleted (\<open>melt/\<close>), found again from its DID (\<open>profile_resolve.rs\<close>).
  Reward distributors are launched, resumed, refilled and clawed back
  (\<open>mint/reward_distributor*.rs\<close>, \<open>reward_distributor_mint.rs\<close>). Every answer about the chain
  is the testimony of a source the crate does not trust to be consistent.

  \<^bold>\<open>How it is modelled.\<close> Integers keep their width (\<open>u32\<close> and \<open>u64\<close> are words, with
  \<open>checked\<close> and \<open>saturating\<close> operations written out in \<open>Account_Prelude\<close>); 32-byte
  strings are 256-bit words; a fallible call returns \<open>result\<close>, a call that may panic returns
  \<open>run\<close>, with the state it leaves. A chain source is a record of functions of the number of reads
  made so far, so no two answers need agree, and every definition that reads threads that number. A
  publisher sees the bundle and the host's state at the moment it is called and leaves a new one. Tokens
  shared by reference live in a list, and a handle holds a position; a call that checks liveness more
  than once reads it anew each time. Shared stores are threaded through an environment step wherever
  another thread may act between two operations. Code outside the repository is a record of functions:
  the coin id, the spend drivers, CLVM, BLS, key derivation, JSON, HTTP, the keychain. Laws are assumed of
  such a record only where they are named as hypotheses of the lemma that uses them, and every property
  that has hypotheses is applied to a concrete instance in its witness.

  \<^bold>\<open>Theories.\<close>
  \<^item> \<open>Account_Prelude\<close>, \<open>Account_Types\<close>: machine integers, results, vectors, ids, errors
    (\<open>id.rs\<close>, \<open>error.rs\<close>).
  \<^item> \<open>Chain_Evidence\<close>: by-name confirmation (\<open>chain_confirm.rs\<close>), the evidence types of
    \<open>mint/evidence.rs\<close> and \<open>mint/store_evidence.rs\<close>, and \<open>buried_evidence\<close>, the contract
    all evidence constructors meet, interpreted on each of them here and in \<open>Distributor_Evidence\<close>.
  \<^item> \<open>Profile_Registry\<close>, \<open>Registry_Invariants\<close>, \<open>Registry_Sessions\<close>,
    \<open>Registry_Properties\<close>: \<open>registry/*.rs\<close> over its sorted vectors; the well-formedness and the
    abstract specification every mutator keeps on honest stages, what each does with a stage or evidence
    that is not what it claims, exactly which calls panic, what any session leaves, and what a file that
    loads is.
  \<^item> \<open>Account_Model\<close>: \<open>model.rs\<close> and the re-verification of anchors
    (\<open>registry/verify.rs\<close>).
  \<^item> \<open>Custody_Policy\<close>, \<open>Spend_Summary\<close>, \<open>Rolling_Window\<close>, \<open>Custody_Gate\<close>:
    \<open>wallet/policy.rs\<close>, \<open>autosend.rs\<close>, \<open>summary.rs\<close>, \<open>enforcer.rs\<close>,
    \<open>approval.rs\<close>, \<open>money_signer.rs\<close>, \<open>auth/provider.rs\<close>. The ledgers are proved bounded
    over every window of a gate's life, one call after another, as inductions over its requests.
  \<^item> \<open>Gate_Interleaving\<close>: the same gate called by several threads at once, as a state machine per call
    with the points at which another call can act; run alone it is \<open>authorize_op\<close>, and interleaved its
    ledgers are bounded up to the delay between a clock reading and the lock it is used under.
  \<^item> \<open>Coin_Reservation\<close>, \<open>Input_Selection\<close>, \<open>Xch_Transfer\<close>, \<open>Transfer_Properties\<close>,
    \<open>Transfer_Outcome\<close>, \<open>Transfer_Summary\<close>, \<open>Cat_Transfer\<close>, \<open>Cat_Properties\<close>,
    \<open>Vault_Move\<close>: the builders. \<open>Transfer_Summary\<close> composes a built transfer with the gate.
  \<^item> \<open>Session_Residency\<close>, \<open>Spend_Signing\<close>: the liveness token; the signing domain, the
    push, and \<open>signing_gate\<close>, the contract of the gates of the mint, the store launch, the edit and the
    deletion, interpreted on each.
  \<^item> \<open>Did_Mint\<close>, \<open>Mint_Properties\<close>, \<open>Profile_Content\<close>, \<open>Store_Launch\<close>,
    \<open>Profile_Mint\<close>, \<open>Mint_Ceremony\<close>: \<open>mint/did.rs\<close>, \<open>error.rs\<close>,
    \<open>seed.rs\<close>, \<open>store_launch.rs\<close>, \<open>profile.rs\<close>, \<open>edit/slot.rs\<close>,
    \<open>fields.rs\<close>, \<open>batch.rs\<close>; the ceremony is followed over any sequence of host calls.
  \<^item> \<open>Profile_Editing\<close>, \<open>Editing_Properties\<close>, \<open>Profile_Melting\<close>,
    \<open>Melting_Properties\<close>, \<open>Profile_Resolution\<close>, \<open>Resolution_Properties\<close>:
    \<open>edit/\<close>, \<open>melt/\<close>, \<open>profile_resolve.rs\<close>. An edit is followed to the bundle that
    publishes it, and two sessions' edits of one profile to the one that is lost.
  \<^item> \<open>Push_Answer\<close>: the request and the reading of the answer in \<open>mint/coinset_push.rs\<close>.
  \<^item> \<open>Account_Store\<close>, \<open>Second_Factors\<close>, \<open>Factor_Properties\<close>, \<open>Unlock_Gate\<close>,
    \<open>Gate_Properties\<close>: \<open>store.rs\<close>, \<open>auth/second_factors/\<close>, \<open>auth/policy.rs\<close>,
    \<open>session.rs\<close>; the gate as a step relation with reachability.
  \<^item> \<open>Distributor_Evidence\<close>, \<open>Distributor_Resume\<close>, \<open>Resume_Properties\<close>: the pending
    distributor, its status, and the one door back from a persisted record.
  \<^item> \<open>Distributor_Launch\<close>, \<open>Distributor_Reserve\<close>, \<open>Distributor_Properties\<close>: launch,
    refill and clawback, with \<open>root_gate\<close>, the contract of their root checks, interpreted on each.
  \<^item> \<open>Account_Handles\<close>: \<open>signer.rs\<close>, \<open>wallet/authorizer.rs\<close>, the rest of
    \<open>wallet/money_signer.rs\<close>, \<open>keys/\<close>, \<open>wallet/clock.rs\<close> and the accessors of
    \<open>unlocked.rs\<close>, with what a lock ends.
  \<^item> \<open>Payment_Properties\<close>, \<open>Session_Properties\<close>: the components composed. A payment followed from the
    chain reads through selection, reservation, summary, ruling and consent to the signature; and a
    signature followed back through the handle that made it to the attempt that opened the unlock.

  \<^bold>\<open>What is shown.\<close> Custody: a signature exists only for spends the gate ruled on, under its
  limits, for that wallet. Building: inputs are chosen by the stated rule, confirmed by name, held
  exclusively, and value is conserved; from end to end, a signed payment is the requested one, shown to
  the human or charged within every limit, and a signature takes an unlock that took every factor and the
  password. Outcomes: no status is reported but on the evidence it names, and no retry is offered but on
  proof of death. On chain: what is signed for a profile or a distributor spends exactly the named coins.
  Lifecycle: a registry session that runs to its end keeps every invariant but the one
  \<open>advance_mint\<close> lets its caller break, a store is launched at most once, a relock is final. Where
  the code departs from its documentation, the departure is a theorem.

  \<^bold>\<open>Bounds.\<close> The constants are the code's: 6 blocks of burial, 16 attempts to reserve a selection,
  12 inputs to a transfer, 208 reads to build one, a rolling window of the configured period and a day for
  the class default, at most 8 store launches followed per DID with 18 reads and the reads of its lineage.
  The loops over listings, requirements and lineages are structural; the walk of a lineage takes the
  lineage's reported length as its fuel, as the code does, and running out is the code's own error. The
  retry of a reservation takes its attempts as fuel likewise. No model needs fuel of its own.

  \<^bold>\<open>Not modelled.\<close> Text encodings done by \<open>serde\<close> (JSON of the registry, the policy and
  the records); rendered error messages, which are values that hold what the message states; the blocking
  HTTP transport; random generation of secrets and challenges, whose values are arguments; zeroization
  and the memory of keys; module declarations; fixtures and scanners compiled for tests only.
\<close>

end
